(* ===== verification/Prelude.thy ===== *)
theory Prelude
  imports Complex_Main "HOL-Library.Word" "HOL-Library.Multiset"
begin

text \<open>
  Shared vocabulary of the development: the Go library functions every component uses
  (instants and durations, ASCII strings, decimal conversion, rounding) and the generic
  facts about them. An instant is the number of nanoseconds since the Unix epoch as an
  unbounded integer; a duration is an integer number of nanoseconds, and the difference of
  two instants saturates at the 64-bit range exactly as \<open>time.Time.Sub\<close> does. A
  \<open>float64\<close> is a real number: the rounding of each single floating-point operation and the
  values NaN and infinity are not modelled. Strings are lists of bytes; the case and
  white-space functions are the ASCII ones.
\<close>

named_theorems go_defs \<open>definitions of the Go library functions\<close>
named_theorems handler_defs \<open>definitions of the operations and handlers of a component\<close>

section \<open>Instants and durations\<close>

type_synonym instant = int
type_synonym duration = int

abbreviation second :: duration where "second \<equiv> 1000000000"
abbreviation minute :: duration where "minute \<equiv> 60000000000"
abbreviation hour :: duration where "hour \<equiv> 3600000000000"

definition int64_min :: int where "int64_min = - (2 ^ 63)"
definition int64_max :: int where "int64_max = 2 ^ 63 - 1"

definition time_sub :: "instant \<Rightarrow> instant \<Rightarrow> duration" where
  "time_sub t u = max int64_min (min int64_max (t - u))"

definition zero_time :: instant where "zero_time = - 62135596800000000000"

definition hours :: "duration \<Rightarrow> real" where "hours d = of_int d / 3600000000000"

lemmas [go_defs] = int64_min_def int64_max_def time_sub_def zero_time_def hours_def

lemma time_sub_exact:
  "int64_min \<le> t - u \<Longrightarrow> t - u \<le> int64_max \<Longrightarrow> time_sub t u = t - u"
  by (simp add: time_sub_def)

lemma time_sub_ge_iff:
  "int64_min < d \<Longrightarrow> d \<le> int64_max \<Longrightarrow> d \<le> time_sub t u \<longleftrightarrow> d \<le> t - u"
  by (auto simp: time_sub_def)

lemma time_sub_gt_iff:
  "int64_min \<le> d \<Longrightarrow> d < int64_max \<Longrightarrow> d < time_sub t u \<longleftrightarrow> d < t - u"
  by (auto simp: time_sub_def)

section \<open>Rounding\<close>

text \<open>\<open>math.Round\<close> rounds half away from zero.\<close>

definition math_round :: "real \<Rightarrow> real" where
  "math_round x = (if x < 0 then - of_int \<lfloor>- x + 1 / 2\<rfloor> else of_int \<lfloor>x + 1 / 2\<rfloor>)"

definition round_places :: "real \<Rightarrow> nat \<Rightarrow> real" where
  "round_places v places = math_round (v * 10 ^ places) / 10 ^ places"

definition clamp01 :: "real \<Rightarrow> real" where
  "clamp01 v = (if v < 0 then 0 else if v > 1 then 1 else v)"

definition deref :: "real option \<Rightarrow> real" where
  "deref p = (case p of None \<Rightarrow> 0 | Some v \<Rightarrow> v)"

lemma math_round_of_int [simp]: "math_round (of_int k) = of_int k"
proof (cases "k < 0")
  case True
  have "\<lfloor>- real_of_int k + 1 / 2\<rfloor> = - k" by linarith
  with True show ?thesis by (simp add: math_round_def)
next
  case False
  have "\<lfloor>real_of_int k + 1 / 2\<rfloor> = k" by linarith
  with False show ?thesis by (simp add: math_round_def)
qed

lemma math_round_zero [simp]: "math_round 0 = 0"
  using math_round_of_int [of 0] by simp

lemma math_round_one [simp]: "math_round 1 = 1"
  using math_round_of_int [of 1] by simp

lemma math_round_numeral [simp]: "math_round (numeral n) = numeral n"
  using math_round_of_int [of "numeral n"] by simp

lemma math_round_mono: "x \<le> y \<Longrightarrow> math_round x \<le> math_round y"
proof -
  assume le: "x \<le> y"
  consider "y < 0" | "x < 0" "0 \<le> y" | "0 \<le> x" by linarith
  then show ?thesis
  proof cases
    case 1
    with le have "\<lfloor>- y + 1 / 2\<rfloor> \<le> \<lfloor>- x + 1 / 2\<rfloor>" by (intro floor_mono) simp
    with 1 le show ?thesis by (simp add: math_round_def)
  next
    case 2
    have "0 \<le> \<lfloor>- x + 1 / 2\<rfloor>" "0 \<le> \<lfloor>y + 1 / 2\<rfloor>"
      using 2 by (simp_all only: zero_le_floor)
    then have "- of_int \<lfloor>- x + 1 / 2\<rfloor> \<le> (of_int \<lfloor>y + 1 / 2\<rfloor> :: real)"
      by (metis neg_le_0_iff_le of_int_0_le_iff order_trans)
    moreover have "\<not> y < 0" using 2 by simp
    ultimately show ?thesis using 2(1) by (simp only: math_round_def if_True if_False)
  next
    case 3
    with le have "\<lfloor>x + 1 / 2\<rfloor> \<le> \<lfloor>y + 1 / 2\<rfloor>" by (intro floor_mono) simp
    with 3 le show ?thesis by (simp add: math_round_def)
  qed
qed

lemma math_round_dist: "\<bar>math_round x - x\<bar> \<le> 1 / 2"
proof (cases "x < 0")
  case True
  have "\<bar>- of_int \<lfloor>- x + 1 / 2\<rfloor> - x\<bar> \<le> 1 / 2" by linarith
  with True show ?thesis by (simp only: math_round_def if_True)
next
  case False
  have "\<bar>of_int \<lfloor>x + 1 / 2\<rfloor> - x\<bar> \<le> 1 / 2" by linarith
  with False show ?thesis by (simp only: math_round_def if_False)
qed

lemma round_places_mono: "x \<le> y \<Longrightarrow> round_places x p \<le> round_places y p"
  by (simp add: round_places_def divide_right_mono math_round_mono)

lemma round_places_of_int [simp]: "round_places (of_int k) p = of_int k"
proof -
  have "math_round (of_int (k * 10 ^ p)) = of_int (k * 10 ^ p)" by (rule math_round_of_int)
  then show ?thesis by (simp add: round_places_def)
qed

lemma round_places_zero [simp]: "round_places 0 p = 0"
  using round_places_of_int [of 0 p] by simp

lemma round_places_one [simp]: "round_places 1 p = 1"
  using round_places_of_int [of 1 p] by simp

lemma round_places_nonneg: "0 \<le> x \<Longrightarrow> 0 \<le> round_places x p"
  using round_places_mono [of 0 x p] by simp

lemma round_places_le_one: "x \<le> 1 \<Longrightarrow> round_places x p \<le> 1"
  using round_places_mono [of x 1 p] by simp

lemma round_places_dist: "\<bar>round_places x p - x\<bar> \<le> 1 / (2 * 10 ^ p)"
proof -
  have "\<bar>math_round (x * 10 ^ p) - x * 10 ^ p\<bar> / 10 ^ p \<le> (1 / 2) / 10 ^ p"
    by (rule divide_right_mono [OF math_round_dist]) simp
  moreover have "\<bar>math_round (x * 10 ^ p) - x * 10 ^ p\<bar> / 10 ^ p = \<bar>round_places x p - x\<bar>"
  proof -
    have "round_places x p - x = (math_round (x * 10 ^ p) - x * 10 ^ p) / 10 ^ p"
      by (simp add: round_places_def diff_divide_distrib)
    then show ?thesis by (simp add: abs_divide)
  qed
  ultimately show ?thesis by simp
qed

lemma clamp01_ge_0 [simp]: "0 \<le> clamp01 v"
  and clamp01_le_1 [simp]: "clamp01 v \<le> 1"
  by (simp_all add: clamp01_def)

lemma clamp01_id: "0 \<le> v \<Longrightarrow> v \<le> 1 \<Longrightarrow> clamp01 v = v"
  by (simp add: clamp01_def)

lemma clamp01_mono: "v \<le> w \<Longrightarrow> clamp01 v \<le> clamp01 w"
  by (simp add: clamp01_def)

lemma clamp01_idem [simp]: "clamp01 (clamp01 v) = clamp01 v"
  by (simp add: clamp01_def)

lemma deref_simps [simp]: "deref None = 0" "deref (Some v) = v"
  by (simp_all add: deref_def)

section \<open>ASCII strings\<close>

definition code_of :: "char \<Rightarrow> nat" where
  "code_of c = of_char c"

definition is_space :: "char \<Rightarrow> bool" where
  "is_space c \<longleftrightarrow> (9 \<le> code_of c \<and> code_of c \<le> 13) \<or> code_of c = 32"

definition is_digit :: "char \<Rightarrow> bool" where
  "is_digit c \<longleftrightarrow> 48 \<le> code_of c \<and> code_of c \<le> 57"

definition digit_val :: "char \<Rightarrow> nat" where
  "digit_val c = code_of c - 48"

definition digit_char :: "nat \<Rightarrow> char" where
  "digit_char d = char_of (48 + d)"

definition upper_char :: "char \<Rightarrow> char" where
  "upper_char c = (if 97 \<le> code_of c \<and> code_of c \<le> 122 then char_of (code_of c - 32) else c)"

definition lower_char :: "char \<Rightarrow> char" where
  "lower_char c = (if 65 \<le> code_of c \<and> code_of c \<le> 90 then char_of (code_of c + 32) else c)"

definition to_upper :: "string \<Rightarrow> string" where "to_upper = map upper_char"
definition to_lower :: "string \<Rightarrow> string" where "to_lower = map lower_char"

definition equal_fold :: "string \<Rightarrow> string \<Rightarrow> bool" where
  "equal_fold s t \<longleftrightarrow> to_lower s = to_lower t"

definition trim_space :: "string \<Rightarrow> string" where
  "trim_space s = rev (dropWhile is_space (rev (dropWhile is_space s)))"

fun has_prefix :: "string \<Rightarrow> string \<Rightarrow> bool" where
  "has_prefix s [] = True"
| "has_prefix [] (p # ps) = False"
| "has_prefix (c # cs) (p # ps) = (c = p \<and> has_prefix cs ps)"

text \<open>\<open>strings.Split\<close> with a one-byte separator: never the empty list.\<close>

fun split_on :: "char \<Rightarrow> string \<Rightarrow> string list" where
  "split_on d [] = [[]]"
| "split_on d (c # cs) =
     (if c = d then [] # split_on d cs
      else (case split_on d cs of [] \<Rightarrow> [[c]] | w # ws \<Rightarrow> (c # w) # ws))"

text \<open>\<open>strings.Cut\<close> at the first separator.\<close>

definition cut_at :: "char \<Rightarrow> string \<Rightarrow> string \<times> string \<times> bool" where
  "cut_at d s = (if d \<in> set s then (takeWhile (\<lambda>c. c \<noteq> d) s, drop 1 (dropWhile (\<lambda>c. c \<noteq> d) s), True)
                 else (s, [], False))"

definition contains_char :: "char \<Rightarrow> string \<Rightarrow> bool" where
  "contains_char c s \<longleftrightarrow> c \<in> set s"

lemma split_on_nonempty [simp]: "split_on d s \<noteq> []"
  by (induction s) (auto split: list.splits)

lemma trim_space_no_space_ends:
  "trim_space s = [] \<or> (\<not> is_space (hd (trim_space s)) \<and> \<not> is_space (last (trim_space s)))"
proof -
  define t where "t = dropWhile is_space s"
  have hd_t: "t = [] \<or> \<not> is_space (hd t)"
    unfolding t_def using hd_dropWhile by blast
  define u where "u = dropWhile is_space (rev t)"
  have hd_u: "u = [] \<or> \<not> is_space (hd u)"
    unfolding u_def using hd_dropWhile by blast
  have ts: "trim_space s = rev u" by (simp add: trim_space_def t_def u_def)
  show ?thesis
  proof (cases "u = []")
    case True
    with ts show ?thesis by simp
  next
    case False
    have "rev t = takeWhile is_space (rev t) @ u" unfolding u_def by simp
    then have "last (rev t) = last u" using False by (metis last_append)
    moreover have "t \<noteq> []" using False u_def by auto
    ultimately have "last u = hd t" by (simp add: last_rev)
    with hd_t hd_u False ts \<open>t \<noteq> []\<close> show ?thesis by (simp add: hd_rev last_rev)
  qed
qed

lemma trim_space_idem_aux:
  "s = [] \<or> (\<not> is_space (hd s) \<and> \<not> is_space (last s)) \<Longrightarrow> trim_space s = s"
proof (cases "s = []")
  case False
  assume "s = [] \<or> (\<not> is_space (hd s) \<and> \<not> is_space (last s))"
  with False have h: "\<not> is_space (hd s)" and l: "\<not> is_space (last s)" by auto
  from False h have 1: "dropWhile is_space s = s" by (cases s) auto
  from False l have "dropWhile is_space (rev s) = rev s"
    by (cases s rule: rev_cases) auto
  with 1 show "trim_space s = s" by (simp add: trim_space_def)
qed (simp add: trim_space_def)

lemma trim_space_idem [simp]: "trim_space (trim_space s) = trim_space s"
  by (rule trim_space_idem_aux [OF trim_space_no_space_ends])

section \<open>Decimal conversion\<close>

definition parse_uint :: "string \<Rightarrow> nat option" where
  "parse_uint s = (if s \<noteq> [] \<and> list_all is_digit s
                   then Some (foldl (\<lambda>a c. a * 10 + digit_val c) 0 s) else None)"

text \<open>\<open>strconv.ParseInt(s, 10, 64)\<close>: an optional sign, at least one digit, and the range check.\<close>

definition parse_int :: "string \<Rightarrow> int option" where
  "parse_int s =
     (let neg = (s \<noteq> [] \<and> hd s = CHR ''-'');
          body = (if s \<noteq> [] \<and> (hd s = CHR ''-'' \<or> hd s = CHR ''+'') then tl s else s)
      in case parse_uint body of
           None \<Rightarrow> None
         | Some n \<Rightarrow>
             if neg then (if n \<le> 2 ^ 63 then Some (- int n) else None)
             else (if n < 2 ^ 63 then Some (int n) else None))"

fun nat_digits :: "nat \<Rightarrow> string" where
  "nat_digits n = (if n < 10 then [digit_char n] else nat_digits (n div 10) @ [digit_char (n mod 10)])"

declare nat_digits.simps [simp del]

text \<open>\<open>strconv.FormatInt(i, 10)\<close> and the \<open>%d\<close> verb.\<close>

definition format_int :: "int \<Rightarrow> string" where
  "format_int i = (if i < 0 then CHR ''-'' # nat_digits (nat (- i)) else nat_digits (nat i))"

lemma code_of_digit_char [simp]: "d < 10 \<Longrightarrow> code_of (digit_char d) = 48 + d"
  by (simp add: code_of_def digit_char_def)

lemma is_digit_digit_char [simp]: "d < 10 \<Longrightarrow> is_digit (digit_char d)"
  by (simp add: is_digit_def)

lemma digit_val_digit_char [simp]: "d < 10 \<Longrightarrow> digit_val (digit_char d) = d"
  by (simp add: digit_val_def)

lemma nat_digits_all_digits: "list_all is_digit (nat_digits n)"
  by (induction n rule: nat_digits.induct) (subst nat_digits.simps, auto)

lemma nat_digits_nonempty [simp]: "nat_digits n \<noteq> []"
  by (subst nat_digits.simps) simp

lemma nat_digits_value: "foldl (\<lambda>a c. a * 10 + digit_val c) 0 (nat_digits n) = n"
proof (induction n rule: nat_digits.induct)
  case (1 n)
  show ?case
  proof (cases "n < 10")
    case True
    then show ?thesis by (subst nat_digits.simps) simp
  next
    case False
    with 1 show ?thesis by (subst nat_digits.simps) simp
  qed
qed

lemma parse_uint_nat_digits [simp]: "parse_uint (nat_digits n) = Some n"
  by (simp add: parse_uint_def nat_digits_all_digits nat_digits_value)

lemma hd_nat_digits: "hd (nat_digits n) \<noteq> CHR ''-''" "hd (nat_digits n) \<noteq> CHR ''+''"
proof -
  have "is_digit (hd (nat_digits n))"
    using nat_digits_all_digits [of n] by (simp add: list_all_iff)
  moreover have "\<not> is_digit (CHR ''-'')" "\<not> is_digit (CHR ''+'')"
    by (simp_all add: is_digit_def code_of_def)
  ultimately show "hd (nat_digits n) \<noteq> CHR ''-''" "hd (nat_digits n) \<noteq> CHR ''+''" by metis+
qed

lemma parse_int_format_int:
  "int64_min \<le> i \<Longrightarrow> i \<le> int64_max \<Longrightarrow> parse_int (format_int i) = Some i"
  by (auto simp: parse_int_def format_int_def hd_nat_digits int64_min_def int64_max_def Let_def)

lemma parse_int_chars:
  "parse_int s = Some i \<Longrightarrow> c \<in> set s \<Longrightarrow> is_digit c \<or> c = CHR ''-'' \<or> c = CHR ''+''"
  by (cases s) (auto simp: parse_int_def parse_uint_def Let_def list_all_iff
                split: option.splits if_splits)

lemma parse_int_range:
  "parse_int s = Some i \<Longrightarrow> int64_min \<le> i \<and> i \<le> int64_max"
  by (auto simp: parse_int_def Let_def int64_min_def int64_max_def
           split: option.splits if_splits)

lemma format_int_inj: "format_int i = format_int j \<Longrightarrow> i = j"
proof -
  assume e: "format_int i = format_int j"
  have n: "a = b" if "nat_digits a = nat_digits b" for a b
    using that by (metis option.inject parse_uint_nat_digits)
  have m: "nat_digits a \<noteq> CHR ''-'' # s" for a s
  proof
    assume "nat_digits a = CHR ''-'' # s"
    then have "hd (nat_digits a) = CHR ''-''" by simp
    with hd_nat_digits(1) show False by simp
  qed
  consider "i < 0" "j < 0" | "i < 0" "0 \<le> j" | "0 \<le> i" "j < 0" | "0 \<le> i" "0 \<le> j" by linarith
  then show ?thesis
  proof cases
    case 1
    then have "nat_digits (nat (- i)) = nat_digits (nat (- j))" using e by (simp only: format_int_def if_True list.inject simp_thms)
    then show ?thesis using n 1 by fastforce
  next
    case 2
    then have "CHR ''-'' # nat_digits (nat (- i)) = nat_digits (nat j)"
      using e by (simp only: format_int_def if_True if_False not_less [symmetric] simp_thms)
    then show ?thesis using m by metis
  next
    case 3
    then show ?thesis using e m [of "nat i"] by (simp only: format_int_def if_True if_False not_less [symmetric] simp_thms)
  next
    case 4
    then have "nat_digits (nat i) = nat_digits (nat j)" using e by (simp only: format_int_def if_False not_less [symmetric] simp_thms)
    then show ?thesis using n 4 by fastforce
  qed
qed

end
