(* ===== verification/Json.thy ===== *)
theory Json
  imports Prelude
begin

text \<open>
  The part of \<open>encoding/json\<close> the program uses: the text grammar (\<open>parse_json\<close>, a
  recursive-descent parser with a fuel argument that the length of the input always
  covers), number literals as \<open>json.Number\<close> keeps them, and their conversion. The nesting
  limit of 10000 levels and the replacement of invalid UTF-8 are not modelled.
\<close>

datatype json = JNull | JBool bool | JNum string | JStr string | JArr "json list"
  | JObj "(string \<times> json) list"

definition json_ws :: "char \<Rightarrow> bool" where
  "json_ws c \<longleftrightarrow> code_of c \<in> {9, 10, 13, 32}"

definition skip_ws :: "string \<Rightarrow> string" where "skip_ws = dropWhile json_ws"

section \<open>Numbers\<close>

definition lex_int :: "string \<Rightarrow> (string \<times> string) option" where
  "lex_int s = (case s of [] \<Rightarrow> None
     | c # cs \<Rightarrow> if c = CHR ''0'' then Some ([c], cs)
                else if is_digit c then Some (takeWhile is_digit s, dropWhile is_digit s) else None)"

definition lex_frac :: "string \<Rightarrow> (string \<times> string) option" where
  "lex_frac s = (case s of [] \<Rightarrow> Some ([], [])
     | c # cs \<Rightarrow> if c = CHR ''.'' then
                   (if takeWhile is_digit cs = [] then None
                    else Some (c # takeWhile is_digit cs, dropWhile is_digit cs))
                else Some ([], s))"

definition lex_exp :: "string \<Rightarrow> (string \<times> string) option" where
  "lex_exp s = (case s of [] \<Rightarrow> Some ([], [])
     | c # cs \<Rightarrow> if c = CHR ''e'' \<or> c = CHR ''E'' then
                   (let (sg, r) = (case cs of [] \<Rightarrow> ([], [])
                                   | d # ds \<Rightarrow> if d = CHR ''+'' \<or> d = CHR ''-'' then ([d], ds) else ([], cs))
                    in if takeWhile is_digit r = [] then None
                       else Some (c # sg @ takeWhile is_digit r, dropWhile is_digit r))
                else Some ([], s))"

definition lex_number :: "string \<Rightarrow> (string \<times> string) option" where
  "lex_number s =
     (let (sg, s1) = (case s of [] \<Rightarrow> ([], []) | c # cs \<Rightarrow> if c = CHR ''-'' then ([c], cs) else ([], s))
      in case lex_int s1 of None \<Rightarrow> None
         | Some (i, s2) \<Rightarrow> (case lex_frac s2 of None \<Rightarrow> None
            | Some (f, s3) \<Rightarrow> (case lex_exp s3 of None \<Rightarrow> None
               | Some (e, s4) \<Rightarrow> Some (sg @ i @ f @ e, s4))))"

definition is_valid_number :: "string \<Rightarrow> bool" where
  "is_valid_number s \<longleftrightarrow> (case lex_number s of Some (_, r) \<Rightarrow> r = [] | None \<Rightarrow> False)"

text \<open>
  \<open>strconv.ParseFloat(s, 64)\<close> on decimal literals: the exact value, an error when it
  rounds to infinity, zero when it is below half the least subnormal. Hexadecimal
  literals, underscores and the names of NaN and infinity are outside the model.
\<close>

definition digits_value :: "string \<Rightarrow> nat" where
  "digits_value s = foldl (\<lambda>a c. a * 10 + digit_val c) 0 s"

definition float_overflow :: real where "float_overflow = 2 ^ 1024 - 2 ^ 970"
definition float_underflow :: real where "float_underflow = 1 / 2 ^ 1075"

definition parse_float :: "string \<Rightarrow> real option" where
  "parse_float s =
     (let neg = (s \<noteq> [] \<and> hd s = CHR ''-'');
          s1 = (if s \<noteq> [] \<and> (hd s = CHR ''-'' \<or> hd s = CHR ''+'') then tl s else s);
          ip = takeWhile is_digit s1; s2 = dropWhile is_digit s1;
          (fp, s3) = (case s2 of [] \<Rightarrow> ([], [])
                      | c # cs \<Rightarrow> if c = CHR ''.'' then (takeWhile is_digit cs, dropWhile is_digit cs) else ([], s2))
      in if ip = [] \<and> fp = [] then None
         else case (case s3 of [] \<Rightarrow> Some (0 :: int)
                    | c # cs \<Rightarrow> if c = CHR ''e'' \<or> c = CHR ''E'' then
                        (let eneg = (cs \<noteq> [] \<and> hd cs = CHR ''-'');
                             ds = (if cs \<noteq> [] \<and> (hd cs = CHR ''-'' \<or> hd cs = CHR ''+'') then tl cs else cs)
                         in if ds \<noteq> [] \<and> list_all is_digit ds
                            then Some (if eneg then - int (digits_value ds) else int (digits_value ds)) else None)
                        else None) of
           None \<Rightarrow> None
         | Some e \<Rightarrow>
             (let m = real (digits_value (ip @ fp)); k = e - int (length fp);
                  v = (if 0 \<le> k then m * 10 ^ nat k else m / 10 ^ nat (- k))
              in if float_overflow \<le> v then None
                 else Some (if v \<le> float_underflow then 0 else if neg then - v else v)))"

section \<open>Strings\<close>

definition hex_val :: "char \<Rightarrow> nat option" where
  "hex_val c = (if is_digit c then Some (digit_val c)
     else if 97 \<le> code_of c \<and> code_of c \<le> 102 then Some (code_of c - 87)
     else if 65 \<le> code_of c \<and> code_of c \<le> 70 then Some (code_of c - 55) else None)"

fun hex4 :: "string \<Rightarrow> (nat \<times> string) option" where
  "hex4 (a # b # c # d # r) =
     (case (hex_val a, hex_val b, hex_val c, hex_val d) of
        (Some x, Some y, Some z, Some w) \<Rightarrow> Some (((x * 16 + y) * 16 + z) * 16 + w, r)
      | _ \<Rightarrow> None)"
| "hex4 _ = None"

definition utf8_encode :: "nat \<Rightarrow> string" where
  "utf8_encode u =
     (if u < 128 then [char_of u]
      else if u < 2048 then [char_of (192 + u div 64), char_of (128 + u mod 64)]
      else if u < 65536 then [char_of (224 + u div 4096), char_of (128 + u div 64 mod 64), char_of (128 + u mod 64)]
      else [char_of (240 + u div 262144), char_of (128 + u div 4096 mod 64),
            char_of (128 + u div 64 mod 64), char_of (128 + u mod 64)])"

text \<open>A \<open>\u\<close> escape: a lone surrogate is the replacement character U+FFFD.\<close>

definition unicode_escape :: "string \<Rightarrow> (string \<times> string) option" where
  "unicode_escape s = (case hex4 s of None \<Rightarrow> None
     | Some (u, r) \<Rightarrow>
         if 55296 \<le> u \<and> u < 57344 then
           (case r of
              b # x # r' \<Rightarrow>
                if b = CHR 0x5C \<and> x = CHR ''u'' then
                  (case hex4 r' of
                     Some (v, r'') \<Rightarrow>
                       if u < 56320 \<and> 56320 \<le> v \<and> v < 57344
                       then Some (utf8_encode ((u - 55296) * 1024 + (v - 56320) + 65536), r'')
                       else Some (utf8_encode 65533, r)
                   | None \<Rightarrow> Some (utf8_encode 65533, r))
                else Some (utf8_encode 65533, r)
            | _ \<Rightarrow> Some (utf8_encode 65533, r))
         else Some (utf8_encode u, r))"

definition simple_escape :: "char \<Rightarrow> char option" where
  "simple_escape c =
     (if c = CHR 0x22 \<or> c = CHR 0x5C \<or> c = CHR ''/'' then Some c
      else if c = CHR ''b'' then Some (CHR 0x08) else if c = CHR ''f'' then Some (CHR 0x0C)
      else if c = CHR ''n'' then Some (CHR 0x0A) else if c = CHR ''r'' then Some (CHR 0x0D)
      else if c = CHR ''t'' then Some (CHR 0x09) else None)"

text \<open>The body of a string after its opening quote.\<close>

fun string_body :: "nat \<Rightarrow> string \<Rightarrow> (string \<times> string) option" where
  "string_body 0 s = None"
| "string_body (Suc n) [] = None"
| "string_body (Suc n) (c # cs) =
     (if c = CHR 0x22 then Some ([], cs)
      else if c = CHR 0x5C then
        (case cs of [] \<Rightarrow> None
         | e # es \<Rightarrow>
             if e = CHR ''u'' then
               (case unicode_escape es of None \<Rightarrow> None
                | Some (u, r) \<Rightarrow> map_option (\<lambda>(t, r'). (u @ t, r')) (string_body n r))
             else (case simple_escape e of None \<Rightarrow> None
                   | Some x \<Rightarrow> map_option (\<lambda>(t, r'). (x # t, r')) (string_body n es)))
      else if code_of c < 32 then None
      else map_option (\<lambda>(t, r). (c # t, r)) (string_body n cs))"

section \<open>Values\<close>

fun p_value :: "nat \<Rightarrow> string \<Rightarrow> (json \<times> string) option"
and p_elems :: "nat \<Rightarrow> string \<Rightarrow> (json list \<times> string) option"
and p_members :: "nat \<Rightarrow> string \<Rightarrow> ((string \<times> json) list \<times> string) option" where
  "p_value 0 s = None"
| "p_value (Suc n) s =
     (case skip_ws s of
        [] \<Rightarrow> None
      | c # cs \<Rightarrow>
          if c = CHR ''{'' then
            (case skip_ws cs of
               [] \<Rightarrow> None
             | d # ds \<Rightarrow> if d = CHR ''}'' then Some (JObj [], ds)
                        else map_option (\<lambda>(ms, r). (JObj ms, r)) (p_members n (d # ds)))
          else if c = CHR ''['' then
            (case skip_ws cs of
               [] \<Rightarrow> None
             | d # ds \<Rightarrow> if d = CHR '']'' then Some (JArr [], ds)
                        else map_option (\<lambda>(vs, r). (JArr vs, r)) (p_elems n (d # ds)))
          else if c = CHR 0x22 then map_option (\<lambda>(t, r). (JStr t, r)) (string_body (length cs) cs)
          else if has_prefix (c # cs) ''null'' then Some (JNull, drop 3 cs)
          else if has_prefix (c # cs) ''true'' then Some (JBool True, drop 3 cs)
          else if has_prefix (c # cs) ''false'' then Some (JBool False, drop 4 cs)
          else map_option (\<lambda>(t, r). (JNum t, r)) (lex_number (c # cs)))"
| "p_elems 0 s = None"
| "p_elems (Suc n) s =
     (case p_value n s of None \<Rightarrow> None
      | Some (v, r) \<Rightarrow>
          (case skip_ws r of
             [] \<Rightarrow> None
           | c # cs \<Rightarrow> if c = CHR '']'' then Some ([v], cs)
                      else if c = CHR '','' then map_option (\<lambda>(vs, r'). (v # vs, r')) (p_elems n cs)
                      else None))"
| "p_members 0 s = None"
| "p_members (Suc n) s =
     (case skip_ws s of
        [] \<Rightarrow> None
      | q # qs \<Rightarrow>
          if q \<noteq> CHR 0x22 then None
          else (case string_body (length qs) qs of None \<Rightarrow> None
            | Some (k, r) \<Rightarrow>
                (case skip_ws r of
                   [] \<Rightarrow> None
                 | c # cs \<Rightarrow>
                     if c \<noteq> CHR '':'' then None
                     else (case p_value n cs of None \<Rightarrow> None
                       | Some (v, r1) \<Rightarrow>
                           (case skip_ws r1 of
                              [] \<Rightarrow> None
                            | e # es \<Rightarrow> if e = CHR ''}'' then Some ([(k, v)], es)
                                       else if e = CHR '','' then
                                         map_option (\<lambda>(ms, r'). ((k, v) # ms, r')) (p_members n es)
                                       else None)))))"

definition parse_json :: "string \<Rightarrow> json option" where
  "parse_json s = (case p_value (2 * length s + 2) s of
     Some (v, r) \<Rightarrow> if skip_ws r = [] then Some v else None
   | None \<Rightarrow> None)"


section \<open>Decoding into Go values\<close>

text \<open>
  \<open>Unmarshal\<close> into a field of kind string and into \<open>json.Number\<close>. A \<open>null\<close> leaves a string
  as it is; a number may also arrive as a quoted valid literal. A struct field is matched
  by its name up to ASCII case. None is the error of the whole call.
\<close>

fun dec_string :: "json \<Rightarrow> string \<Rightarrow> string option" where
  "dec_string (JStr s) old = Some s"
| "dec_string JNull old = Some old"
| "dec_string _ old = None"

fun dec_number :: "json \<Rightarrow> string option" where
  "dec_number (JNum s) = Some s"
| "dec_number (JStr s) = (if is_valid_number s then Some s else None)"
| "dec_number JNull = Some []"
| "dec_number _ = None"

text \<open>The members of an object stored in a \<open>map[string]json.Number\<close>.\<close>

fun dec_number_members :: "(string \<times> json) list \<Rightarrow> (string \<rightharpoonup> string) \<Rightarrow> (string \<rightharpoonup> string) option" where
  "dec_number_members [] m = Some m"
| "dec_number_members ((k, v) # kvs) m =
     (case dec_number v of None \<Rightarrow> None | Some n \<Rightarrow> dec_number_members kvs (m(k \<mapsto> n)))"

fun dec_number_map :: "json \<Rightarrow> (string \<rightharpoonup> string) \<Rightarrow> (string \<rightharpoonup> string) option" where
  "dec_number_map (JObj kvs) m = dec_number_members kvs m"
| "dec_number_map JNull m = Some Map.empty"
| "dec_number_map _ m = None"

section \<open>Facts about the parser\<close>

lemma not_float_overflow: "x \<le> 2 ^ 1000 \<Longrightarrow> \<not> float_overflow \<le> x"
proof -
  assume x: "x \<le> 2 ^ 1000"
  have "(2 :: real) ^ 1000 \<le> 2 ^ 1023" "(2 :: real) ^ 970 < 2 ^ 1023"
    by (rule power_increasing, simp_all only: numeral_le_iff power_strict_increasing_iff) simp_all
  moreover have "(2 :: real) ^ 1024 = 2 * 2 ^ 1023" by (simp only: power_Suc [symmetric] Suc_numeral) simp
  ultimately show ?thesis using x unfolding float_overflow_def by linarith
qed

lemma not_float_underflow: "1 \<le> x \<Longrightarrow> \<not> x \<le> float_underflow"
proof -
  assume x: "1 \<le> x"
  have "(1 :: real) < 2 ^ 1075" by (rule one_less_power) simp_all
  then have "float_underflow < 1" unfolding float_underflow_def by (simp only: divide_less_eq_1) simp
  with x show ?thesis by linarith
qed

lemma string_body_clean:
  "\<forall>c \<in> set t. c \<noteq> CHR 0x22 \<and> c \<noteq> CHR 0x5C \<and> 32 \<le> code_of c \<Longrightarrow> length t < n
   \<Longrightarrow> string_body n (t @ CHR 0x22 # r) = Some (t, r)"
proof (induction t arbitrary: n)
  case Nil
  then show ?case by (cases n) auto
next
  case (Cons c t)
  then show ?case by (cases n) auto
qed

lemma digit_char_0: "digit_char 0 = CHR ''0''"
  by code_simp

lemma digit_char_zero_iff: "d < 10 \<Longrightarrow> digit_char d = CHR ''0'' \<longleftrightarrow> d = 0"
proof
  assume d: "d < 10" "digit_char d = CHR ''0''"
  have "digit_val (CHR ''0'') = 0" by code_simp
  with d digit_val_digit_char [of d] show "d = 0" by simp
qed (simp add: digit_char_0)

lemma nat_digits_hd_zero: "hd (nat_digits n) = CHR ''0'' \<longleftrightarrow> n = 0"
proof (induction n rule: nat_digits.induct)
  case (1 n)
  show ?case
  proof (cases "n < 10")
    case True
    then show ?thesis by (subst nat_digits.simps) (simp add: digit_char_zero_iff)
  next
    case False
    with 1 show ?thesis by (subst nat_digits.simps) simp
  qed
qed

lemma takeWhile_digits [simp]:
  "\<not> is_digit c \<Longrightarrow> takeWhile is_digit (nat_digits n @ c # r) = nat_digits n"
  "\<not> is_digit c \<Longrightarrow> dropWhile is_digit (nat_digits n @ c # r) = c # r"
  "takeWhile is_digit (nat_digits n) = nat_digits n"
  "dropWhile is_digit (nat_digits n) = []"
  using nat_digits_all_digits [of n] by (simp_all add: list_all_iff)

lemma lex_int_nat_digits:
  "\<not> is_digit c \<Longrightarrow> lex_int (nat_digits n @ c # r) = Some (nat_digits n, c # r)"
proof (cases "n = 0")
  case True
  have "nat_digits 0 = ''0''" by (subst nat_digits.simps) (simp add: digit_char_0)
  with True show ?thesis by (simp add: lex_int_def)
next
  case False
  assume nd: "\<not> is_digit c"
  obtain d ds where d: "nat_digits n = d # ds" by (cases "nat_digits n") auto
  with False nat_digits_hd_zero [of n] have "d \<noteq> CHR ''0''" by simp
  moreover have "is_digit d" using nat_digits_all_digits [of n] d by simp
  ultimately show ?thesis
    using d takeWhile_digits(1,2) [OF nd, of n r] by (simp add: lex_int_def)
qed

lemma lex_number_nat_digits:
  assumes "\<not> is_digit c" "c \<noteq> CHR ''.''" "c \<noteq> CHR ''e''" "c \<noteq> CHR ''E''"
  shows "lex_number (nat_digits n @ c # r) = Some (nat_digits n, c # r)"
proof -
  obtain d ds where d: "nat_digits n = d # ds" by (cases "nat_digits n") auto
  then have "d \<noteq> CHR ''-''" using hd_nat_digits [of n] by simp
  then have "(case nat_digits n @ c # r of [] \<Rightarrow> ([], [])
      | e # cs \<Rightarrow> if e = CHR ''-'' then ([e], cs) else ([], nat_digits n @ c # r)) = ([], nat_digits n @ c # r)"
    using d by simp
  then show ?thesis
    using assms by (simp add: lex_number_def lex_int_nat_digits lex_frac_def lex_exp_def)
qed

lemma nat_digits_first_char:
  "\<exists>d ds. nat_digits n = d # ds \<and> is_digit d"
  using nat_digits_all_digits [of n] by (cases "nat_digits n") auto

end
