(* ===== verification/Clock.thy ===== *)
theory Clock
  imports Prelude
begin

text \<open>
  The proleptic Gregorian calendar and the text form of instants, as package \<open>time\<close> has
  them: days since the Unix epoch of a civil date and back, \<open>time.Parse\<close> of the RFC 3339
  layouts and the RFC 3339 output of \<open>Format\<close> in UTC.
\<close>

section \<open>Civil dates\<close>

definition leap_year :: "int \<Rightarrow> bool" where
  "leap_year y \<longleftrightarrow> y mod 4 = 0 \<and> (y mod 100 \<noteq> 0 \<or> y mod 400 = 0)"

definition days_in :: "int \<Rightarrow> int \<Rightarrow> int" where
  "days_in m y = (if m = 2 then (if leap_year y then 29 else 28)
                  else if m \<in> {4, 6, 9, 11} then 30 else 31)"

text \<open>
  Years are counted from March, in eras of 400 years (146097 days), centuries of 36524 days
  (the last one is a day longer) and cycles of 1461 days.
\<close>

definition days_from_civil :: "int \<Rightarrow> int \<Rightarrow> int \<Rightarrow> int" where
  "days_from_civil y m d =
     (let y' = (if m \<le> 2 then y - 1 else y); era = y' div 400; yoe = y' mod 400;
          mp = (if m > 2 then m - 3 else m + 9);
          doy = (153 * mp + 2) div 5 + d - 1
      in era * 146097 + (yoe * 365 + yoe div 4 - yoe div 100 + doy) - 719468)"

definition civil_from_days :: "int \<Rightarrow> int \<times> int \<times> int" where
  "civil_from_days z0 =
     (let z = z0 + 719468; era = z div 146097; doe = z mod 146097;
          b = min 3 (doe div 36524); r = doe - 36524 * b;
          q = r div 1461; s = r mod 1461; a = min 3 (s div 365);
          yoe = 100 * b + 4 * q + a; doy = s - 365 * a;
          mp = (5 * doy + 2) div 153;
          d = doy - (153 * mp + 2) div 5 + 1;
          m = (if mp < 10 then mp + 3 else mp - 9)
      in (yoe + era * 400 + (if m \<le> 2 then 1 else 0), m, d))"

definition day_ns :: int where "day_ns = 86400000000000"

definition utc_date :: "instant \<Rightarrow> int \<times> int \<times> int" where
  "utc_date t = civil_from_days (t div day_ns)"

section \<open>Parsing\<close>

text \<open>\<open>getnum(s, fixed)\<close>: one or two digits, exactly two when \<open>fixed\<close>.\<close>

fun getnum :: "bool \<Rightarrow> string \<Rightarrow> (nat \<times> string) option" where
  "getnum fixed [] = None"
| "getnum fixed [c] = (if is_digit c \<and> \<not> fixed then Some (digit_val c, []) else None)"
| "getnum fixed (c # d # r) =
     (if \<not> is_digit c then None
      else if is_digit d then Some (digit_val c * 10 + digit_val d, r)
      else if fixed then None else Some (digit_val c, d # r))"

definition lit :: "char \<Rightarrow> string \<Rightarrow> string option" where
  "lit c s = (case s of [] \<Rightarrow> None | d # r \<Rightarrow> if d = c then Some r else None)"

definition parse_year :: "string \<Rightarrow> (nat \<times> string) option" where
  "parse_year s = (if 4 \<le> length s \<and> list_all is_digit (take 4 s)
     then Some (foldl (\<lambda>a c. a * 10 + digit_val c) 0 (take 4 s), drop 4 s) else None)"

text \<open>Optional fraction: any number of digits, those after the ninth are dropped.\<close>

definition parse_frac :: "string \<Rightarrow> int \<times> string" where
  "parse_frac s = (case s of
     c # d # r \<Rightarrow>
       if (c = CHR ''.'' \<or> c = CHR '','') \<and> is_digit d then
         (let ds = take 9 (takeWhile is_digit (d # r))
          in (foldl (\<lambda>a c. a * 10 + int (digit_val c)) 0 ds * 10 ^ (9 - length ds), dropWhile is_digit (d # r)))
       else (0, s)
   | _ \<Rightarrow> (0, s))"

text \<open>The zone: \<open>Z\<close>, or a sign and \<open>hh:mm\<close>; the result is the offset in seconds.\<close>

definition parse_zone :: "string \<Rightarrow> (int \<times> string) option" where
  "parse_zone s = (case s of [] \<Rightarrow> None
     | c # r \<Rightarrow>
         if c = CHR ''Z'' then Some (0, r)
         else if length s < 6 \<or> s ! 3 \<noteq> CHR '':'' then None
         else (case (getnum True [s ! 1, s ! 2], getnum True [s ! 4, s ! 5]) of
                 (Some (h, _), Some (m, _)) \<Rightarrow>
                   if h > 24 \<or> m > 60 then None
                   else if c = CHR ''+'' then Some (int ((h * 60 + m) * 60), drop 6 s)
                   else if c = CHR ''-'' then Some (- int ((h * 60 + m) * 60), drop 6 s)
                   else None
               | _ \<Rightarrow> None))"

definition obind :: "'a option \<Rightarrow> ('a \<Rightarrow> 'b option) \<Rightarrow> 'b option" where
  "obind x f = (case x of None \<Rightarrow> None | Some a \<Rightarrow> f a)"

lemma obind_simps [simp]: "obind None f = None" "obind (Some a) f = f a"
  by (simp_all add: obind_def)

text \<open>
  \<open>time.Parse\<close> with the layouts \<open>RFC3339Nano\<close> and \<open>RFC3339\<close>. Both accept a fraction of
  any length after the seconds, so they accept the same texts with the same value.
\<close>

definition parse_rfc3339 :: "string \<Rightarrow> instant option" where
  "parse_rfc3339 s =
     obind (parse_year s) (\<lambda>(y, s1). obind (lit (CHR ''-'') s1) (\<lambda>s2.
     obind (getnum True s2) (\<lambda>(mo, s3). obind (lit (CHR ''-'') s3) (\<lambda>s4.
     obind (getnum True s4) (\<lambda>(d, s5). obind (lit (CHR ''T'') s5) (\<lambda>s6.
     obind (getnum False s6) (\<lambda>(h, s7). obind (lit (CHR '':'') s7) (\<lambda>s8.
     obind (getnum True s8) (\<lambda>(mi, s9). obind (lit (CHR '':'') s9) (\<lambda>s10.
     obind (getnum True s10) (\<lambda>(se, s11).
       (let (ns, s12) = parse_frac s11 in
        obind (parse_zone s12) (\<lambda>(off, s13).
          if s13 \<noteq> [] \<or> mo < 1 \<or> mo > 12 \<or> h \<ge> 24 \<or> mi \<ge> 60 \<or> se \<ge> 60
             \<or> d < 1 \<or> int d > days_in (int mo) (int y) then None
          else Some ((days_from_civil (int y) (int mo) (int d) * 86400
                      + int (h * 3600 + mi * 60 + se) - off) * 1000000000 + ns))))))))))))))"

text \<open>
  The layout \<open>2006-01-02T15:04:05.000Z\<close>: exactly three fraction digits and a literal
  \<open>Z\<close>, a subset of the above with the same value.
\<close>

definition parse_millis :: "string \<Rightarrow> instant option" where
  "parse_millis s = (case parse_rfc3339 s of None \<Rightarrow> None
     | Some t \<Rightarrow> if length s \<ge> 5 \<and> last s = CHR ''Z''
                   \<and> (s ! (length s - 5) = CHR ''.'' \<or> s ! (length s - 5) = CHR '','') then Some t else None)"

section \<open>Formatting\<close>

definition pad_digits :: "nat \<Rightarrow> nat \<Rightarrow> string" where
  "pad_digits w n = replicate (w - length (nat_digits n)) (CHR ''0'') @ nat_digits n"

definition format_clock :: "instant \<Rightarrow> string" where
  "format_clock t =
     (let (y, m, d) = utc_date t; s = (t mod day_ns) div 1000000000 in
      pad_digits 4 (nat y) @ ''-'' @ pad_digits 2 (nat m) @ ''-'' @ pad_digits 2 (nat d) @ ''T''
      @ pad_digits 2 (nat (s div 3600)) @ '':'' @ pad_digits 2 (nat (s div 60 mod 60)) @ '':''
      @ pad_digits 2 (nat (s mod 60)))"

text \<open>\<open>t.UTC().Format(time.RFC3339)\<close> and the milliseconds layout, for years 0 to 9999.\<close>

definition format_rfc3339 :: "instant \<Rightarrow> string" where
  "format_rfc3339 t = format_clock t @ ''Z''"

definition format_millis :: "instant \<Rightarrow> string" where
  "format_millis t = format_clock t @ ''.'' @ pad_digits 3 (nat (t mod 1000000000 div 1000000)) @ ''Z''"


section \<open>The calendar is a bijection\<close>

lemma month_day_bounds:
  fixes doy :: int
  assumes "0 \<le> doy" "doy \<le> 365"
  defines "mp \<equiv> (5 * doy + 2) div 153"
  defines "d \<equiv> doy - (153 * mp + 2) div 5 + 1"
  shows "0 \<le> mp" "mp \<le> 11" "1 \<le> d"
    "mp < 11 \<Longrightarrow> d \<le> days_in (if mp < 10 then mp + 3 else mp - 9) y"
    "mp = 11 \<Longrightarrow> d = doy - 336"
proof -
  show mp: "0 \<le> mp" "mp \<le> 11" using assms(1,2) by (simp_all add: mp_def)
  have b: "153 * mp \<le> 5 * doy + 2" "5 * doy + 2 < 153 * mp + 153" by (simp_all add: mp_def)
  from mp have "mp = 0 \<or> mp = 1 \<or> mp = 2 \<or> mp = 3 \<or> mp = 4 \<or> mp = 5 \<or> mp = 6 \<or> mp = 7 \<or> mp = 8 \<or> mp = 9
      \<or> mp = 10 \<or> mp = 11" by presburger
  then have c: "mp \<in> {0, 1, 2, 3, 4, 5, 6, 7, 8, 9, 10, 11}" by blast
  show "1 \<le> d" using c b assms(1) unfolding d_def by auto
  show "mp < 11 \<Longrightarrow> d \<le> days_in (if mp < 10 then mp + 3 else mp - 9) y"
    using c b unfolding d_def days_in_def by auto
  show "mp = 11 \<Longrightarrow> d = doy - 336" unfolding d_def by simp
qed

lemma year_of_era:
  fixes doe :: int
  assumes "0 \<le> doe" "doe < 146097"
  defines "b \<equiv> min 3 (doe div 36524)"
  defines "r \<equiv> doe - 36524 * b"
  defines "q \<equiv> r div 1461"
  defines "s \<equiv> r mod 1461"
  defines "a \<equiv> min 3 (s div 365)"
  defines "yoe \<equiv> 100 * b + 4 * q + a"
  defines "doy \<equiv> s - 365 * a"
  shows "0 \<le> yoe" "yoe < 400" "0 \<le> doy" "doy \<le> 365"
    "yoe * 365 + yoe div 4 - yoe div 100 + doy = doe"
    "doy = 365 \<Longrightarrow> leap_year (yoe + 1)"
proof -
  have b: "0 \<le> b" "b \<le> 3" "36524 * b \<le> doe" "b < 3 \<Longrightarrow> doe < 36524 * b + 36524"
    unfolding b_def using assms(1) by (auto simp: min_def)
  have r: "0 \<le> r" "r \<le> 36524" "b < 3 \<Longrightarrow> r < 36524"
    using b assms(2) unfolding r_def by linarith+
  have q: "0 \<le> q" "q \<le> 24" using r unfolding q_def by auto
  have s: "0 \<le> s" "s \<le> 1460" "r = 1461 * q + s" unfolding s_def q_def by auto
  have a: "0 \<le> a" "a \<le> 3" "365 * a \<le> s" "a < 3 \<Longrightarrow> s < 365 * a + 365"
    unfolding a_def using s by (auto simp: min_def)
  show "0 \<le> yoe" "yoe < 400" using b q a unfolding yoe_def by linarith+
  show doy: "0 \<le> doy" "doy \<le> 365" using a s unfolding doy_def by linarith+
  have y: "yoe div 4 = 25 * b + q" "yoe div 100 = b"
    using q a unfolding yoe_def by linarith+
  show "yoe * 365 + yoe div 4 - yoe div 100 + doy = doe"
    unfolding y using s(3) unfolding yoe_def doy_def r_def by (simp add: algebra_simps)
  show "doy = 365 \<Longrightarrow> leap_year (yoe + 1)"
  proof -
    assume "doy = 365"
    with a s have as: "a = 3" "s = 1460" unfolding doy_def by linarith+
    then have y1: "yoe + 1 = 100 * b + 4 * (q + 1)" unfolding yoe_def by simp
    show ?thesis
    proof (cases "q = 24")
      case True
      with as s r b have "b = 3" by linarith
      with y1 True show ?thesis by (simp add: leap_year_def)
    next
      case False
      have "(100 * b + 4 * (q + 1)) mod 4 = 0"
      proof -
        have "100 * b + 4 * (q + 1) = 4 * (25 * b + q + 1)" by simp
        then show ?thesis by (simp only: mod_mult_self1_is_0)
      qed
      moreover have "(100 * b + 4 * (q + 1)) mod 100 = 4 * (q + 1)"
      proof -
        have "(100 * b + 4 * (q + 1)) mod 100 = 4 * (q + 1) mod 100" by simp
        also have "\<dots> = 4 * (q + 1)" using q False by (intro mod_pos_pos_trivial) auto
        finally show ?thesis .
      qed
      ultimately show ?thesis using q(1) unfolding leap_year_def y1 by (intro conjI disjI1) simp_all
    qed
  qed
qed

lemma leap_year_era: "leap_year (y + e * 400) = leap_year y"
proof -
  have "(y + e * 400) mod 400 = y mod 400" by simp
  moreover have "x mod 4 = (x mod 400) mod 4" "x mod 100 = (x mod 400) mod 100" for x :: int
    by (simp_all add: mod_mod_cancel)
  ultimately show ?thesis unfolding leap_year_def by metis
qed

lemma civil_from_days_valid:
  assumes "civil_from_days z = (y, m, d)"
  shows "1 \<le> m" "m \<le> 12" "1 \<le> d" "d \<le> days_in m y" "days_from_civil y m d = z"
proof -
  define era where "era = (z + 719468) div 146097"
  define doe where "doe = (z + 719468) mod 146097"
  have doe: "0 \<le> doe" "doe < 146097" unfolding doe_def by auto
  define b where "b = min 3 (doe div 36524)"
  define r where "r = doe - 36524 * b"
  define a where "a = min 3 (r mod 1461 div 365)"
  define yoe where "yoe = 100 * b + 4 * (r div 1461) + a"
  define doy where "doy = r mod 1461 - 365 * a"
  note Y = year_of_era [OF doe, folded b_def, folded r_def, folded a_def, folded yoe_def doy_def]
  define mp where "mp = (5 * doy + 2) div 153"
  note M = month_day_bounds [OF Y(3,4), folded mp_def]
  have eq: "y = yoe + era * 400 + (if m \<le> 2 then 1 else 0)" "m = (if mp < 10 then mp + 3 else mp - 9)"
    "d = doy - (153 * mp + 2) div 5 + 1"
    using assms unfolding civil_from_days_def Let_def
    by (simp_all only: doe_def [symmetric] era_def [symmetric] b_def [symmetric] r_def [symmetric]
        a_def [symmetric] yoe_def [symmetric] doy_def [symmetric] mp_def [symmetric] prod.inject) auto
  show "1 \<le> m" "m \<le> 12" using M(1,2) eq(2) by auto
  show "1 \<le> d" using M(3) eq(3) by simp
  show "d \<le> days_in m y"
  proof (cases "mp = 11")
    case True
    then have "m = 2" "y = yoe + 1 + era * 400" using eq by auto
    moreover have "d = doy - 336" using M(5) True eq(3) by simp
    ultimately show ?thesis
      using Y(4,6) leap_year_era [of "yoe + 1" era]
      by (cases "doy = 365") (auto simp: days_in_def)
  next
    case False
    with M(2) have "mp < 11" by simp
    from M(4) [OF this, of y] eq show ?thesis by simp
  qed
  have mp: "(if m > 2 then m - 3 else m + 9) = mp" "(if m \<le> 2 then y - 1 else y) = yoe + era * 400"
    using M(1,2) eq(1,2) by auto
  have era: "(yoe + era * 400) div 400 = era" "(yoe + era * 400) mod 400 = yoe"
    using Y(1,2) by auto
  have "days_from_civil y m d = era * 146097 + doe - 719468"
    unfolding days_from_civil_def Let_def mp era using Y(5) eq(3) by linarith
  then show "days_from_civil y m d = z" unfolding era_def doe_def by presburger
qed


section \<open>Formatted instants parse back\<close>

lemma nat_digits_length: "n < 10 ^ Suc k \<Longrightarrow> length (nat_digits n) \<le> Suc k"
proof (induction k arbitrary: n)
  case 0
  then show ?case by (subst nat_digits.simps) simp
next
  case (Suc k)
  then have "n div 10 < 10 ^ Suc k" by (simp add: less_mult_imp_div_less)
  from Suc.IH [OF this] show ?case by (subst nat_digits.simps) simp
qed

lemma is_digit_0 [simp]: "is_digit (CHR ''0'')" "digit_val (CHR ''0'') = 0"
  by (simp_all add: is_digit_def digit_val_def code_of_def)

lemma pad_digits_digits: "list_all is_digit (pad_digits w n)"
  using nat_digits_all_digits [of n] by (auto simp: pad_digits_def list_all_iff)

lemma pad_digits_length: "n < 10 ^ Suc w \<Longrightarrow> length (pad_digits (Suc w) n) = Suc w"
  using nat_digits_length [of n w] by (simp add: pad_digits_def)

lemma foldl_zeros:
  "foldl (\<lambda>a c. a * 10 + digit_val c) 0 (replicate k (CHR ''0'') @ t) = foldl (\<lambda>a c. a * 10 + digit_val c) 0 t"
  by (induction k) simp_all

lemma pad_digits_value: "foldl (\<lambda>a c. a * 10 + digit_val c) 0 (pad_digits w n) = n"
  unfolding pad_digits_def foldl_zeros by (rule nat_digits_value)

lemma foldl_int_digits:
  "foldl (\<lambda>a c. a * 10 + int (digit_val c)) (int a) s = int (foldl (\<lambda>a c. a * 10 + digit_val c) a s)"
proof (induction s arbitrary: a)
  case (Cons c s)
  have "foldl (\<lambda>a c. a * 10 + int (digit_val c)) (int (a * 10 + digit_val c)) s
      = int (foldl (\<lambda>a c. a * 10 + digit_val c) (a * 10 + digit_val c) s)"
    by (rule Cons)
  then show ?case by simp
qed simp

lemma getnum_pad:
  assumes "n < 100"
  shows "getnum b (pad_digits 2 n @ r) = Some (n, r)"
proof -
  have "length (pad_digits 2 n) = 2" using pad_digits_length [of n 1] assms by (simp add: numeral_2_eq_2)
  then obtain c d where cd: "pad_digits 2 n = [c, d]"
    by (cases "pad_digits 2 n" rule: list.exhaust; cases "tl (pad_digits 2 n)") auto
  have "is_digit c" "is_digit d" using pad_digits_digits [of 2 n] cd by auto
  moreover have "digit_val c * 10 + digit_val d = n" using pad_digits_value [of 2 n] cd by simp
  ultimately show ?thesis by (simp add: cd)
qed

lemma parse_year_pad:
  assumes "n < 10000"
  shows "parse_year (pad_digits 4 n @ r) = Some (n, r)"
proof -
  have "length (pad_digits 4 n) = 4" using pad_digits_length [of n 3] assms by simp
  then show ?thesis using pad_digits_digits [of 4 n] pad_digits_value [of 4 n] by (simp add: parse_year_def)
qed

lemma parse_frac_millis:
  assumes "n < 1000" "\<not> is_digit e"
  shows "parse_frac (''.'' @ pad_digits 3 n @ e # r) = (int n * 1000000, e # r)"
proof -
  have len: "length (pad_digits 3 n) = 3" using pad_digits_length [of n 2] assms by simp
  then obtain c p where cp: "pad_digits 3 n = c # p" by (cases "pad_digits 3 n") auto
  have dig: "is_digit c" "list_all is_digit (pad_digits 3 n)" using pad_digits_digits [of 3 n] cp by auto
  have tw: "takeWhile is_digit (pad_digits 3 n @ e # r) = pad_digits 3 n"
    "dropWhile is_digit (pad_digits 3 n @ e # r) = e # r"
    using dig(2) assms(2) by (simp_all add: list_all_iff)
  have "foldl (\<lambda>a c. a * 10 + int (digit_val c)) 0 (pad_digits 3 n) = int n"
    using foldl_int_digits [of 0 "pad_digits 3 n"] by (simp add: pad_digits_value)
  then show ?thesis using tw len dig cp by (simp add: parse_frac_def Let_def)
qed

lemma div_split: "0 < b \<Longrightarrow> t div b = t div (a * b) * a + t mod (a * b) div b" for t :: int
proof -
  assume b: "0 < b"
  have "t = (t div (a * b) * a) * b + t mod (a * b)"
    by (simp only: mult.assoc div_mult_mod_eq)
  then have "t div b = ((t div (a * b) * a) * b + t mod (a * b)) div b" by simp
  with b show ?thesis by simp
qed

lemma lit_same [simp]: "lit c (c # r) = Some r"
  by (simp add: lit_def)

text \<open>Instants of the years 0 to 9999.\<close>

definition printable :: "instant \<Rightarrow> bool" where
  "printable t \<longleftrightarrow> (case utc_date t of (y, _, _) \<Rightarrow> 0 \<le> y \<and> y < 10000)"

lemma parse_clock:
  assumes "printable t" "parse_frac f = (ns, ''Z'')"
  shows "parse_rfc3339 (format_clock t @ f) = Some (t div 1000000000 * 1000000000 + ns)"
proof -
  obtain y m d where ymd: "civil_from_days (t div day_ns) = (y, m, d)" by (cases "civil_from_days (t div day_ns)")
  note V = civil_from_days_valid [OF ymd]
  have y: "0 \<le> y" "y < 10000" using assms(1) ymd by (simp_all add: printable_def utc_date_def)
  have d31: "d \<le> 31" using V(4) by (auto simp: days_in_def split: if_splits)
  define s where "s = t mod day_ns div 1000000000"
  have s: "0 \<le> s" "s < 86400" unfolding s_def day_ns_def by (simp_all add: div_less_iff_less_mult zdiv_mono1)
  have hms: "nat (s div 3600) < 24" "nat (s div 60 mod 60) < 60" "nat (s mod 60) < 60"
    using s by (simp_all add: nat_less_iff)
  have nn: "0 \<le> s div 3600" using s by simp
  have sum: "s div 3600 * 3600 + s div 60 mod 60 * 60 + s mod 60 = s"
  proof -
    have "s div 3600 = s div 60 div 60" by (simp add: zdiv_zmult2_eq [symmetric])
    moreover have "s div 60 = s div 60 div 60 * 60 + s div 60 mod 60" by simp
    moreover have "s = s div 60 * 60 + s mod 60" by simp
    ultimately show ?thesis by linarith
  qed
  have Z: "parse_zone ''Z'' = Some (0, [])" by (simp add: parse_zone_def)
  have t: "t div 1000000000 = t div day_ns * 86400 + s"
    using div_split [of 1000000000 t 86400] unfolding s_def day_ns_def by simp
  have fmt: "format_clock t @ f = pad_digits 4 (nat y) @ CHR ''-'' # pad_digits 2 (nat m) @ CHR ''-'' #
      pad_digits 2 (nat d) @ CHR ''T'' # pad_digits 2 (nat (s div 3600)) @ CHR '':'' #
      pad_digits 2 (nat (s div 60 mod 60)) @ CHR '':'' # pad_digits 2 (nat (s mod 60)) @ f"
    by (simp add: format_clock_def utc_date_def ymd s_def Let_def)
  have nums: "nat m < 100" "nat d < 100" "nat y < 10000" "nat m \<le> 12"
    using V(2) d31 y by (simp_all add: nat_less_iff)
  have ok: "\<not> ([] \<noteq> ([] :: string) \<or> nat m < 1 \<or> nat m > 12 \<or> nat (s div 3600) \<ge> 24 \<or> nat (s div 60 mod 60) \<ge> 60
      \<or> nat (s mod 60) \<ge> 60 \<or> nat d < 1 \<or> int (nat d) > days_in (int (nat m)) (int (nat y)))"
  proof -
    have "int (nat m) = m" "int (nat d) = d" "int (nat y) = y" using V(1,3) y by simp_all
    moreover have "\<not> nat m < 1" "\<not> nat d < 1" using V(1,3) by simp_all
    moreover have "\<not> nat m > 12" using nums(4) by simp
    ultimately show ?thesis using hms V(4) by (simp only: not_le not_less de_Morgan_disj not_True_eq_False simp_thms)
  qed
  have val: "(days_from_civil (int (nat y)) (int (nat m)) (int (nat d)) * 86400
      + int (nat (s div 3600) * 3600 + nat (s div 60 mod 60) * 60 + nat (s mod 60)) - 0) * 1000000000 + ns
    = t div 1000000000 * 1000000000 + ns"
  proof -
    have i: "int (nat m) = m" "int (nat d) = d" "int (nat y) = y" "int (nat (s div 3600)) = s div 3600"
      "int (nat (s div 60 mod 60)) = s div 60 mod 60" "int (nat (s mod 60)) = s mod 60"
      using V(1,3) y s by simp_all
    show ?thesis unfolding of_nat_add of_nat_mult i of_nat_numeral V(5) t by (simp only: sum diff_0_right)
  qed
  have h100: "nat (s div 3600) < 100" "nat (s div 60 mod 60) < 100" "nat (s mod 60) < 100" using hms by linarith+
  show ?thesis
    unfolding parse_rfc3339_def fmt
    by (simp only: parse_year_pad [OF nums(3)] getnum_pad [OF nums(1)] getnum_pad [OF nums(2)]
        getnum_pad [OF h100(1)] getnum_pad [OF h100(2)] getnum_pad [OF h100(3)]
        lit_same obind_simps prod.case assms(2) Let_def Z ok val if_False)
qed

lemma parse_format_rfc3339:
  "printable t \<Longrightarrow> parse_rfc3339 (format_rfc3339 t) = Some (t div 1000000000 * 1000000000)"
  using parse_clock [of t "''Z''" 0] by (simp add: format_rfc3339_def parse_frac_def)

lemma parse_format_millis:
  assumes "printable t"
  shows "parse_rfc3339 (format_millis t) = Some (t div 1000000 * 1000000)"
proof -
  have z: "\<not> is_digit (CHR ''Z'')" by (simp add: is_digit_def code_of_def)
  have n: "nat (t mod 1000000000 div 1000000) < 1000" by (simp add: nat_less_iff div_less_iff_less_mult)
  have "0 \<le> t mod 1000000000 div 1000000" by simp
  then have "t div 1000000000 * 1000000000 + int (nat (t mod 1000000000 div 1000000)) * 1000000 = t div 1000000 * 1000000"
    using div_split [of 1000000 t 1000] by simp
  then show ?thesis
    using parse_clock [OF assms parse_frac_millis [OF n z, of "[]"]] by (simp add: format_millis_def)
qed

text \<open>The days of the years 1970 to 9991.\<close>

lemma civil_year_range:
  assumes "0 \<le> z" "z < 2930167" "civil_from_days z = (y, m, d)"
  shows "0 \<le> y" "y < 10000"
proof -
  note z = assms(1,2) and c = assms(3)
  note V = civil_from_days_valid [OF c]
  define y' where "y' = (if m \<le> 2 then y - 1 else y)"
  define mp where "mp = (if m > 2 then m - 3 else m + 9)"
  define doy where "doy = (153 * mp + 2) div 5 + d - 1"
  have d: "d \<le> 31" using V(4) by (auto simp: days_in_def split: if_splits)
  have doy: "0 \<le> doy" "doy \<le> 368" using V(1,2,3) d unfolding doy_def mp_def by auto
  have e: "z = y' div 400 * 146097 + (y' mod 400 * 365 + y' mod 400 div 4 - y' mod 400 div 100 + doy) - 719468"
    using V(5) unfolding days_from_civil_def Let_def y'_def mp_def doy_def by simp
  have yoe: "0 \<le> y' mod 400" "y' mod 400 < 400" by simp_all
  have q: "0 \<le> y' mod 400 div 4 - y' mod 400 div 100" "y' mod 400 div 4 - y' mod 400 div 100 \<le> 100"
    using yoe by linarith+
  have split: "y' = 400 * (y' div 400) + y' mod 400" by simp
  have "y' < 9999"
  proof (rule ccontr)
    assume "\<not> y' < 9999"
    with split yoe have "24 \<le> y' div 400" by linarith
    with e q doy split \<open>\<not> y' < 9999\<close> z(2) show False by linarith
  qed
  moreover have "0 \<le> y'"
  proof (rule ccontr)
    assume "\<not> 0 \<le> y'"
    then have "y' div 400 \<le> - 1" by simp
    with e q doy yoe z(1) show False by linarith
  qed
  ultimately show "0 \<le> y" "y < 10000" unfolding y'_def by (auto split: if_splits)
qed

lemma printable_range:
  assumes "0 \<le> t" "t < 2930167 * day_ns"
  shows "printable t"
proof -
  have z: "0 \<le> t div day_ns" "t div day_ns < 2930167" using assms by (simp_all add: day_ns_def div_less_iff_less_mult)
  obtain y m d where c: "civil_from_days (t div day_ns) = (y, m, d)" by (cases "civil_from_days (t div day_ns)")
  show ?thesis using civil_year_range [OF z c] by (simp add: printable_def utc_date_def c)
qed

end
