(* ===== verification/Ert.thy ===== *)
theory Ert
  imports Json Clock
begin

text \<open>
  Decoding of the meter messages: \<open>internal/ert/ert.go\<close> (commodity classification, message
  type tokens, \<open>ExtractReading\<close> with its cross-message fallbacks), the stored reading of
  \<open>internal/model/model.go\<close>, and the synthetic meters of \<open>cmd/capture/mock.go\<close> that the
  decoder has to understand. \<open>time.Now()\<close> is the argument \<open>now\<close>.
\<close>

section \<open>Classification\<close>

definition electricTypes :: "int list" where
  "electricTypes = [4, 5, 7, 8, 12, 13]"

definition Commodity :: "int option \<Rightarrow> string" where
  "Commodity t = (case t of None \<Rightarrow> ''unknown''
     | Some e \<Rightarrow>
         if e \<in> set electricTypes then ''electric''
         else if e = 2 \<or> e = 9 \<or> (156 \<le> e \<and> e \<le> 160) then ''gas''
         else if e = 11 \<or> e = 171 \<or> e = 172 then ''water''
         else ''other'')"

definition MsgTypeToken :: "string \<Rightarrow> string" where
  "MsgTypeToken msgType =
     (if msgType = ''SCM'' then ''scm'' else if msgType = ''SCM+'' then ''scm+''
      else if msgType = ''IDM'' then ''idm'' else if msgType = ''NetIDM'' then ''netidm''
      else ''scm'')"

section \<open>Readings\<close>

record reading =
  TS :: instant
  MsgType :: string
  EndpointID :: int
  EndpointType :: "int option"
  Consumption :: "real option"
  Source :: string

record rtlamrLine =
  l_Time :: string
  l_Type :: string
  l_Message :: "string \<rightharpoonup> string"

definition zero_line :: rtlamrLine where
  "zero_line = \<lparr>l_Time = [], l_Type = [], l_Message = Map.empty\<rparr>"

fun line_fields :: "(string \<times> json) list \<Rightarrow> rtlamrLine \<Rightarrow> rtlamrLine option" where
  "line_fields [] l = Some l"
| "line_fields ((k, v) # kvs) l =
     (if equal_fold k ''Time'' then
        (case dec_string v (l_Time l) of None \<Rightarrow> None | Some s \<Rightarrow> line_fields kvs (l\<lparr>l_Time := s\<rparr>))
      else if equal_fold k ''Type'' then
        (case dec_string v (l_Type l) of None \<Rightarrow> None | Some s \<Rightarrow> line_fields kvs (l\<lparr>l_Type := s\<rparr>))
      else if equal_fold k ''Message'' then
        (case dec_number_map v (l_Message l) of None \<Rightarrow> None
         | Some m \<Rightarrow> line_fields kvs (l\<lparr>l_Message := m\<rparr>))
      else line_fields kvs l)"

definition decode_line :: "string \<Rightarrow> rtlamrLine option" where
  "decode_line s = (case parse_json s of
     Some (JObj kvs) \<Rightarrow> line_fields kvs zero_line
   | Some JNull \<Rightarrow> Some zero_line
   | _ \<Rightarrow> None)"

fun pickInt :: "(string \<rightharpoonup> string) \<Rightarrow> string list \<Rightarrow> int option" where
  "pickInt m [] = None"
| "pickInt m (k # ks) =
     (case m k of None \<Rightarrow> pickInt m ks
      | Some v \<Rightarrow> (case parse_int v of Some n \<Rightarrow> Some n | None \<Rightarrow> pickInt m ks))"

fun pickFloat :: "(string \<rightharpoonup> string) \<Rightarrow> string list \<Rightarrow> real option" where
  "pickFloat m [] = None"
| "pickFloat m (k # ks) =
     (case m k of None \<Rightarrow> pickFloat m ks
      | Some v \<Rightarrow> (case parse_float v of Some f \<Rightarrow> Some f | None \<Rightarrow> pickFloat m ks))"

definition parseTime :: "instant \<Rightarrow> string \<Rightarrow> instant" where
  "parseTime now s =
     (if s = [] then now
      else case parse_rfc3339 s of Some t \<Rightarrow> t
           | None \<Rightarrow> (case parse_millis s of Some t \<Rightarrow> t | None \<Rightarrow> now))"

definition ExtractReading :: "instant \<Rightarrow> string \<Rightarrow> string \<Rightarrow> reading option" where
  "ExtractReading now line source =
     (case decode_line line of None \<Rightarrow> None
      | Some l \<Rightarrow>
          (case (pickInt (l_Message l) [''EndpointID'', ''ID'', ''ERTSerialNumber''],
                 pickFloat (l_Message l) [''Consumption'', ''LastConsumptionCount'', ''LastConsumption'']) of
             (Some i, Some cons) \<Rightarrow>
               if cons \<le> 0 then None
               else Some \<lparr>TS = parseTime now (l_Time l), MsgType = l_Type l, EndpointID = i,
                          EndpointType = pickInt (l_Message l) [''EndpointType'', ''Type''],
                          Consumption = Some cons, Source = source\<rparr>
           | _ \<Rightarrow> None))"

lemmas [handler_defs] = ExtractReading_def decode_line_def

section \<open>Synthetic meters\<close>

record mockMeter =
  mm_id :: int
  mm_msg :: string
  mm_etype :: int
  mm_base :: real
  mm_rate :: real

definition mk_mock :: "int \<Rightarrow> string \<Rightarrow> int \<Rightarrow> real \<Rightarrow> real \<Rightarrow> mockMeter" where
  "mk_mock i m e b r = \<lparr>mm_id = i, mm_msg = m, mm_etype = e, mm_base = b, mm_rate = r\<rparr>"

definition mockMeters :: "mockMeter list" where
  "mockMeters =
     [mk_mock 18273645 ''SCM'' 4 100000 (4 / 5), mk_mock 27384956 ''SCM+'' 7 200000 (3 / 2),
      mk_mock 39485012 ''SCM'' 4 300000 (2 / 5), mk_mock 48576123 ''IDM'' 4 400000 (11 / 5),
      mk_mock 55512345 ''SCM'' 2 50000 (1 / 5), mk_mock 66698765 ''SCM'' 11 80000 (1 / 10)]"

definition mockSpikeID :: int where "mockSpikeID = 18273645"
definition mockSpikeRate :: real where "mockSpikeRate = 30"
definition mockSpikeLoMin :: real where "mockSpikeLoMin = 60"
definition mockSpikeHiMin :: real where "mockSpikeHiMin = 150"

definition clamp :: "real \<Rightarrow> real \<Rightarrow> real \<Rightarrow> real" where
  "clamp v lo hi = (if v < lo then lo else if v > hi then hi else v)"

definition mockConsumption :: "mockMeter \<Rightarrow> real \<Rightarrow> real" where
  "mockConsumption m elapsedMin =
     (let v = mm_base m + mm_rate m * elapsedMin in
      if mm_id m = mockSpikeID then
        (let on = clamp elapsedMin mockSpikeLoMin mockSpikeHiMin - mockSpikeLoMin in
         if on > 0 then v + (mockSpikeRate - mm_rate m) * on else v)
      else v)"

text \<open>The verb \<open>%.0f\<close>: rounding half to even.\<close>

definition round_even :: "real \<Rightarrow> int" where
  "round_even x = (let f = \<lfloor>x\<rfloor>; d = x - of_int f in
     if d < 1 / 2 then f else if d > 1 / 2 then f + 1 else if even f then f else f + 1)"

definition fmt_f0 :: "real \<Rightarrow> string" where
  "fmt_f0 v = (if v < 0 then CHR ''-'' # nat_digits (nat (round_even (- v)))
               else nat_digits (nat (round_even v)))"

definition quoted :: "string \<Rightarrow> string" where
  "quoted s = CHR 0x22 # s @ [CHR 0x22]"

definition mockLine :: "mockMeter \<Rightarrow> real \<Rightarrow> instant \<Rightarrow> string" where
  "mockLine m val ts =
     (let t = format_millis ts;
          head = (\<lambda>ty. ''{'' @ quoted ''Time'' @ '':'' @ quoted t @ '','' @ quoted ''Type'' @ '':'' @ quoted ty
                       @ '','' @ quoted ''Message'' @ '':{'')
      in if mm_msg m = ''SCM+'' then
           head ''SCM+'' @ quoted ''EndpointID'' @ '':'' @ format_int (mm_id m) @ '','' @ quoted ''EndpointType''
             @ '':'' @ format_int (mm_etype m) @ '','' @ quoted ''Consumption'' @ '':'' @ fmt_f0 val @ ''}}''
         else if mm_msg m = ''IDM'' then
           head ''IDM'' @ quoted ''ERTSerialNumber'' @ '':'' @ format_int (mm_id m) @ '',''
             @ quoted ''LastConsumptionCount'' @ '':'' @ fmt_f0 val @ ''}}''
         else
           head ''SCM'' @ quoted ''ID'' @ '':'' @ format_int (mm_id m) @ '','' @ quoted ''Type''
             @ '':'' @ format_int (mm_etype m) @ '','' @ quoted ''Consumption'' @ '':'' @ fmt_f0 val @ ''}}'')"


section \<open>Extraction\<close>

lemma pickInt_sound:
  "pickInt m ks = Some n \<Longrightarrow> \<exists>k \<in> set ks. \<exists>v. m k = Some v \<and> parse_int v = Some n"
  by (induction ks) (auto split: option.splits)

lemma pickInt_none:
  "pickInt m ks = None \<longleftrightarrow> (\<forall>k \<in> set ks. \<forall>v. m k = Some v \<longrightarrow> parse_int v = None)"
  by (induction ks) (auto split: option.splits)

lemma pickFloat_sound:
  "pickFloat m ks = Some n \<Longrightarrow> \<exists>k \<in> set ks. \<exists>v. m k = Some v \<and> parse_float v = Some n"
  by (induction ks) (auto split: option.splits)

lemma pickInt_range:
  "pickInt m ks = Some n \<Longrightarrow> int64_min \<le> n \<and> n \<le> int64_max"
  using parse_int_range by (blast dest: pickInt_sound)

lemma extract_guard:
  assumes "(case (a, b) of (Some i, Some cons) \<Rightarrow> if cons \<le> 0 then None else Some (f i cons) | _ \<Rightarrow> None) = Some r"
  shows "\<exists>i c. a = Some i \<and> b = Some c \<and> (0 :: real) < c \<and> r = f i c"
  using assms by (auto split: option.splits if_splits)

lemma ExtractReading_cases:
  assumes "ExtractReading now line source = Some r"
  obtains l i c where "decode_line line = Some l"
    "pickInt (l_Message l) [''EndpointID'', ''ID'', ''ERTSerialNumber''] = Some i"
    "pickFloat (l_Message l) [''Consumption'', ''LastConsumptionCount'', ''LastConsumption''] = Some c"
    "0 < c"
    "r = \<lparr>TS = parseTime now (l_Time l), MsgType = l_Type l, EndpointID = i,
          EndpointType = pickInt (l_Message l) [''EndpointType'', ''Type''],
          Consumption = Some c, Source = source\<rparr>"
proof -
  from assms obtain l where l: "decode_line line = Some l"
    unfolding ExtractReading_def by (cases "decode_line line") simp_all
  note * = extract_guard [OF assms [unfolded ExtractReading_def l option.case]]
  from * obtain i c where "pickInt (l_Message l) [''EndpointID'', ''ID'', ''ERTSerialNumber''] = Some i"
    "pickFloat (l_Message l) [''Consumption'', ''LastConsumptionCount'', ''LastConsumption''] = Some c" "0 < c"
    "r = \<lparr>TS = parseTime now (l_Time l), MsgType = l_Type l, EndpointID = i,
          EndpointType = pickInt (l_Message l) [''EndpointType'', ''Type''],
          Consumption = Some c, Source = source\<rparr>" by (elim exE conjE)
  then show ?thesis by (rule that [OF l])
qed

section \<open>The synthetic lines decode to the synthetic meter\<close>

definition clean_text :: "string \<Rightarrow> bool" where
  "clean_text t \<longleftrightarrow> list_all (\<lambda>c. c \<noteq> CHR 0x22 \<and> c \<noteq> CHR 0x5C \<and> 32 \<le> code_of c) t"

lemma string_body_quoted:
  "clean_text t \<Longrightarrow> string_body (length (t @ CHR 0x22 # r)) (t @ CHR 0x22 # r) = Some (t, r)"
  by (rule string_body_clean) (auto simp: clean_text_def list_all_iff)

lemma skip_ws_quote [simp]: "skip_ws (CHR 0x22 # s) = CHR 0x22 # s"
  by (simp add: skip_ws_def json_ws_def code_of_def)

lemma p_value_quoted: "clean_text t \<Longrightarrow> p_value (Suc n) (quoted t @ r) = Some (JStr t, r)"
  using string_body_quoted [of t r] by (simp add: quoted_def)

lemma p_members_key:
  assumes "clean_text k" "p_value n cs = Some (v, e # es)" "skip_ws (e # es) = e # es"
  shows "p_members (Suc n) (quoted k @ CHR '':'' # cs) =
    (if e = CHR ''}'' then Some ([(k, v)], es)
     else if e = CHR '','' then map_option (\<lambda>(ms, r'). ((k, v) # ms, r')) (p_members n es) else None)"
proof -
  have "skip_ws (CHR '':'' # cs) = CHR '':'' # cs"
    by (simp add: skip_ws_def json_ws_def code_of_def)
  then show ?thesis
    using string_body_quoted [OF assms(1), of "CHR '':'' # cs"] assms(2,3) by (simp add: quoted_def)
qed

lemma p_value_object:
  "p_members n (quoted k @ r) = Some (ms, r') \<Longrightarrow> p_value (Suc n) (CHR ''{'' # quoted k @ r) = Some (JObj ms, r')"
  by (simp add: skip_ws_def json_ws_def code_of_def quoted_def)

lemma p_value_nat_digits:
  assumes "\<not> is_digit c" "c \<noteq> CHR ''.''" "c \<noteq> CHR ''e''" "c \<noteq> CHR ''E''"
  shows "p_value (Suc n) (nat_digits k @ c # r) = Some (JNum (nat_digits k), c # r)"
proof -
  obtain d ds where d: "nat_digits k = d # ds" and dig: "is_digit d"
    using nat_digits_first_char by blast
  have ws: "skip_ws (d # ds @ c # r) = d # ds @ c # r"
    using dig by (auto simp: skip_ws_def json_ws_def is_digit_def)
  have ne: "d \<noteq> CHR ''{''" "d \<noteq> CHR ''[''" "d \<noteq> CHR 0x22" "d \<noteq> CHR ''n''" "d \<noteq> CHR ''t''" "d \<noteq> CHR ''f''"
    using dig by (auto simp: is_digit_def code_of_def)
  show ?thesis
    using lex_number_nat_digits [OF assms, of k r] d ws ne by simp
qed


lemma skip_ws_punct:
  "skip_ws (CHR '','' # s) = CHR '','' # s" "skip_ws (CHR ''}'' # s) = CHR ''}'' # s" "skip_ws [] = []"
  by (simp_all add: skip_ws_def json_ws_def code_of_def)

lemma num_punct:
  "\<not> is_digit (CHR '','')" "\<not> is_digit (CHR ''}'')"
  by (simp_all add: is_digit_def code_of_def)

lemma members_number_more:
  assumes "clean_text k" "p_members n es = Some (ms, r)" "0 < n"
  shows "p_members (Suc n) (quoted k @ '':'' @ nat_digits v @ '','' @ es) = Some ((k, JNum (nat_digits v)) # ms, r)"
proof -
  obtain m where "n = Suc m" using assms(3) by (cases n) auto
  with assms show ?thesis
    using p_members_key [OF assms(1) p_value_nat_digits [of "CHR '',''" m v es]]
    by (simp add: num_punct skip_ws_punct)
qed

lemma members_number_last:
  assumes "clean_text k" "0 < n"
  shows "p_members (Suc n) (quoted k @ '':'' @ nat_digits v @ ''}'' @ es) = Some ([(k, JNum (nat_digits v))], es)"
proof -
  obtain m where "n = Suc m" using assms(2) by (cases n) auto
  with assms show ?thesis
    using p_members_key [OF assms(1) p_value_nat_digits [of "CHR ''}''" m v es]]
    by (simp add: num_punct skip_ws_punct)
qed

lemma members_text_more:
  assumes "clean_text k" "clean_text t" "p_members n es = Some (ms, r)" "0 < n"
  shows "p_members (Suc n) (quoted k @ '':'' @ quoted t @ '','' @ es) = Some ((k, JStr t) # ms, r)"
proof -
  obtain m where "n = Suc m" using assms(4) by (cases n) auto
  with assms show ?thesis
    using p_members_key [OF assms(1) p_value_quoted [OF assms(2), of m "CHR '','' # es"]]
    by (simp add: skip_ws_punct)
qed

lemma members_object_last:
  assumes "clean_text k" "p_members n (quoted j @ body) = Some (ms, CHR ''}'' # r)"
  shows "p_members (Suc (Suc n)) (quoted k @ '':{'' @ quoted j @ body) = Some ([(k, JObj ms)], r)"
  using p_members_key [OF assms(1) p_value_object [OF assms(2)]] by (simp add: skip_ws_punct)

lemma clean_pad_digits: "clean_text (pad_digits w n)"
proof -
  have "is_digit c \<Longrightarrow> c \<noteq> CHR 0x22 \<and> c \<noteq> CHR 0x5C \<and> 32 \<le> code_of c" for c
    by (auto simp: is_digit_def code_of_def)
  moreover have "is_digit (CHR ''0'')" by (simp add: is_digit_def code_of_def)
  ultimately show ?thesis
    using nat_digits_all_digits [of n] by (auto simp: clean_text_def pad_digits_def list_all_iff)
qed

lemma clean_text_append: "clean_text (s @ t) \<longleftrightarrow> clean_text s \<and> clean_text t"
  by (simp add: clean_text_def)

lemma clean_format_millis: "clean_text (format_millis t)"
proof -
  have "clean_text ''-''" "clean_text ''T''" "clean_text '':''" "clean_text ''.''" "clean_text ''Z''"
    by (simp_all add: clean_text_def code_of_def)
  then show ?thesis
    by (cases "utc_date t")
       (simp add: format_millis_def format_clock_def clean_text_append clean_pad_digits Let_def del: append.simps)
qed

lemma decode_mock_shape:
  assumes "clean_text t" "clean_text ty"
    "\<And>n. 4 \<le> n \<Longrightarrow> p_members n (quoted j @ body) = Some (ms, CHR ''}'' # [])"
  shows "decode_line (''{'' @ quoted ''Time'' @ '':'' @ quoted t @ '','' @ quoted ''Type'' @ '':'' @ quoted ty
           @ '','' @ quoted ''Message'' @ '':{'' @ quoted j @ body)
       = line_fields [(''Message'', JObj ms)] (zero_line\<lparr>l_Time := t, l_Type := ty\<rparr>)"
proof -
  let ?m = "quoted ''Message'' @ '':{'' @ quoted j @ body"
  let ?y = "quoted ''Type'' @ '':'' @ quoted ty @ '','' @ ?m"
  let ?s = "''{'' @ quoted ''Time'' @ '':'' @ quoted t @ '','' @ ?y"
  have cl: "clean_text ''Time''" "clean_text ''Type''" "clean_text ''Message''"
    by (simp_all add: clean_text_def code_of_def)
  have "20 \<le> length ?s" by (simp add: quoted_def)
  then have "\<exists>n. 2 * length ?s + 2 = Suc (Suc (Suc (Suc (Suc n)))) \<and> 4 \<le> n" by presburger
  then obtain n where n: "2 * length ?s + 2 = Suc (Suc (Suc (Suc (Suc n))))" "4 \<le> n" by auto
  have m: "p_members (Suc (Suc n)) ?m = Some ([(''Message'', JObj ms)], [])"
    by (rule members_object_last [OF cl(3) assms(3) [OF n(2)]])
  have y: "p_members (Suc (Suc (Suc n))) ?y = Some ([(''Type'', JStr ty), (''Message'', JObj ms)], [])"
    by (rule members_text_more [OF cl(2) assms(2) m]) simp
  have t: "p_members (Suc (Suc (Suc (Suc n)))) (quoted ''Time'' @ '':'' @ quoted t @ '','' @ ?y)
     = Some ([(''Time'', JStr t), (''Type'', JStr ty), (''Message'', JObj ms)], [])"
    by (rule members_text_more [OF cl(1) assms(1) y]) simp
  have "p_value (2 * length ?s + 2) ?s
     = Some (JObj [(''Time'', JStr t), (''Type'', JStr ty), (''Message'', JObj ms)], [])"
    unfolding n(1) using p_value_object [OF t] by simp
  then have "parse_json ?s = Some (JObj [(''Time'', JStr t), (''Type'', JStr ty), (''Message'', JObj ms)])"
    unfolding parse_json_def by (simp add: skip_ws_punct)
  then show ?thesis
    unfolding decode_line_def
    by (simp add: equal_fold_def to_lower_def lower_char_def code_of_def)
qed


lemma parse_float_nat_digits:
  assumes "0 < n" "n < 2 ^ 63"
  shows "parse_float (nat_digits n) = Some (real n)"
proof -
  obtain d ds where d: "nat_digits n = d # ds" "is_digit d" using nat_digits_first_char by blast
  have val: "digits_value (nat_digits n) = n" by (simp add: digits_value_def nat_digits_value)
  have "real n < 2 ^ 63" using assms(2) by (metis of_nat_less_numeral_power_cancel_iff)
  also have "(2 :: real) ^ 63 \<le> 2 ^ 1000" by (rule power_increasing) simp_all
  finally have "\<not> float_overflow \<le> real n" by (intro not_float_overflow less_imp_le)
  moreover have "\<not> real n \<le> float_underflow" using assms(1) by (intro not_float_underflow) simp
  ultimately show ?thesis
    using hd_nat_digits [of n] val by (simp add: parse_float_def Let_def)
qed

lemma pick_simps [simp]:
  "m k = None \<Longrightarrow> pickInt m (k # ks) = pickInt m ks"
  "m k = Some v \<Longrightarrow> parse_int v = Some n \<Longrightarrow> pickInt m (k # ks) = Some n"
  "m k = None \<Longrightarrow> pickFloat m (k # ks) = pickFloat m ks"
  "m k = Some v \<Longrightarrow> parse_float v = Some f \<Longrightarrow> pickFloat m (k # ks) = Some f"
  by simp_all

definition mock_ok :: "mockMeter \<Rightarrow> bool" where
  "mock_ok m \<longleftrightarrow> mm_msg m \<in> {''SCM'', ''SCM+'', ''IDM''} \<and> 0 \<le> mm_id m \<and> mm_id m \<le> int64_max
     \<and> 0 \<le> mm_etype m \<and> mm_etype m \<le> int64_max"

text \<open>What the decoder reads from a synthetic line.\<close>

definition mock_reading :: "mockMeter \<Rightarrow> real \<Rightarrow> instant \<Rightarrow> string \<Rightarrow> reading" where
  "mock_reading m val t source =
     \<lparr>TS = t div 1000000 * 1000000, MsgType = mm_msg m, EndpointID = mm_id m,
      EndpointType = (if mm_msg m = ''IDM'' then None else Some (mm_etype m)),
      Consumption = Some (of_int (round_even val)), Source = source\<rparr>"

lemma clean_texts:
  "clean_text ''SCM''" "clean_text ''SCM+''" "clean_text ''IDM''" "clean_text ''EndpointID''" "clean_text ''ID''"
  "clean_text ''ERTSerialNumber''" "clean_text ''EndpointType''" "clean_text ''Type''"
  "clean_text ''Consumption''" "clean_text ''LastConsumptionCount''"
  by (simp_all add: clean_text_def code_of_def)

lemma members_three:
  assumes "clean_text k1" "clean_text k2" "clean_text k3" "4 \<le> n"
  shows "p_members n (quoted k1 @ '':'' @ nat_digits a @ '','' @ quoted k2 @ '':'' @ nat_digits b @ '',''
           @ quoted k3 @ '':'' @ nat_digits c @ ''}}'')
    = Some ([(k1, JNum (nat_digits a)), (k2, JNum (nat_digits b)), (k3, JNum (nat_digits c))], ''}'')"
proof -
  from assms(4) have "\<exists>m. n = Suc (Suc (Suc m)) \<and> 0 < m" by presburger
  then obtain m where m: "n = Suc (Suc (Suc m))" "0 < m" by auto
  have 3: "p_members (Suc m) (quoted k3 @ '':'' @ nat_digits c @ ''}}'') = Some ([(k3, JNum (nat_digits c))], ''}'')"
    using members_number_last [OF assms(3) m(2), of c "''}''"] by simp
  show ?thesis unfolding m(1)
    by (rule members_number_more [OF assms(1) members_number_more [OF assms(2) 3]]) simp_all
qed

lemma members_two:
  assumes "clean_text k1" "clean_text k2" "4 \<le> n"
  shows "p_members n (quoted k1 @ '':'' @ nat_digits a @ '','' @ quoted k2 @ '':'' @ nat_digits b @ ''}}'')
    = Some ([(k1, JNum (nat_digits a)), (k2, JNum (nat_digits b))], ''}'')"
proof -
  from assms(3) have "\<exists>m. n = Suc (Suc m) \<and> 0 < m" by presburger
  then obtain m where m: "n = Suc (Suc m)" "0 < m" by auto
  have 2: "p_members (Suc m) (quoted k2 @ '':'' @ nat_digits b @ ''}}'') = Some ([(k2, JNum (nat_digits b))], ''}'')"
    using members_number_last [OF assms(2) m(2), of b "''}''"] by simp
  show ?thesis unfolding m(1) by (rule members_number_more [OF assms(1) 2]) simp
qed

text \<open>
  A synthetic line (\<open>mockLine\<close>) of any of the three message shapes is decoded by
  \<open>ExtractReading\<close> to exactly the meter, value (rounded to a whole count) and time
  (truncated to milliseconds) it was printed from, whatever the wall clock says.
\<close>

theorem mock_roundtrip:
  assumes "mock_ok m" "printable ts" "1 \<le> round_even val" "round_even val \<le> int64_max" "0 \<le> val"
  shows "ExtractReading now (mockLine m val ts) source = Some (mock_reading m val ts source)"
proof -
  have pt: "parseTime now (format_millis ts) = ts div 1000000 * 1000000"
    using parse_format_millis [OF assms(2)]
    by (simp add: parseTime_def format_millis_def)
  have fi: "format_int (mm_id m) = nat_digits (nat (mm_id m))" "format_int (mm_etype m) = nat_digits (nat (mm_etype m))"
    and ff: "fmt_f0 val = nat_digits (nat (round_even val))"
    using assms(1,5) by (simp_all add: format_int_def fmt_f0_def mock_ok_def)
  have pi: "parse_int (nat_digits (nat (mm_id m))) = Some (mm_id m)"
    "parse_int (nat_digits (nat (mm_etype m))) = Some (mm_etype m)"
    using parse_int_format_int [of "mm_id m"] parse_int_format_int [of "mm_etype m"] fi assms(1)
    by (simp_all add: mock_ok_def int64_min_def)
  have pf: "parse_float (nat_digits (nat (round_even val))) = Some (of_int (round_even val))"
    using parse_float_nat_digits [of "nat (round_even val)"] assms(3,4)
    by (simp add: int64_max_def nat_less_iff)
  note D = decode_mock_shape [OF clean_format_millis]
  consider "mm_msg m = ''SCM+''" | "mm_msg m = ''IDM''" | "mm_msg m = ''SCM''"
    using assms(1) by (auto simp: mock_ok_def)
  then show ?thesis
  proof cases
    case 1
    show ?thesis
      using D [OF clean_texts(2) members_three [OF clean_texts(4,7,9)]] 1 assms(3) pt pi pf
      by (simp add: mockLine_def ExtractReading_def fi ff equal_fold_def zero_line_def mock_reading_def
          to_lower_def lower_char_def code_of_def)
  next
    case 2
    show ?thesis
      using D [OF clean_texts(3) members_two [OF clean_texts(6,10)]] 2 assms(3) pt pi pf
      by (simp add: mockLine_def ExtractReading_def fi ff equal_fold_def zero_line_def mock_reading_def
          to_lower_def lower_char_def code_of_def)
  next
    case 3
    show ?thesis
      using D [OF clean_texts(1) members_three [OF clean_texts(5,8,9)]] 3 assms(3) pt pi pf
      by (simp add: mockLine_def ExtractReading_def fi ff equal_fold_def zero_line_def mock_reading_def
          to_lower_def lower_char_def code_of_def)
  qed
qed


lemma mock_roundtrip_witness:
  "ExtractReading 5 (mockLine (mockMeters ! 0) 100000 0) ''rtl'' = Some (mock_reading (mockMeters ! 0) 100000 0 ''rtl'')"
proof (rule mock_roundtrip)
  show "mock_ok (mockMeters ! 0)" by (simp add: mock_ok_def mockMeters_def mk_mock_def int64_max_def)
  show "printable 0" by code_simp
  have "round_even 100000 = 100000" by (simp add: round_even_def)
  then show "1 \<le> round_even 100000" "round_even 100000 \<le> int64_max" by (simp_all add: int64_max_def)
qed simp

text \<open>
  C3. Whatever line \<open>ExtractReading\<close> accepts, the reading has a positive consumption, the
  source it was called with, a 64-bit endpoint id that one of the three id fields of the
  message spells in decimal, and a consumption that one of the three counter fields spells.
\<close>

theorem extract_sound:
  assumes "ExtractReading now line source = Some r"
  shows "Source r = source \<and> int64_min \<le> EndpointID r \<and> EndpointID r \<le> int64_max
    \<and> (\<exists>c > 0. Consumption r = Some c
         \<and> (\<exists>l. decode_line line = Some l \<and> MsgType r = l_Type l
              \<and> (\<exists>k \<in> {''EndpointID'', ''ID'', ''ERTSerialNumber''}. \<exists>v. l_Message l k = Some v \<and> parse_int v = Some (EndpointID r))
              \<and> (\<exists>k \<in> {''Consumption'', ''LastConsumptionCount'', ''LastConsumption''}. \<exists>v. l_Message l k = Some v \<and> parse_float v = Some c)))"
  using assms
proof (rule ExtractReading_cases)
  fix l i c
  assume *: "decode_line line = Some l"
    "pickInt (l_Message l) [''EndpointID'', ''ID'', ''ERTSerialNumber''] = Some i"
    "pickFloat (l_Message l) [''Consumption'', ''LastConsumptionCount'', ''LastConsumption''] = Some c" "0 < c"
    "r = \<lparr>TS = parseTime now (l_Time l), MsgType = l_Type l, EndpointID = i,
          EndpointType = pickInt (l_Message l) [''EndpointType'', ''Type''],
          Consumption = Some c, Source = source\<rparr>"
  from pickInt_sound [OF *(2)] pickFloat_sound [OF *(3)] pickInt_range [OF *(2)] * show ?thesis by auto
qed

lemma small_line_json:
  "parse_json (''{'' @ quoted ''Message'' @ '':{'' @ quoted ''ID'' @ '':7,'' @ quoted ''Consumption'' @ '':9}}'')
   = Some (JObj [(''Message'', JObj [(''ID'', JNum ''7''), (''Consumption'', JNum ''9'')])])"
  by code_simp

lemma extract_small_line:
  "ExtractReading 5 (''{'' @ quoted ''Message'' @ '':{'' @ quoted ''ID'' @ '':7,'' @ quoted ''Consumption'' @ '':9}}'') ''rtl''
   = Some \<lparr>TS = 5, MsgType = [], EndpointID = 7, EndpointType = None, Consumption = Some 9, Source = ''rtl''\<rparr>"
proof -
  have "decode_line (''{'' @ quoted ''Message'' @ '':{'' @ quoted ''ID'' @ '':7,'' @ quoted ''Consumption'' @ '':9}}'')
    = line_fields [(''Message'', JObj [(''ID'', JNum ''7''), (''Consumption'', JNum ''9'')])] zero_line"
    using small_line_json by (simp add: decode_line_def)
  moreover have "format_int 7 = ''7''" "nat_digits 9 = ''9''" by code_simp+
  then have "parse_int ''7'' = Some 7" "parse_float ''9'' = Some 9"
    using parse_int_format_int [of 7] parse_float_nat_digits [of 9] by (simp_all add: int64_min_def int64_max_def)
  ultimately show ?thesis
    by (simp add: ExtractReading_def equal_fold_def to_lower_def lower_char_def code_of_def zero_line_def parseTime_def)
qed

lemma extract_sound_witness:
  "\<exists>r. ExtractReading 5 (''{'' @ quoted ''Message'' @ '':{'' @ quoted ''ID'' @ '':7,'' @ quoted ''Consumption'' @ '':9}}'') ''rtl''
    = Some r \<and> Source r = ''rtl'' \<and> (\<exists>c > 0. Consumption r = Some c)"
  using extract_sound [OF extract_small_line] extract_small_line by auto

end
