(* ===== verification/Config.thy ===== *)
theory Config
  imports Json
begin

text \<open>
  The runtime configuration of \<open>internal/config/config.go\<close>: the settings map of the
  database laid over environment defaults, the per-dongle overrides, and the JSON settings.
  \<open>os.Getenv\<close> is the argument \<open>getenv\<close> (the empty string for an unset name). \<open>Unmarshal\<close>
  keeps going after a value of the wrong type and its error is dropped by most callers, so
  those decoders are total: a bad value leaves what Go leaves there.
\<close>

section \<open>Keys\<close>

definition SecretKeys :: "string list" where
  "SecretKeys = [''ha_token'', ''mqtt_pass'', ''agent_server_priv'', ''agent_tls_key'']"

section \<open>Tolerant decoding\<close>

definition dec_string_lax :: "json \<Rightarrow> string \<Rightarrow> string" where
  "dec_string_lax v old = (case dec_string v old of Some s \<Rightarrow> s | None \<Rightarrow> old)"

text \<open>A \<open>*bool\<close>: null clears it; a value of another type leaves a pointer to the old or zero value.\<close>

fun dec_boolptr_lax :: "json \<Rightarrow> bool option \<Rightarrow> bool option" where
  "dec_boolptr_lax (JBool b) old = Some b"
| "dec_boolptr_lax JNull old = None"
| "dec_boolptr_lax _ old = Some (case old of Some b \<Rightarrow> b | None \<Rightarrow> False)"

record AuthorizedAgent =
  aa_Label :: string
  aa_PubKey :: string

fun agent_fields :: "(string \<times> json) list \<Rightarrow> AuthorizedAgent \<Rightarrow> AuthorizedAgent" where
  "agent_fields [] a = a"
| "agent_fields ((k, v) # kvs) a = agent_fields kvs
     (if equal_fold k ''label'' then a\<lparr>aa_Label := dec_string_lax v (aa_Label a)\<rparr>
      else if equal_fold k ''pubkey'' then a\<lparr>aa_PubKey := dec_string_lax v (aa_PubKey a)\<rparr> else a)"

definition dec_agent :: "json \<Rightarrow> AuthorizedAgent" where
  "dec_agent v = (let z = \<lparr>aa_Label = [], aa_PubKey = []\<rparr> in case v of JObj kvs \<Rightarrow> agent_fields kvs z | _ \<Rightarrow> z)"

definition ParseAuthorizedAgents :: "string \<Rightarrow> AuthorizedAgent list" where
  "ParseAuthorizedAgents v =
     (let v' = trim_space v in
      if v' = [] then []
      else case parse_json v' of Some (JArr vs) \<Rightarrow> map dec_agent vs | _ \<Rightarrow> [])"

section \<open>Capture settings\<close>

record DeviceConfig =
  dc_Enabled :: "bool option"
  dc_Label :: string
  dc_Freq :: string
  dc_Gain :: string
  dc_PPM :: string
  dc_MsgType :: string
  dc_FilterID :: string

definition zero_device :: DeviceConfig where
  "zero_device = \<lparr>dc_Enabled = None, dc_Label = [], dc_Freq = [], dc_Gain = [], dc_PPM = [], dc_MsgType = [], dc_FilterID = []\<rparr>"

record CaptureConfig =
  cc_Freq :: string
  cc_Gain :: string
  cc_PPM :: string
  cc_MsgType :: string
  cc_FilterID :: string
  cc_Devices :: "string \<rightharpoonup> DeviceConfig"

definition device_of :: "CaptureConfig \<Rightarrow> string \<Rightarrow> DeviceConfig" where
  "device_of c source = (case cc_Devices c source of None \<Rightarrow> zero_device | Some d \<Rightarrow> d)"

definition DeviceEnabled :: "CaptureConfig \<Rightarrow> string \<Rightarrow> bool" where
  "DeviceEnabled c source =
     (case cc_Devices c source of None \<Rightarrow> True
      | Some d \<Rightarrow> (case dc_Enabled d of None \<Rightarrow> True | Some b \<Rightarrow> b))"

definition pick :: "string \<Rightarrow> string \<Rightarrow> string" where
  "pick override def = (if override \<noteq> [] then override else def)"

definition DeviceFreq :: "CaptureConfig \<Rightarrow> string \<Rightarrow> string" where
  "DeviceFreq c source = pick (dc_Freq (device_of c source)) (cc_Freq c)"
definition DeviceGain :: "CaptureConfig \<Rightarrow> string \<Rightarrow> string" where
  "DeviceGain c source = pick (dc_Gain (device_of c source)) (cc_Gain c)"
definition DevicePPM :: "CaptureConfig \<Rightarrow> string \<Rightarrow> string" where
  "DevicePPM c source = pick (dc_PPM (device_of c source)) (cc_PPM c)"
definition DeviceMsgType :: "CaptureConfig \<Rightarrow> string \<Rightarrow> string" where
  "DeviceMsgType c source = pick (dc_MsgType (device_of c source)) (cc_MsgType c)"
definition DeviceFilterID :: "CaptureConfig \<Rightarrow> string \<Rightarrow> string" where
  "DeviceFilterID c source = pick (dc_FilterID (device_of c source)) (cc_FilterID c)"

fun device_fields :: "(string \<times> json) list \<Rightarrow> DeviceConfig \<Rightarrow> DeviceConfig" where
  "device_fields [] d = d"
| "device_fields ((k, v) # kvs) d = device_fields kvs
     (if equal_fold k ''enabled'' then d\<lparr>dc_Enabled := dec_boolptr_lax v (dc_Enabled d)\<rparr>
      else if equal_fold k ''label'' then d\<lparr>dc_Label := dec_string_lax v (dc_Label d)\<rparr>
      else if equal_fold k ''freq'' then d\<lparr>dc_Freq := dec_string_lax v (dc_Freq d)\<rparr>
      else if equal_fold k ''gain'' then d\<lparr>dc_Gain := dec_string_lax v (dc_Gain d)\<rparr>
      else if equal_fold k ''ppm'' then d\<lparr>dc_PPM := dec_string_lax v (dc_PPM d)\<rparr>
      else if equal_fold k ''msgtype'' then d\<lparr>dc_MsgType := dec_string_lax v (dc_MsgType d)\<rparr>
      else if equal_fold k ''filterid'' then d\<lparr>dc_FilterID := dec_string_lax v (dc_FilterID d)\<rparr> else d)"

definition dec_device :: "json \<Rightarrow> DeviceConfig" where
  "dec_device v = (case v of JObj kvs \<Rightarrow> device_fields kvs zero_device | _ \<Rightarrow> zero_device)"

definition parseDevices :: "string \<Rightarrow> (string \<rightharpoonup> DeviceConfig)" where
  "parseDevices v =
     (let v' = trim_space v in
      if v' = [] then Map.empty
      else case parse_json v' of Some (JObj kvs) \<Rightarrow> map_of (rev (map (\<lambda>(k, d). (k, dec_device d)) kvs)) | _ \<Rightarrow> Map.empty)"

section \<open>Lists of entities\<close>

definition cleanEntities :: "string list \<Rightarrow> string list" where
  "cleanEntities xs = filter (\<lambda>e. e \<noteq> []) (map trim_space xs)"

text \<open>\<open>Unmarshal\<close> into a \<open>[]string\<close> that must not fail: every element a string or null.\<close>

fun dec_strings :: "json list \<Rightarrow> string list option" where
  "dec_strings [] = Some []"
| "dec_strings (v # vs) =
     (case dec_string v [] of None \<Rightarrow> None | Some s \<Rightarrow> map_option (\<lambda>ss. s # ss) (dec_strings vs))"

definition parseEntities :: "string \<Rightarrow> string list" where
  "parseEntities v0 =
     (let v = trim_space v0 in
      if v = [] then []
      else case (if has_prefix v ''['' then (case parse_json v of Some (JArr vs) \<Rightarrow> dec_strings vs | _ \<Rightarrow> None) else None) of
             Some out \<Rightarrow> cleanEntities out
           | None \<Rightarrow> cleanEntities (split_on (CHR '','') v))"

section \<open>Numbers\<close>

text \<open>The value \<open>strconv.Atoi\<close> returns beside its error: zero, or the nearest end of the range.\<close>

definition atoi_value :: "string \<Rightarrow> int" where
  "atoi_value s =
     (case parse_int s of Some n \<Rightarrow> n
      | None \<Rightarrow>
          (let neg = (s \<noteq> [] \<and> hd s = CHR ''-'');
               body = (if s \<noteq> [] \<and> (hd s = CHR ''-'' \<or> hd s = CHR ''+'') then tl s else s)
           in case parse_uint body of None \<Rightarrow> 0 | Some n \<Rightarrow> if neg then int64_min else int64_max))"

text \<open>Likewise for \<open>strconv.ParseFloat\<close>; a literal out of range, infinite in Go, is 0 here.\<close>

definition float_value :: "string \<Rightarrow> real" where
  "float_value s = (case parse_float s of Some v \<Rightarrow> v | None \<Rightarrow> 0)"

definition kwFormatRE :: "string \<Rightarrow> bool" where
  "kwFormatRE s =
     (let a = takeWhile is_digit s; r = dropWhile is_digit s in
      if r = [] then a \<noteq> [] else hd r = CHR ''.'' \<and> tl r \<noteq> [] \<and> list_all is_digit (tl r))"

definition parseKW :: "string \<Rightarrow> real" where
  "parseKW s0 =
     (let s = trim_space s0 in
      if \<not> kwFormatRE s then 0
      else case parse_float s of None \<Rightarrow> 0 | Some v \<Rightarrow> v)"

text \<open>
  The same setting read in SQL (\<open>settingKW\<close>): \<open>btrim\<close> takes only the space character, and a
  number out of the range of double precision fails the statement (None).
\<close>

definition btrim :: "string \<Rightarrow> string" where
  "btrim s = rev (dropWhile (\<lambda>c. c = CHR '' '') (rev (dropWhile (\<lambda>c. c = CHR '' '') s)))"

definition settingKW :: "(string \<rightharpoonup> string) \<Rightarrow> string \<Rightarrow> real option" where
  "settingKW m key =
     (case m key of None \<Rightarrow> Some 0
      | Some v \<Rightarrow> if kwFormatRE (btrim v) then parse_float (btrim v) else Some 0)"

section \<open>The configuration\<close>

record Config =
  HAURL :: string
  HAToken :: string
  MQTTHost :: string
  MQTTPort :: int
  MQTTUser :: string
  MQTTPass :: string
  MQTTPrefix :: string
  MonitoredEntities :: "string list"
  UtilityStatisticID :: string
  UtilityPeriod :: string
  UtilityUnit :: string
  HATimeZone :: string
  ThresholdW :: real
  AutoWindow :: bool
  DefaultMultiplier :: real
  DefaultUnit :: string
  Capture :: CaptureConfig
  CostPerKwh :: real
  Currency :: string
  HVACEntityID :: string
  HVACHeatingKW :: real
  HVACCoolingKW :: real

definition env :: "(string \<Rightarrow> string) \<Rightarrow> string \<Rightarrow> string \<Rightarrow> string" where
  "env getenv k def = (if k \<noteq> [] \<and> getenv k \<noteq> [] then getenv k else def)"

definition get_setting :: "(string \<Rightarrow> string) \<Rightarrow> (string \<rightharpoonup> string) \<Rightarrow> string \<Rightarrow> string \<Rightarrow> string \<Rightarrow> string" where
  "get_setting getenv m key envName def =
     (case m key of Some v \<Rightarrow> if v \<noteq> [] then v else env getenv envName def
      | None \<Rightarrow> env getenv envName def)"

definition utilityPeriod :: "string \<Rightarrow> string" where
  "utilityPeriod v =
     (let p = to_lower (trim_space v) in
      if p = ''month'' \<or> p = ''day'' \<or> p = ''hour'' then p else ''auto'')"

definition capture_from :: "(string \<Rightarrow> string \<Rightarrow> string \<Rightarrow> string) \<Rightarrow> CaptureConfig" where
  "capture_from get =
     \<lparr>cc_Freq = get ''scan_freq'' ''FREQ'' ''912600155'', cc_Gain = get ''scan_gain'' ''GAIN'' [],
      cc_PPM = get ''scan_ppm'' ''PPM'' ''0'', cc_MsgType = get ''scan_msgtype'' ''RTLAMR_MSGTYPE'' ''scm,scm+,idm'',
      cc_FilterID = get ''scan_filterid'' ''RTLAMR_FILTERID'' [], cc_Devices = parseDevices (get ''capture_devices'' [] [])\<rparr>"

definition FromMap :: "(string \<Rightarrow> string) \<Rightarrow> (string \<rightharpoonup> string) \<Rightarrow> Config" where
  "FromMap getenv m =
     (let get = get_setting getenv m;
          port0 = atoi_value (get ''mqtt_port'' ''MQTT_PORT'' ''1883'');
          port = (if port0 = 0 then 1883 else port0);
          autoWin = get ''auto_window'' [] ''1'';
          mult0 = float_value (get ''default_multiplier'' [] ''1'')
      in \<lparr>HAURL = get ''ha_url'' ''HA_URL'' [], HAToken = get ''ha_token'' ''HA_TOKEN'' [],
          MQTTHost = get ''mqtt_host'' ''MQTT_HOST'' [], MQTTPort = port,
          MQTTUser = get ''mqtt_user'' ''MQTT_USER'' [], MQTTPass = get ''mqtt_pass'' ''MQTT_PASSWORD'' [],
          MQTTPrefix = get ''mqtt_prefix'' ''MQTT_PREFIX'' ''homeassistant'',
          MonitoredEntities = parseEntities (get ''monitored_entities'' [] []),
          UtilityStatisticID = trim_space (get ''utility_statistic_id'' [] []),
          UtilityPeriod = utilityPeriod (get ''utility_period'' [] ''auto''),
          UtilityUnit = get ''utility_unit'' [] ''kWh'', HATimeZone = get ''ha_time_zone'' [] ''UTC'',
          ThresholdW = float_value (get ''threshold_w'' [] ''400''),
          AutoWindow = (autoWin = ''1'' \<or> equal_fold autoWin ''true''),
          DefaultMultiplier = (if mult0 = 0 then 1 else mult0), DefaultUnit = get ''default_unit'' [] [],
          Capture = capture_from get, CostPerKwh = float_value (get ''cost_per_kwh'' [] ''0''),
          Currency = get ''currency'' [] ''$'',
          HVACEntityID = trim_space (get ''hvac_entity_id'' [] []),
          HVACHeatingKW = parseKW (get ''hvac_heating_kw'' [] ''0''), HVACCoolingKW = parseKW (get ''hvac_cooling_kw'' [] ''0'')\<rparr>)"

definition HAConfigured :: "Config \<Rightarrow> bool" where "HAConfigured c \<longleftrightarrow> HAURL c \<noteq> [] \<and> HAToken c \<noteq> []"
definition UtilityConfigured :: "Config \<Rightarrow> bool" where "UtilityConfigured c \<longleftrightarrow> UtilityStatisticID c \<noteq> []"
definition MQTTConfigured :: "Config \<Rightarrow> bool" where "MQTTConfigured c \<longleftrightarrow> MQTTHost c \<noteq> []"
definition ReferenceConfigured :: "Config \<Rightarrow> bool" where "ReferenceConfigured c \<longleftrightarrow> length (MonitoredEntities c) > 0"
definition HVACConfigured :: "Config \<Rightarrow> bool" where
  "HVACConfigured c \<longleftrightarrow> HVACEntityID c \<noteq> [] \<and> (HVACHeatingKW c > 0 \<or> HVACCoolingKW c > 0)"

section \<open>The two readings of a kW setting agree\<close>

lemma drop_space_only:
  assumes "\<forall>c \<in> set s. is_space c \<longrightarrow> c = CHR '' ''"
  shows "dropWhile (\<lambda>c. c = CHR '' '') s = dropWhile is_space s"
proof (rule dropWhile_cong [OF refl])
  fix c assume "c \<in> set s"
  moreover have "is_space (CHR '' '')" by (simp add: is_space_def code_of_def)
  ultimately show "(c = CHR '' '') = is_space c" using assms by blast
qed

lemma btrim_trim_space:
  assumes "\<forall>c \<in> set s. is_space c \<longrightarrow> c = CHR '' ''"
  shows "btrim s = trim_space s"
proof -
  have "\<forall>c \<in> set (rev (dropWhile is_space s)). is_space c \<longrightarrow> c = CHR '' ''"
    using assms by (auto dest: set_dropWhileD)
  then show ?thesis
    using assms by (simp add: btrim_def trim_space_def drop_space_only)
qed

lemma parseKW_default: "parseKW ''0'' = 0"
proof -
  have "trim_space ''0'' = ''0''" by (simp add: trim_space_def is_space_def code_of_def)
  moreover have "parse_float ''0'' = Some 0"
    by (simp add: parse_float_def is_digit_def code_of_def digits_value_def digit_val_def float_overflow_def float_underflow_def)
  ultimately show ?thesis by (simp add: parseKW_def Let_def)
qed

definition plain_kw :: "string \<Rightarrow> bool" where
  "plain_kw v \<longleftrightarrow> (\<forall>c \<in> set v. is_space c \<longrightarrow> c = CHR '' '') \<and> (kwFormatRE (trim_space v) \<longrightarrow> parse_float (trim_space v) \<noteq> None)"

lemma settingKW_parseKW:
  assumes "\<forall>v. m key = Some v \<longrightarrow> plain_kw v"
  shows "settingKW m key = Some (parseKW (get_setting getenv m key [] ''0''))"
proof (cases "m key")
  case None
  then show ?thesis by (simp add: settingKW_def get_setting_def env_def parseKW_default)
next
  case (Some v)
  then have p: "plain_kw v" using assms by simp
  have b: "btrim v = trim_space v" using p by (simp add: plain_kw_def btrim_trim_space)
  show ?thesis
  proof (cases "v = []")
    case True
    then show ?thesis
      using Some by (simp add: settingKW_def get_setting_def env_def parseKW_default btrim_def kwFormatRE_def)
  next
    case False
    then show ?thesis
      using Some p b by (auto simp: settingKW_def get_setting_def parseKW_def plain_kw_def)
  qed
qed

text \<open>
  The heating rate the live aggregate uses, parsed in Go, is the rate the stored
  analyses use, read in SQL, whatever is stored under the key or when nothing is, as long
  as its only white space is the space character and it is in the range of a double.
\<close>

theorem kw_paths_agree:
  assumes "\<forall>v. m ''hvac_heating_kw'' = Some v \<longrightarrow> plain_kw v"
  shows "settingKW m ''hvac_heating_kw'' = Some (HVACHeatingKW (FromMap getenv m))"
  using settingKW_parseKW [of m "''hvac_heating_kw''" getenv, OF assms] by (simp add: FromMap_def Let_def)

lemma kw_paths_agree_witness:
  "settingKW [''hvac_heating_kw'' \<mapsto> '' 3.5 ''] ''hvac_heating_kw''
     = Some (HVACHeatingKW (FromMap (\<lambda>_. []) [''hvac_heating_kw'' \<mapsto> '' 3.5 '']))"
proof (rule kw_paths_agree)
  have "trim_space '' 3.5 '' = ''3.5''" by code_simp
  moreover have "parse_float ''3.5'' \<noteq> None"
    by (simp add: parse_float_def is_digit_def code_of_def digits_value_def digit_val_def float_overflow_def float_underflow_def)
  ultimately have "plain_kw '' 3.5 ''" by (simp add: plain_kw_def is_space_def code_of_def)
  then show "\<forall>v. [''hvac_heating_kw'' \<mapsto> '' 3.5 ''] ''hvac_heating_kw'' = Some v \<longrightarrow> plain_kw v" by simp
qed

text \<open>A tab around the number is white space to Go only: the two readings differ.\<close>

lemma kw_tab_differs:
  "settingKW [''hvac_heating_kw'' \<mapsto> [CHR 0x09, CHR ''2'']] ''hvac_heating_kw'' = Some 0
   \<and> HVACHeatingKW (FromMap (\<lambda>_. []) [''hvac_heating_kw'' \<mapsto> [CHR 0x09, CHR ''2'']]) = 2"
proof
  show "settingKW [''hvac_heating_kw'' \<mapsto> [CHR 0x09, CHR ''2'']] ''hvac_heating_kw'' = Some 0"
    by (simp add: settingKW_def btrim_def kwFormatRE_def is_digit_def code_of_def)
  have "trim_space [CHR 0x09, CHR ''2''] = ''2''" by code_simp
  moreover have "kwFormatRE ''2''" by code_simp
  moreover have "\<not> float_overflow \<le> 2" by (rule not_float_overflow) simp
  moreover have "\<not> 2 \<le> float_underflow" by (rule not_float_underflow) simp
  ultimately have "parseKW [CHR 0x09, CHR ''2''] = 2"
    by (simp add: parseKW_def parse_float_def is_digit_def code_of_def digits_value_def digit_val_def)
  then show "HVACHeatingKW (FromMap (\<lambda>_. []) [''hvac_heating_kw'' \<mapsto> [CHR 0x09, CHR ''2'']]) = 2"
    by (simp add: FromMap_def Let_def get_setting_def)
qed

section \<open>The resolved configuration is well formed\<close>

lemma parseKW_nonneg: "0 \<le> parseKW s"
proof (cases "parse_float (trim_space s)")
  case None
  then show ?thesis by (simp add: parseKW_def Let_def)
next
  case (Some v)
  show ?thesis
  proof (cases "kwFormatRE (trim_space s)")
    case True
    then have "trim_space s \<noteq> [] \<longrightarrow> hd (trim_space s) \<noteq> CHR ''-''"
      by (cases "trim_space s") (auto simp: kwFormatRE_def Let_def is_digit_def code_of_def split: if_splits)
    then have "0 \<le> v" using Some by (auto simp: parse_float_def Let_def split: option.splits if_splits prod.splits)
    then show ?thesis using Some by (simp add: parseKW_def Let_def)
  qed (simp add: parseKW_def)
qed

lemma cleanEntities_clean: "e \<in> set (cleanEntities xs) \<Longrightarrow> e \<noteq> [] \<and> trim_space e = e"
  by (auto simp: cleanEntities_def)


section \<open>Entity lists survive their text form\<close>

fun comma_list :: "string list \<Rightarrow> string" where
  "comma_list [] = []"
| "comma_list [e] = e"
| "comma_list (e # f # es) = e @ CHR '','' # comma_list (f # es)"

lemma split_on_none: "d \<notin> set s \<Longrightarrow> split_on d s = [s]"
  by (induction s) auto

lemma split_on_append: "d \<notin> set s \<Longrightarrow> split_on d (s @ d # t) = s # split_on d t"
  by (induction s) auto

lemma split_comma_list:
  "es \<noteq> [] \<Longrightarrow> \<forall>e \<in> set es. CHR '','' \<notin> set e \<Longrightarrow> split_on (CHR '','') (comma_list es) = es"
  by (induction es rule: comma_list.induct) (simp_all add: split_on_none split_on_append)

lemma comma_list_ends:
  "es \<noteq> [] \<Longrightarrow> \<forall>e \<in> set es. e \<noteq> [] \<Longrightarrow> comma_list es \<noteq> [] \<and> hd (comma_list es) = hd (hd es) \<and> last (comma_list es) = last (last es)"
  by (induction es rule: comma_list.induct) auto

lemma trimmed_ends: "e \<noteq> [] \<Longrightarrow> trim_space e = e \<Longrightarrow> \<not> is_space (hd e) \<and> \<not> is_space (last e)"
  using trim_space_no_space_ends [of e] by auto

text \<open>
  A list of entity names written with commas reads back as the same list, when the names
  are not empty, have no comma and no surrounding blanks, and the first does not open a
  bracket.
\<close>

theorem parseEntities_roundtrip:
  assumes "es \<noteq> []" "\<forall>e \<in> set es. e \<noteq> [] \<and> CHR '','' \<notin> set e \<and> trim_space e = e" "hd (hd es) \<noteq> CHR ''[''"
  shows "parseEntities (comma_list es) = es"
proof -
  have ends: "comma_list es \<noteq> []" "hd (comma_list es) = hd (hd es)" "last (comma_list es) = last (last es)"
    using comma_list_ends [of es] assms(1,2) by auto
  have "\<not> is_space (hd (comma_list es)) \<and> \<not> is_space (last (comma_list es))"
    using trimmed_ends assms(1,2) unfolding ends by simp
  then have t: "trim_space (comma_list es) = comma_list es" by (intro trim_space_idem_aux) simp
  have p: "\<not> has_prefix (comma_list es) ''[''"
    using ends(1,2) assms(3) by (cases "comma_list es") auto
  have "cleanEntities es = es"
    unfolding cleanEntities_def using assms(2) by (simp add: map_idI filter_id_conv)
  then show ?thesis
    using ends(1) t p split_comma_list assms(1,2) by (simp add: parseEntities_def Let_def)
qed

lemma parseEntities_roundtrip_witness:
  "parseEntities (comma_list [''sensor.a'', ''sensor.b'']) = [''sensor.a'', ''sensor.b'']"
  by (rule parseEntities_roundtrip) (simp_all add: trim_space_def is_space_def code_of_def)

end
