(* ===== verification/Codec.thy ===== *)
theory Codec
  imports Ert Config
begin

text \<open>
  The two text encodings the program stores and sends, as the Go library writes them, with
  their round trips: \<open>json.Marshal\<close> on values without numbers (a character above 127 stands
  for itself, which every decoder reads alike) and standard base64.
\<close>

section \<open>Writing JSON\<close>

definition hex_digit :: "nat \<Rightarrow> char" where
  "hex_digit d = (if d < 10 then char_of (48 + d) else char_of (87 + d))"

definition esc_char :: "char \<Rightarrow> string" where
  "esc_char c =
     (if c = CHR 0x22 \<or> c = CHR 0x5C then [CHR 0x5C, c]
      else if c = CHR 0x08 then [CHR 0x5C, CHR ''b''] else if c = CHR 0x0C then [CHR 0x5C, CHR ''f'']
      else if c = CHR 0x0A then [CHR 0x5C, CHR ''n''] else if c = CHR 0x0D then [CHR 0x5C, CHR ''r'']
      else if c = CHR 0x09 then [CHR 0x5C, CHR ''t'']
      else if code_of c < 32 \<or> c = CHR ''<'' \<or> c = CHR ''>'' \<or> c = CHR ''&'' then
        [CHR 0x5C, CHR ''u'', CHR ''0'', CHR ''0'', hex_digit (code_of c div 16), hex_digit (code_of c mod 16)]
      else [c])"

definition json_quote :: "string \<Rightarrow> string" where
  "json_quote s = CHR 0x22 # concat (map esc_char s) @ [CHR 0x22]"

fun enc :: "json \<Rightarrow> string" and enc_elems :: "json list \<Rightarrow> string" and enc_members :: "(string \<times> json) list \<Rightarrow> string" where
  "enc JNull = ''null''"
| "enc (JBool b) = (if b then ''true'' else ''false'')"
| "enc (JNum s) = s"
| "enc (JStr s) = json_quote s"
| "enc (JArr []) = ''[]''"
| "enc (JArr (v # vs)) = CHR ''['' # enc v @ enc_elems vs"
| "enc (JObj []) = ''{}''"
| "enc (JObj ((k, v) # kvs)) = CHR ''{'' # json_quote k @ CHR '':'' # enc v @ enc_members kvs"
| "enc_elems [] = '']''"
| "enc_elems (v # vs) = CHR '','' # enc v @ enc_elems vs"
| "enc_members [] = ''}''"
| "enc_members ((k, v) # kvs) = CHR '','' # json_quote k @ CHR '':'' # enc v @ enc_members kvs"

fun no_numbers :: "json \<Rightarrow> bool" where
  "no_numbers (JNum s) = False"
| "no_numbers (JArr vs) = (\<forall>v \<in> set vs. no_numbers v)"
| "no_numbers (JObj kvs) = (\<forall>kv \<in> set kvs. no_numbers (snd kv))"
| "no_numbers _ = True"

lemma hex_val_digit: "d < 16 \<Longrightarrow> hex_val (hex_digit d) = Some d"
proof -
  assume "d < 16"
  then have "d \<in> set [0..<16]" by simp
  then have "d \<in> {0, 1, 2, 3, 4, 5, 6, 7, 8, 9, 10, 11, 12, 13, 14, 15}" by (simp add: upt_rec numeral_eq_Suc)
  then show ?thesis
    by (elim insertE) (simp_all add: hex_val_def hex_digit_def is_digit_def digit_val_def code_of_def)
qed

lemma code_of_range: "code_of c < 256"
  by (simp add: code_of_def)

lemma unicode_escape_byte:
  assumes "code_of c < 128"
  shows "unicode_escape (CHR ''0'' # CHR ''0'' # hex_digit (code_of c div 16) # hex_digit (code_of c mod 16) # r) = Some ([c], r)"
proof -
  have z: "hex_val (CHR ''0'') = Some 0" by (simp add: hex_val_def is_digit_def digit_val_def code_of_def)
  have "hex4 (CHR ''0'' # CHR ''0'' # hex_digit (code_of c div 16) # hex_digit (code_of c mod 16) # r) = Some (code_of c, r)"
    using assms by (simp add: z hex_val_digit)
  moreover have "utf8_encode (code_of c) = [c]" using assms by (simp add: utf8_encode_def) (simp add: code_of_def)
  ultimately show ?thesis using assms by (simp add: unicode_escape_def)
qed

lemma esc_simple:
  "esc_char (CHR 0x22) = [CHR 0x5C, CHR 0x22]" "esc_char (CHR 0x5C) = [CHR 0x5C, CHR 0x5C]" "esc_char (CHR 0x08) = [CHR 0x5C, CHR ''b'']"
  "esc_char (CHR 0x0C) = [CHR 0x5C, CHR ''f'']" "esc_char (CHR 0x0A) = [CHR 0x5C, CHR ''n'']" "esc_char (CHR 0x0D) = [CHR 0x5C, CHR ''r'']"
  "esc_char (CHR 0x09) = [CHR 0x5C, CHR ''t'']"
  by (simp_all add: esc_char_def)

lemma string_body_esc:
  "length s < n \<Longrightarrow> string_body n (concat (map esc_char s) @ CHR 0x22 # r) = Some (s, r)"
proof (induction s arbitrary: n)
  case Nil
  then show ?case by (cases n) auto
next
  case (Cons c s)
  then obtain m where n: "n = Suc m" and m: "length s < m" by (cases n) auto
  have ih: "string_body m (concat (map esc_char s) @ CHR 0x22 # r) = Some (s, r)" by (rule Cons.IH [OF m])
  show ?case
  proof (cases "c = CHR 0x22 \<or> c = CHR 0x5C \<or> c = CHR 0x08 \<or> c = CHR 0x0C \<or> c = CHR 0x0A \<or> c = CHR 0x0D \<or> c = CHR 0x09")
    case True
    then show ?thesis using ih by (elim disjE) (simp_all add: n esc_simple simple_escape_def)
  next
    case False
    then have f: "c \<noteq> CHR 0x22" "c \<noteq> CHR 0x5C" "c \<noteq> CHR 0x08" "c \<noteq> CHR 0x0C" "c \<noteq> CHR 0x0A" "c \<noteq> CHR 0x0D" "c \<noteq> CHR 0x09"
      by simp_all
    show ?thesis
    proof (cases "code_of c < 32 \<or> c = CHR ''<'' \<or> c = CHR ''>'' \<or> c = CHR ''&''")
      case True
      then have "code_of c < 128" by (elim disjE) (simp_all add: code_of_def)
      moreover have "esc_char c = [CHR 0x5C, CHR ''u'', CHR ''0'', CHR ''0'', hex_digit (code_of c div 16), hex_digit (code_of c mod 16)]"
        using True f by (simp add: esc_char_def)
      ultimately show ?thesis using ih by (simp add: n unicode_escape_byte)
    next
      case False
      then have "esc_char c = [c]" using f by (simp add: esc_char_def)
      then show ?thesis using ih f False by (simp add: n)
    qed
  qed
qed

section \<open>Reading back what was written\<close>

lemma enc_elems_cases: "enc_elems vs = CHR '']'' # [] \<and> vs = [] \<or> (\<exists>v ws. vs = v # ws \<and> enc_elems vs = CHR '','' # enc v @ enc_elems ws)"
  by (cases vs) auto

lemma skip_ws_nows: "\<not> json_ws c \<Longrightarrow> skip_ws (c # s) = c # s"
  by (simp add: skip_ws_def)

lemma json_ws_chars [simp]:
  "\<not> json_ws (CHR '','')" "\<not> json_ws (CHR '']'')" "\<not> json_ws (CHR ''}'')" "\<not> json_ws (CHR '':'')" "\<not> json_ws (CHR 0x22)"
  "\<not> json_ws (CHR ''['')" "\<not> json_ws (CHR ''{'')" "\<not> json_ws (CHR ''n'')" "\<not> json_ws (CHR ''t'')" "\<not> json_ws (CHR ''f'')"
  by (simp_all add: json_ws_def code_of_def)

definition lead :: "char set" where
  "lead = {CHR 0x22, CHR ''['', CHR ''{'', CHR ''n'', CHR ''t'', CHR ''f''}"

lemma enc_lead: "no_numbers v \<Longrightarrow> \<exists>c s. enc v = c # s \<and> c \<in> lead"
  by (cases v rule: enc.cases) (auto simp: lead_def json_quote_def)

lemma lead_nows: "c \<in> lead \<Longrightarrow> \<not> json_ws c" "c \<in> lead \<Longrightarrow> c \<noteq> CHR '']''"
  by (auto simp: lead_def)

lemma enc_skip: "no_numbers v \<Longrightarrow> skip_ws (enc v @ r) = enc v @ r"
  using enc_lead [of v] lead_nows(1) by (auto simp: skip_ws_nows)

lemma json_quote_body:
  "string_body (length (concat (map esc_char s) @ CHR 0x22 # r)) (concat (map esc_char s) @ CHR 0x22 # r) = Some (s, r)"
proof (rule string_body_esc)
  have "length s \<le> length (concat (map esc_char s))"
  proof (induction s)
    case (Cons c s)
    have "1 \<le> length (esc_char c)" by (simp add: esc_char_def)
    with Cons show ?case by simp
  qed simp
  then show "length s < length (concat (map esc_char s) @ CHR 0x22 # r)" by simp
qed

lemma p_value_string: "p_value (Suc n) (json_quote s @ r) = Some (JStr s, r)"
  using json_quote_body [of s r] by (simp add: json_quote_def skip_ws_nows)

lemma elems_step:
  assumes "\<And>n r. 2 * length (enc v) \<le> n \<Longrightarrow> p_value n (enc v @ r) = Some (v, r)"
    and "\<And>n r. vs \<noteq> [] \<Longrightarrow> 2 * length (enc_elems vs) \<le> n + 2 \<Longrightarrow> p_elems n (tl (enc_elems vs) @ r) = Some (vs, r)"
    and "2 * length (enc_elems (v # vs)) \<le> n + 2"
  shows "p_elems n (enc v @ enc_elems vs @ r) = Some (v # vs, r)"
proof (cases vs)
  case Nil
  then obtain m where n: "n = Suc m" "2 * length (enc v) \<le> m" using assms(3) by (cases n) auto
  then show ?thesis using Nil assms(1) by (simp add: skip_ws_nows)
next
  case (Cons w ws)
  then obtain m where n: "n = Suc m" "2 * length (enc v) \<le> m" "2 * length (enc_elems vs) \<le> m + 2"
    using assms(3) by (cases n) auto
  then show ?thesis using Cons assms(1) assms(2) [of m r] by (simp add: skip_ws_nows)
qed

lemma members_step:
  assumes "\<And>n r. 2 * length (enc v) \<le> n \<Longrightarrow> p_value n (enc v @ r) = Some (v, r)"
    and "\<And>n r. kvs \<noteq> [] \<Longrightarrow> 2 * length (enc_members kvs) \<le> n + 2 \<Longrightarrow> p_members n (tl (enc_members kvs) @ r) = Some (kvs, r)"
    and "2 * length (enc_members ((k, v) # kvs)) \<le> n + 2"
  shows "p_members n (json_quote k @ CHR '':'' # enc v @ enc_members kvs @ r) = Some ((k, v) # kvs, r)"
proof -
  have q: "string_body (length (concat (map esc_char k)) + Suc (length s)) (concat (map esc_char k) @ CHR 0x22 # s) = Some (k, s)" for s
    using json_quote_body [of k s] by simp
  show ?thesis
  proof (cases kvs)
    case Nil
    then obtain m where n: "n = Suc m" "2 * length (enc v) \<le> m" using assms(3) by (cases n) (auto simp: json_quote_def)
    then show ?thesis
      using Nil assms(1) q [of "CHR '':'' # enc v @ CHR ''}'' # r"] by (simp add: skip_ws_nows json_quote_def)
  next
    case (Cons w ws)
    then obtain m where n: "n = Suc m" "2 * length (enc v) \<le> m" "2 * length (enc_members kvs) \<le> m + 2"
      using assms(3) by (cases n) (auto simp: json_quote_def)
    obtain k' v' where w: "w = (k', v')" by (cases w)
    show ?thesis
      using Cons n assms(1) assms(2) [of m r] q [of "CHR '':'' # enc v @ enc_members kvs @ r"]
      by (simp add: skip_ws_nows json_quote_def w)
  qed
qed

lemma enc_parses:
  "no_numbers v \<Longrightarrow> 2 * length (enc v) \<le> n \<Longrightarrow> p_value n (enc v @ r) = Some (v, r)"
  "\<forall>v \<in> set vs. no_numbers v \<Longrightarrow> vs \<noteq> [] \<Longrightarrow> 2 * length (enc_elems vs) \<le> n + 2 \<Longrightarrow> p_elems n (tl (enc_elems vs) @ r) = Some (vs, r)"
  "\<forall>kv \<in> set kvs. no_numbers (snd kv) \<Longrightarrow> kvs \<noteq> [] \<Longrightarrow> 2 * length (enc_members kvs) \<le> n + 2
     \<Longrightarrow> p_members n (tl (enc_members kvs) @ r) = Some (kvs, r)"
proof (induction v and vs and kvs arbitrary: n r and n r and n r rule: enc_enc_elems_enc_members.induct)
  case (2 b)
  then obtain m where "n = Suc m" by (cases n; cases b) auto
  then show ?case by (simp add: skip_ws_nows)
next
  case (4 s)
  then obtain m where "n = Suc m" by (cases n) (auto simp: json_quote_def)
  then show ?case using p_value_string by simp
next
  case (6 v vs)
  then obtain m where n: "n = Suc m" by (cases n) auto
  have "p_elems m (enc v @ enc_elems vs @ r) = Some (v # vs, r)"
    using 6 by (intro elems_step) (auto simp: n)
  then show ?case
    using n enc_skip [of v "enc_elems vs @ r"] enc_lead [of v] lead_nows "6.prems"(1) by (auto simp: skip_ws_nows)
next
  case (8 k v kvs)
  then obtain m where n: "n = Suc m" by (cases n) auto
  have "p_members m (json_quote k @ CHR '':'' # enc v @ enc_members kvs @ r) = Some ((k, v) # kvs, r)"
    using 8 by (intro members_step) (auto simp: n)
  then show ?case by (simp add: n skip_ws_nows json_quote_def)
next
  case (10 v vs)
  then show ?case by (simp, intro elems_step) auto
next
  case (12 k v kvs)
  then show ?case by (simp, intro members_step) auto
qed (case_tac n; simp add: skip_ws_nows)+

lemma parse_enc:
  assumes "no_numbers v"
  shows "parse_json (enc v) = Some v"
proof -
  have "p_value (2 * length (enc v) + 2) (enc v @ []) = Some (v, [])"
    using assms by (intro enc_parses) simp_all
  then show ?thesis by (simp add: parse_json_def skip_ws_def)
qed


section \<open>Base64\<close>

text \<open>
  \<open>base64.StdEncoding\<close>: the decoder skips line ends, wants the padding, and does not look at
  the unused low bits of the last character.
\<close>

definition b64_char :: "nat \<Rightarrow> char" where
  "b64_char n = (if n < 26 then char_of (65 + n) else if n < 52 then char_of (71 + n) else if n < 62 then char_of (n - 4)
     else if n = 62 then CHR ''+'' else CHR ''/'')"

definition b64_val :: "char \<Rightarrow> nat option" where
  "b64_val c = (let n = code_of c in
     if 65 \<le> n \<and> n \<le> 90 then Some (n - 65) else if 97 \<le> n \<and> n \<le> 122 then Some (n - 71)
     else if 48 \<le> n \<and> n \<le> 57 then Some (n + 4) else if c = CHR ''+'' then Some 62 else if c = CHR ''/'' then Some 63 else None)"

fun b64_encode :: "string \<Rightarrow> string" where
  "b64_encode [] = []"
| "b64_encode [a] = [b64_char (code_of a div 4), b64_char (code_of a mod 4 * 16), CHR ''='', CHR ''='']"
| "b64_encode [a, b] =
     [b64_char (code_of a div 4), b64_char (code_of a mod 4 * 16 + code_of b div 16), b64_char (code_of b mod 16 * 4), CHR ''='']"
| "b64_encode (a # b # c # r) =
     b64_char (code_of a div 4) # b64_char (code_of a mod 4 * 16 + code_of b div 16)
     # b64_char (code_of b mod 16 * 4 + code_of c div 64) # b64_char (code_of c mod 64) # b64_encode r"

fun b64_groups :: "string \<Rightarrow> string option" where
  "b64_groups [] = Some []"
| "b64_groups (a # b # c # d # r) =
     (case (b64_val a, b64_val b) of
        (Some x, Some y) \<Rightarrow>
          if c = CHR ''='' then (if d = CHR ''='' \<and> r = [] then Some [char_of (x * 4 + y div 16)] else None)
          else (case b64_val c of None \<Rightarrow> None
            | Some z \<Rightarrow>
                if d = CHR ''='' then (if r = [] then Some [char_of (x * 4 + y div 16), char_of (y mod 16 * 16 + z div 4)] else None)
                else (case (b64_val d, b64_groups r) of
                        (Some w, Some t) \<Rightarrow>
                          Some (char_of (x * 4 + y div 16) # char_of (y mod 16 * 16 + z div 4) # char_of (z mod 4 * 64 + w) # t)
                      | _ \<Rightarrow> None))
      | _ \<Rightarrow> None)"
| "b64_groups _ = None"

definition b64_decode :: "string \<Rightarrow> string option" where
  "b64_decode s = b64_groups (filter (\<lambda>c. c \<noteq> CHR 0x0A \<and> c \<noteq> CHR 0x0D) s)"

lemma code_of_char_of: "n < 256 \<Longrightarrow> code_of (char_of n) = n"
  by (simp add: code_of_def)

lemma code_b64_char:
  "n < 64 \<Longrightarrow> code_of (b64_char n) = (if n < 26 then 65 + n else if n < 52 then 71 + n else if n < 62 then n - 4 else if n = 62 then 43 else 47)"
  by (simp add: b64_char_def code_of_char_of) (simp add: code_of_def)

lemma b64_char_facts:
  assumes "n < 64"
  shows "b64_val (b64_char n) = Some n" "b64_char n \<noteq> CHR ''=''" "b64_char n \<noteq> CHR 0x0A" "b64_char n \<noteq> CHR 0x0D"
proof -
  have "n < 26 \<or> (26 \<le> n \<and> n < 52) \<or> (52 \<le> n \<and> n < 62) \<or> n = 62 \<or> n = 63" using assms by linarith
  then show "b64_val (b64_char n) = Some n"
    by (elim disjE) (simp_all add: b64_val_def Let_def code_b64_char, arith, simp_all add: b64_char_def)
  have "code_of (CHR ''='') = 61" "code_of (CHR 0x0A) = 10" "code_of (CHR 0x0D) = 13" by (simp_all add: code_of_def)
  moreover have "code_of (b64_char n) \<noteq> 61 \<and> code_of (b64_char n) \<noteq> 10 \<and> code_of (b64_char n) \<noteq> 13"
    using assms by (simp add: code_b64_char) arith
  ultimately show "b64_char n \<noteq> CHR ''=''" "b64_char n \<noteq> CHR 0x0A" "b64_char n \<noteq> CHR 0x0D" by metis+
qed

lemma code_of_bounds:
  shows "code_of a div 4 < 64" and "code_of a mod 4 * 16 < 64" and "code_of a mod 4 * 16 + code_of b div 16 < 64"
    and "code_of b mod 16 * 4 < 64" and "code_of b mod 16 * 4 + code_of c div 64 < 64" and "code_of c mod 64 < 64"
proof -
  note r = code_of_range [of a] code_of_range [of b] code_of_range [of c]
  have "code_of a mod 4 < 4" "code_of b div 16 < 16" "code_of b mod 16 < 16" "code_of c div 64 < 4"
    using r by (simp_all add: div_less_iff_less_mult)
  then show "code_of a div 4 < 64" "code_of a mod 4 * 16 < 64" "code_of a mod 4 * 16 + code_of b div 16 < 64"
    "code_of b mod 16 * 4 < 64" "code_of b mod 16 * 4 + code_of c div 64 < 64" "code_of c mod 64 < 64"
    using r by (simp_all add: div_less_iff_less_mult)
qed

lemma char_of_code [simp]: "char_of (code_of c) = c"
  by (simp add: code_of_def)

lemma byte_splits [simp]:
  "code_of c div 16 div 16 = 0" "code_of c div 16 mod 16 = code_of c div 16" "code_of c div 64 div 4 = 0" "code_of c div 64 mod 4 = code_of c div 64"
  using code_of_range [of c] by (simp_all add: div_mult2_eq [symmetric] div_less_iff_less_mult)

lemma b64_groups_encode: "b64_groups (b64_encode s) = Some s"
  by (induction s rule: b64_encode.induct) (simp_all add: b64_char_facts code_of_bounds)

lemma b64_encode_chars: "c \<in> set (b64_encode s) \<Longrightarrow> c \<noteq> CHR 0x0A \<and> c \<noteq> CHR 0x0D"
  by (induction s rule: b64_encode.induct) (auto simp: b64_char_facts code_of_bounds)

lemma b64_roundtrip: "b64_decode (b64_encode s) = Some s"
proof -
  have "filter (\<lambda>c. c \<noteq> CHR 0x0A \<and> c \<noteq> CHR 0x0D) (b64_encode s) = b64_encode s"
    using b64_encode_chars by (simp add: filter_id_conv)
  then show ?thesis by (simp add: b64_decode_def b64_groups_encode)
qed

end
