(* ===== verification/Stats.thy ===== *)
theory Stats
  imports Prelude
begin

text \<open>The list statistics of \<open>internal/db/correlate.go\<close>, over exact reals.\<close>

definition mean :: "real list \<Rightarrow> real" where
  "mean xs = (if xs = [] then 0 else sum_list xs / real (length xs))"

definition minOf :: "real list \<Rightarrow> real" where
  "minOf xs = (case xs of [] \<Rightarrow> 0 | x # _ \<Rightarrow> fold (\<lambda>y m. if y < m then y else m) xs x)"

definition stddev :: "real list \<Rightarrow> real" where
  "stddev xs =
     (if length xs < 2 then 0
      else let m = mean xs in sqrt (sum_list (map (\<lambda>x. (x - m) * (x - m)) xs) / real (length xs - 1)))"

lemma sum_list_bounds:
  assumes "\<forall>x \<in> set xs. lo \<le> x \<and> x \<le> hi"
  shows "real (length xs) * lo \<le> sum_list xs \<and> sum_list xs \<le> real (length xs) * hi"
  using assms by (induction xs) (auto simp: algebra_simps)

lemma mean_bounds:
  assumes "xs \<noteq> []" "\<forall>x \<in> set xs. lo \<le> x \<and> x \<le> hi"
  shows "lo \<le> mean xs \<and> mean xs \<le> hi"
  using sum_list_bounds [OF assms(2)] assms(1) by (simp add: mean_def field_simps)

lemma minOf_fold: "fold (\<lambda>y m. if y < m then y else m) xs x = Min (set (x # xs))" for x :: real
proof -
  have "(\<lambda>y m. if y < m then y else m) = (min :: real \<Rightarrow> real \<Rightarrow> real)" by (auto simp: fun_eq_iff)
  then show ?thesis by (simp only: Min.set_eq_fold)
qed

lemma minOf_min: "xs \<noteq> [] \<Longrightarrow> minOf xs = Min (set xs)"
  by (cases xs) (simp_all add: minOf_def minOf_fold del: fold_simps)

lemma stddev_nonneg [simp]: "0 \<le> stddev xs"
proof -
  have "0 \<le> sum_list (map (\<lambda>x. (x - mean xs) * (x - mean xs)) xs)" by (rule sum_list_nonneg) auto
  then show ?thesis by (simp add: stddev_def Let_def)
qed

text \<open>Identical samples have no deviation.\<close>

lemma stddev_const: "\<forall>x \<in> set xs. x = c \<Longrightarrow> stddev xs = 0"
proof (cases "length xs < 2")
  case False
  assume c: "\<forall>x \<in> set xs. x = c"
  with False have "mean xs = c" using mean_bounds [of xs c c] by fastforce
  then have "sum_list (map (\<lambda>x. (x - mean xs) * (x - mean xs)) xs) = 0"
  proof -
    have "map (\<lambda>x. (x - mean xs) * (x - mean xs)) xs = map (\<lambda>x. 0) xs"
      using c \<open>mean xs = c\<close> by (intro map_cong) auto
    then show ?thesis by (simp only: sum_list_0)
  qed
  with False show "stddev xs = 0" by (simp add: stddev_def Let_def)
qed (simp add: stddev_def)

end
