(* ===== verification/Confidence.thy ===== *)
theory Confidence
  imports Prelude
begin

text \<open>
  The identification-confidence model, \<open>internal/db/confidence.go\<close>: the signals, their
  combination, the data-snooping gate, the cross-correlation lag and its panics, and the
  small statistics they rest on. The library function \<open>math.Erfinv\<close> is the argument
  \<open>erfinv\<close>; every statement holds for all functions in its place. A slice expression out of
  range, which panics in Go, is the value None.
\<close>

section \<open>Statistics\<close>

definition smoothstep :: "real \<Rightarrow> real \<Rightarrow> real \<Rightarrow> real" where
  "smoothstep lo hi x =
     (if hi \<le> lo then (if x \<ge> hi then 1 else 0)
      else let t = clamp01 ((x - lo) / (hi - lo)) in t * t * (3 - 2 * t))"

definition pearson :: "real list \<Rightarrow> real list \<Rightarrow> real" where
  "pearson a b =
     (let n = length a in
      if n \<noteq> length b \<or> n < 2 then 0
      else let ma = sum_list a / real n; mb = sum_list b / real n;
               sab = sum_list (map2 (\<lambda>x y. (x - ma) * (y - mb)) a b);
               saa = sum_list (map (\<lambda>x. (x - ma) * (x - ma)) a);
               sbb = sum_list (map (\<lambda>y. (y - mb) * (y - mb)) b)
           in if saa = 0 \<or> sbb = 0 then 0 else sab / sqrt (saa * sbb))"

definition snoopFactor :: "(real \<Rightarrow> real) \<Rightarrow> real option \<Rightarrow> int \<Rightarrow> int \<Rightarrow> real" where
  "snoopFactor erfinv r nBuckets nCandidates =
     (case r of None \<Rightarrow> 1
      | Some v \<Rightarrow>
          if nBuckets < 4 then 1
          else let k = (if nCandidates < 1 then 1 else nCandidates);
                   p = 5 / 100 / of_int k;
                   z = sqrt 2 * erfinv (1 - p);
                   rs = z / sqrt (of_int nBuckets);
                   rStar = (if rs > 95 / 100 then 95 / 100 else rs)
               in smoothstep (7 / 10 * rStar) (13 / 10 * rStar) \<bar>v\<bar>)"

definition lagPenalty :: "int \<Rightarrow> int \<Rightarrow> real" where
  "lagPenalty lag maxLag =
     (if maxLag \<le> 0 then 1
      else let a = \<bar>of_int lag\<bar> / of_int maxLag in clamp01 (1 - 1 / 2 * a))"

definition changePointCoherence :: "real \<Rightarrow> real \<Rightarrow> real" where
  "changePointCoherence windowRate baselineRate =
     (if windowRate \<le> 0 then 0
      else if baselineRate \<le> 0 then 1
      else let ratio = windowRate / baselineRate in clamp01 (1 / 2 + 1 / 4 * (ratio - 1)))"

section \<open>Cross-correlation lag\<close>

text \<open>The slices \<open>s[lo:]\<close> and \<open>s[:hi]\<close>; out of range they panic.\<close>

definition slice_from :: "'a list \<Rightarrow> int \<Rightarrow> 'a list option" where
  "slice_from s lo = (if 0 \<le> lo \<and> lo \<le> int (length s) then Some (drop (nat lo) s) else None)"

definition slice_to :: "'a list \<Rightarrow> int \<Rightarrow> 'a list option" where
  "slice_to s hi = (if 0 \<le> hi \<and> hi \<le> int (length s) then Some (take (nat hi) s) else None)"

definition lag_slices :: "real list \<Rightarrow> real list \<Rightarrow> int \<Rightarrow> (real list \<times> real list) option" where
  "lag_slices meter ref lag =
     (let n = int (length meter) in
      if lag \<ge> 0 then
        (case (slice_from meter lag, slice_to ref (n - lag)) of (Some a, Some b) \<Rightarrow> Some (a, b) | _ \<Rightarrow> None)
      else
        (case (slice_to meter (n + lag), slice_from ref (- lag)) of (Some a, Some b) \<Rightarrow> Some (a, b) | _ \<Rightarrow> None))"

text \<open>The loop over the lags; \<open>best = None\<close> is the initial minus infinity.\<close>

fun lag_loop :: "real list \<Rightarrow> real list \<Rightarrow> int list \<Rightarrow> int \<times> real option \<Rightarrow> (int \<times> real option) option" where
  "lag_loop meter ref [] best = Some best"
| "lag_loop meter ref (lag # lags) (bestLag, bestR) =
     (case lag_slices meter ref lag of None \<Rightarrow> None
      | Some (a, b) \<Rightarrow>
          let r = pearson a b in
          lag_loop meter ref lags
            (if (case bestR of None \<Rightarrow> True | Some q \<Rightarrow> r > q) then (lag, Some r) else (bestLag, bestR)))"

definition crossCorrLag :: "real list \<Rightarrow> real list \<Rightarrow> int \<Rightarrow> (int \<times> real) option" where
  "crossCorrLag meter ref maxLag =
     (let n = length meter in
      if n \<noteq> length ref \<or> n < 4 then Some (0, 0)
      else case lag_loop meter ref [- maxLag..maxLag] (0, None) of
             None \<Rightarrow> None
           | Some (l, None) \<Rightarrow> Some (0, 0)
           | Some (l, Some r) \<Rightarrow> Some (l, r))"

section \<open>The confidence model\<close>

record confidenceSignals =
  cs_R :: "real option"
  cs_R2 :: "real option"
  cs_HasMultiplier :: bool
  cs_MeterKwh :: real
  cs_MonitoredKwh :: real
  cs_FloorOK :: "bool option"
  cs_WindowPackets :: int
  cs_NBuckets :: int
  cs_NCandidates :: int
  cs_ChangePoint :: "real option"
  cs_LagPenalty :: "real option"
  cs_AnchorAgree :: "real option"
  cs_Physics :: "real option"
  cs_PhysicsViolation :: bool
  cs_RefCV :: "real option"

definition wCorr :: real where "wCorr = 45 / 100"
definition wR2 :: real where "wR2 = 10 / 100"
definition wRecon :: real where "wRecon = 15 / 100"
definition wPkt :: real where "wPkt = 10 / 100"
definition wFloor :: real where "wFloor = 10 / 100"
definition wChange :: real where "wChange = 10 / 100"

lemmas weight_defs = wCorr_def wR2_def wRecon_def wPkt_def wFloor_def wChange_def

definition conf_corr :: "confidenceSignals \<Rightarrow> real" where
  "conf_corr s = (case cs_R s of None \<Rightarrow> 0 | Some r \<Rightarrow> clamp01 r)"

definition conf_r2 :: "confidenceSignals \<Rightarrow> real" where
  "conf_r2 s = (case cs_R2 s of None \<Rightarrow> conf_corr s * conf_corr s | Some v \<Rightarrow> clamp01 v)"

text \<open>Energy reconciliation by the ratio of the metered to the monitored energy.\<close>

definition recon_ratio :: "real \<Rightarrow> real" where
  "recon_ratio ratio =
     (if ratio < 1 / 2 then clamp01 (ratio / (1 / 2) * (4 / 10))
      else if ratio \<le> 1 then 7 / 10 + 3 / 10 * ((ratio - 1 / 2) / (1 / 2))
      else if ratio \<le> 20 then 1
      else if ratio \<le> 100 then 1 - 1 / 2 * ((ratio - 20) / 80)
      else 3 / 10)"

definition conf_recon :: "confidenceSignals \<Rightarrow> real" where
  "conf_recon s =
     (if cs_HasMultiplier s \<and> cs_MonitoredKwh s > 0 \<and> cs_MeterKwh s > 0
      then recon_ratio (cs_MeterKwh s / cs_MonitoredKwh s) else 1 / 2)"

definition conf_pkt :: "confidenceSignals \<Rightarrow> real" where
  "conf_pkt s =
     (let pkt = min 1 (of_int (cs_NBuckets s) / 30) in
      if cs_WindowPackets s > 0 then min pkt (min 1 (of_int (cs_WindowPackets s) / 60)) else pkt)"

definition conf_floor :: "confidenceSignals \<Rightarrow> real" where
  "conf_floor s = (if cs_FloorOK s = Some False then 4 / 10 else 1)"

definition conf_change :: "confidenceSignals \<Rightarrow> real" where
  "conf_change s = (case cs_ChangePoint s of None \<Rightarrow> 1 / 2 | Some c \<Rightarrow> clamp01 c)"

definition conf_weights :: "confidenceSignals \<Rightarrow> real \<times> real" where
  "conf_weights s = (case cs_RefCV s of
     None \<Rightarrow> (wCorr, wRecon)
   | Some cv \<Rightarrow>
       if cv < 1 / 4 then (let f = clamp01 (cv / (1 / 4)); wc = wCorr * f in (wc, wRecon + (wCorr - wc)))
       else (wCorr, wRecon))"

definition conf_base :: "confidenceSignals \<Rightarrow> real" where
  "conf_base s =
     (let (wc, wr) = conf_weights s;
          base = wc * conf_corr s + wR2 * conf_r2 s + wr * conf_recon s + wPkt * conf_pkt s
                 + wFloor * conf_floor s + wChange * conf_change s
      in case cs_AnchorAgree s of None \<Rightarrow> base
         | Some a \<Rightarrow> 45 / 100 * base + 55 / 100 * clamp01 a)"

definition conf_lag :: "confidenceSignals \<Rightarrow> real" where
  "conf_lag s = (case cs_LagPenalty s of None \<Rightarrow> 1 | Some l \<Rightarrow> clamp01 l)"

definition conf_value :: "(real \<Rightarrow> real) \<Rightarrow> confidenceSignals \<Rightarrow> real" where
  "conf_value erfinv s =
     (let snoop = snoopFactor erfinv (cs_R s) (cs_NBuckets s) (cs_NCandidates s);
          conf = clamp01 (conf_base s * conf_lag s * snoop);
          conf = (case cs_Physics s of None \<Rightarrow> conf | Some p \<Rightarrow> clamp01 (1 / 2 * conf + 1 / 2 * clamp01 p))
      in if cs_PhysicsViolation s then conf * (2 / 10) else conf)"

text \<open>The writes to the breakdown map, in order; a later write of a key replaces an earlier one.\<close>

definition conf_parts :: "(real \<Rightarrow> real) \<Rightarrow> confidenceSignals \<Rightarrow> (string \<times> real) list" where
  "conf_parts erfinv s =
     [(''correlation'', conf_corr s), (''r2'', conf_r2 s), (''reconciliation'', conf_recon s),
      (''packets'', conf_pkt s), (''floor'', conf_floor s), (''change_point'', conf_change s)]
     @ (case cs_RefCV s of None \<Rightarrow> [] | Some cv \<Rightarrow> if cv < 1 / 4 then [(''ref_cv'', round_places cv 3)] else [])
     @ (case cs_AnchorAgree s of None \<Rightarrow> [] | Some a \<Rightarrow> [(''anchor'', clamp01 a)])
     @ [(''lag'', conf_lag s),
        (''snoop'', snoopFactor erfinv (cs_R s) (cs_NBuckets s) (cs_NCandidates s))]
     @ (case cs_Physics s of None \<Rightarrow> [] | Some p \<Rightarrow> [(''physics'', clamp01 p)])
     @ (if cs_PhysicsViolation s then [(''physics'', 0)] else [])
     @ [(''confidence'', round_places (conf_value erfinv s) 3)]"

definition combineConfidence :: "(real \<Rightarrow> real) \<Rightarrow> confidenceSignals \<Rightarrow> real \<times> (string \<rightharpoonup> real)" where
  "combineConfidence erfinv s = (conf_value erfinv s, map_of (rev (conf_parts erfinv s)))"


section \<open>Bounds of the parts\<close>

definition unit01 :: "real \<Rightarrow> bool" where "unit01 x \<longleftrightarrow> 0 \<le> x \<and> x \<le> 1"

lemma unit01_clamp [simp]: "unit01 (clamp01 v)"
  by (simp add: unit01_def)

lemma unit01_mult: "unit01 x \<Longrightarrow> unit01 y \<Longrightarrow> unit01 (x * y)"
  by (simp add: unit01_def mult_le_one)

lemma unit01_consts [simp]: "unit01 0" "unit01 1" "unit01 (1 / 2)" "unit01 (4 / 10)" "unit01 (3 / 10)"
  by (simp_all add: unit01_def)

lemma smoothstep_poly: "unit01 t \<Longrightarrow> unit01 (t * t * (3 - 2 * t))"
proof -
  assume t: "unit01 t"
  then have "0 \<le> t * t * (3 - 2 * t)" by (simp add: unit01_def)
  moreover have "1 - t * t * (3 - 2 * t) = (1 - t) * (1 - t) * (1 + 2 * t)" by algebra
  moreover have "0 \<le> (1 - t) * (1 - t) * (1 + 2 * t)" using t by (simp add: unit01_def)
  ultimately show ?thesis by (simp add: unit01_def)
qed

lemma smoothstep_poly_mono:
  fixes t u :: real
  assumes "0 \<le> t" "t \<le> u" "u \<le> 1"
  shows "t * t * (3 - 2 * t) \<le> u * u * (3 - 2 * u)"
proof -
  have "u * u * (3 - 2 * u) - t * t * (3 - 2 * t) = (u - t) * (3 * (u + t) - 2 * (u * u + u * t + t * t))"
    by algebra
  moreover have "u * u \<le> u" "t * t \<le> t" "u * t \<le> u" "u * t \<le> t"
    using assms by (simp_all add: mult_left_le mult_left_le_one_le)
  then have "0 \<le> 3 * (u + t) - 2 * (u * u + u * t + t * t)" by argo
  ultimately show ?thesis using assms(2) by (metis diff_ge_0_iff_ge mult_nonneg_nonneg)
qed

lemma smoothstep_unit: "unit01 (smoothstep lo hi x)"
  using smoothstep_poly [of "clamp01 ((x - lo) / (hi - lo))"] by (simp add: smoothstep_def Let_def)

lemma smoothstep_mono:
  assumes "x \<le> y"
  shows "smoothstep lo hi x \<le> smoothstep lo hi y"
proof (cases "hi \<le> lo")
  case False
  then have "clamp01 ((x - lo) / (hi - lo)) \<le> clamp01 ((y - lo) / (hi - lo))"
    using assms by (intro clamp01_mono divide_right_mono) simp_all
  with False show ?thesis by (simp add: smoothstep_def Let_def smoothstep_poly_mono)
qed (use assms in \<open>simp add: smoothstep_def\<close>)

lemma snoopFactor_unit: "unit01 (snoopFactor erfinv r n k)"
  by (cases r) (simp_all add: snoopFactor_def Let_def smoothstep_unit)

lemma snoopFactor_mono:
  "\<bar>v\<bar> \<le> \<bar>w\<bar> \<Longrightarrow> snoopFactor erfinv (Some v) n k \<le> snoopFactor erfinv (Some w) n k"
  by (simp add: snoopFactor_def Let_def smoothstep_mono)

lemma lagPenalty_bounds:
  assumes "\<bar>lag\<bar> \<le> maxLag"
  shows "1 / 2 \<le> lagPenalty lag maxLag \<and> lagPenalty lag maxLag \<le> 1"
proof (cases "maxLag \<le> 0")
  case False
  then have "\<bar>real_of_int lag\<bar> / of_int maxLag \<le> 1"
    using assms by (simp add: divide_le_eq_1 flip: of_int_abs)
  moreover have "0 \<le> \<bar>real_of_int lag\<bar> / of_int maxLag" using False by simp
  moreover have "1 / 2 \<le> clamp01 (1 - 1 / 2 * x) \<and> clamp01 (1 - 1 / 2 * x) \<le> 1" if "0 \<le> x" "x \<le> 1" for x :: real
    using that by (simp add: clamp01_def)
  ultimately show ?thesis using False by (simp only: lagPenalty_def Let_def if_False)
qed (simp add: lagPenalty_def)

lemma conf_parts_unit [simp]:
  "unit01 (conf_corr s)" "unit01 (conf_r2 s)" "unit01 (conf_floor s)" "unit01 (conf_change s)" "unit01 (conf_lag s)"
  using unit01_consts(4) by (simp_all only: conf_corr_def conf_r2_def conf_floor_def conf_change_def conf_lag_def unit01_mult unit01_clamp
      unit01_consts option.split if_split simp_thms)

lemma recon_ratio_unit: "unit01 (recon_ratio r)"
  by (auto simp: recon_ratio_def unit01_def field_simps)

lemma conf_recon_unit [simp]: "unit01 (conf_recon s)"
  by (simp add: conf_recon_def recon_ratio_unit)

lemma conf_pkt_unit: "0 \<le> cs_NBuckets s \<Longrightarrow> unit01 (conf_pkt s)"
  by (auto simp: conf_pkt_def Let_def unit01_def)

lemma conf_weights_sum:
  "conf_weights s = (wc, wr) \<Longrightarrow> 0 \<le> wc \<and> 0 \<le> wr \<and> wc + wr = 6 / 10"
proof -
  assume w: "conf_weights s = (wc, wr)"
  have "0 \<le> wCorr * clamp01 v \<and> wCorr * clamp01 v \<le> wCorr" for v
    using clamp01_ge_0 [of v] clamp01_le_1 [of v] by (simp add: wCorr_def)
  note this [of "cs / (1 / 4)" for cs]
  moreover have "0 \<le> wCorr" "0 \<le> wRecon" "wCorr + wRecon = 6 / 10" by (simp_all add: weight_defs)
  ultimately show ?thesis
    using w unfolding conf_weights_def Let_def by (auto split: option.splits if_splits)
qed


section \<open>The combined confidence\<close>

lemma weighted_sum_unit:
  assumes "unit01 a" "unit01 b" "unit01 c" "unit01 d" "unit01 e" "unit01 f" "0 \<le> wc" "0 \<le> wr" "wc + wr = 6 / 10"
  shows "unit01 (wc * a + wR2 * b + wr * c + wPkt * d + wFloor * e + wChange * f)"
proof -
  have "wc * a \<le> wc" "wr * c \<le> wr" using assms by (simp_all add: unit01_def mult_left_le)
  then show ?thesis using assms by (simp add: unit01_def weight_defs)
qed

lemma conf_base_unit:
  assumes "0 \<le> cs_NBuckets s"
  shows "unit01 (conf_base s)"
proof -
  obtain wc wr where w: "conf_weights s = (wc, wr)" by (cases "conf_weights s")
  note u = weighted_sum_unit [OF conf_parts_unit(1,2) conf_recon_unit conf_pkt_unit [OF assms] conf_parts_unit(3,4), of wc wr s s s s]
  have blend: "unit01 (45 / 100 * x + 55 / 100 * clamp01 y)" if "unit01 x" for x y
    using that clamp01_ge_0 [of y] clamp01_le_1 [of y] unfolding unit01_def by linarith
  from conf_weights_sum [OF w] have u': "unit01 (wc * conf_corr s + wR2 * conf_r2 s + wr * conf_recon s + wPkt * conf_pkt s
      + wFloor * conf_floor s + wChange * conf_change s)" by (intro u) simp_all
  show ?thesis
    unfolding conf_base_def w Let_def prod.case
    by (cases "cs_AnchorAgree s") (simp_all only: option.case u' blend)
qed


definition sample_signals :: confidenceSignals where
  "sample_signals = \<lparr>cs_R = None, cs_R2 = None, cs_HasMultiplier = True, cs_MeterKwh = 6, cs_MonitoredKwh = 2,
     cs_FloorOK = Some True, cs_WindowPackets = 60, cs_NBuckets = 3, cs_NCandidates = 1, cs_ChangePoint = None,
     cs_LagPenalty = None, cs_AnchorAgree = None, cs_Physics = None, cs_PhysicsViolation = False, cs_RefCV = None\<rparr>"


lemma conf_base_mono:
  assumes r: "conf_corr s \<le> conf_corr t" "conf_r2 s \<le> conf_r2 t"
    and same: "conf_weights s = conf_weights t" "conf_recon s = conf_recon t" "conf_pkt s = conf_pkt t"
      "conf_floor s = conf_floor t" "conf_change s = conf_change t" "cs_AnchorAgree s = cs_AnchorAgree t"
  shows "conf_base s \<le> conf_base t"
proof -
  obtain wc wr where w: "conf_weights t = (wc, wr)" by (cases "conf_weights t")
  have "wc * conf_corr s \<le> wc * conf_corr t" "wR2 * conf_r2 s \<le> wR2 * conf_r2 t"
    using conf_weights_sum [OF w] r by (simp_all add: mult_left_mono weight_defs)
  then show ?thesis
    using same w by (simp add: conf_base_def Let_def split: option.split)
qed

text \<open>
  A stronger positive correlation never lowers the confidence: with all other signals
  equal, raising \<open>r\<close> raises the correlation term and loosens the data-snooping gate, and
  nothing later undoes it.
\<close>

theorem confidence_mono_in_r:
  assumes "0 \<le> r" "r \<le> r'" "0 \<le> cs_NBuckets s"
  shows "fst (combineConfidence erfinv (s\<lparr>cs_R := Some r\<rparr>)) \<le> fst (combineConfidence erfinv (s\<lparr>cs_R := Some r'\<rparr>))"
proof -
  let ?a = "s\<lparr>cs_R := Some r\<rparr>" and ?b = "s\<lparr>cs_R := Some r'\<rparr>"
  define f where "f x = (case cs_Physics s of None \<Rightarrow> x | Some p \<Rightarrow> clamp01 (1 / 2 * x + 1 / 2 * clamp01 p))
      * (if cs_PhysicsViolation s then 2 / 10 else 1)" for x
  have fm: "f x \<le> f y" if "x \<le> y" for x y
    using that unfolding f_def by (auto intro!: mult_right_mono clamp01_mono split: option.split)
  have val: "conf_value erfinv t = f (clamp01 (conf_base t * conf_lag t * snoopFactor erfinv (cs_R t) (cs_NBuckets t) (cs_NCandidates t)))"
    if "cs_Physics t = cs_Physics s" "cs_PhysicsViolation t = cs_PhysicsViolation s" for t
    using that by (simp add: conf_value_def f_def Let_def split: option.split)
  have corr: "conf_corr ?a \<le> conf_corr ?b" using assms by (simp add: conf_corr_def clamp01_mono)
  have r2: "conf_r2 ?a \<le> conf_r2 ?b"
    using assms corr conf_parts_unit(1) [of ?a]
    by (simp add: conf_r2_def mult_mono unit01_def conf_corr_def split: option.split)
  have base: "conf_base ?a \<le> conf_base ?b"
    by (rule conf_base_mono [OF corr r2])
       (simp_all add: conf_weights_def conf_recon_def conf_pkt_def conf_floor_def conf_change_def Let_def)
  have unit: "unit01 (conf_base ?a)" using conf_base_unit [of ?a] assms(3) by simp
  have "conf_base ?a * conf_lag ?a * snoopFactor erfinv (Some r) (cs_NBuckets s) (cs_NCandidates s)
      \<le> conf_base ?b * conf_lag ?b * snoopFactor erfinv (Some r') (cs_NBuckets s) (cs_NCandidates s)"
  proof (rule mult_mono)
    have "conf_lag ?a = conf_lag ?b" by (simp add: conf_lag_def)
    then show "conf_base ?a * conf_lag ?a \<le> conf_base ?b * conf_lag ?b"
      using base conf_parts_unit(5) [of ?b] by (simp add: mult_right_mono unit01_def)
    show "snoopFactor erfinv (Some r) (cs_NBuckets s) (cs_NCandidates s) \<le> snoopFactor erfinv (Some r') (cs_NBuckets s) (cs_NCandidates s)"
      using assms by (intro snoopFactor_mono) simp
    show "0 \<le> conf_base ?b * conf_lag ?b"
      using unit base conf_parts_unit(5) [of ?b] by (simp add: unit01_def)
    show "0 \<le> snoopFactor erfinv (Some r) (cs_NBuckets s) (cs_NCandidates s)"
      using snoopFactor_unit by (simp add: unit01_def)
  qed
  then show ?thesis
    unfolding combineConfidence_def fst_conv
    by (subst (1 2) val) (simp_all add: fm clamp01_mono)
qed

lemma confidence_mono_in_r_witness:
  "fst (combineConfidence (\<lambda>x. x) (sample_signals\<lparr>cs_R := Some (1 / 2)\<rparr>))
   \<le> fst (combineConfidence (\<lambda>x. x) (sample_signals\<lparr>cs_R := Some (3 / 4)\<rparr>))"
  by (rule confidence_mono_in_r) (simp_all add: sample_signals_def)


section \<open>Pearson correlation\<close>

lemma sum_list_square_nonneg: "0 \<le> sum_list (map (\<lambda>x. f x * f x :: real) xs)"
  by (induction xs) simp_all

lemma sum_list_square_diff:
  "sum_list (map (\<lambda>(x, y). (x - t * y) * (x - t * y)) ps)
   = sum_list (map (\<lambda>(x, y). x * x) ps) - 2 * t * sum_list (map (\<lambda>(x, y). x * y) ps)
     + t * t * sum_list (map (\<lambda>(x, y). y * y) ps)" for t :: real
  by (induction ps) (auto simp: algebra_simps)

lemma cauchy_schwarz_list:
  fixes ps :: "(real \<times> real) list"
  defines "sxx \<equiv> sum_list (map (\<lambda>(x, y). x * x) ps)" and "sxy \<equiv> sum_list (map (\<lambda>(x, y). x * y) ps)"
    and "syy \<equiv> sum_list (map (\<lambda>(x, y). y * y) ps)"
  assumes "0 < syy"
  shows "sxy * sxy \<le> sxx * syy"
proof -
  let ?t = "sxy / syy"
  have "0 \<le> sum_list (map (\<lambda>(x, y). (x - ?t * y) * (x - ?t * y)) ps)"
    by (rule sum_list_nonneg) auto
  then have "0 \<le> sxx - 2 * ?t * sxy + ?t * ?t * syy"
    by (simp only: sum_list_square_diff sxx_def sxy_def syy_def)
  also have "\<dots> = sxx - sxy * sxy / syy" using assms(4) by (simp add: field_simps)
  finally show ?thesis using assms(4) by (simp add: field_simps)
qed

lemma map2_map_zip: "map2 (\<lambda>x y. f x * g y) a b = map (\<lambda>(x, y). x * y) (zip (map f a) (map g b))"
  by (simp add: zip_map_map case_prod_unfold comp_def)

lemma sum_fst_zip: "length a = length b \<Longrightarrow> sum_list (map (\<lambda>(x, y). h x) (zip a b)) = sum_list (map h a)"
  and sum_snd_zip: "length a = length b \<Longrightarrow> sum_list (map (\<lambda>(x, y). k y) (zip a b)) = sum_list (map k b)"
  by (induction a b rule: list_induct2) simp_all

text \<open>The correlation of any two series lies between -1 and 1.\<close>

theorem pearson_bounds: "\<bar>pearson a b\<bar> \<le> 1"
proof -
  define ma mb where "ma = sum_list a / real (length a)" and "mb = sum_list b / real (length a)"
  define sab where "sab = sum_list (map2 (\<lambda>x y. (x - ma) * (y - mb)) a b)"
  define saa where "saa = sum_list (map (\<lambda>x. (x - ma) * (x - ma)) a)"
  define sbb where "sbb = sum_list (map (\<lambda>y. (y - mb) * (y - mb)) b)"
  have p: "pearson a b = (if length a \<noteq> length b \<or> length a < 2 then 0
      else if saa = 0 \<or> sbb = 0 then 0 else sab / sqrt (saa * sbb))"
    by (simp add: pearson_def Let_def ma_def mb_def sab_def saa_def sbb_def)
  show ?thesis
  proof (cases "length a \<noteq> length b \<or> length a < 2 \<or> saa = 0 \<or> sbb = 0")
    case False
    have pos: "0 < saa" "0 < sbb"
      using False sum_list_square_nonneg [of "\<lambda>x. x - ma" a] sum_list_square_nonneg [of "\<lambda>x. x - mb" b]
      by (simp_all add: saa_def sbb_def)
    let ?z = "zip (map (\<lambda>x. x - ma) a) (map (\<lambda>y. y - mb) b)"
    have len: "length (map (\<lambda>x. x - ma) a) = length (map (\<lambda>y. y - mb) b)" using False by simp
    have z: "saa = sum_list (map (\<lambda>(x, y). x * x) ?z)" "sbb = sum_list (map (\<lambda>(x, y). y * y) ?z)"
      "sab = sum_list (map (\<lambda>(x, y). x * y) ?z)"
      by (simp_all only: sum_fst_zip [OF len] sum_snd_zip [OF len] saa_def sbb_def sab_def map_map comp_def
          map2_map_zip [of "\<lambda>x. x - ma" "\<lambda>y. y - mb"])
    have "sab * sab \<le> saa * sbb"
      using cauchy_schwarz_list [of ?z] pos(2) unfolding z by simp
    then have "\<bar>sab\<bar> \<le> sqrt (saa * sbb)"
      by (intro real_le_rsqrt) (simp add: power2_eq_square)
    moreover have "0 < sqrt (saa * sbb)" using pos by simp
    ultimately have "\<bar>sab\<bar> / sqrt (saa * sbb) \<le> 1" by (simp only: divide_le_eq_1_pos)
    moreover have "\<bar>sab / sqrt (saa * sbb)\<bar> = \<bar>sab\<bar> / sqrt (saa * sbb)"
      using pos by (simp add: abs_mult)
    moreover have "pearson a b = sab / sqrt (saa * sbb)" using False p by simp
    ultimately show ?thesis by linarith
  qed (auto simp: p)
qed

section \<open>Cross-correlation lag\<close>

lemma lag_slices_some: "lag_slices meter ref lag = None \<longleftrightarrow> \<not> \<bar>lag\<bar> \<le> int (length meter)"
  if "length meter = length ref"
  using that by (auto simp: lag_slices_def Let_def slice_from_def slice_to_def)

lemma lag_loop_total:
  assumes "length meter = length ref" "\<forall>l \<in> set lags. \<bar>l\<bar> \<le> int (length meter)"
  shows "\<exists>res. lag_loop meter ref lags best = Some res"
  using assms(2)
proof (induction lags arbitrary: best)
  case (Cons l lags)
  from Cons.prems lag_slices_some [OF assms(1), of l]
  obtain a b where "lag_slices meter ref l = Some (a, b)" by auto
  with Cons show ?case by (cases best) (auto simp: Let_def)
qed simp

lemma lag_loop_panics:
  assumes "l \<in> set lags" "lag_slices meter ref l = None"
  shows "lag_loop meter ref lags best = None"
  using assms(1)
proof (induction lags arbitrary: best)
  case (Cons k lags)
  then show ?case using assms(2) by (cases best) (auto simp: Let_def split: option.split)
qed simp

lemma crossCorrLag_total:
  assumes "length meter = length ref" "maxLag \<le> int (length meter)"
  shows "crossCorrLag meter ref maxLag \<noteq> None"
proof -
  from assms(2) have "\<forall>l \<in> set [- maxLag..maxLag]. \<bar>l\<bar> \<le> int (length meter)" by auto
  from lag_loop_total [OF assms(1) this, of "(0, None)"] assms
  show ?thesis by (auto simp: crossCorrLag_def split: option.split)
qed

lemma lag_panics:
  assumes "length meter = length ref" "4 \<le> length meter"
  shows "crossCorrLag meter ref maxLag = None \<longleftrightarrow> int (length meter) < maxLag"
proof (cases "int (length meter) < maxLag")
  case True
  have "lag_slices meter ref (- maxLag) = None"
    using lag_slices_some [OF assms(1), of "- maxLag"] True by auto
  then have "lag_loop meter ref [- maxLag..maxLag] (0, None) = None"
    by (rule lag_loop_panics [rotated]) (use True in simp)
  with True assms show ?thesis by (simp add: crossCorrLag_def)
qed (use crossCorrLag_total [OF assms(1)] in auto)

text \<open>
  The lag search returns on two equally long series of four or more samples exactly
  when they have at least \<open>maxLag\<close> samples; on a shorter pair a slice is out of range and the
  call panics. The pipeline calls it with four samples and a maximal lag of five.
\<close>

theorem crossCorrLag_panics_iff:
  assumes "length meter = length ref" "4 \<le> length meter"
  shows "crossCorrLag meter ref maxLag = None \<longleftrightarrow> int (length meter) < maxLag"
  using assms by (rule lag_panics)

lemma crossCorrLag_panics_iff_witness:
  "crossCorrLag [1, 2, 3, 4] [1, 2, 3, 4] 5 = None"
  using crossCorrLag_panics_iff [of "[1, 2, 3, 4]" "[1, 2, 3, 4]" 5] by simp


lemma lag_loop_best:
  assumes "lag_loop meter ref lags best = Some (bl, br)"
  shows "(\<forall>k \<in> set lags. \<exists>a b q. lag_slices meter ref k = Some (a, b) \<and> br = Some q \<and> pearson a b \<le> q)
    \<and> (\<forall>q0. snd best = Some q0 \<longrightarrow> (\<exists>q. br = Some q \<and> q0 \<le> q))
    \<and> ((bl, br) = best \<or> (\<exists>k \<in> set lags. \<exists>a b. bl = k \<and> lag_slices meter ref k = Some (a, b) \<and> br = Some (pearson a b)))"
  using assms
proof (induction lags arbitrary: best)
  case (Cons k lags)
  obtain l0 r0 where best: "best = (l0, r0)" by (cases best)
  obtain a b where ab: "lag_slices meter ref k = Some (a, b)"
    using Cons.prems best by (auto split: option.splits)
  let ?new = "if (case r0 of None \<Rightarrow> True | Some q \<Rightarrow> pearson a b > q) then (k, Some (pearson a b)) else (l0, r0)"
  have "lag_loop meter ref lags ?new = Some (bl, br)" using Cons.prems best ab by (simp add: Let_def)
  note IH = Cons.IH [OF this]
  have new: "\<exists>q1. snd ?new = Some q1 \<and> pearson a b \<le> q1 \<and> (\<forall>q0. r0 = Some q0 \<longrightarrow> q0 \<le> q1)"
    by (cases r0) auto
  then obtain q where q: "br = Some q" "pearson a b \<le> q" "\<forall>q0. r0 = Some q0 \<longrightarrow> q0 \<le> q"
    using IH by (meson order_trans)
  show ?case
    using IH q ab best by (auto split: if_splits)
qed simp

text \<open>
  The reported lag is one of the candidate lags, its correlation is the Pearson
  correlation of the series shifted by it, and no other candidate lag does better.
\<close>

theorem crossCorrLag_optimal:
  assumes "crossCorrLag meter ref maxLag = Some (l, r)" "length meter = length ref" "4 \<le> length meter" "0 \<le> maxLag"
  shows "\<bar>l\<bar> \<le> maxLag \<and> (\<exists>a b. lag_slices meter ref l = Some (a, b) \<and> r = pearson a b)
    \<and> (\<forall>k \<in> {- maxLag..maxLag}. \<exists>a b. lag_slices meter ref k = Some (a, b) \<and> pearson a b \<le> r)"
proof -
  obtain bl br where loop: "lag_loop meter ref [- maxLag..maxLag] (0, None) = Some (bl, br)"
    using assms(1-3) by (auto simp: crossCorrLag_def split: option.splits prod.splits)
  note B = lag_loop_best [OF loop]
  have mem: "0 \<in> set [- maxLag..maxLag]" using assms(4) by simp
  with B obtain q where q: "br = Some q" by blast
  with loop assms(1-3) have "l = bl" "r = q" by (simp_all add: crossCorrLag_def)
  with B q show ?thesis by fastforce
qed

lemma crossCorrLag_optimal_witness:
  "\<exists>l r. crossCorrLag [1, 2, 3, 5, 4] [1, 2, 3, 5, 4] 1 = Some (l, r) \<and> \<bar>l\<bar> \<le> 1
     \<and> (\<forall>k \<in> {- 1..1}. \<exists>a b. lag_slices [1, 2, 3, 5, 4] [1, 2, 3, 5, 4] k = Some (a, b) \<and> pearson a b \<le> r)"
proof -
  have "crossCorrLag [1, 2, 3, 5, 4] [1, 2, 3, 5, 4] 1 \<noteq> None"
    using crossCorrLag_total [of "[1, 2, 3, 5, 4]" "[1, 2, 3, 5, 4]" 1] by simp
  then obtain l r where "crossCorrLag [1, 2, 3, 5, 4] [1, 2, 3, 5, 4] 1 = Some (l, r)" by auto
  from crossCorrLag_optimal [OF this] this show ?thesis by simp
qed

end
