(* ===== verification/Counter.thy ===== *)
theory Counter
  imports Prelude
begin

text \<open>
  From cumulative counters to consumption: \<open>internal/db/helpers.go\<close> (counter modulus,
  rollover-aware step, glitch filter, Deming slope, bucket ladder) and the SQL ladder
  \<open>hourlyDeltaCTEs\<close> of \<open>internal/db/consumption.go\<close> with \<open>MovementBetween\<close>. A SQL row set of
  one meter ordered by bucket is a list; NULL is None. The aggregates \<open>percentile_cont\<close>,
  \<open>sum\<close> and \<open>lag\<close> follow the PostgreSQL documentation.
\<close>

section \<open>helpers.go\<close>

definition PickBucketMin :: "int \<Rightarrow> int" where
  "PickBucketMin windowMin =
     (let want = (if windowMin < 0 then - ((- windowMin) div 150) else windowMin div 150);
          ladder = [1, 2, 5, 10, 15, 30, 60, 120, 240]
      in case filter (\<lambda>b. b \<ge> want) ladder of [] \<Rightarrow> last ladder | b # _ \<Rightarrow> b)"

definition counterModulus :: "string \<Rightarrow> real" where
  "counterModulus msgType = (if msgType = ''SCM'' then 16777216 else 4294967296)"

text \<open>The expression \<open>rolloverDeltaSQL\<close> builds; \<open>raw\<close> is NULL in a meter's first bucket.\<close>

definition rolloverDelta :: "real option \<Rightarrow> real \<Rightarrow> real option" where
  "rolloverDelta raw modulus = (case raw of None \<Rightarrow> None
     | Some r \<Rightarrow> if r \<ge> 0 then Some r
                else if r + modulus \<ge> 0 \<and> r + modulus < modulus * (1 / 2) then Some (r + modulus)
                else None)"

text \<open>\<open>percentile_cont(p) WITHIN GROUP (ORDER BY x)\<close>: NULL on no rows.\<close>

definition percentile_cont :: "real \<Rightarrow> real list \<Rightarrow> real option" where
  "percentile_cont p xs =
     (if xs = [] then None
      else let ys = sort xs; k = p * real (length xs - 1);
               lo = nat \<lfloor>k\<rfloor>; hi = nat \<lceil>k\<rceil>
           in Some (ys ! lo + (k - of_int \<lfloor>k\<rfloor>) * (ys ! hi - ys ! lo)))"

text \<open>\<open>glitchCleanCTEs\<close>: the rows of one meter that survive the filter.\<close>

definition glitch_limit :: "real list \<Rightarrow> real" where
  "glitch_limit ds = max ((case percentile_cont (1 / 2) (filter (\<lambda>d. d > 0) ds) of None \<Rightarrow> 0 | Some m \<Rightarrow> m) * 50) 1000"

definition glitchClean :: "('b \<times> real option) list \<Rightarrow> ('b \<times> real) list" where
  "glitchClean rows =
     (let ds = List.map_filter snd rows in
      List.map_filter (\<lambda>(b, d). case d of None \<Rightarrow> None
                         | Some v \<Rightarrow> if v \<le> glitch_limit ds then Some (b, v) else None) rows)"

definition demingSlope :: "real \<Rightarrow> real \<Rightarrow> real \<Rightarrow> real" where
  "demingSlope sxx syy sxy =
     (if \<bar>sxy\<bar> < 1 / 10 ^ 12 then (if sxx = 0 then 0 else sxy / sxx)
      else (syy - sxx + sqrt ((syy - sxx) * (syy - sxx) + 4 * sxy * sxy)) / (2 * sxy))"

definition bucketInterval :: "string \<Rightarrow> string" where
  "bucketInterval bucket = (if bucket = ''1d'' then ''1 day''
     else if bucket = ''5m'' then ''5 minutes'' else ''1 hour'')"

definition deltaSource :: "int \<Rightarrow> string" where
  "deltaSource bucketMin = (if bucketMin \<ge> 60 then ''readings_1h'' else ''readings_1m'')"

section \<open>The hourly ladder\<close>

text \<open>A row of \<open>readings_1h\<close> for one meter: bucket start, maximal counter, packets.\<close>

record hour_row =
  h_bucket :: instant
  h_max :: real
  h_n :: int

text \<open>\<open>cmax - lag(cmax) OVER (ORDER BY hb)\<close>: the step from the previous row.\<close>

fun lag_steps :: "real option \<Rightarrow> hour_row list \<Rightarrow> (hour_row \<times> real option) list" where
  "lag_steps prev [] = []"
| "lag_steps prev (r # rs) = (r, map_option (\<lambda>p. h_max r - p) prev) # lag_steps (Some (h_max r)) rs"

definition hourly_deltas :: "real \<Rightarrow> hour_row list \<Rightarrow> (hour_row \<times> real option) list" where
  "hourly_deltas modulus rows = map (\<lambda>(r, raw). (r, rolloverDelta raw modulus)) (lag_steps None rows)"

definition hourly_limit :: "real list \<Rightarrow> real" where
  "hourly_limit ds =
     (let pos = filter (\<lambda>d. d > 0) ds in
      if length pos \<ge> 3 then max ((case percentile_cont (1 / 2) pos of None \<Rightarrow> 0 | Some m \<Rightarrow> m) * 50) 1000
      else 1000)"

text \<open>\<open>hourlyDeltaCTEs\<close> over one meter's rows ordered by bucket.\<close>

definition hourlyDelta :: "real \<Rightarrow> hour_row list \<Rightarrow> (hour_row \<times> real) list" where
  "hourlyDelta modulus rows =
     (let m = hourly_deltas modulus rows; bnd = hourly_limit (List.map_filter snd m) in
      List.map_filter (\<lambda>(r, d). case d of None \<Rightarrow> None
                         | Some v \<Rightarrow> if v \<le> bnd then Some (r, v) else None) m)"

definition consumptionLookback :: duration where "consumptionLookback = 48 * hour"

text \<open>
  \<open>MovementBetween\<close>: the surviving deltas of [start, end), the ladder reading 48 hours more
  so that the first bucket has a predecessor. No row is NULL, not zero.
\<close>

definition MovementBetween :: "real \<Rightarrow> hour_row list \<Rightarrow> instant \<Rightarrow> instant \<Rightarrow> real option" where
  "MovementBetween modulus rows start stop =
     (let window = filter (\<lambda>r. start - consumptionLookback \<le> h_bucket r \<and> h_bucket r < stop) rows;
          kept = filter (\<lambda>(r, d). start \<le> h_bucket r) (hourlyDelta modulus window)
      in if kept = [] then None else Some (sum_list (map snd kept)))"

section \<open>The bucket ladder\<close>

definition bucket_ladder :: "int set" where
  "bucket_ladder = {1, 2, 5, 10, 15, 30, 60, 120, 240}"

text \<open>
  The chosen bucket is on the ladder; it covers the window in about 150 buckets unless
  the window is longer than the widest bucket allows, and no smaller ladder bucket would.
\<close>

theorem PickBucketMin_spec:
  assumes "0 \<le> w"
  shows "PickBucketMin w \<in> bucket_ladder
    \<and> (w < 36150 \<longrightarrow> w div 150 \<le> PickBucketMin w)
    \<and> (\<forall>b \<in> bucket_ladder. b < PickBucketMin w \<longrightarrow> b < w div 150)"
proof -
  define want where "want = w div 150"
  have P: "PickBucketMin w = (if want \<le> 1 then 1 else if want \<le> 2 then 2 else if want \<le> 5 then 5
      else if want \<le> 10 then 10 else if want \<le> 15 then 15 else if want \<le> 30 then 30
      else if want \<le> 60 then 60 else if want \<le> 120 then 120 else 240)"
    using assms unfolding PickBucketMin_def want_def Let_def by simp
  have "w < 36150 \<Longrightarrow> want \<le> 240" by (simp add: want_def)
  then show ?thesis unfolding P want_def [symmetric] bucket_ladder_def by auto
qed

lemma PickBucketMin_spec_witness:
  "PickBucketMin 1440 \<in> bucket_ladder \<and> 1440 div 150 \<le> PickBucketMin 1440 \<and> PickBucketMin 1440 = 10"
  using PickBucketMin_spec [of 1440] by (simp add: PickBucketMin_def)

section \<open>Rollover\<close>

text \<open>The counter a meter shows after \<open>n\<close> units.\<close>

definition shown :: "int \<Rightarrow> int \<Rightarrow> real" where
  "shown modulus n = of_int (n mod modulus)"

lemma rollover_step:
  assumes "0 \<le> d" "2 * d < modulus"
  shows "rolloverDelta (Some (shown modulus (c + d) - shown modulus c)) (of_int modulus) = Some (of_int d)"
proof -
  have m: "0 < modulus" "d < modulus" using assms by linarith+
  let ?a = "c mod modulus"
  have a: "0 \<le> ?a" "?a < modulus" using m by simp_all
  have "(c + d) mod modulus = (?a + d) mod modulus" by (simp add: mod_add_left_eq)
  also have "\<dots> = (if ?a + d < modulus then ?a + d else ?a + d - modulus)"
  proof (cases "?a + d < modulus")
    case False
    then have "(?a + d - modulus) mod modulus = ?a + d - modulus"
      using a m by (intro mod_pos_pos_trivial) linarith+
    with False show ?thesis by (simp add: minus_mod_self2)
  qed (use a assms in \<open>simp add: mod_pos_pos_trivial\<close>)
  finally have e: "(c + d) mod modulus = (if ?a + d < modulus then ?a + d else ?a + d - modulus)" .
  show ?thesis
  proof (cases "?a + d < modulus")
    case True
    with e assms show ?thesis by (simp add: rolloverDelta_def shown_def)
  next
    case False
    have "real_of_int d < of_int modulus * (1 / 2)" using assms(2) by linarith
    with False e assms m show ?thesis
      by (simp add: rolloverDelta_def shown_def flip: of_int_diff of_int_add)
  qed
qed

text \<open>
  When a counter of the given modulus advances by less than half of it, the
  rollover-aware step is exactly the advance, whether or not the counter wrapped.
\<close>

theorem rollover_exact:
  assumes "0 \<le> d" "2 * d < modulus"
  shows "rolloverDelta (Some (shown modulus (c + d) - shown modulus c)) (of_int modulus) = Some (of_int d)"
  using assms by (rule rollover_step)

lemma rollover_exact_witness:
  "rolloverDelta (Some (shown 16777216 (16777210 + 100) - shown 16777216 16777210)) (counterModulus ''SCM'') = Some 100"
  using rollover_exact [of 100 16777216 16777210] by (simp add: counterModulus_def)

section \<open>The ladder recovers the true consumption\<close>

text \<open>The rows show the true totals through the modulus.\<close>

definition rows_show :: "int \<Rightarrow> hour_row list \<Rightarrow> int list \<Rightarrow> bool" where
  "rows_show modulus rows cs \<longleftrightarrow> list_all2 (\<lambda>r c. h_max r = shown modulus c) rows cs"

text \<open>No step is negative or larger than \<open>k\<close>.\<close>

fun steps_within :: "int \<Rightarrow> int list \<Rightarrow> bool" where
  "steps_within k (c # c' # cs) = (0 \<le> c' - c \<and> c' - c \<le> k \<and> steps_within k (c' # cs))"
| "steps_within k _ = True"

lemma hourly_limit_ge: "1000 \<le> hourly_limit ds"
  by (simp add: hourly_limit_def Let_def)

text \<open>The part of the ladder after the limit is known.\<close>

definition keep_below :: "real \<Rightarrow> (hour_row \<times> real option) list \<Rightarrow> (hour_row \<times> real) list" where
  "keep_below bnd = List.map_filter (\<lambda>(r, d). case d of None \<Rightarrow> None
     | Some v \<Rightarrow> if v \<le> bnd then Some (r, v) else None)"

lemma hourlyDelta_keep:
  "hourlyDelta modulus rows
   = keep_below (hourly_limit (List.map_filter snd (hourly_deltas modulus rows))) (hourly_deltas modulus rows)"
  by (simp add: hourlyDelta_def keep_below_def Let_def)

lemma keep_below_sum:
  assumes "list_all2 (\<lambda>r c. h_max r = shown modulus c) rows cs" "steps_within k (c # cs)" "2 * k < modulus" "of_int k \<le> bnd"
  shows "sum_list (map snd (keep_below bnd (map (\<lambda>(r, raw). (r, rolloverDelta raw (of_int modulus))) (lag_steps (Some (shown modulus c)) rows))))
    = of_int (last (c # cs) - c)"
  using assms(1,2)
proof (induction rows cs arbitrary: c rule: list_all2_induct)
  case (Cons r rs c' cs)
  have d: "0 \<le> c' - c" "2 * (c' - c) < modulus" "of_int (c' - c) \<le> bnd"
    using Cons.prems assms(3,4) by auto
  have "rolloverDelta (Some (h_max r - shown modulus c)) (of_int modulus) = Some (of_int (c' - c))"
    using rollover_step [OF d(1,2), of c] Cons.hyps by simp
  then show ?case using d Cons.IH [of c'] Cons.prems Cons.hyps by (simp add: keep_below_def)
qed (simp add: keep_below_def)

text \<open>
  C19. For a meter whose hourly rows show its true totals through a wrapping counter, and
  which never uses more than 1000 counts in an hour, the cleaned deltas of the ladder sum
  to the true consumption from the first row to the last: wrap-around loses nothing and the
  glitch filter drops nothing real.
\<close>

theorem ladder_recovers_consumption:
  assumes "rows_show modulus rows (c # cs)" "steps_within 1000 (c # cs)" "2000 < modulus"
  shows "sum_list (map snd (hourlyDelta (of_int modulus) rows)) = of_int (last (c # cs) - c)"
proof -
  obtain r rs where rows: "rows = r # rs" "h_max r = shown modulus c"
    "list_all2 (\<lambda>r c. h_max r = shown modulus c) rs cs"
    using assms(1) by (auto simp: rows_show_def list_all2_Cons2)
  let ?bnd = "hourly_limit (List.map_filter snd (hourly_deltas (of_int modulus) rows))"
  have "hourlyDelta (of_int modulus) rows
      = keep_below ?bnd (map (\<lambda>(r, raw). (r, rolloverDelta raw (of_int modulus))) (lag_steps (Some (shown modulus c)) rs))"
    unfolding hourlyDelta_keep by (simp add: rows hourly_deltas_def keep_below_def rolloverDelta_def)
  then show ?thesis
    using keep_below_sum [OF rows(3) assms(2), of ?bnd] assms(3) hourly_limit_ge by simp
qed

definition sample_row :: "instant \<Rightarrow> real \<Rightarrow> hour_row" where
  "sample_row b v = \<lparr>h_bucket = b, h_max = v, h_n = 60\<rparr>"

lemma ladder_recovers_consumption_witness:
  "sum_list (map snd (hourlyDelta (counterModulus ''SCM'')
     [sample_row 0 16777200, sample_row hour 16777215, sample_row (2 * hour) 9])) = 25"
  using ladder_recovers_consumption [of 16777216
      "[sample_row 0 16777200, sample_row hour 16777215, sample_row (2 * hour) 9]" 16777200 "[16777215, 16777225]"]
  by (simp add: rows_show_def shown_def sample_row_def counterModulus_def)

text \<open>
  Every delta that survives the ladder is non-negative and at most the glitch limit of
  its window, so one corrupt reading adds at most fifty medians or a thousand counts.
\<close>

theorem ladder_deltas_bounded:
  assumes "0 \<le> modulus" "(r, v) \<in> set (hourlyDelta modulus rows)"
  shows "0 \<le> v \<and> v \<le> hourly_limit (List.map_filter snd (hourly_deltas modulus rows))"
proof -
  have "(r, v) \<in> set (keep_below bnd ds) \<Longrightarrow> v \<le> bnd \<and> (r, Some v) \<in> set ds" for bnd ds
    by (induction ds) (auto simp: keep_below_def split: option.splits if_splits)
  with assms(2) have "v \<le> hourly_limit (List.map_filter snd (hourly_deltas modulus rows))"
    and "(r, Some v) \<in> set (hourly_deltas modulus rows)"
    unfolding hourlyDelta_keep by blast+
  moreover from this(2) obtain raw where "rolloverDelta raw modulus = Some v"
    by (auto simp: hourly_deltas_def)
  then have "0 \<le> v" by (auto simp: rolloverDelta_def split: option.splits if_splits)
  ultimately show ?thesis by simp
qed

lemma ladder_deltas_bounded_witness:
  "0 \<le> (15 :: real) \<and> 15 \<le> hourly_limit (List.map_filter snd
     (hourly_deltas (counterModulus ''SCM'') [sample_row 0 16777200, sample_row hour 16777215]))"
  using ladder_deltas_bounded [of "counterModulus ''SCM''" "sample_row hour 16777215" 15
      "[sample_row 0 16777200, sample_row hour 16777215]"]
  by (simp add: hourlyDelta_def hourly_deltas_def rolloverDelta_def sample_row_def counterModulus_def
      hourly_limit_def Let_def)

end
