(* ===== verification/Daily.thy ===== *)
theory Daily
  imports Stats Ert "HOL-Library.List_Lexorder" "HOL-Library.Char_ord" "HOL-Library.Product_Lexorder"
begin

text \<open>
  The daily physics screen, \<open>internal/db/daily.go\<close>: unit inference, magnitude band and
  per-day containment of one meter (\<open>evalDailyRow\<close>), the whole screen over the query
  results (\<open>dailyReconciliation\<close>), its memo, and the bill band. What a query returned is an
  argument; a Go map that is only looked up is a partial function, one that is iterated is
  the list of its entries in the iteration order. The failure reason is a datatype instead
  of its rendered text.
\<close>

section \<open>Rows\<close>

record DailyDay =
  dd_Day :: string
  dd_Kwh :: "real option"
  dd_Resid :: "real option"

datatype daily_reason = NoReason | NoReadingsOn string | Magnitude real real real | BelowMonitored string | NoReadings

record DailyMeterRow =
  dr_EndpointID :: int
  dr_MsgType :: string
  dr_EndpointType :: "int option"
  dr_Label :: "string option"
  dr_Unit :: "real option"
  dr_KwhPerDay :: "real option"
  dr_ResidMean :: "real option"
  dr_ResidSD :: "real option"
  dr_Pass :: bool
  dr_Score :: real
  dr_Reason :: daily_reason
  dr_Days :: "DailyDay list"
  dr_Packets :: int
  dr_Sources :: int

record PhysicsSignal =
  ps_Score :: real
  ps_Pass :: bool

definition map0 :: "(string \<rightharpoonup> real) \<Rightarrow> string \<Rightarrow> real" where
  "map0 m k = (case m k of None \<Rightarrow> 0 | Some v \<Rightarrow> v)"

text \<open>The counter units of every day, or the first day without any.\<close>

fun day_units :: "(string \<rightharpoonup> real) \<Rightarrow> string list \<Rightarrow> string + real list" where
  "day_units byDay [] = Inr []"
| "day_units byDay (day # ds) =
     (case byDay day of None \<Rightarrow> Inl day
      | Some u \<Rightarrow> (case day_units byDay ds of Inl d \<Rightarrow> Inl d | Inr us \<Rightarrow> Inr (u # us)))"

text \<open>The decade that lands in the band, nearest to 1.25 times the monitored mean; None is plus infinity.\<close>

fun infer_unit :: "real \<Rightarrow> real \<Rightarrow> real \<Rightarrow> real \<Rightarrow> real list \<Rightarrow> real option \<times> real option \<Rightarrow> real option" where
  "infer_unit meanUnits monAvg bandLo bandHi [] (best, unit) = unit"
| "infer_unit meanUnits monAvg bandLo bandHi (mu # ms) (best, unit) =
     (let k = meanUnits * mu; dist = \<bar>ln (k / (5 / 4 * monAvg))\<bar> in
      if k < bandLo \<or> k > bandHi then infer_unit meanUnits monAvg bandLo bandHi ms (best, unit)
      else infer_unit meanUnits monAvg bandLo bandHi ms
             (if (case best of None \<Rightarrow> True | Some b \<Rightarrow> dist < b) then (Some dist, Some mu) else (best, unit)))"

definition day_tolerance :: "real \<Rightarrow> real" where
  "day_tolerance mon = max (3 / 2) (5 / 100 * mon)"

definition worst_day :: "(string \<rightharpoonup> real) \<Rightarrow> real \<Rightarrow> string list \<Rightarrow> real list \<Rightarrow> string option" where
  "worst_day monitored unit days units =
     map_option fst (List.find (\<lambda>(day, u). u * unit - map0 monitored day < - day_tolerance (map0 monitored day)) (zip days units))"

definition evalDailyRow ::
    "DailyMeterRow \<Rightarrow> (string \<rightharpoonup> real) \<Rightarrow> string list \<Rightarrow> (string \<rightharpoonup> real) \<Rightarrow> real \<Rightarrow> real \<Rightarrow> real \<Rightarrow> DailyMeterRow" where
  "evalDailyRow row byDay days monitored monAvg bandLo bandHi =
     (case day_units byDay days of
        Inl day \<Rightarrow> row\<lparr>dr_Reason := NoReadingsOn day, dr_Days := []\<rparr>
      | Inr units \<Rightarrow>
          (case infer_unit (mean units) monAvg bandLo bandHi [1, 1 / 10, 1 / 100] (None, None) of
             None \<Rightarrow> row\<lparr>dr_Days := map (\<lambda>(day, u). \<lparr>dd_Day = day, dd_Kwh = Some (round_places u 3), dd_Resid = None\<rparr>) (zip days units),
                         dr_Reason := Magnitude (mean units) bandLo bandHi\<rparr>
           | Some unit \<Rightarrow>
               (let resids = map (\<lambda>(day, u). u * unit - map0 monitored day) (zip days units);
                    rm = mean resids; rs = stddev resids;
                    row1 = row\<lparr>dr_Unit := Some unit, dr_KwhPerDay := Some (round_places (mean units * unit) 2),
                               dr_Days := map (\<lambda>(day, u). \<lparr>dd_Day = day, dd_Kwh = Some (round_places (u * unit) 3),
                                              dd_Resid = Some (round_places (u * unit - map0 monitored day) 3)\<rparr>) (zip days units),
                               dr_ResidMean := Some (round_places rm 2), dr_ResidSD := Some (round_places rs 2)\<rparr>
                in case worst_day monitored unit days units of
                     Some day \<Rightarrow> row1\<lparr>dr_Reason := BelowMonitored day\<rparr>
                   | None \<Rightarrow>
                       (let stability = clamp01 (1 - rs / (15 / 100 * monAvg + 2));
                            smallness = clamp01 (1 - rm / max monAvg 1)
                        in row1\<lparr>dr_Pass := True,
                                dr_Score := round_places (clamp01 (3 / 10 + 4 / 10 * stability + 3 / 10 * smallness)) 3\<rparr>))))"

section \<open>The screen\<close>

definition dailyMinDays :: nat where "dailyMinDays = 3"
definition dailyMaxDays :: int where "dailyMaxDays = 60"
definition dailyCoverageMin :: real where "dailyCoverageMin = 9 / 10"

record screenMeta =
  sm_msgType :: string
  sm_endpointType :: "int option"
  sm_packets :: int
  sm_sources :: int
  sm_ignored :: bool
  sm_label :: "string option"

definition zero_meta :: screenMeta where
  "zero_meta = \<lparr>sm_msgType = [], sm_endpointType = None, sm_packets = 0, sm_sources = 0, sm_ignored = False, sm_label = None\<rparr>"

record DailyScreen =
  sc_Days :: "string list"
  sc_MonitoredKwh :: "real list"
  sc_MonitoredAvg :: real
  sc_BillLo :: "real option"
  sc_BillHi :: "real option"
  sc_BandLo :: real
  sc_BandHi :: real
  sc_MinDays :: nat
  sc_Survivors :: nat
  sc_ExcludedDays :: nat
  sc_CoverageMin :: real
  sc_Rows :: "DailyMeterRow list"
  sc_verdicts :: "int \<rightharpoonup> PhysicsSignal"

definition empty_screen :: DailyScreen where
  "empty_screen = \<lparr>sc_Days = [], sc_MonitoredKwh = [], sc_MonitoredAvg = 0, sc_BillLo = None, sc_BillHi = None,
     sc_BandLo = 0, sc_BandHi = 0, sc_MinDays = dailyMinDays, sc_Survivors = 0, sc_ExcludedDays = 0,
     sc_CoverageMin = 0, sc_Rows = [], sc_verdicts = Map.empty\<rparr>"

definition blank_row :: "int \<Rightarrow> screenMeta \<Rightarrow> DailyMeterRow" where
  "blank_row i m = \<lparr>dr_EndpointID = i, dr_MsgType = sm_msgType m, dr_EndpointType = sm_endpointType m, dr_Label = sm_label m,
     dr_Unit = None, dr_KwhPerDay = None, dr_ResidMean = None, dr_ResidSD = None, dr_Pass = False, dr_Score = 0,
     dr_Reason = NoReason, dr_Days = [], dr_Packets = sm_packets m, dr_Sources = sm_sources m\<rparr>"

text \<open>The window: at most 60 days back from the last data.\<close>

definition screen_window :: "instant \<Rightarrow> instant \<Rightarrow> instant \<times> instant" where
  "screen_window lo hi = (if time_sub hi lo > dailyMaxDays * 24 * hour then (hi - dailyMaxDays * 24 * hour, hi) else (lo, hi))"

text \<open>The days that count, ascending, and the number excluded for missing coverage.\<close>

definition inner_day :: "string \<Rightarrow> string \<Rightarrow> string \<Rightarrow> bool" where
  "inner_day firstDay lastDay day \<longleftrightarrow> firstDay < day \<and> day < lastDay"

definition screen_days :: "(string \<times> real) list \<Rightarrow> (string \<rightharpoonup> real) \<Rightarrow> string \<Rightarrow> string \<Rightarrow> string list \<times> nat" where
  "screen_days monitored coverage firstDay lastDay =
     (let inner = filter (\<lambda>(day, kwh). inner_day firstDay lastDay day) monitored;
          covered = filter (\<lambda>(day, kwh). \<not> map0 coverage day < dailyCoverageMin) inner
      in (sort (map fst (filter (\<lambda>(day, kwh). kwh > 0) covered)), length inner - length covered))"

text \<open>The magnitude band, tightened by the bill where the two overlap.\<close>

definition screen_band :: "real \<Rightarrow> (real \<times> real) option \<Rightarrow> real \<times> real" where
  "screen_band monAvg bill =
     (let bandLo = 9 / 10 * monAvg; bandHi = 3 * monAvg in
      case bill of None \<Rightarrow> (bandLo, bandHi)
      | Some (blo, bhi) \<Rightarrow>
          (let l = max bandLo (6 / 10 * blo) in
           if l < min bandHi (14 / 10 * bhi) then (l, min bandHi (14 / 10 * bhi)) else (bandLo, bandHi)))"

text \<open>What the queries of one run returned; an error of the last two ends the run.\<close>

record screen_input =
  si_span :: "(instant \<times> instant) option"
  si_monitored :: "(string \<times> real) list"
  si_coverage :: "string \<rightharpoonup> real"
  si_bill :: "string \<Rightarrow> (real \<times> real) option"
  si_perDay :: "(int \<times> (string \<rightharpoonup> real)) list option"
  si_meta :: "(int \<rightharpoonup> screenMeta) option"

text \<open>One meter of the loop: skipped, or its evaluated row.\<close>

definition screen_meter ::
    "int list \<Rightarrow> (int \<rightharpoonup> screenMeta) \<Rightarrow> (screenMeta \<Rightarrow> int \<Rightarrow> (string \<rightharpoonup> real) \<Rightarrow> DailyMeterRow) \<Rightarrow> int \<times> (string \<rightharpoonup> real) \<Rightarrow> DailyMeterRow option" where
  "screen_meter extraIDs meta eval = (\<lambda>(i, byDay).
     case meta i of None \<Rightarrow> None
     | Some m \<Rightarrow>
         if i \<notin> set extraIDs \<and> (sm_ignored m \<or> Commodity (sm_endpointType m) \<noteq> ''electric'') then None
         else Some (eval m i byDay))"

definition verdict_map :: "nat \<Rightarrow> DailyMeterRow list \<Rightarrow> int \<rightharpoonup> PhysicsSignal" where
  "verdict_map ndays rows =
     fold (\<lambda>r v. if length (dr_Days r) = ndays
                 then v(dr_EndpointID r \<mapsto> \<lparr>ps_Score = dr_Score r, ps_Pass = dr_Pass r\<rparr>) else v) rows Map.empty"

definition missing_rows :: "int list \<Rightarrow> (int \<times> (string \<rightharpoonup> real)) list \<Rightarrow> (int \<rightharpoonup> screenMeta) \<Rightarrow> DailyMeterRow list" where
  "missing_rows extraIDs perDay meta =
     map (\<lambda>i. (blank_row i (case meta i of None \<Rightarrow> zero_meta | Some m \<Rightarrow> m))\<lparr>dr_Reason := NoReadings\<rparr>)
       (filter (\<lambda>i. i \<notin> fst ` set perDay) extraIDs)"

text \<open>Stable sort: passing rows first, then by falling score.\<close>

definition sort_rows :: "DailyMeterRow list \<Rightarrow> DailyMeterRow list" where
  "sort_rows = sort_key (\<lambda>r. (\<not> dr_Pass r, - dr_Score r))"

text \<open>The evaluated meters and the rows of the result.\<close>

definition screen_rows ::
    "int list \<Rightarrow> (int \<times> (string \<rightharpoonup> real)) list \<Rightarrow> (int \<rightharpoonup> screenMeta)
     \<Rightarrow> (screenMeta \<Rightarrow> int \<Rightarrow> (string \<rightharpoonup> real) \<Rightarrow> DailyMeterRow) \<Rightarrow> DailyMeterRow list \<times> DailyMeterRow list" where
  "screen_rows extraIDs perDay meta eval =
     (let evald = List.map_filter (screen_meter extraIDs meta eval) perDay;
          kept = filter (\<lambda>r. dr_Pass r \<or> dr_EndpointID r \<in> set extraIDs) evald
      in (evald, sort_rows (kept @ missing_rows extraIDs perDay meta)))"

text \<open>\<open>fmtDay\<close> is the local date of an instant in the configured zone.\<close>

definition dailyReconciliation :: "(instant \<Rightarrow> string) \<Rightarrow> screen_input \<Rightarrow> int list \<Rightarrow> DailyScreen option" where
  "dailyReconciliation fmtDay q extraIDs =
     (case si_span q of None \<Rightarrow> Some empty_screen
      | Some (lo0, hi0) \<Rightarrow>
          (let (lo, hi) = screen_window lo0 hi0;
               monitored = map_of (si_monitored q);
               (days, excluded) = screen_days (si_monitored q) (si_coverage q) (fmtDay lo) (fmtDay hi);
               screen = empty_screen\<lparr>sc_Days := days, sc_ExcludedDays := excluded, sc_CoverageMin := dailyCoverageMin,
                          sc_MonitoredKwh := map (\<lambda>d. round_places (map0 monitored d) 3) days\<rparr>
           in if length days < dailyMinDays then Some screen
              else
                (let monAvg = mean (map (map0 monitored) days);
                     bill = si_bill q (take 2 (drop 5 (last days)));
                     (bandLo, bandHi) = screen_band monAvg bill;
                     screen1 = screen\<lparr>sc_MonitoredAvg := round_places monAvg 3,
                                 sc_BillLo := map_option fst bill, sc_BillHi := map_option snd bill,
                                 sc_BandLo := round_places bandLo 3, sc_BandHi := round_places bandHi 3\<rparr>
                 in case (si_perDay q, si_meta q) of
                      (Some perDay, Some meta) \<Rightarrow>
                        (let (evald, rows) = screen_rows extraIDs perDay meta (\<lambda>m i byDay.
                                        evalDailyRow (blank_row i m) byDay days monitored monAvg bandLo bandHi)
                         in Some (screen1\<lparr>sc_verdicts := verdict_map (length days) evald, sc_Rows := rows,
                                    sc_Survivors := length (filter dr_Pass rows)\<rparr>))
                    | _ \<Rightarrow> None)))"

section \<open>The memo\<close>

text \<open>
  The key holds the zone, the joined entity list and, when the configuration loads, the
  HVAC entity and its two kW rates.
\<close>

type_synonym memo_key = "string \<times> string list \<times> (string \<times> real \<times> real) option"

record daily_memo =
  mo_key :: memo_key
  mo_at :: instant
  mo_screen :: "DailyScreen option"

definition memoTTL :: duration where "memoTTL = 5 * minute"

text \<open>
  \<open>compute\<close> is the uncached run, whose result is None on an error; the second component of
  the result is the memo after the call.
\<close>

definition DailyReconciliation ::
    "instant \<Rightarrow> instant \<Rightarrow> memo_key \<Rightarrow> (int list \<Rightarrow> DailyScreen option) \<Rightarrow> int list \<Rightarrow> daily_memo \<Rightarrow> DailyScreen option \<times> daily_memo" where
  "DailyReconciliation now later key compute extraIDs memo =
     (if extraIDs = [] \<and> mo_screen memo \<noteq> None \<and> mo_key memo = key \<and> time_sub now (mo_at memo) < memoTTL
      then (mo_screen memo, memo)
      else let out = compute extraIDs in
           (out, if out \<noteq> None \<and> extraIDs = [] then \<lparr>mo_key = key, mo_at = later, mo_screen = out\<rparr> else memo))"

section \<open>The bill band\<close>

text \<open>The rates per calendar month, in the iteration order of the map.\<close>

definition monthRatesFor :: "(string \<times> real list) list \<Rightarrow> string \<Rightarrow> real list" where
  "monthRatesFor rates month =
     (case map_of rates month of
        Some rs \<Rightarrow> if rs \<noteq> [] then rs else concat (map snd rates)
      | None \<Rightarrow> concat (map snd rates))"

definition billDailyBand :: "(string \<times> real list) list option \<Rightarrow> string \<Rightarrow> (real \<times> real) option" where
  "billDailyBand rates month = (case rates of None \<Rightarrow> None
     | Some rates' \<Rightarrow>
         (case monthRatesFor rates' month of [] \<Rightarrow> None
          | r # rs \<Rightarrow> Some (round_places (fold min (r # rs) r) 2, round_places (fold max (r # rs) r) 2)))"

definition billDailyMonthMean :: "(string \<times> real list) list \<Rightarrow> string \<Rightarrow> real option" where
  "billDailyMonthMean rates month =
     (let use = monthRatesFor rates month in
      if use = [] then None else Some (round_places (sum_list use / real (length use)) 3))"


section \<open>What passing means\<close>

lemma day_units_Inr:
  "day_units byDay days = Inr us \<Longrightarrow> map byDay days = map Some us"
proof (induction days arbitrary: us)
  case (Cons d ds)
  then obtain u us' where "byDay d = Some u" "day_units byDay ds = Inr us'" "us = u # us'"
    by (auto split: option.splits sum.splits)
  with Cons.IH [of us'] show ?case by simp
qed simp

lemma day_units_all:
  "map byDay days = map Some us \<Longrightarrow> day_units byDay days = Inr us"
proof (induction days arbitrary: us)
  case (Cons d ds)
  then obtain u us' where "us = u # us'" "byDay d = Some u" "map byDay ds = map Some us'"
    by (cases us) auto
  with Cons.IH [of us'] show ?case by simp
qed simp

lemma infer_unit_sound:
  assumes "infer_unit m a lo hi ms (best, start) = Some u" "start = Some u \<Longrightarrow> lo \<le> m * u \<and> m * u \<le> hi"
  shows "(u \<in> set ms \<or> start = Some u) \<and> lo \<le> m * u \<and> m * u \<le> hi"
  using assms
proof (induction ms arbitrary: best start)
  case (Cons x ms)
  show ?case
  proof (cases "m * x < lo \<or> m * x > hi")
    case True
    with Cons show ?thesis by (auto simp: Let_def)
  next
    case False
    let ?d = "\<bar>ln (m * x / (5 / 4 * a))\<bar>"
    let ?new = "if (case best of None \<Rightarrow> True | Some b \<Rightarrow> ?d < b) then (Some ?d, Some x) else (best, start)"
    obtain b' s' where n: "?new = (b', s')" by (cases ?new)
    then have s': "s' = Some x \<or> s' = start" by (auto split: if_splits)
    have "infer_unit m a lo hi (x # ms) (best, start) = infer_unit m a lo hi ms ?new"
      using False by (simp only: infer_unit.simps Let_def if_False)
    with Cons.prems(1) n have "infer_unit m a lo hi ms (b', s') = Some u" by (simp only:)
    moreover have "s' = Some u \<Longrightarrow> lo \<le> m * u \<and> m * u \<le> hi" using s' Cons.prems(2) False by (auto simp: not_less)
    ultimately have "(u \<in> set ms \<or> s' = Some u) \<and> lo \<le> m * u \<and> m * u \<le> hi" by (rule Cons.IH)
    with s' show ?thesis by auto
  qed
qed simp

lemma infer_unit_only:
  assumes "x \<in> set ms" "lo \<le> m * x" "m * x \<le> hi" "\<forall>y \<in> set ms. y \<noteq> x \<longrightarrow> m * y < lo \<or> hi < m * y"
  shows "infer_unit m a lo hi ms (None, None) = Some x"
proof -
  have keep: "infer_unit m a lo hi ms (Some b, Some x) = Some x"
    if "\<forall>y \<in> set ms. y \<noteq> x \<longrightarrow> m * y < lo \<or> hi < m * y" for ms b
    using that by (induction ms arbitrary: b) (auto simp: Let_def)
  show ?thesis using assms
  proof (induction ms)
    case (Cons y ms)
    show ?case
    proof (cases "y = x")
      case True
      with Cons.prems keep [of ms] show ?thesis by (simp add: Let_def)
    next
      case False
      with Cons show ?thesis by (auto simp: Let_def)
    qed
  qed simp
qed

lemma worst_day_none:
  assumes "map byDay days = map Some units"
  shows "worst_day monitored unit days units = None
    \<longleftrightarrow> (\<forall>day \<in> set days. \<forall>u. byDay day = Some u \<longrightarrow> map0 monitored day - day_tolerance (map0 monitored day) \<le> u * unit)"
proof -
  have len: "length days = length units" using assms by (metis length_map)
  have "set (zip days units) = {(d, u). d \<in> set days \<and> byDay d = Some u}"
    using assms len
  proof (induction days units rule: list_induct2')
    case (4 d ds u us)
    then show ?case by auto
  qed auto
  then show ?thesis
    by (auto simp: worst_day_def find_None_iff not_less algebra_simps)
qed

definition day_score :: "real \<Rightarrow> real list \<Rightarrow> real" where
  "day_score monAvg resids =
     round_places (clamp01 (3 / 10 + 4 / 10 * clamp01 (1 - stddev resids / (15 / 100 * monAvg + 2))
                            + 3 / 10 * clamp01 (1 - mean resids / max monAvg 1))) 3"

lemma day_score_bounds: "3 / 10 \<le> day_score monAvg resids \<and> day_score monAvg resids \<le> 1"
proof -
  let ?v = "clamp01 (3 / 10 + 4 / 10 * clamp01 (1 - stddev resids / (15 / 100 * monAvg + 2))
              + 3 / 10 * clamp01 (1 - mean resids / max monAvg 1))"
  have "3 / 10 \<le> ?v"
    using clamp01_ge_0 [of "1 - stddev resids / (15 / 100 * monAvg + 2)"] clamp01_ge_0 [of "1 - mean resids / max monAvg 1"]
    unfolding clamp01_def [of "3 / 10 + _ + _"] by (simp del: clamp01_ge_0)
  from round_places_mono [OF this, of 3] have "round_places (3 / 10) 3 \<le> day_score monAvg resids"
    by (simp only: day_score_def)
  moreover have "round_places (3 / 10) 3 = 3 / 10" by (simp add: round_places_def)
  ultimately show ?thesis by (simp add: day_score_def round_places_le_one)
qed

lemma evalDailyRow_pass:
  assumes "map byDay days = map Some units" "infer_unit (mean units) monAvg bandLo bandHi [1, 1 / 10, 1 / 100] (None, None) = Some unit"
    "\<not> dr_Pass row"
  shows "dr_Pass (evalDailyRow row byDay days monitored monAvg bandLo bandHi) \<longleftrightarrow> worst_day monitored unit days units = None"
    and "dr_Unit (evalDailyRow row byDay days monitored monAvg bandLo bandHi) = Some unit"
    and "worst_day monitored unit days units = None \<Longrightarrow> dr_Score (evalDailyRow row byDay days monitored monAvg bandLo bandHi)
      = day_score monAvg (map (\<lambda>(day, u). u * unit - map0 monitored day) (zip days units))"
  using day_units_all [OF assms(1)] assms(2,3)
  by (simp_all add: evalDailyRow_def Let_def day_score_def split: option.splits)

text \<open>
  C23. A meter passes the physics screen only when it has a reading on every day, its mean
  daily energy at the inferred decade lies in the magnitude band, and on every single day it
  read at least the monitored energy less the tolerance; its score is then at least 0.3.
\<close>

theorem daily_pass_sound:
  assumes "dr_Pass (evalDailyRow row byDay days monitored monAvg bandLo bandHi)" "\<not> dr_Pass row"
  shows "\<exists>unit units. dr_Unit (evalDailyRow row byDay days monitored monAvg bandLo bandHi) = Some unit
    \<and> unit \<in> {1, 1 / 10, 1 / 100} \<and> map byDay days = map Some units
    \<and> bandLo \<le> mean units * unit \<and> mean units * unit \<le> bandHi
    \<and> (\<forall>day \<in> set days. \<forall>u. byDay day = Some u \<longrightarrow> map0 monitored day - day_tolerance (map0 monitored day) \<le> u * unit)
    \<and> 3 / 10 \<le> dr_Score (evalDailyRow row byDay days monitored monAvg bandLo bandHi)
    \<and> dr_Score (evalDailyRow row byDay days monitored monAvg bandLo bandHi) \<le> 1"
proof -
  obtain units where u: "day_units byDay days = Inr units"
    using assms by (auto simp: evalDailyRow_def split: sum.splits)
  then obtain unit where i: "infer_unit (mean units) monAvg bandLo bandHi [1, 1 / 10, 1 / 100] (None, None) = Some unit"
    using assms by (auto simp: evalDailyRow_def split: option.splits)
  note m = day_units_Inr [OF u]
  note E = evalDailyRow_pass [OF m i assms(2)]
  from E(1) assms(1) have w: "worst_day monitored unit days units = None" by simp
  have "unit \<in> {1, 1 / 10, 1 / 100}" "bandLo \<le> mean units * unit" "mean units * unit \<le> bandHi"
    using infer_unit_sound [OF i] by auto
  with E(2) E(3) [OF w] w day_score_bounds m worst_day_none [OF m] show ?thesis by metis
qed

text \<open>
  Conversely a meter read on every day, whose energy at some decade is in the band
  while the other decades are not, and which stays above the monitored energy less the
  tolerance every day, passes with exactly that unit.
\<close>

theorem daily_true_meter_passes:
  assumes "map byDay days = map Some units" "\<not> dr_Pass row" "unit \<in> {1, 1 / 10, 1 / 100}"
    "bandLo \<le> mean units * unit" "mean units * unit \<le> bandHi"
    "\<forall>y \<in> {1, 1 / 10, 1 / 100}. y \<noteq> unit \<longrightarrow> mean units * y < bandLo \<or> bandHi < mean units * y"
    "\<forall>day \<in> set days. \<forall>u. byDay day = Some u \<longrightarrow> map0 monitored day - day_tolerance (map0 monitored day) \<le> u * unit"
  shows "dr_Pass (evalDailyRow row byDay days monitored monAvg bandLo bandHi)
    \<and> dr_Unit (evalDailyRow row byDay days monitored monAvg bandLo bandHi) = Some unit"
proof -
  have "infer_unit (mean units) monAvg bandLo bandHi [1, 1 / 10, 1 / 100] (None, None) = Some unit"
    by (rule infer_unit_only) (use assms(3-6) in auto)
  from evalDailyRow_pass(1,2) [OF assms(1) this assms(2)] worst_day_none [OF assms(1)] assms(7)
  show ?thesis by simp
qed

definition sample_days :: "string list" where
  "sample_days = [''2026-06-01'', ''2026-06-02'', ''2026-06-03'']"

definition sample_units :: "string \<rightharpoonup> real" where
  "sample_units = map_of [(''2026-06-01'', 300), (''2026-06-02'', 310), (''2026-06-03'', 290)]"

definition sample_monitored :: "string \<rightharpoonup> real" where
  "sample_monitored = map_of [(''2026-06-01'', 20), (''2026-06-02'', 25), (''2026-06-03'', 15)]"

lemma sample_passes:
  "dr_Pass (evalDailyRow (blank_row 1 zero_meta) sample_units sample_days sample_monitored 20 18 60)"
  "dr_Unit (evalDailyRow (blank_row 1 zero_meta) sample_units sample_days sample_monitored 20 18 60) = Some (1 / 10)"
proof -
  have 1: "map sample_units sample_days = map Some [300, 310, 290]" by (simp add: sample_units_def sample_days_def)
  have 2: "infer_unit (mean [300, 310, 290]) 20 18 60 [1, 1 / 10, 1 / 100] (None, None) = Some (1 / 10)"
    by (rule infer_unit_only) (auto simp: mean_def)
  have 3: "worst_day sample_monitored (1 / 10) sample_days [300, 310, 290] = None"
    by (simp add: worst_day_def sample_days_def sample_monitored_def map0_def day_tolerance_def)
  show "dr_Pass (evalDailyRow (blank_row 1 zero_meta) sample_units sample_days sample_monitored 20 18 60)"
    "dr_Unit (evalDailyRow (blank_row 1 zero_meta) sample_units sample_days sample_monitored 20 18 60) = Some (1 / 10)"
    using evalDailyRow_pass(1,2) [OF 1 2, of "blank_row 1 zero_meta" sample_monitored] 3 by (simp_all add: blank_row_def)
qed

lemma daily_pass_sound_witness:
  "3 / 10 \<le> dr_Score (evalDailyRow (blank_row 1 zero_meta) sample_units sample_days sample_monitored 20 18 60)"
  using daily_pass_sound [OF sample_passes(1)] by (auto simp: blank_row_def)

lemma daily_true_meter_passes_witness:
  "dr_Pass (evalDailyRow (blank_row 1 zero_meta) sample_units sample_days sample_monitored 20 18 60)"
  using daily_true_meter_passes [of sample_units sample_days "[300, 310, 290]" "blank_row 1 zero_meta" "1 / 10" 18 60 sample_monitored 20]
  by (simp add: blank_row_def sample_units_def sample_days_def sample_monitored_def mean_def map0_def day_tolerance_def)


section \<open>The screen as a whole\<close>

lemma screen_rows_pass:
  assumes "r \<in> set (List.map_filter (screen_meter extraIDs meta eval) perDay)"
  shows "\<exists>i byDay m. (i, byDay) \<in> set perDay \<and> meta i = Some m \<and> r = eval m i byDay
    \<and> (i \<in> set extraIDs \<or> \<not> sm_ignored m \<and> Commodity (sm_endpointType m) = ''electric'')"
  using assms
proof (induction perDay)
  case (Cons p perDay)
  obtain i byDay where "p = (i, byDay)" by (cases p)
  with Cons show ?case by (force simp: screen_meter_def split: option.splits if_splits)
qed simp

lemma eval_keeps_id [simp]:
  "dr_EndpointID (evalDailyRow row byDay days monitored monAvg bandLo bandHi) = dr_EndpointID row"
  by (simp add: evalDailyRow_def Let_def split: sum.split option.split)

lemma screen_days_props:
  assumes "screen_days monitored coverage firstDay lastDay = (days, excluded)"
  shows "sorted days" "\<forall>d \<in> set days. firstDay < d \<and> d < lastDay \<and> dailyCoverageMin \<le> map0 coverage d
    \<and> (\<exists>k > 0. (d, k) \<in> set monitored)"
proof -
  have "days = sort (map fst (filter (\<lambda>(day, kwh). kwh > 0) (filter (\<lambda>(day, kwh). \<not> map0 coverage day < dailyCoverageMin)
      (filter (\<lambda>(day, kwh). inner_day firstDay lastDay day) monitored))))"
    using assms by (simp add: screen_days_def Let_def)
  then show "sorted days" and "\<forall>d \<in> set days. firstDay < d \<and> d < lastDay \<and> dailyCoverageMin \<le> map0 coverage d
    \<and> (\<exists>k > 0. (d, k) \<in> set monitored)"
    by (auto simp: inner_day_def not_less)
qed

text \<open>
  Of a finished screen: the days are ascending, strictly inside the capture span, have
  positive monitored energy and at least 90 percent coverage; the survivor count is the
  number of passing rows, these come first; and unless it was asked for, a passing meter is
  known, electric and not ignored.
\<close>

theorem screen_sound:
  assumes "dailyReconciliation fmtDay q [] = Some sc" "si_span q = Some (lo0, hi0)"
  shows "sorted (sc_Days sc)
    \<and> (\<forall>d \<in> set (sc_Days sc). fmtDay (fst (screen_window lo0 hi0)) < d \<and> d < fmtDay (snd (screen_window lo0 hi0))
         \<and> dailyCoverageMin \<le> map0 (si_coverage q) d \<and> (\<exists>k > 0. (d, k) \<in> set (si_monitored q)))
    \<and> sc_Survivors sc = length (filter dr_Pass (sc_Rows sc))
    \<and> (\<forall>r \<in> set (sc_Rows sc). dr_Pass r \<and> (\<exists>meta m. si_meta q = Some meta \<and> meta (dr_EndpointID r) = Some m
         \<and> \<not> sm_ignored m \<and> Commodity (sm_endpointType m) = ''electric''))"
proof -
  obtain lo hi where w: "screen_window lo0 hi0 = (lo, hi)" by (cases "screen_window lo0 hi0")
  obtain days ex where d: "screen_days (si_monitored q) (si_coverage q) (fmtDay lo) (fmtDay hi) = (days, ex)"
    by (cases "screen_days (si_monitored q) (si_coverage q) (fmtDay lo) (fmtDay hi)")
  note D = screen_days_props [OF d]
  define monAvg where "monAvg = mean (map (map0 (map_of (si_monitored q))) days)"
  obtain bl bh where b: "screen_band monAvg (si_bill q (take 2 (drop 5 (last days)))) = (bl, bh)"
    by (cases "screen_band monAvg (si_bill q (take 2 (drop 5 (last days))))")
  note run = assms(1) [unfolded dailyReconciliation_def assms(2) option.case prod.case w Let_def d, folded monAvg_def, unfolded b prod.case]
  have win: "fst (screen_window lo0 hi0) = lo" "snd (screen_window lo0 hi0) = hi" using w by simp_all
  show ?thesis
  proof (cases "length days < dailyMinDays")
    case True
    from run have "sc_Days sc = days" "sc_Rows sc = []" "sc_Survivors sc = 0"
      unfolding if_P [OF True] by (auto simp: empty_screen_def)
    with D win show ?thesis by simp
  next
    case False
    note run2 = run [unfolded if_not_P [OF False]]
    from run2 obtain perDay meta where pm: "si_perDay q = Some perDay" "si_meta q = Some meta"
      by (cases "si_perDay q"; cases "si_meta q") simp_all
    define ev where "ev = (\<lambda>m i byDay. evalDailyRow (blank_row i m) byDay days (map_of (si_monitored q)) monAvg bl bh)"
    define rows where "rows = snd (screen_rows [] perDay meta ev)"
    from run2 have sc: "sc_Days sc = days" "sc_Rows sc = rows" "sc_Survivors sc = length (filter dr_Pass rows)"
      unfolding pm prod.case option.case ev_def [symmetric] by (auto simp: rows_def split_def)
    have rows: "\<forall>r \<in> set rows. dr_Pass r \<and> r \<in> set (List.map_filter (screen_meter [] meta ev) perDay)"
      by (simp add: rows_def screen_rows_def Let_def sort_rows_def missing_rows_def)
    have "\<exists>m. meta (dr_EndpointID r) = Some m \<and> \<not> sm_ignored m \<and> Commodity (sm_endpointType m) = ''electric''"
      if "r \<in> set rows" for r
    proof -
      from rows that screen_rows_pass [of r "[]" meta ev perDay] obtain i byDay m where
        "meta i = Some m" "r = ev m i byDay" "\<not> sm_ignored m" "Commodity (sm_endpointType m) = ''electric''"
        by (metis empty_iff list.set(1))
      then show ?thesis by (simp add: ev_def blank_row_def)
    qed
    with rows sc D win pm show ?thesis by simp
  qed
qed

text \<open>
  The memo: a call without extra ids that computes a screen stores it, and until five
  minutes later every such call with the same configuration key returns that screen whatever
  a fresh run would give; a changed key runs again.
\<close>

theorem memo_serves:
  assumes "DailyReconciliation now later key compute [] memo = (Some sc, memo')" "mo_screen memo = None"
    "int64_min \<le> now2 - later" "now2 - later < memoTTL"
  shows "DailyReconciliation now2 later2 key compute2 [] memo' = (Some sc, memo')
    \<and> (key2 \<noteq> key \<longrightarrow> fst (DailyReconciliation now2 later2 key2 compute2 [] memo') = compute2 [])"
proof -
  have m: "memo' = \<lparr>mo_key = key, mo_at = later, mo_screen = Some sc\<rparr>"
    using assms(1,2) by (auto simp: DailyReconciliation_def Let_def split: if_splits)
  have "time_sub now2 later < memoTTL"
    using assms(3,4) by (auto simp: time_sub_def memoTTL_def int64_min_def int64_max_def)
  then show ?thesis by (simp add: DailyReconciliation_def m Let_def)
qed

definition sample_key :: memo_key where "sample_key = (''UTC'', [''sensor.a''], None)"

definition no_memo :: daily_memo where
  "no_memo = \<lparr>mo_key = ([], [], None), mo_at = zero_time, mo_screen = None\<rparr>"

lemma memo_serves_witness:
  "fst (DailyReconciliation minute minute sample_key (\<lambda>_. None) []
      (snd (DailyReconciliation 0 0 sample_key (\<lambda>_. Some empty_screen) [] no_memo))) = Some empty_screen"
proof -
  have "DailyReconciliation 0 0 sample_key (\<lambda>_. Some empty_screen) [] no_memo
      = (Some empty_screen, \<lparr>mo_key = sample_key, mo_at = 0, mo_screen = Some empty_screen\<rparr>)"
    by (simp add: DailyReconciliation_def no_memo_def Let_def)
  from memo_serves [OF this, of minute minute "\<lambda>_. None" sample_key] this show ?thesis
    by (simp add: no_memo_def int64_min_def memoTTL_def)
qed

definition sample_screen_input :: screen_input where
  "sample_screen_input = \<lparr>si_span = Some (0, 5 * day_ns), si_monitored = [], si_coverage = Map.empty, si_bill = (\<lambda>_. None),
     si_perDay = Some [], si_meta = Some Map.empty\<rparr>"

lemma screen_sound_witness:
  "\<exists>sc. dailyReconciliation format_rfc3339 sample_screen_input [] = Some sc \<and> sorted (sc_Days sc)"
proof -
  have "\<exists>sc. dailyReconciliation format_rfc3339 sample_screen_input [] = Some sc"
    by (simp add: dailyReconciliation_def sample_screen_input_def screen_window_def screen_days_def Let_def
        dailyMinDays_def split: prod.split)
  then show ?thesis using screen_sound [of format_rfc3339 sample_screen_input _ 0 "5 * day_ns"]
    by (auto simp: sample_screen_input_def)
qed

end
