(* ===== verification/Utility.thy ===== *)
theory Utility
  imports Confidence Counter Stats Ert "HOL-Library.List_Lexorder" "HOL-Library.Char_ord"
begin

text \<open>
  The utility bill, \<open>internal/db/utility.go\<close>: the table of billed buckets and its writes, the
  alignment of a meter's hourly deltas to the billing buckets (the SQL of
  \<open>utilityMeterEvidence\<close> as list functions), the multiplier with its stability, the
  per-meter comparison, the bill series and the spreading of monthly bills over days. The
  local calendar date of an instant is the argument \<open>localDay\<close> (days since the epoch), since
  it depends on the time-zone database.
\<close>

section \<open>The table\<close>

record util_row =
  ur_stat :: string
  ur_period :: string
  ur_ts :: instant
  ur_kwh :: real

definition ur_key :: "util_row \<Rightarrow> string \<times> string \<times> instant" where
  "ur_key r = (ur_stat r, ur_period r, ur_ts r)"

text \<open>\<open>ON CONFLICT DO UPDATE\<close>; a command that proposes one key twice fails.\<close>

definition upsert_one :: "util_row list \<Rightarrow> util_row \<Rightarrow> util_row list" where
  "upsert_one t r = (if ur_key r \<in> ur_key ` set t
     then map (\<lambda>x. if ur_key x = ur_key r then r else x) t else t @ [r])"

definition UpsertUtilityEnergy ::
    "string \<Rightarrow> string \<Rightarrow> instant list \<Rightarrow> real list \<Rightarrow> util_row list \<Rightarrow> util_row list option" where
  "UpsertUtilityEnergy statID period ts kwh t =
     (if ts = [] then Some t
      else if \<not> distinct ts then None
      else Some (foldl upsert_one t (map2 (\<lambda>x k. \<lparr>ur_stat = statID, ur_period = period, ur_ts = x, ur_kwh = k\<rparr>) ts kwh)))"

definition KeepOnlyUtility :: "string \<Rightarrow> string \<Rightarrow> util_row list \<Rightarrow> util_row list" where
  "KeepOnlyUtility statID period = filter (\<lambda>r. \<not> (ur_stat r \<noteq> statID \<or> ur_period r \<noteq> period))"

definition UtilityEnergy :: "string \<Rightarrow> instant \<Rightarrow> instant \<Rightarrow> util_row list \<Rightarrow> real" where
  "UtilityEnergy statID start stop t =
     (if statID = [] then 0
      else sum_list (map ur_kwh (filter (\<lambda>r. ur_stat r = statID \<and> start \<le> ur_ts r \<and> ur_ts r < stop) t)))"

text \<open>The span and count of a statistic and period; no row leaves the zero time.\<close>

definition UtilityCoverage :: "string \<Rightarrow> string \<Rightarrow> util_row list \<Rightarrow> instant \<times> instant \<times> nat" where
  "UtilityCoverage statID period t =
     (let ts = map ur_ts (filter (\<lambda>r. ur_stat r = statID \<and> ur_period r = period) t) in
      if ts = [] then (zero_time, zero_time, 0) else (Min (set ts), Max (set ts), length ts))"

definition resolvedPeriod :: "string \<Rightarrow> util_row list \<Rightarrow> string" where
  "resolvedPeriod statID t =
     (case sort_key (\<lambda>r. - ur_ts r) (filter (\<lambda>r. ur_stat r = statID) t) of
        [] \<Rightarrow> ''month'' | r # _ \<Rightarrow> if ur_period r \<noteq> [] then ur_period r else ''month'')"

definition kwhFactor :: "string \<Rightarrow> real" where
  "kwhFactor unit =
     (let u = to_upper (trim_space unit) in
      if u = ''WH'' then 1 / 1000 else if u = ''MWH'' then 1000 else 1)"

section \<open>Alignment of a meter to the bill\<close>

record utilBucket =
  ub_start :: instant
  ub_end :: instant
  ub_utilityKwh :: real
  ub_meterDelta :: real
  ub_coverage :: real

record utilEvidence =
  ue_multiplier :: "real option"
  ue_cov :: "real option"
  ue_r :: "real option"
  ue_bucketsCovered :: nat
  ue_buckets :: "utilBucket list"

text \<open>\<open>lead(ts) OVER (ORDER BY ts)\<close>; the last bucket has no end and is not joined.\<close>

fun with_lead :: "(instant \<times> real) list \<Rightarrow> (instant \<times> instant \<times> real) list" where
  "with_lead ((a, k) # (b, l) # rest) = (a, b, k) # with_lead ((b, l) # rest)"
| "with_lead _ = []"

definition billed :: "string \<Rightarrow> string \<Rightarrow> util_row list \<Rightarrow> (instant \<times> real) list" where
  "billed statID period t =
     sort_key fst (map (\<lambda>r. (ur_ts r, ur_kwh r)) (filter (\<lambda>r. ur_stat r = statID \<and> ur_period r = period) t))"

text \<open>The meter's hourly deltas over the billed span: \<open>rows\<close> are its hours, ascending.\<close>

definition bill_deltas :: "(instant \<times> real) list \<Rightarrow> real \<Rightarrow> hour_row list \<Rightarrow> (instant \<times> real) list" where
  "bill_deltas ub modulus rows =
     (let lo = fst (hd ub); hi = fst (last ub);
          inside = filter (\<lambda>r. lo \<le> h_bucket r \<and> h_bucket r < hi) rows
      in List.map_filter (\<lambda>(r, d). map_option (\<lambda>v. (h_bucket r, v)) d) (hourly_deltas modulus inside))"

definition align_bucket :: "(instant \<times> real) list \<Rightarrow> instant \<times> instant \<times> real \<Rightarrow> utilBucket option" where
  "align_bucket ds = (\<lambda>(a, b, kwh).
     let hs = filter (\<lambda>(h, d). a \<le> h \<and> h < b) ds;
         total = sum_list (map snd hs);
         bucketHours = of_int (b - a) / 3600000000000;
         cov = (if bucketHours > 0 then real (length hs) / bucketHours else 1)
     in if hs \<noteq> [] \<and> total > 0
        then Some \<lparr>ub_start = a, ub_end = b, ub_utilityKwh = kwh, ub_meterDelta = total, ub_coverage = clamp01 cov\<rparr>
        else None)"

definition align_meter :: "(instant \<times> real) list \<Rightarrow> real \<Rightarrow> hour_row list \<Rightarrow> utilBucket list" where
  "align_meter ub modulus rows =
     (if ub = [] then [] else List.map_filter (align_bucket (bill_deltas ub modulus rows)) (with_lead ub))"

section \<open>Multiplier and stability\<close>

definition weightedMean :: "real list \<Rightarrow> real list \<Rightarrow> real" where
  "weightedMean xs ws =
     (let sx = sum_list (map2 (\<lambda>x w. x * w) xs ws); sw = sum_list (map2 (\<lambda>x w. w) xs ws) in
      if sw = 0 then 0 else sx / sw)"

definition usable_bucket :: "utilBucket \<Rightarrow> bool" where
  "usable_bucket b \<longleftrightarrow> \<not> (ub_meterDelta b \<le> 0 \<or> ub_coverage b \<le> 0)"

definition summarizeUtilEvidence :: "utilEvidence \<Rightarrow> utilEvidence" where
  "summarizeUtilEvidence e =
     (let bs = filter usable_bucket (ue_buckets e);
          prorated = map (\<lambda>b. ub_utilityKwh b * ub_coverage b) bs;
          mults = map (\<lambda>b. ub_utilityKwh b * ub_coverage b / ub_meterDelta b) bs;
          e1 = e\<lparr>ue_bucketsCovered := ue_bucketsCovered e + length bs\<rparr>
      in if mults = [] then e1
         else
           (let m = weightedMean mults (map ub_coverage bs);
                e2 = (if m > 0 then
                        e1\<lparr>ue_multiplier := Some (round_places m 8),
                           ue_cov := (if length mults \<ge> 2 then Some (round_places (stddev mults / m) 3) else ue_cov e1)\<rparr>
                      else e1)
            in if length bs \<ge> 24 then e2\<lparr>ue_r := Some (round_places (pearson (map ub_meterDelta bs) prorated) 3)\<rparr> else e2))"

definition no_evidence :: utilEvidence where
  "no_evidence = \<lparr>ue_multiplier = None, ue_cov = None, ue_r = None, ue_bucketsCovered = 0, ue_buckets = []\<rparr>"

text \<open>
  Per meter (modulus and hourly rows); a meter without an aligned bucket has no entry. An
  empty statistic id gives no evidence at all.
\<close>

definition utilityMeterEvidence ::
    "string \<Rightarrow> string \<Rightarrow> util_row list \<Rightarrow> (int \<times> real \<times> hour_row list) list \<Rightarrow> int \<rightharpoonup> utilEvidence" where
  "utilityMeterEvidence statID period t meters =
     (if statID = [] then Map.empty
      else map_of (List.map_filter (\<lambda>(i, modulus, rows).
             let bs = align_meter (billed statID period t) modulus rows in
             if bs = [] then None else Some (i, summarizeUtilEvidence (no_evidence\<lparr>ue_buckets := bs\<rparr>))) meters))"

section \<open>The comparison panel\<close>

record UtilityDayEstimate =
  de_Day :: string
  de_FlatKwh :: real
  de_ShapedKwh :: "real option"
  de_MeterKwh :: "real option"
  de_Projected :: bool

record UtilityComparePoint =
  cp_TS :: string
  cp_UtilityKwh :: real
  cp_MeterKwh :: "real option"
  cp_CoveragePct :: real

record UtilityCompareResult =
  uc_StatisticID :: string
  uc_Period :: string
  uc_Multiplier :: "real option"
  uc_BucketsCovered :: nat
  uc_Buckets :: "UtilityComparePoint list"
  uc_DailyEstimate :: "UtilityDayEstimate list"

definition compare_point :: "real \<Rightarrow> utilBucket \<Rightarrow> UtilityComparePoint" where
  "compare_point mu b =
     \<lparr>cp_TS = format_rfc3339 (ub_start b), cp_UtilityKwh = round_places (ub_utilityKwh b) 3,
      cp_MeterKwh = (if mu > 0 then Some (round_places (ub_meterDelta b * mu) 3) else None),
      cp_CoveragePct = round_places (ub_coverage b) 3\<rparr>"

text \<open>\<open>daily\<close> is the daily breakdown at a multiplier, computed for monthly bills only.\<close>

definition UtilityCompare ::
    "string \<Rightarrow> string \<Rightarrow> (int \<rightharpoonup> utilEvidence) \<Rightarrow> (real \<Rightarrow> UtilityDayEstimate list) \<Rightarrow> int \<Rightarrow> UtilityCompareResult" where
  "UtilityCompare statID period ev daily meterID =
     (let empty = \<lparr>uc_StatisticID = [], uc_Period = [], uc_Multiplier = None, uc_BucketsCovered = 0, uc_Buckets = [], uc_DailyEstimate = []\<rparr> in
      if statID = [] then empty
      else
        (let res = empty\<lparr>uc_StatisticID := statID, uc_Period := period\<rparr> in
         case ev meterID of None \<Rightarrow> res
         | Some e \<Rightarrow>
             (let mu = deref (ue_multiplier e) in
              res\<lparr>uc_Multiplier := ue_multiplier e, uc_BucketsCovered := ue_bucketsCovered e,
                  uc_Buckets := map (compare_point mu) (ue_buckets e),
                  uc_DailyEstimate := (if period = ''month'' then daily mu else [])\<rparr>)))"

section \<open>Daily spreading of monthly bills\<close>

text \<open>The days of the bill from \<open>a\<close> to \<open>b\<close>, with the bill and its flat daily share.\<close>

definition bill_days :: "(instant \<Rightarrow> int) \<Rightarrow> instant \<times> instant \<times> real \<Rightarrow> (int \<times> real \<times> real) list" where
  "bill_days localDay = (\<lambda>(a, b, kwh).
     let n = localDay b - localDay a in
     map (\<lambda>day. (day, kwh, if n = 0 then 0 else kwh / of_int n)) [localDay a..localDay b - 1])"

text \<open>The meter's delta per local day: the step of the day's maximal counter.\<close>

definition meter_day_deltas :: "(instant \<Rightarrow> int) \<Rightarrow> real \<Rightarrow> hour_row list \<Rightarrow> int \<rightharpoonup> real" where
  "meter_day_deltas localDay modulus rows =
     (let days = remdups_adj (map (\<lambda>r. localDay (h_bucket r)) rows);
          maxima = map (\<lambda>day. \<lparr>h_bucket = day, h_max = Max (h_max ` set (filter (\<lambda>r. localDay (h_bucket r) = day) rows)), h_n = 0\<rparr>) days
      in map_of (List.map_filter (\<lambda>(r, d). map_option (\<lambda>v. (h_bucket r, v)) d) (hourly_deltas modulus maxima)))"

definition day_string :: "int \<Rightarrow> string" where
  "day_string day = (let (y, m, d) = civil_from_days day in
     pad_digits 4 (nat y) @ ''-'' @ pad_digits 2 (nat m) @ ''-'' @ pad_digits 2 (nat d))"

text \<open>
  One meter's daily breakdown; \<open>dayE\<close> and \<open>monE\<close> are the monitored energy of a local day
  and of its calendar month, None without monitored entities.
\<close>

definition utilityDailyEstimate ::
    "(instant \<Rightarrow> int) \<Rightarrow> util_row list \<Rightarrow> string \<Rightarrow> real \<Rightarrow> hour_row list \<Rightarrow> real \<Rightarrow> (int \<Rightarrow> real \<times> real) option \<Rightarrow> UtilityDayEstimate list" where
  "utilityDailyEstimate localDay t statID modulus rows mu monitored =
     (let deltas = meter_day_deltas localDay modulus rows in
      map (\<lambda>(day, kwh, flat).
          \<lparr>de_Day = day_string day, de_FlatKwh = round_places flat 3,
           de_ShapedKwh = (case monitored of None \<Rightarrow> None
             | Some f \<Rightarrow> if kwh > 0 then (let (dayE, monE) = f day in
                 if monE > 0 then Some (round_places (kwh * (dayE / monE)) 3) else None) else None),
           de_MeterKwh = (case deltas day of None \<Rightarrow> None
             | Some v \<Rightarrow> if mu > 0 then Some (round_places (v * mu) 3) else None),
           de_Projected = False\<rparr>)
        (sort_key fst (concat (map (bill_days localDay) (with_lead (billed statID ''month'' t))))))"

text \<open>The whole-home series: \<open>meterKwh\<close> sums the published meters per day.\<close>

definition utilityDailyEstimateSeries ::
    "(instant \<Rightarrow> int) \<Rightarrow> util_row list \<Rightarrow> string \<Rightarrow> real \<Rightarrow> (int \<rightharpoonup> real) \<Rightarrow> (int \<Rightarrow> real \<times> real) option \<Rightarrow> UtilityDayEstimate list" where
  "utilityDailyEstimateSeries localDay t statID factor meterKwh monitored =
     map (\<lambda>(day, kwh, flat).
         \<lparr>de_Day = day_string day, de_FlatKwh = round_places (flat * factor) 3,
          de_ShapedKwh = (case monitored of None \<Rightarrow> None
            | Some f \<Rightarrow> if kwh > 0 then (let (dayE, monE) = f day in
                if monE > 0 then Some (round_places (kwh * factor * (dayE / monE)) 3) else None) else None),
          de_MeterKwh = map_option (\<lambda>k. round_places k 3) (meterKwh day),
          de_Projected = False\<rparr>)
       (sort_key fst (concat (map (bill_days localDay) (with_lead (billed statID ''month'' t)))))"

section \<open>The bill series\<close>

record UtilitySeriesPoint =
  sp_TS :: string
  sp_Kwh :: real
  sp_MeterKwh :: "real option"
  sp_CoveragePct :: real
  sp_Cost :: "real option"

text \<open>What the published meters recorded per bucket: energy and coverage by start second.\<close>

definition series_point :: "real \<Rightarrow> real \<Rightarrow> (int \<rightharpoonup> real \<times> real) option \<Rightarrow> instant \<times> real \<Rightarrow> UtilitySeriesPoint" where
  "series_point factor costPerKwh recon = (\<lambda>(ts, raw).
     let kwh = raw * factor;
         rc = (case recon of None \<Rightarrow> None | Some f \<Rightarrow> f (ts div 1000000000))
     in \<lparr>sp_TS = format_rfc3339 ts, sp_Kwh = round_places kwh 3,
         sp_MeterKwh = map_option (\<lambda>(k, c). round_places k 3) rc,
         sp_CoveragePct = (case rc of None \<Rightarrow> 0 | Some (k, c) \<Rightarrow> round_places c 3),
         sp_Cost = (if costPerKwh > 0 then Some (round_places (kwh * costPerKwh) 2) else None)\<rparr>)"

definition UtilitySeries_points ::
    "string \<Rightarrow> string \<Rightarrow> real \<Rightarrow> real \<Rightarrow> (int \<rightharpoonup> real \<times> real) option \<Rightarrow> util_row list \<Rightarrow> UtilitySeriesPoint list \<times> real \<times> nat" where
  "UtilitySeries_points statID unit_period factor costPerKwh recon t =
     (let rows = billed statID unit_period t in
      (map (series_point factor costPerKwh recon) rows,
       round_places (sum_list (map (\<lambda>(ts, raw). raw * factor) rows)) 3, length rows))"

text \<open>
  \<open>UtilityDailyEstimateRange\<close>: the estimate restricted to local days [from, to], then the
  missing tail projected from the mean rate of the same calendar month, given by day.
\<close>

definition estimate_range ::
    "UtilityDayEstimate list \<Rightarrow> int \<Rightarrow> int \<Rightarrow> (int \<Rightarrow> real option) option \<Rightarrow> UtilityDayEstimate list" where
  "estimate_range all fromDay toDay rates =
     (let from = day_string fromDay; to = day_string toDay;
          kept = filter (\<lambda>e. from \<le> de_Day e \<and> de_Day e \<le> to) all;
          lastReal = fold max (map de_Day all) []
      in if \<not> lastReal < to then kept
         else (case rates of None \<Rightarrow> kept
           | Some rate \<Rightarrow>
               (let start = (if lastReal \<noteq> [] \<and> from \<le> lastReal
                             then (case List.find (\<lambda>d. day_string d = lastReal) [fromDay..toDay] of Some d \<Rightarrow> d + 1 | None \<Rightarrow> fromDay)
                             else fromDay)
                in kept @ List.map_filter (\<lambda>d. map_option (\<lambda>m. \<lparr>de_Day = day_string d, de_FlatKwh = m, de_ShapedKwh = None,
                             de_MeterKwh = None, de_Projected = True\<rparr>) (rate d)) [start..toDay])))"


section \<open>Writing buckets\<close>

lemma upsert_one_distinct:
  "distinct (map ur_key t) \<Longrightarrow> distinct (map ur_key (upsert_one t r))"
proof -
  assume d: "distinct (map ur_key t)"
  have "map ur_key (map (\<lambda>x. if ur_key x = ur_key r then r else x) t) = map ur_key t" by (induction t) auto
  with d show ?thesis by (auto simp: upsert_one_def simp del: map_map)
qed

lemma upsert_one_mem: "r \<in> set (upsert_one t r)"
  by (auto simp: upsert_one_def image_iff)

lemma upsert_one_other: "ur_key x \<noteq> ur_key r \<Longrightarrow> x \<in> set (upsert_one t r) \<longleftrightarrow> x \<in> set t"
  by (auto simp: upsert_one_def image_iff)

lemma upsert_list_other:
  "ur_key x \<notin> ur_key ` set rs \<Longrightarrow> x \<in> set (foldl upsert_one t rs) \<longleftrightarrow> x \<in> set t"
  by (induction rs arbitrary: t) (auto simp: upsert_one_other)

lemma upsert_list_distinct:
  "distinct (map ur_key t) \<Longrightarrow> distinct (map ur_key (foldl upsert_one t rs))"
  by (induction rs arbitrary: t) (auto simp: upsert_one_distinct)

lemma upsert_list_mem:
  "distinct (map ur_key rs) \<Longrightarrow> set rs \<subseteq> set (foldl upsert_one t rs)"
proof (induction rs arbitrary: t)
  case (Cons r rs)
  have "r \<in> set (foldl upsert_one (upsert_one t r) rs)"
    using Cons.prems upsert_one_mem [of r t] by (subst upsert_list_other) auto
  with Cons show ?case by auto
qed simp

definition bucket_rows :: "string \<Rightarrow> string \<Rightarrow> instant list \<Rightarrow> real list \<Rightarrow> util_row list" where
  "bucket_rows statID period ts kwh = map2 (\<lambda>x k. \<lparr>ur_stat = statID, ur_period = period, ur_ts = x, ur_kwh = k\<rparr>) ts kwh"

lemma bucket_rows_distinct:
  "distinct ts \<Longrightarrow> length ts = length kwh \<Longrightarrow> distinct (map ur_key (bucket_rows statID period ts kwh))"
proof -
  assume d: "distinct ts" "length ts = length kwh"
  have "map ur_key (bucket_rows statID period ts kwh) = map (\<lambda>x. (statID, period, x)) (map fst (zip ts kwh))"
    by (simp add: bucket_rows_def ur_key_def case_prod_unfold comp_def)
  with d show ?thesis by (simp add: distinct_map inj_on_def)
qed

text \<open>
  Storing a trailing window of bill buckets keeps one row per statistic, period and
  start; every bucket of the window reads back with its new value, and rows of other keys
  are untouched. Storing the same window again changes nothing that can be read.
\<close>

theorem utility_upsert_correct:
  assumes "UpsertUtilityEnergy statID period ts kwh t = Some t'" "length ts = length kwh" "distinct (map ur_key t)"
  shows "distinct (map ur_key t') \<and> set (bucket_rows statID period ts kwh) \<subseteq> set t'
    \<and> (\<forall>x. ur_key x \<notin> ur_key ` set (bucket_rows statID period ts kwh) \<longrightarrow> (x \<in> set t') = (x \<in> set t))
    \<and> (\<exists>t''. UpsertUtilityEnergy statID period ts kwh t' = Some t'' \<and> set t'' = set t')"
proof (cases "ts = []")
  case True
  with assms show ?thesis by (simp add: UpsertUtilityEnergy_def bucket_rows_def)
next
  case False
  let ?rs = "bucket_rows statID period ts kwh"
  have d: "distinct ts" and t': "t' = foldl upsert_one t ?rs"
    using assms(1) False by (auto simp: UpsertUtilityEnergy_def bucket_rows_def split: if_splits)
  have dk: "distinct (map ur_key ?rs)" using bucket_rows_distinct [OF d assms(2)] .
  have dt: "distinct (map ur_key t')" unfolding t' by (rule upsert_list_distinct [OF assms(3)])
  have mem: "set ?rs \<subseteq> set t'" unfolding t' by (rule upsert_list_mem [OF dk])
  let ?t'' = "foldl upsert_one t' ?rs"
  have again: "UpsertUtilityEnergy statID period ts kwh t' = Some ?t''"
    using False d by (simp add: UpsertUtilityEnergy_def bucket_rows_def)
  have uniq: "x = y" if "x \<in> set u" "y \<in> set u" "ur_key x = ur_key y" "distinct (map ur_key u)" for x y u
    using that by (auto simp: distinct_map inj_on_def)
  have mem2: "set ?rs \<subseteq> set ?t''" by (rule upsert_list_mem [OF dk])
  have dt2: "distinct (map ur_key ?t'')" by (rule upsert_list_distinct [OF dt])
  have "x \<in> set ?t'' \<longleftrightarrow> x \<in> set t'" for x
  proof (cases "ur_key x \<in> ur_key ` set ?rs")
    case True
    then obtain r where r: "r \<in> set ?rs" "ur_key x = ur_key r" by auto
    with mem mem2 uniq [OF _ _ r(2) dt] uniq [OF _ _ r(2) dt2] show ?thesis by blast
  qed (simp add: upsert_list_other)
  then have "set ?t'' = set t'" by blast
  with dt mem again t' upsert_list_other show ?thesis by metis
qed

definition sample_bill :: "util_row list" where
  "sample_bill = [\<lparr>ur_stat = ''opower'', ur_period = ''day'', ur_ts = 0, ur_kwh = 20\<rparr>]"

lemma utility_upsert_correct_witness:
  "\<exists>t'. UpsertUtilityEnergy ''opower'' ''day'' [0, 24 * hour] [24, 48] sample_bill = Some t'
     \<and> distinct (map ur_key t') \<and> set (bucket_rows ''opower'' ''day'' [0, 24 * hour] [24, 48]) \<subseteq> set t'"
proof -
  have "\<exists>t'. UpsertUtilityEnergy ''opower'' ''day'' [0, 24 * hour] [24, 48] sample_bill = Some t'"
    by (simp add: UpsertUtilityEnergy_def)
  then obtain t' where t': "UpsertUtilityEnergy ''opower'' ''day'' [0, 24 * hour] [24, 48] sample_bill = Some t'" ..
  from utility_upsert_correct [OF t'] t' show ?thesis by (auto simp: sample_bill_def)
qed

section \<open>The multiplier\<close>

lemma weightedMean_const:
  assumes "length xs = length ws" "\<forall>x \<in> set xs. x = c" "\<forall>w \<in> set ws. 0 < w" "ws \<noteq> []"
  shows "weightedMean xs ws = c"
proof -
  have "sum_list (map2 (\<lambda>x w. x * w) xs ws) = c * sum_list (map2 (\<lambda>x w. w) xs ws)"
    using assms(1,2) by (induction xs ws rule: list_induct2) (auto simp: algebra_simps)
  moreover have "sum_list (map2 (\<lambda>x w. w) xs ws) = sum_list ws"
    using assms(1) by (induction xs ws rule: list_induct2) auto
  moreover have "0 < sum_list ws" using assms(3,4)
  proof (induction ws)
    case (Cons w ws)
    then show ?case by (cases "ws = []") auto
  qed simp
  ultimately show ?thesis by (simp add: weightedMean_def Let_def)
qed

text \<open>
  For the bill's own meter - one whose counter advanced in every usable bucket by the
  covered share of the bill over a fixed factor - the derived multiplier is that factor
  (rounded to eight places), and with two or more buckets its variation is zero.
\<close>

theorem own_meter_multiplier:
  assumes "0 < factor" "ue_bucketsCovered e = 0" "filter usable_bucket (ue_buckets e) \<noteq> []"
    "\<forall>b \<in> set (ue_buckets e). usable_bucket b \<longrightarrow> ub_utilityKwh b * ub_coverage b = factor * ub_meterDelta b"
  shows "ue_multiplier (summarizeUtilEvidence e) = Some (round_places factor 8)
    \<and> ue_bucketsCovered (summarizeUtilEvidence e) = length (filter usable_bucket (ue_buckets e))
    \<and> (2 \<le> length (filter usable_bucket (ue_buckets e)) \<longrightarrow> ue_cov (summarizeUtilEvidence e) = Some 0)"
proof -
  let ?bs = "filter usable_bucket (ue_buckets e)"
  define mults where "mults = map (\<lambda>b. ub_utilityKwh b * ub_coverage b / ub_meterDelta b) ?bs"
  have const: "\<forall>x \<in> set mults. x = factor"
    using assms(4) by (auto simp: mults_def usable_bucket_def not_le)
  have m: "weightedMean mults (map ub_coverage ?bs) = factor"
    by (rule weightedMean_const) (use const assms(3) in \<open>auto simp: mults_def usable_bucket_def not_le\<close>)
  have sd: "stddev mults = 0" using stddev_const [OF const] .
  have ne: "mults \<noteq> []" "length mults = length ?bs" using assms(3) by (simp_all add: mults_def)
  show ?thesis
    unfolding summarizeUtilEvidence_def Let_def mults_def [symmetric] m sd
    using ne assms(1,2) by simp
qed

definition sample_evidence :: utilEvidence where
  "sample_evidence = no_evidence\<lparr>ue_buckets :=
     [\<lparr>ub_start = 0, ub_end = 24 * hour, ub_utilityKwh = 24, ub_meterDelta = 12, ub_coverage = 1 / 2\<rparr>,
      \<lparr>ub_start = 24 * hour, ub_end = 48 * hour, ub_utilityKwh = 30, ub_meterDelta = 30, ub_coverage = 1\<rparr>]\<rparr>"

lemma own_meter_multiplier_witness:
  "ue_multiplier (summarizeUtilEvidence sample_evidence) = Some (round_places 1 8)
   \<and> ue_cov (summarizeUtilEvidence sample_evidence) = Some 0"
  using own_meter_multiplier [of 1 sample_evidence]
  by (simp add: sample_evidence_def no_evidence_def usable_bucket_def)

section \<open>Spreading a bill\<close>

text \<open>
  Spreading a bill over its local days loses nothing: there is one share per day of the
  billing period and the shares add up to the bill.
\<close>

theorem bill_days_conserve:
  assumes "localDay a < localDay b"
  shows "length (bill_days localDay (a, b, kwh)) = nat (localDay b - localDay a)
    \<and> sum_list (map (\<lambda>(day, bill, flat). flat) (bill_days localDay (a, b, kwh))) = kwh"
proof -
  let ?n = "localDay b - localDay a"
  have "map (\<lambda>(day, bill, flat). flat) (bill_days localDay (a, b, kwh)) = map (\<lambda>day. kwh / of_int ?n) [localDay a..localDay b - 1]"
    using assms by (simp add: bill_days_def Let_def)
  also have "sum_list \<dots> = real (nat ?n) * (kwh / of_int ?n)"
    by (simp add: sum_list_triv)
  also have "\<dots> = kwh" using assms by simp
  finally show ?thesis by (simp add: bill_days_def Let_def)
qed

lemma bill_days_conserve_witness:
  "sum_list (map (\<lambda>(day, bill, flat). flat) (bill_days (\<lambda>t. t div day_ns) (0, 31 * day_ns, 620))) = 620"
  using bill_days_conserve [of "\<lambda>t. t div day_ns" 0 "31 * day_ns" 620] by (simp add: day_ns_def)

end
