(* ===== verification/Correlate.thy ===== *)
theory Correlate
  imports Confidence Counter Daily Utility
begin

text \<open>
  Candidate ranking, \<open>internal/db/correlate.go\<close>: the rate-ratio ranking of one window
  (\<open>Correlation\<close>), the calibration and composite confidence of every meter against the
  monitored reference (\<open>CorrelationVsReferenceAux\<close>), the lag enrichment with its panic
  (\<open>enrichLag\<close>), and the standing of a meter across windows (\<open>aggregateWindows\<close>,
  \<open>aggregateConfidence\<close>, \<open>utilityOnlyConfidence\<close>). The rows a query returns are arguments; a
  query error is None. A map iterated by the code is a list in the iteration order.
\<close>

section \<open>Rows\<close>

record CorrRow =
  cr_EndpointID :: int
  cr_Commodity :: string
  cr_MsgType :: string
  cr_EndpointType :: "int option"
  cr_R :: "real option"
  cr_Score :: real
  cr_WindowDelta :: real
  cr_WindowRate :: real
  cr_BaselineRate :: real
  cr_WindowPackets :: int
  cr_R2 :: "real option"
  cr_Slope :: "real option"
  cr_BaselineW :: "real option"
  cr_SuggestedMultiplier :: "real option"
  cr_MeterEnergyKwh :: "real option"
  cr_FloorOK :: "bool option"
  cr_LagBuckets :: "int option"
  cr_Confidence :: "real option"
  cr_ConfidenceParts :: "(string \<rightharpoonup> real) option"
  cr_PubMultiplier :: real
  cr_PubUnit :: "string option"
  cr_IsMine :: bool
  cr_Publish :: bool

text \<open>One row of the window query.\<close>

record window_row =
  wr_EndpointID :: int
  wr_MsgType :: "string option"
  wr_EndpointType :: "int option"
  wr_TotalDelta :: "real option"
  wr_WindowDelta :: "real option"
  wr_WindowPackets :: "int option"
  wr_IsMine :: bool
  wr_Publish :: bool
  wr_PubMultiplier :: real
  wr_PubUnit :: "string option"

definition epsilon :: real where "epsilon = 1 / 10 ^ 9"

definition fmax :: "real \<Rightarrow> real \<Rightarrow> real" where
  "fmax a b = (if a > b then a else b)"

section \<open>The rate ratio of one window\<close>

definition window_hours :: "instant \<Rightarrow> instant \<Rightarrow> real" where
  "window_hours start stop = (let h = hours (time_sub stop start) in if h \<le> 0 then epsilon else h)"

definition outside_hours :: "instant \<Rightarrow> instant \<Rightarrow> real \<Rightarrow> real" where
  "outside_hours lo hi wh = (let h = hours (time_sub hi lo) - wh in if h < epsilon then epsilon else h)"

definition corr_row :: "real \<Rightarrow> real \<Rightarrow> window_row \<Rightarrow> CorrRow" where
  "corr_row wh oh w =
     (let wd = deref (wr_WindowDelta w);
          om0 = deref (wr_TotalDelta w) - wd;
          om = (if om0 < 0 then 0 else om0)
      in \<lparr>cr_EndpointID = wr_EndpointID w, cr_Commodity = Commodity (wr_EndpointType w),
          cr_MsgType = (case wr_MsgType w of None \<Rightarrow> [] | Some t \<Rightarrow> t), cr_EndpointType = wr_EndpointType w,
          cr_R = None, cr_Score = round_places ((wd / wh) / fmax (om / oh) epsilon) 3, cr_WindowDelta = wd,
          cr_WindowRate = round_places (wd / wh) 4, cr_BaselineRate = round_places (om / oh) 4,
          cr_WindowPackets = (case wr_WindowPackets w of None \<Rightarrow> 0 | Some n \<Rightarrow> n),
          cr_R2 = None, cr_Slope = None, cr_BaselineW = None, cr_SuggestedMultiplier = None, cr_MeterEnergyKwh = None,
          cr_FloorOK = None, cr_LagBuckets = None, cr_Confidence = None, cr_ConfidenceParts = None,
          cr_PubMultiplier = wr_PubMultiplier w, cr_PubUnit = wr_PubUnit w, cr_IsMine = wr_IsMine w, cr_Publish = wr_Publish w\<rparr>)"

definition Correlation :: "(instant \<times> instant) option \<Rightarrow> window_row list option \<Rightarrow> instant \<Rightarrow> instant \<Rightarrow> CorrRow list option" where
  "Correlation dataSpan rows start stop =
     (case dataSpan of None \<Rightarrow> Some []
      | Some (lo, hi) \<Rightarrow>
          (case rows of None \<Rightarrow> None
           | Some ws \<Rightarrow>
               (let wh = window_hours start stop; oh = outside_hours lo hi wh in
                Some (sort_key (\<lambda>r. (- cr_Score r, - cr_WindowDelta r)) (map (corr_row wh oh) ws)))))"

section \<open>Calibration against the reference\<close>

record regrRow =
  rg_r :: "real option"
  rg_slope :: "real option"
  rg_intercept :: "real option"
  rg_r2 :: "real option"
  rg_p10 :: "real option"
  rg_sxx :: "real option"
  rg_syy :: "real option"
  rg_sxy :: "real option"
  rg_xbar :: "real option"
  rg_ybar :: "real option"
  rg_nbuckets :: "int option"

record IdentifyAux =
  ax_Physics :: "(int \<rightharpoonup> PhysicsSignal) option"
  ax_SnoopK :: int

definition AuxFromScreen :: "DailyScreen option \<Rightarrow> IdentifyAux option" where
  "AuxFromScreen screen = map_option (\<lambda>s. \<lparr>ax_Physics = Some (sc_verdicts s), ax_SnoopK = int (sc_Survivors s)\<rparr>) screen"

definition regr_slope :: "regrRow \<Rightarrow> real" where
  "regr_slope rr =
     (let deming = (case (rg_sxx rr, rg_syy rr, rg_sxy rr) of
                      (Some sxx, Some syy, Some sxy) \<Rightarrow> demingSlope sxx syy sxy | _ \<Rightarrow> 0)
      in if deming \<le> 0 then (case rg_slope rr of None \<Rightarrow> deming | Some s \<Rightarrow> s) else deming)"

definition regr_icept :: "regrRow \<Rightarrow> real \<Rightarrow> real" where
  "regr_icept rr slope =
     (case (rg_xbar rr, rg_ybar rr) of
        (Some x, Some y) \<Rightarrow> y - slope * x
      | _ \<Rightarrow> (case rg_intercept rr of None \<Rightarrow> 0 | Some i \<Rightarrow> i))"

definition calibrate :: "real \<Rightarrow> real \<Rightarrow> regrRow \<Rightarrow> CorrRow \<Rightarrow> CorrRow" where
  "calibrate floorW bucketHours rr row =
     (let row1 = row\<lparr>cr_R := (case rg_r rr of None \<Rightarrow> cr_R row | Some r \<Rightarrow> Some (round_places r 3)),
                     cr_R2 := (case rg_r2 rr of None \<Rightarrow> cr_R2 row | Some r \<Rightarrow> Some (round_places r 3))\<rparr>;
          slope = regr_slope rr
      in if slope > 0 then
           (let mu = round_places (1 / (1000 * slope)) 8 in
            row1\<lparr>cr_Slope := Some (round_places slope 6), cr_SuggestedMultiplier := Some mu,
                 cr_BaselineW := Some (round_places ((regr_icept rr slope / slope) / bucketHours) 1),
                 cr_FloorOK := (case rg_p10 rr of
                     Some p \<Rightarrow> if floorW > 0 then Some ((p / slope) / bucketHours \<ge> 8 / 10 * floorW) else cr_FloorOK row1
                   | None \<Rightarrow> cr_FloorOK row1),
                 cr_MeterEnergyKwh := Some (round_places (cr_WindowDelta row1 * mu) 3)\<rparr>)
         else row1)"

definition applyPhysics :: "IdentifyAux option \<Rightarrow> int \<Rightarrow> confidenceSignals \<Rightarrow> confidenceSignals" where
  "applyPhysics aux i sig =
     (case aux of None \<Rightarrow> sig
      | Some a \<Rightarrow>
          (case ax_Physics a of None \<Rightarrow> sig
           | Some m \<Rightarrow>
               (case m i of None \<Rightarrow> sig
                | Some p \<Rightarrow> if ps_Pass p then sig\<lparr>cs_Physics := Some (ps_Score p)\<rparr> else sig\<lparr>cs_PhysicsViolation := True\<rparr>)))"

text \<open>The signals of one row, with the number of buckets and the lag penalty of the caller.\<close>

definition row_signals ::
    "real \<Rightarrow> int \<Rightarrow> real option \<Rightarrow> IdentifyAux option \<Rightarrow> int \<Rightarrow> real option \<Rightarrow> CorrRow \<Rightarrow> confidenceSignals" where
  "row_signals monitoredKwh nCandidates refCV aux nBuckets lagp row =
     applyPhysics aux (cr_EndpointID row)
       \<lparr>cs_R = cr_R row, cs_R2 = cr_R2 row, cs_HasMultiplier = (cr_SuggestedMultiplier row \<noteq> None),
        cs_MeterKwh = (case cr_MeterEnergyKwh row of None \<Rightarrow> 0 | Some k \<Rightarrow> k), cs_MonitoredKwh = monitoredKwh,
        cs_FloorOK = cr_FloorOK row, cs_WindowPackets = cr_WindowPackets row, cs_NBuckets = nBuckets,
        cs_NCandidates = nCandidates,
        cs_ChangePoint = Some (changePointCoherence (cr_WindowRate row) (cr_BaselineRate row)),
        cs_LagPenalty = lagp, cs_AnchorAgree = None, cs_Physics = None, cs_PhysicsViolation = False, cs_RefCV = refCV\<rparr>"

definition with_confidence :: "(real \<Rightarrow> real) \<Rightarrow> confidenceSignals \<Rightarrow> CorrRow \<Rightarrow> CorrRow" where
  "with_confidence erfinv sig row =
     (let (conf, parts) = combineConfidence erfinv sig in row\<lparr>cr_Confidence := Some conf, cr_ConfidenceParts := Some parts\<rparr>)"

text \<open>A row without a correlation: nothing, or half the score of a physics survivor.\<close>

definition physics_only :: "IdentifyAux option \<Rightarrow> CorrRow \<Rightarrow> CorrRow" where
  "physics_only aux row =
     (case aux of None \<Rightarrow> row
      | Some a \<Rightarrow>
          (case ax_Physics a of None \<Rightarrow> row
           | Some m \<Rightarrow>
               (case m (cr_EndpointID row) of None \<Rightarrow> row
                | Some p \<Rightarrow>
                    if ps_Pass p then
                      (let conf = clamp01 (1 / 2 * ps_Score p) in
                       row\<lparr>cr_Confidence := Some conf,
                           cr_ConfidenceParts := Some [''physics'' \<mapsto> round_places (ps_Score p) 3, ''confidence'' \<mapsto> round_places conf 3]\<rparr>)
                    else row)))"

text \<open>The first confidence pass over one row.\<close>

definition first_pass ::
    "(real \<Rightarrow> real) \<Rightarrow> real \<Rightarrow> int \<Rightarrow> real option \<Rightarrow> IdentifyAux option \<Rightarrow> (int \<rightharpoonup> regrRow) \<Rightarrow> CorrRow \<Rightarrow> CorrRow" where
  "first_pass erfinv monitoredKwh nCandidates refCV aux reg row =
     (case reg (cr_EndpointID row) of
        None \<Rightarrow> physics_only aux row
      | Some rr \<Rightarrow>
          if cr_R row = None then physics_only aux row
          else with_confidence erfinv
                 (row_signals monitoredKwh nCandidates refCV aux (case rg_nbuckets rr of None \<Rightarrow> 0 | Some n \<Rightarrow> n) None row) row)"

section \<open>Lag enrichment\<close>

definition enrichTopN :: nat where "enrichTopN = 8"
definition enrichMaxLag :: int where "enrichMaxLag = 5"

definition top_indices :: "CorrRow list \<Rightarrow> nat list" where
  "top_indices base =
     take enrichTopN (sort_key (\<lambda>i. - deref (cr_Confidence (base ! i)))
       (filter (\<lambda>i. cr_Confidence (base ! i) \<noteq> None) [0..<length base]))"

definition enrich_row ::
    "(real \<Rightarrow> real) \<Rightarrow> real \<Rightarrow> int \<Rightarrow> real option \<Rightarrow> IdentifyAux option \<Rightarrow> (int \<rightharpoonup> real list \<times> real list) \<Rightarrow> CorrRow \<Rightarrow> CorrRow option" where
  "enrich_row erfinv monitoredKwh nCandidates refCV aux series row =
     (case series (cr_EndpointID row) of
        None \<Rightarrow> Some row
      | Some (meter, ref) \<Rightarrow>
          if length meter < 4 then Some row
          else (case crossCorrLag meter ref enrichMaxLag of
                  None \<Rightarrow> None
                | Some (lag, _) \<Rightarrow>
                    (let row1 = row\<lparr>cr_LagBuckets := Some lag\<rparr> in
                     Some (with_confidence erfinv
                       (row_signals monitoredKwh nCandidates refCV aux (int (length meter)) (Some (lagPenalty lag enrichMaxLag)) row1) row1))))"

fun enrich_at :: "(CorrRow \<Rightarrow> CorrRow option) \<Rightarrow> nat list \<Rightarrow> CorrRow list \<Rightarrow> CorrRow list option" where
  "enrich_at f [] base = Some base"
| "enrich_at f (i # is) base =
     (case f (base ! i) of None \<Rightarrow> None | Some r \<Rightarrow> enrich_at f is (base[i := r]))"

text \<open>None is the panic of the lag search; \<open>series = None\<close> is the failed query.\<close>

definition enrichLag ::
    "(real \<Rightarrow> real) \<Rightarrow> real \<Rightarrow> int \<Rightarrow> real option \<Rightarrow> IdentifyAux option \<Rightarrow> (int \<rightharpoonup> real list \<times> real list) option \<Rightarrow> CorrRow list \<Rightarrow> CorrRow list option" where
  "enrichLag erfinv monitoredKwh nCandidates refCV aux series base =
     (case series of None \<Rightarrow> Some base
      | Some ser \<Rightarrow> enrich_at (enrich_row erfinv monitoredKwh nCandidates refCV aux ser) (top_indices base) base)"

section \<open>The ranking of one window\<close>

record ref_input =
  ri_floor :: real
  ri_monitoredKwh :: real
  ri_reg :: "int \<rightharpoonup> regrRow"
  ri_refCV :: "real option"
  ri_series :: "(int \<rightharpoonup> real list \<times> real list) option"

definition candidate_count :: "IdentifyAux option \<Rightarrow> CorrRow list \<Rightarrow> int" where
  "candidate_count aux base =
     (let n = int (length (filter (\<lambda>r. cr_R r \<noteq> None) base)) in
      case aux of None \<Rightarrow> n | Some a \<Rightarrow> if ax_SnoopK a > 0 then ax_SnoopK a else n)"

text \<open>
  The result: None for the error of the window query, Some None for the panic, else the
  ranked rows and the monitored floor. A failed regression query is an empty \<open>ri_reg\<close>.
\<close>

definition CorrelationVsReferenceAux ::
    "(real \<Rightarrow> real) \<Rightarrow> CorrRow list option \<Rightarrow> string list \<Rightarrow> int \<Rightarrow> bool \<Rightarrow> IdentifyAux option \<Rightarrow> ref_input \<Rightarrow> (CorrRow list \<times> real) option option" where
  "CorrelationVsReferenceAux erfinv correlation entities bucketMin electricOnly aux q =
     (case correlation of None \<Rightarrow> None
      | Some rows \<Rightarrow>
          (let base = (if electricOnly then filter (\<lambda>r. cr_Commodity r = ''electric'') rows else rows) in
           if entities = [] then Some (Some (base, 0))
           else
             (let bm = (if bucketMin \<le> 0 then 1 else bucketMin);
                  bucketHours = of_int bm / 60;
                  base1 = map (\<lambda>r. case ri_reg q (cr_EndpointID r) of None \<Rightarrow> r
                                    | Some rr \<Rightarrow> calibrate (ri_floor q) bucketHours rr r) base;
                  nc = candidate_count aux base1;
                  base2 = map (first_pass erfinv (ri_monitoredKwh q) nc (ri_refCV q) aux (ri_reg q)) base1
              in Some (case enrichLag erfinv (ri_monitoredKwh q) nc (ri_refCV q) aux (ri_series q) base2 of
                         None \<Rightarrow> None
                       | Some base3 \<Rightarrow> Some (sort_key (\<lambda>r. (- deref (cr_Confidence r), - cr_Score r)) base3, ri_floor q)))))"


section \<open>Standing across windows\<close>

record AggRow =
  ar_EndpointID :: int
  ar_Commodity :: string
  ar_AvgScore :: real
  ar_MinScore :: real
  ar_AvgR :: "real option"
  ar_Wins :: nat
  ar_TestsPresent :: nat
  ar_TestsTotal :: nat
  ar_Confidence :: "real option"
  ar_AvgConfidence :: "real option"
  ar_MultiplierCoV :: "real option"
  ar_AnchorMultiplier :: "real option"
  ar_SuggestedMult :: "real option"
  ar_UtilityMultiplier :: "real option"
  ar_UtilityR :: "real option"
  ar_UtilityBuckets :: nat

definition blank_agg :: "int \<Rightarrow> string \<Rightarrow> nat \<Rightarrow> AggRow" where
  "blank_agg i commodity tests =
     \<lparr>ar_EndpointID = i, ar_Commodity = commodity, ar_AvgScore = 0, ar_MinScore = 0, ar_AvgR = None, ar_Wins = 0,
      ar_TestsPresent = 0, ar_TestsTotal = tests, ar_Confidence = None, ar_AvgConfidence = None, ar_MultiplierCoV = None,
      ar_AnchorMultiplier = None, ar_SuggestedMult = None, ar_UtilityMultiplier = None, ar_UtilityR = None, ar_UtilityBuckets = 0\<rparr>"

definition utilityOnlyConfidence :: "utilEvidence option \<Rightarrow> real option" where
  "utilityOnlyConfidence ev =
     (case ev of None \<Rightarrow> None
      | Some e \<Rightarrow>
          if ue_bucketsCovered e = 0 then None
          else
            (let stab = (case ue_cov e of None \<Rightarrow> 1 / 2 | Some c \<Rightarrow> clamp01 (1 - c));
                 cover = clamp01 (real (ue_bucketsCovered e) / 3);
                 conf = stab * (1 / 2 + 1 / 2 * cover);
                 conf = (case ue_r e of None \<Rightarrow> conf | Some r \<Rightarrow> 1 / 2 * conf + 1 / 2 * clamp01 r)
             in Some (round_places (clamp01 conf * (7 / 10)) 3)))"

text \<open>The factors of \<open>aggregateConfidence\<close>, each one read off the row and the samples.\<close>

definition agreement_factor :: "AggRow \<Rightarrow> real" where
  "agreement_factor row =
     (if ar_TestsTotal row > 1 then
        6 / 10 + 25 / 100 * (real (ar_TestsPresent row) / real (ar_TestsTotal row))
               + 15 / 100 * (real (ar_Wins row) / real (ar_TestsTotal row))
      else 1)"

definition stability_cov :: "real list \<Rightarrow> real option" where
  "stability_cov mults = (if length mults \<ge> 2 \<and> mean mults > 0 then Some (stddev mults / mean mults) else None)"

definition fold_ratio :: "real \<Rightarrow> real" where
  "fold_ratio r = (if r < 1 then 1 / r else r)"

definition anchor_factor :: "real option \<Rightarrow> real list \<Rightarrow> real" where
  "anchor_factor suggested anchors =
     (if anchors = [] then 1
      else let am = round_places (mean anchors) 8 in
           (case suggested of
              Some s \<Rightarrow> if s > 0 \<and> am > 0 then clamp01 (12 / 10 - 3 / 10 * (fold_ratio (am / s) - 1)) else 1
            | None \<Rightarrow> 1))"

definition bill_factor :: "real option \<Rightarrow> real option \<Rightarrow> utilEvidence option \<Rightarrow> real" where
  "bill_factor suggested anchor util =
     (case util of None \<Rightarrow> 1
      | Some u \<Rightarrow>
          (case ue_multiplier u of None \<Rightarrow> 1
           | Some um \<Rightarrow>
               if um > 0 then
                 (case (if suggested = None then anchor else suggested) of
                    None \<Rightarrow> 1
                  | Some ref \<Rightarrow> if ref > 0 then clamp01 (115 / 100 - 3 / 10 * (fold_ratio (um / ref) - 1)) else 1)
               else 1))"

definition aggregateConfidence ::
    "real list \<Rightarrow> real list \<Rightarrow> real list \<Rightarrow> utilEvidence option \<Rightarrow> AggRow \<Rightarrow> AggRow" where
  "aggregateConfidence confs mults anchors util row0 =
     (let row = (case util of None \<Rightarrow> row0
                 | Some u \<Rightarrow> row0\<lparr>ar_UtilityMultiplier := ue_multiplier u, ar_UtilityR := ue_r u, ar_UtilityBuckets := ue_bucketsCovered u\<rparr>)
      in if confs = [] then
           (case utilityOnlyConfidence util of None \<Rightarrow> row | Some c \<Rightarrow> row\<lparr>ar_Confidence := Some c\<rparr>)
         else
           (let cov = stability_cov mults;
                suggested = (if mults = [] then ar_SuggestedMult row else Some (round_places (mean mults) 8));
                anchor = (if anchors = [] then ar_AnchorMultiplier row else Some (round_places (mean anchors) 8));
                conf = mean confs * agreement_factor row
                       * (case cov of None \<Rightarrow> 1 | Some c \<Rightarrow> clamp01 (11 / 10 - c))
                       * anchor_factor suggested anchors * bill_factor suggested anchor util
            in row\<lparr>ar_AvgConfidence := Some (round_places (mean confs) 3),
                   ar_MultiplierCoV := (case cov of None \<Rightarrow> ar_MultiplierCoV row | Some c \<Rightarrow> Some (round_places c 3)),
                   ar_SuggestedMult := suggested, ar_AnchorMultiplier := anchor,
                   ar_Confidence := Some (round_places (clamp01 conf) 3)\<rparr>))"

section \<open>All windows\<close>

record agg =
  ag_commodity :: string
  ag_scores :: "real list"
  ag_rs :: "real list"
  ag_confs :: "real list"
  ag_mults :: "real list"
  ag_anchors :: "real list"
  ag_wins :: nat
  ag_present :: nat

definition maxWindows :: nat where "maxWindows = 20"

text \<open>The most recent windows: \<open>wins[len(wins)-maxWindows:]\<close>.\<close>

definition recent_windows :: "'w list \<Rightarrow> 'w list" where
  "recent_windows wins = (if length wins > maxWindows then drop (length wins - maxWindows) wins else wins)"

text \<open>The aux of one window prefers the snoop pool frozen at its close.\<close>

definition window_aux :: "IdentifyAux option \<Rightarrow> int option \<Rightarrow> IdentifyAux option" where
  "window_aux aux snoopK =
     (case snoopK of None \<Rightarrow> aux
      | Some k \<Rightarrow> if k > 0 then Some \<lparr>ax_Physics = (case aux of None \<Rightarrow> None | Some a \<Rightarrow> ax_Physics a), ax_SnoopK = k\<rparr> else aux)"

text \<open>The energy a known load used: wattage times hours, or the measured entity.\<close>

definition expected_kwh :: "real option \<Rightarrow> real option \<Rightarrow> duration \<Rightarrow> real" where
  "expected_kwh knownW entityKwh d =
     (case knownW of Some w \<Rightarrow> w * hours d / 1000 | None \<Rightarrow> (case entityKwh of Some k \<Rightarrow> k | None \<Rightarrow> 0))"

definition agg_add :: "real \<Rightarrow> nat \<Rightarrow> CorrRow \<Rightarrow> (int \<rightharpoonup> agg) \<Rightarrow> (int \<rightharpoonup> agg)" where
  "agg_add expected rank r per =
     (let a = (case per (cr_EndpointID r) of Some a \<Rightarrow> a
               | None \<Rightarrow> \<lparr>ag_commodity = cr_Commodity r, ag_scores = [], ag_rs = [], ag_confs = [], ag_mults = [], ag_anchors = [],
                          ag_wins = 0, ag_present = 0\<rparr>)
      in per(cr_EndpointID r \<mapsto>
           a\<lparr>ag_scores := ag_scores a @ [cr_Score r],
             ag_rs := ag_rs a @ (case cr_R r of None \<Rightarrow> [] | Some v \<Rightarrow> [v]),
             ag_confs := ag_confs a @ (case cr_Confidence r of None \<Rightarrow> [] | Some v \<Rightarrow> [v]),
             ag_mults := ag_mults a @ (case cr_SuggestedMultiplier r of None \<Rightarrow> [] | Some v \<Rightarrow> [v]),
             ag_anchors := ag_anchors a @ (if expected > 0 \<and> cr_WindowDelta r > 0 then [expected / cr_WindowDelta r] else []),
             ag_present := ag_present a + 1,
             ag_wins := (if rank = 0 then ag_wins a + 1 else ag_wins a)\<rparr>))"

definition agg_window :: "real \<Rightarrow> CorrRow list \<Rightarrow> (int \<rightharpoonup> agg) \<Rightarrow> (int \<rightharpoonup> agg)" where
  "agg_window expected ranked per = fold (\<lambda>(rank, r). agg_add expected rank r) (enumerate 0 ranked) per"

text \<open>
  The accumulation over the windows: each with its expected energy and its ranking, which
  is None when the ranking failed; those and the empty ones are skipped.
\<close>

definition agg_windows :: "(real \<times> CorrRow list option) list \<Rightarrow> (int \<rightharpoonup> agg) \<times> nat" where
  "agg_windows ws =
     fold (\<lambda>(expected, ranked) (per, used). case ranked of
             None \<Rightarrow> (per, used)
           | Some rows \<Rightarrow> if rows = [] then (per, used) else (agg_window expected rows per, used + 1)) ws (Map.empty, 0)"

definition agg_row :: "bool \<Rightarrow> nat \<Rightarrow> (int \<rightharpoonup> utilEvidence) \<Rightarrow> int \<Rightarrow> agg \<Rightarrow> AggRow" where
  "agg_row useRef tests util i a =
     (let row = (blank_agg i (ag_commodity a) tests)\<lparr>ar_Wins := ag_wins a, ar_TestsPresent := ag_present a,
                  ar_AvgScore := round_places (mean (ag_scores a)) 3, ar_MinScore := round_places (minOf (ag_scores a)) 3,
                  ar_AvgR := (if ag_rs a = [] then None else Some (round_places (mean (ag_rs a)) 3))\<rparr>
      in if useRef then aggregateConfidence (ag_confs a) (ag_mults a) (ag_anchors a) (util i) row
         else if util i \<noteq> None then aggregateConfidence [] [] [] (util i) row else row)"

text \<open>The meters known from the bill alone, electric ones only.\<close>

definition util_only_rows :: "(int \<rightharpoonup> agg) \<Rightarrow> nat \<Rightarrow> (int \<rightharpoonup> string) \<Rightarrow> (int \<times> utilEvidence) list \<Rightarrow> AggRow list" where
  "util_only_rows per tests commod util =
     List.map_filter (\<lambda>(i, e). if per i \<noteq> None \<or> commod i \<noteq> Some ''electric'' then None
        else Some (aggregateConfidence [] [] [] (Some e) (blank_agg i ''electric'' tests))) util"

text \<open>The order of the ranking; it decides row by row as the comparison of the code does.\<close>

definition agg_before :: "bool \<Rightarrow> AggRow \<Rightarrow> AggRow \<Rightarrow> bool" where
  "agg_before useRef x y =
     (case (ar_Confidence x, ar_Confidence y) of
        (Some _, None) \<Rightarrow> True
      | (None, Some _) \<Rightarrow> False
      | (Some a, Some b) \<Rightarrow> if a \<noteq> b then a > b else
           (case (ar_AvgR x, ar_AvgR y) of
              (Some p, Some q) \<Rightarrow> if useRef \<and> p \<noteq> q then p > q
                 else if ar_Wins x \<noteq> ar_Wins y then ar_Wins x > ar_Wins y else ar_AvgScore x > ar_AvgScore y
            | _ \<Rightarrow> if ar_Wins x \<noteq> ar_Wins y then ar_Wins x > ar_Wins y else ar_AvgScore x > ar_AvgScore y)
      | (None, None) \<Rightarrow>
           (case (ar_AvgR x, ar_AvgR y) of
              (Some p, Some q) \<Rightarrow> if useRef \<and> p \<noteq> q then p > q
                 else if ar_Wins x \<noteq> ar_Wins y then ar_Wins x > ar_Wins y else ar_AvgScore x > ar_AvgScore y
            | _ \<Rightarrow> if ar_Wins x \<noteq> ar_Wins y then ar_Wins x > ar_Wins y else ar_AvgScore x > ar_AvgScore y))"

text \<open>
  The rows before they are sorted: the meters of the windows in the order \<open>ids\<close> the map is
  iterated in, then the bill-only meters.
\<close>

definition aggregateWindows ::
    "bool \<Rightarrow> (real \<times> CorrRow list option) list \<Rightarrow> int list \<Rightarrow> (int \<times> utilEvidence) list \<Rightarrow> (int \<rightharpoonup> string) \<Rightarrow> AggRow list" where
  "aggregateWindows useRef ws ids util commod =
     (let (per, used) = agg_windows ws in
      List.map_filter (\<lambda>i. map_option (agg_row useRef used (map_of util) i) (per i)) ids
      @ util_only_rows per used commod util)"


section \<open>Confidence across windows\<close>

lemma fold_ratio_ge_1: "0 < r \<Longrightarrow> 1 \<le> fold_ratio r"
  by (simp add: fold_ratio_def)

lemma anchor_factor_unit: "unit01 (anchor_factor s as)"
  by (auto simp: anchor_factor_def Let_def split: option.split)

lemma bill_factor_unit: "unit01 (bill_factor s a u)"
  by (auto simp: bill_factor_def split: option.split)

lemma agreement_factor_unit:
  assumes "ar_TestsPresent row \<le> ar_TestsTotal row" "ar_Wins row \<le> ar_TestsTotal row"
  shows "unit01 (agreement_factor row)"
proof (cases "ar_TestsTotal row > 1")
  case True
  have "0 \<le> real n / real (ar_TestsTotal row) \<and> real n / real (ar_TestsTotal row) \<le> 1" if "n \<le> ar_TestsTotal row" for n
    using that True by simp
  note f = this [OF assms(1)] this [OF assms(2)]
  have "agreement_factor row = 6 / 10 + 25 / 100 * (real (ar_TestsPresent row) / real (ar_TestsTotal row))
      + 15 / 100 * (real (ar_Wins row) / real (ar_TestsTotal row))"
    unfolding agreement_factor_def if_P [OF True] ..
  with f show ?thesis unfolding unit01_def by linarith
qed (simp add: agreement_factor_def)

lemma mean_unit: "\<forall>c \<in> set cs. unit01 c \<Longrightarrow> unit01 (mean cs)"
  by (cases "cs = []") (use mean_bounds [of cs 0 1] in \<open>auto simp: unit01_def mean_def\<close>)

definition stability_factor :: "real option \<Rightarrow> real" where
  "stability_factor cov = (case cov of None \<Rightarrow> 1 | Some c \<Rightarrow> clamp01 (11 / 10 - c))"

lemma stability_factor_unit: "unit01 (stability_factor cov)"
  by (cases cov) (simp_all add: stability_factor_def)

lemma product_below:
  assumes "unit01 m" "unit01 a" "unit01 b" "unit01 c" "unit01 d"
  shows "0 \<le> m * a * b * c * d \<and> m * a * b * c * d \<le> m"
proof -
  have "unit01 (a * b * c * d)" using assms by (intro unit01_mult)
  then have "m * (a * b * c * d) \<le> m" "0 \<le> m * (a * b * c * d)"
    using assms(1) by (simp_all add: unit01_def mult_left_le)
  then show ?thesis by (simp add: mult.assoc)
qed

lemma aggregateConfidence_value:
  assumes "confs \<noteq> []"
  shows "ar_Confidence (aggregateConfidence confs mults anchors util row) = Some (round_places (clamp01
    (mean confs * agreement_factor row * stability_factor (stability_cov mults)
     * anchor_factor (if mults = [] then ar_SuggestedMult row else Some (round_places (mean mults) 8)) anchors
     * bill_factor (if mults = [] then ar_SuggestedMult row else Some (round_places (mean mults) 8))
                   (if anchors = [] then ar_AnchorMultiplier row else Some (round_places (mean anchors) 8)) util)) 3)"
  using assms
  by (simp add: aggregateConfidence_def Let_def agreement_factor_def stability_factor_def split: option.split)

text \<open>
  The confidence across windows never exceeds the mean of the window confidences (both
  rounded to three places): agreement, stability, a matching known load and a matching bill
  can only keep or lower it, none of them boosts it.
\<close>

theorem aggregate_never_boosts:
  assumes "confs \<noteq> []" "\<forall>c \<in> set confs. 0 \<le> c \<and> c \<le> 1"
    "ar_TestsPresent row \<le> ar_TestsTotal row" "ar_Wins row \<le> ar_TestsTotal row"
  shows "\<exists>c. ar_Confidence (aggregateConfidence confs mults anchors util row) = Some c
    \<and> 0 \<le> c \<and> c \<le> round_places (mean confs) 3
    \<and> ar_AvgConfidence (aggregateConfidence confs mults anchors util row) = Some (round_places (mean confs) 3)"
proof -
  have m: "unit01 (mean confs)" using assms(2) by (intro mean_unit) (simp add: unit01_def)
  note P = product_below [OF m agreement_factor_unit [OF assms(3,4)] stability_factor_unit anchor_factor_unit bill_factor_unit,
      of "stability_cov mults" "if mults = [] then ar_SuggestedMult row else Some (round_places (mean mults) 8)" anchors
        "if mults = [] then ar_SuggestedMult row else Some (round_places (mean mults) 8)"
        "if anchors = [] then ar_AnchorMultiplier row else Some (round_places (mean anchors) 8)" util]
  let ?v = "mean confs * agreement_factor row * stability_factor (stability_cov mults)
     * anchor_factor (if mults = [] then ar_SuggestedMult row else Some (round_places (mean mults) 8)) anchors
     * bill_factor (if mults = [] then ar_SuggestedMult row else Some (round_places (mean mults) 8))
                   (if anchors = [] then ar_AnchorMultiplier row else Some (round_places (mean anchors) 8)) util"
  have c: "clamp01 ?v = ?v" using P m by (intro clamp01_id) (auto simp: unit01_def)
  have "ar_AvgConfidence (aggregateConfidence confs mults anchors util row) = Some (round_places (mean confs) 3)"
    using assms(1) by (simp add: aggregateConfidence_def Let_def split: option.split)
  with aggregateConfidence_value [OF assms(1), of mults anchors util row] P show ?thesis
    unfolding c by (intro exI [of _ "round_places ?v 3"]) (simp add: round_places_mono round_places_nonneg)
qed

lemma aggregate_never_boosts_witness:
  "\<exists>c. ar_Confidence (aggregateConfidence [1 / 2, 3 / 4] [1 / 100, 1 / 100] [1 / 100] None
        ((blank_agg 7 ''electric'' 2)\<lparr>ar_Wins := 2, ar_TestsPresent := 2\<rparr>)) = Some c
     \<and> c \<le> round_places (mean [1 / 2, 3 / 4]) 3"
  using aggregate_never_boosts [of "[1 / 2, 3 / 4]" "(blank_agg 7 ''electric'' 2)\<lparr>ar_Wins := 2, ar_TestsPresent := 2\<rparr>"
      "[1 / 100, 1 / 100]" "[1 / 100]" None]
  by (auto simp: blank_agg_def)

text \<open>Bill evidence alone never reads as more than 0.7.\<close>

theorem utility_only_capped:
  assumes "utilityOnlyConfidence ev = Some c"
  shows "0 \<le> c \<and> c \<le> 7 / 10"
proof -
  obtain v where c: "c = round_places (clamp01 v * (7 / 10)) 3"
    using assms by (auto simp: utilityOnlyConfidence_def Let_def split: option.splits if_splits)
  have "round_places (clamp01 v * (7 / 10)) 3 \<le> round_places (7 / 10) 3"
    by (intro round_places_mono) (use clamp01_le_1 [of v] in linarith)
  moreover have "round_places (7 / 10) 3 = 7 / 10" by (simp add: round_places_def)
  ultimately show ?thesis unfolding c by (simp add: round_places_nonneg)
qed

lemma utility_only_capped_witness:
  "\<exists>c. utilityOnlyConfidence (Some (no_evidence\<lparr>ue_bucketsCovered := 3\<rparr>)) = Some c \<and> c \<le> 7 / 10"
  using utility_only_capped [of "Some (no_evidence\<lparr>ue_bucketsCovered := 3\<rparr>)"]
  by (auto simp: utilityOnlyConfidence_def no_evidence_def)

section \<open>When the enrichment panics\<close>

lemma enrich_row_id: "enrich_row erfinv k n cv aux ser row = Some r \<Longrightarrow> cr_EndpointID r = cr_EndpointID row"
  by (auto simp: enrich_row_def with_confidence_def Let_def split: option.splits if_splits prod.splits)

definition bad_series :: "(int \<rightharpoonup> real list \<times> real list) \<Rightarrow> int \<Rightarrow> bool" where
  "bad_series ser i \<longleftrightarrow> (\<exists>meter ref. ser i = Some (meter, ref) \<and> length meter = 4)"

lemma enrich_row_none:
  assumes "\<forall>i meter ref. ser i = Some (meter, ref) \<longrightarrow> length meter = length ref"
  shows "enrich_row erfinv k n cv aux ser row = None \<longleftrightarrow> bad_series ser (cr_EndpointID row)"
proof (cases "ser (cr_EndpointID row)")
  case (Some mr)
  obtain meter ref where mr: "mr = (meter, ref)" by (cases mr)
  with Some assms have len: "length meter = length ref" by blast
  show ?thesis
  proof (cases "length meter < 4")
    case False
    have "crossCorrLag meter ref enrichMaxLag = None \<longleftrightarrow> length meter = 4"
      using lag_panics [OF len, of enrichMaxLag] False by (auto simp: enrichMaxLag_def)
    with Some mr False show ?thesis
      by (cases "crossCorrLag meter ref enrichMaxLag") (auto simp: enrich_row_def bad_series_def Let_def)
  qed (use Some mr in \<open>simp add: enrich_row_def bad_series_def\<close>)
qed (simp add: enrich_row_def bad_series_def)

lemma enrich_at_none:
  assumes f: "\<And>row. f row = None \<longleftrightarrow> bad_series ser (cr_EndpointID row)"
    and g: "\<And>row r. f row = Some r \<Longrightarrow> cr_EndpointID r = cr_EndpointID row"
    and idx: "\<forall>i \<in> set idxs. i < length base"
  shows "enrich_at f idxs base = None \<longleftrightarrow> (\<exists>i \<in> set idxs. bad_series ser (cr_EndpointID (base ! i)))"
  using idx
proof (induction idxs arbitrary: base)
  case (Cons i idxs)
  show ?case
  proof (cases "f (base ! i)")
    case None
    then have "bad_series ser (cr_EndpointID (base ! i))" using f by blast
    with None show ?thesis by simp
  next
    case (Some r)
    then have nb: "\<not> bad_series ser (cr_EndpointID (base ! i))" using f by (metis option.distinct(1))
    have same: "cr_EndpointID (base[i := r] ! j) = cr_EndpointID (base ! j)" if "j < length base" for j
      using g [OF Some] that by (cases "j = i") auto
    with Cons.IH [of "base[i := r]"] Cons.prems Some nb show ?thesis by simp
  qed
qed simp

lemma top_indices_bound: "i \<in> set (top_indices base) \<Longrightarrow> i < length base"
  by (auto simp: top_indices_def dest: in_set_takeD)

text \<open>
  C25. The lag enrichment of a ranking panics exactly when one of the top candidates has an
  aligned series of exactly four buckets: the guard asks for four, the search needs five.
\<close>

theorem enrichLag_panics_iff:
  assumes "\<forall>i meter ref. ser i = Some (meter, ref) \<longrightarrow> length meter = length ref"
  shows "enrichLag erfinv k n cv aux (Some ser) base = None
    \<longleftrightarrow> (\<exists>i \<in> set (top_indices base). \<exists>meter ref. ser (cr_EndpointID (base ! i)) = Some (meter, ref) \<and> length meter = 4)"
  using enrich_at_none [OF enrich_row_none [OF assms] enrich_row_id, where idxs = "top_indices base" and base = base] top_indices_bound
  by (simp add: enrichLag_def bad_series_def)

definition sample_corr_row :: CorrRow where
  "sample_corr_row = (corr_row 1 1 \<lparr>wr_EndpointID = 7, wr_MsgType = None, wr_EndpointType = Some 4, wr_TotalDelta = None,
     wr_WindowDelta = None, wr_WindowPackets = None, wr_IsMine = False, wr_Publish = False, wr_PubMultiplier = 1, wr_PubUnit = None\<rparr>)
     \<lparr>cr_Confidence := Some 1\<rparr>"

lemma enrichLag_panics_iff_witness:
  "enrichLag (\<lambda>x. x) 0 1 None None (Some [7 \<mapsto> ([1, 2, 3, 4], [1, 2, 3, 4])]) [sample_corr_row] = None"
proof -
  have "top_indices [sample_corr_row] = [0]"
    by (simp add: top_indices_def enrichTopN_def sample_corr_row_def corr_row_def Let_def)
  then show ?thesis
    using enrichLag_panics_iff [of "[7 \<mapsto> ([1, 2, 3, 4], [1, 2, 3, 4])]" "\<lambda>x. x" 0 1 None None "[sample_corr_row]"]
    by (simp add: sample_corr_row_def corr_row_def Let_def)
qed


section \<open>Accounting of the windows\<close>

text \<open>Every meter: as many scores as appearances, no more wins than appearances, none beyond the windows.\<close>

definition agg_ok :: "nat \<Rightarrow> (int \<rightharpoonup> agg) \<Rightarrow> bool" where
  "agg_ok used per \<longleftrightarrow> (\<forall>i a. per i = Some a \<longrightarrow> ag_wins a \<le> ag_present a \<and> ag_present a \<le> used
     \<and> length (ag_scores a) = ag_present a)"

definition present_in :: "(int \<rightharpoonup> agg) \<Rightarrow> int \<Rightarrow> nat" where
  "present_in per i = (case per i of None \<Rightarrow> 0 | Some a \<Rightarrow> ag_present a)"

lemma agg_add_other: "j \<noteq> cr_EndpointID r \<Longrightarrow> agg_add e k r per j = per j"
  by (simp add: agg_add_def Let_def)

lemma agg_add_same:
  assumes "\<And>a. per (cr_EndpointID r) = Some a \<Longrightarrow> ag_wins a \<le> ag_present a \<and> length (ag_scores a) = ag_present a"
  shows "\<exists>a. agg_add e k r per (cr_EndpointID r) = Some a \<and> ag_wins a \<le> ag_present a
    \<and> length (ag_scores a) = ag_present a \<and> ag_present a = present_in per (cr_EndpointID r) + 1"
  using assms by (cases "per (cr_EndpointID r)") (auto simp: agg_add_def Let_def present_in_def)

lemma agg_fold_ok:
  assumes "distinct (map (\<lambda>(k, r). cr_EndpointID r) krs)" "agg_ok (Suc used) per"
    "\<forall>(k, r) \<in> set krs. present_in per (cr_EndpointID r) \<le> used"
  shows "agg_ok (Suc used) (fold (\<lambda>(k, r). agg_add e k r) krs per)"
  using assms
proof (induction krs arbitrary: per)
  case (Cons kr krs)
  obtain k r where kr: "kr = (k, r)" by (cases kr)
  let ?per = "agg_add e k r per"
  have s: "\<exists>a. ?per (cr_EndpointID r) = Some a \<and> ag_wins a \<le> ag_present a
    \<and> length (ag_scores a) = ag_present a \<and> ag_present a = present_in per (cr_EndpointID r) + 1"
    by (rule agg_add_same) (use Cons.prems(2) in \<open>auto simp: agg_ok_def\<close>)
  have "agg_ok (Suc used) ?per"
    unfolding agg_ok_def
  proof (intro allI impI)
    fix j a assume a: "?per j = Some a"
    show "ag_wins a \<le> ag_present a \<and> ag_present a \<le> Suc used \<and> length (ag_scores a) = ag_present a"
      using s a Cons.prems(2,3) kr agg_add_other [of j r e k per]
      by (cases "j = cr_EndpointID r") (auto simp: agg_ok_def)
  qed
  moreover have "\<forall>(k', r') \<in> set krs. present_in ?per (cr_EndpointID r') \<le> used"
  proof (intro ballI, clarify)
    fix k' r' assume m: "(k', r') \<in> set krs"
    then have "cr_EndpointID r' \<noteq> cr_EndpointID r" using Cons.prems(1) kr by force
    then have "present_in ?per (cr_EndpointID r') = present_in per (cr_EndpointID r')"
      by (simp add: present_in_def agg_add_other)
    then show "present_in ?per (cr_EndpointID r') \<le> used" using m Cons.prems(3) by auto
  qed
  ultimately show ?case using Cons kr by auto
qed simp

lemma agg_window_ok:
  assumes "distinct (map cr_EndpointID rows)" "agg_ok used per"
  shows "agg_ok (Suc used) (agg_window e rows per)"
  unfolding agg_window_def
proof (rule agg_fold_ok)
  have "map (\<lambda>(k, r). cr_EndpointID r) (enumerate 0 rows) = map cr_EndpointID rows"
    by (metis (no_types, lifting) case_prod_unfold map_eq_conv map_map map_snd_enumerate comp_apply)
  then show "distinct (map (\<lambda>(k, r). cr_EndpointID r) (enumerate 0 rows))" using assms(1) by simp
  show "agg_ok (Suc used) per" using assms(2) by (auto simp: agg_ok_def intro: le_SucI)
  show "\<forall>(k, r) \<in> set (enumerate 0 rows). present_in per (cr_EndpointID r) \<le> used"
    using assms(2) by (auto simp: agg_ok_def present_in_def split: option.split)
qed

text \<open>
  However the windows rank the meters, as long as no ranking lists a meter twice, every
  meter's wins are at most its appearances, these are at most the windows used, and there is
  one score per appearance - so the hypotheses of the cross-window confidence always hold.
\<close>

theorem agg_windows_accounting:
  assumes "\<forall>(e, ranked) \<in> set ws. \<forall>rows. ranked = Some rows \<longrightarrow> distinct (map cr_EndpointID rows)"
    "agg_windows ws = (per, used)"
  shows "agg_ok used per \<and> used \<le> length ws"
proof -
  define step where "step = (\<lambda>(expected :: real, ranked) (per, used). case ranked of
             None \<Rightarrow> (per, used)
           | Some rows \<Rightarrow> if rows = [] then (per, used) else (agg_window expected rows per, used + 1 :: nat))"
  have "agg_ok (snd (fold step ws st)) (fst (fold step ws st)) \<and> snd (fold step ws st) \<le> snd st + length ws"
    if "agg_ok (snd st) (fst st)" "\<forall>(e, ranked) \<in> set ws. \<forall>rows. ranked = Some rows \<longrightarrow> distinct (map cr_EndpointID rows)" for st
    using that
  proof (induction ws arbitrary: st)
    case (Cons w ws)
    obtain e ranked p u where w: "w = (e, ranked)" "st = (p, u)" by (cases w, cases st)
    have "agg_ok (snd (step w st)) (fst (step w st)) \<and> snd (step w st) \<le> snd st + 1"
      using Cons.prems agg_window_ok [of _ u p e] w by (auto simp: step_def split: option.split)
    with Cons.IH [of "step w st"] Cons.prems(2) show ?case by auto
  qed simp
  from this [of "(Map.empty, 0)"] assms show ?thesis
    by (simp add: agg_windows_def step_def agg_ok_def)
qed

lemma agg_windows_accounting_witness:
  "agg_ok (snd (agg_windows [(1, Some [sample_corr_row]), (0, None)])) (fst (agg_windows [(1, Some [sample_corr_row]), (0, None)]))"
  using agg_windows_accounting [of "[(1, Some [sample_corr_row]), (0, None)]"] by simp

text \<open>
  The comparison used to sort the ranking is not transitive: three rows of equal confidence,
  one of them without a correlation, beat each other in a circle.
\<close>

lemma agg_before_cycle:
  defines "x \<equiv> (blank_agg 1 ''electric'' 3)\<lparr>ar_Confidence := Some 1, ar_AvgR := Some 1, ar_Wins := 0\<rparr>"
    and "y \<equiv> (blank_agg 2 ''electric'' 3)\<lparr>ar_Confidence := Some 1, ar_AvgR := Some 0, ar_Wins := 2\<rparr>"
    and "z \<equiv> (blank_agg 3 ''electric'' 3)\<lparr>ar_Confidence := Some 1, ar_AvgR := None, ar_Wins := 1\<rparr>"
  shows "agg_before True x y \<and> agg_before True y z \<and> agg_before True z x"
  by (simp add: agg_before_def blank_agg_def assms)

end
