(* ===== verification/Store.thy ===== *)
theory Store
  imports Ert Counter
begin

text \<open>
  The tables and the statements that write them: \<open>internal/db/db.go\<close> (readings with the
  registries, devices, heartbeats, settings), \<open>meters.go\<close> (annotations), \<open>windows.go\<close>
  (test windows), \<open>overview.go\<close> (publish status), \<open>admin.go\<close> (deletions), \<open>hvac.go\<close> and
  \<open>reference.go\<close> (sample backfill and gaps). A table with a primary key is a partial
  function, one without is the list of its rows in insertion order. Whether a statement
  succeeds is a Boolean argument, since that depends on the database server; a failed
  statement changes nothing. \<open>now()\<close> is an argument.
\<close>

section \<open>Tables\<close>

record index_row =
  ix_msg_type :: "string option"
  ix_endpoint_type :: "int option"
  ix_first_seen :: instant
  ix_last_seen :: instant
  ix_packets :: int
  ix_min :: "real option"
  ix_max :: "real option"
  ix_last :: "real option"
  ix_last_ts :: instant

record source_row =
  so_packets :: int
  so_last_seen :: instant

record meter_row =
  mt_label :: "string option"
  mt_notes :: "string option"
  mt_is_candidate :: bool
  mt_is_mine :: bool
  mt_ignored :: bool
  mt_publish :: bool
  mt_pub_name :: "string option"
  mt_pub_multiplier :: real
  mt_pub_unit :: "string option"

record device_row =
  dv_index :: int
  dv_name :: string
  dv_tuner :: string
  dv_first_seen :: instant
  dv_last_seen :: instant

record heartbeat_row =
  hb_last_ts :: instant
  hb_total :: int
  hb_updated :: instant

record test_row =
  tw_id :: int
  tw_label :: string
  tw_start :: instant
  tw_end :: "instant option"
  tw_source :: string
  tw_known_load :: "real option"
  tw_known_entity :: "string option"
  tw_snoop_k :: "int option"

record publish_row =
  pb_last_publish :: "instant option"
  pb_last_error :: "string option"
  pb_updated :: instant

datatype sample_src = Live | LtsBackfill | HistoryBackfill

record ref_sample =
  rs_ts :: instant
  rs_entity :: string
  rs_power :: real
  rs_src :: sample_src

record hvac_sample =
  hs_ts :: instant
  hs_entity :: string
  hs_action :: string
  hs_src :: sample_src

record store =
  st_readings :: "(reading \<times> string) list"
  st_index :: "int \<rightharpoonup> index_row"
  st_source :: "int \<times> string \<rightharpoonup> source_row"
  st_meters :: "int \<rightharpoonup> meter_row"
  st_devices :: "string \<rightharpoonup> device_row"
  st_heartbeat :: "string \<rightharpoonup> heartbeat_row"
  st_settings :: "string \<rightharpoonup> string"
  st_windows :: "test_row list"
  st_next_window :: int
  st_publish :: "int \<rightharpoonup> publish_row"
  st_ref :: "ref_sample list"
  st_hvac :: "hvac_sample list"
  st_notes :: "(string \<times> string) list"

definition empty_store :: store where
  "empty_store = \<lparr>st_readings = [], st_index = Map.empty, st_source = Map.empty, st_meters = Map.empty,
     st_devices = Map.empty, st_heartbeat = Map.empty, st_settings = Map.empty, st_windows = [], st_next_window = 1,
     st_publish = Map.empty, st_ref = [], st_hvac = [], st_notes = []\<rparr>"

text \<open>\<open>pg_notify(channel, payload)\<close>.\<close>

definition notify :: "string \<Rightarrow> string \<Rightarrow> store \<Rightarrow> store" where
  "notify channel payload st = st\<lparr>st_notes := st_notes st @ [(channel, payload)]\<rparr>"

section \<open>Readings and their registries\<close>

text \<open>\<open>LEAST\<close> and \<open>GREATEST\<close> ignore NULL.\<close>

definition least_opt :: "real option \<Rightarrow> real option \<Rightarrow> real option" where
  "least_opt a b = (case (a, b) of (Some x, Some y) \<Rightarrow> Some (min x y) | (None, _) \<Rightarrow> b | (_, None) \<Rightarrow> a)"

definition greatest_opt :: "real option \<Rightarrow> real option \<Rightarrow> real option" where
  "greatest_opt a b = (case (a, b) of (Some x, Some y) \<Rightarrow> Some (max x y) | (None, _) \<Rightarrow> b | (_, None) \<Rightarrow> a)"

definition new_index :: "reading \<Rightarrow> index_row" where
  "new_index r = \<lparr>ix_msg_type = Some (MsgType r), ix_endpoint_type = EndpointType r, ix_first_seen = TS r, ix_last_seen = TS r,
     ix_packets = 1, ix_min = Consumption r, ix_max = Consumption r, ix_last = Consumption r, ix_last_ts = TS r\<rparr>"

definition merge_index :: "reading \<Rightarrow> index_row \<Rightarrow> index_row" where
  "merge_index r x =
     x\<lparr>ix_msg_type := Some (MsgType r),
       ix_endpoint_type := (case EndpointType r of None \<Rightarrow> ix_endpoint_type x | Some t \<Rightarrow> Some t),
       ix_last_seen := max (ix_last_seen x) (TS r),
       ix_packets := ix_packets x + 1,
       ix_min := least_opt (ix_min x) (Consumption r),
       ix_max := greatest_opt (ix_max x) (Consumption r),
       ix_last := (if Consumption r \<noteq> None \<and> TS r \<ge> ix_last_ts x then Consumption r else ix_last x),
       ix_last_ts := max (ix_last_ts x) (TS r)\<rparr>"

definition upsert_index :: "reading \<Rightarrow> (int \<rightharpoonup> index_row) \<Rightarrow> (int \<rightharpoonup> index_row)" where
  "upsert_index r m = m(EndpointID r \<mapsto> (case m (EndpointID r) of None \<Rightarrow> new_index r | Some x \<Rightarrow> merge_index r x))"

definition upsert_source :: "reading \<Rightarrow> (int \<times> string \<rightharpoonup> source_row) \<Rightarrow> (int \<times> string \<rightharpoonup> source_row)" where
  "upsert_source r m = m((EndpointID r, Source r) \<mapsto>
     (case m (EndpointID r, Source r) of None \<Rightarrow> \<lparr>so_packets = 1, so_last_seen = TS r\<rparr>
      | Some x \<Rightarrow> \<lparr>so_packets = so_packets x + 1, so_last_seen = max (so_last_seen x) (TS r)\<rparr>))"

definition unit_sep :: char where "unit_sep = CHR 0x1F"

definition reading_payload :: "reading \<Rightarrow> string" where
  "reading_payload r = format_int (EndpointID r) @ unit_sep # Source r"

text \<open>Which of the four statements of \<open>InsertReading\<close> succeed.\<close>

record insert_ok =
  io_reading :: bool
  io_index :: bool
  io_source :: bool
  io_notify :: bool

definition all_ok :: insert_ok where
  "all_ok = \<lparr>io_reading = True, io_index = True, io_source = True, io_notify = True\<rparr>"

definition InsertReading :: "insert_ok \<Rightarrow> reading \<Rightarrow> string \<Rightarrow> store \<Rightarrow> bool \<times> store" where
  "InsertReading ok r raw st =
     (if \<not> io_reading ok then (False, st)
      else
        (let s1 = st\<lparr>st_readings := st_readings st @ [(r, raw)]\<rparr>;
             s2 = (if io_index ok then s1\<lparr>st_index := upsert_index r (st_index s1)\<rparr> else s1);
             s3 = (if Source r \<noteq> [] \<and> io_source ok then s2\<lparr>st_source := upsert_source r (st_source s2)\<rparr> else s2);
             s4 = (if io_notify ok then notify ''winnow'' (reading_payload r) s3 else s3)
         in (True, s4)))"

section \<open>Devices, heartbeats and settings\<close>

definition UpsertDevice :: "instant \<Rightarrow> string \<Rightarrow> int \<Rightarrow> string \<Rightarrow> string \<Rightarrow> store \<Rightarrow> store" where
  "UpsertDevice now serial idx name tuner st =
     st\<lparr>st_devices := (st_devices st)(serial \<mapsto>
          \<lparr>dv_index = idx, dv_name = name, dv_tuner = tuner,
           dv_first_seen = (case st_devices st serial of None \<Rightarrow> now | Some d \<Rightarrow> dv_first_seen d), dv_last_seen = now\<rparr>)\<rparr>"

definition PruneDevices :: "bool \<Rightarrow> bool \<Rightarrow> string list \<Rightarrow> store \<Rightarrow> store" where
  "PruneDevices ok1 ok2 keep st =
     (if keep = [] then st
      else if \<not> ok1 then st
      else
        (let s1 = st\<lparr>st_devices := (\<lambda>k. if k \<in> set keep then st_devices st k else None)\<rparr> in
         if ok2 then s1\<lparr>st_heartbeat := (\<lambda>k. if k \<in> set keep then st_heartbeat s1 k else None)\<rparr> else s1))"

definition UpdateHeartbeat :: "instant \<Rightarrow> string \<Rightarrow> instant \<Rightarrow> int \<Rightarrow> store \<Rightarrow> store" where
  "UpdateHeartbeat now source lastTS n st =
     st\<lparr>st_heartbeat := (st_heartbeat st)(source \<mapsto> \<lparr>hb_last_ts = lastTS, hb_total = n, hb_updated = now\<rparr>)\<rparr>"

definition SetSetting :: "string \<Rightarrow> string \<Rightarrow> store \<Rightarrow> store" where
  "SetSetting key val st = st\<lparr>st_settings := (st_settings st)(key \<mapsto> val)\<rparr>"

definition GetSettings :: "bool \<Rightarrow> store \<Rightarrow> (string \<rightharpoonup> string) option" where
  "GetSettings ok st = (if ok then Some (st_settings st) else None)"

section \<open>Health\<close>

record SourceHealth =
  sh_Source :: string
  sh_Alive :: bool
  sh_AgeSeconds :: real
  sh_TotalCount :: int
  sh_PacketsLastMin :: nat

record HealthReport =
  he_Alive :: bool
  he_Sources :: "SourceHealth list"
  he_UniqueMeters :: nat
  he_PacketsLastMin :: nat

definition sweep_heartbeats :: "instant \<Rightarrow> store \<Rightarrow> store" where
  "sweep_heartbeats now st =
     st\<lparr>st_heartbeat := (\<lambda>k. case st_heartbeat st k of None \<Rightarrow> None
                          | Some h \<Rightarrow> if hb_updated h < now - hour then None else Some h)\<rparr>"

definition source_health :: "instant \<Rightarrow> duration \<Rightarrow> store \<Rightarrow> string \<Rightarrow> heartbeat_row \<Rightarrow> SourceHealth" where
  "source_health now staleAfter st s h =
     (let age = time_sub now (hb_updated h) in
      \<lparr>sh_Source = s, sh_Alive = (age \<le> staleAfter), sh_AgeSeconds = of_int age / 1000000000, sh_TotalCount = hb_total h,
       sh_PacketsLastMin = length (filter (\<lambda>(r, _). Source r = s \<and> now - minute \<le> TS r) (st_readings st))\<rparr>)"

text \<open>\<open>sources\<close> lists the heartbeat keys in the order of the query.\<close>

definition Health :: "instant \<Rightarrow> duration \<Rightarrow> string list \<Rightarrow> store \<Rightarrow> HealthReport \<times> store" where
  "Health now staleAfter sources st0 =
     (let st = sweep_heartbeats now st0;
          hs = List.map_filter (\<lambda>s. map_option (source_health now staleAfter st s) (st_heartbeat st s)) sources
      in (\<lparr>he_Alive = (\<exists>h \<in> set hs. sh_Alive h), he_Sources = hs,
           he_UniqueMeters = card ((\<lambda>(r, _). EndpointID r) ` set (st_readings st)),
           he_PacketsLastMin = sum_list (map sh_PacketsLastMin hs)\<rparr>, st))"

section \<open>Annotations\<close>

record MeterUpdate =
  mu_Label :: "string option"
  mu_Notes :: "string option"
  mu_IsCandidate :: "bool option"
  mu_IsMine :: "bool option"
  mu_Ignored :: "bool option"
  mu_Publish :: "bool option"
  mu_PubName :: "string option"
  mu_PubMultiplier :: "real option"
  mu_PubUnit :: "string option"

definition default_meter :: meter_row where
  "default_meter = \<lparr>mt_label = None, mt_notes = None, mt_is_candidate = False, mt_is_mine = False, mt_ignored = False,
     mt_publish = False, mt_pub_name = None, mt_pub_multiplier = 1, mt_pub_unit = None\<rparr>"

definition upd :: "'a option \<Rightarrow> 'a \<Rightarrow> 'a" where
  "upd new old = (case new of None \<Rightarrow> old | Some v \<Rightarrow> v)"

definition upd_opt :: "'a option \<Rightarrow> 'a option \<Rightarrow> 'a option" where
  "upd_opt new old = (case new of None \<Rightarrow> old | Some v \<Rightarrow> Some v)"

definition apply_update :: "MeterUpdate \<Rightarrow> meter_row \<Rightarrow> meter_row" where
  "apply_update f m =
     \<lparr>mt_label = upd_opt (mu_Label f) (mt_label m), mt_notes = upd_opt (mu_Notes f) (mt_notes m),
      mt_is_candidate = upd (mu_IsCandidate f) (mt_is_candidate m), mt_is_mine = upd (mu_IsMine f) (mt_is_mine m),
      mt_ignored = upd (mu_Ignored f) (mt_ignored m), mt_publish = upd (mu_Publish f) (mt_publish m),
      mt_pub_name = upd_opt (mu_PubName f) (mt_pub_name m), mt_pub_multiplier = upd (mu_PubMultiplier f) (mt_pub_multiplier m),
      mt_pub_unit = upd_opt (mu_PubUnit f) (mt_pub_unit m)\<rparr>"

definition no_update :: "MeterUpdate \<Rightarrow> bool" where
  "no_update f \<longleftrightarrow> mu_Label f = None \<and> mu_Notes f = None \<and> mu_IsCandidate f = None \<and> mu_IsMine f = None \<and> mu_Ignored f = None
     \<and> mu_Publish f = None \<and> mu_PubName f = None \<and> mu_PubMultiplier f = None \<and> mu_PubUnit f = None"

definition GetMeter :: "int \<Rightarrow> store \<Rightarrow> meter_row" where
  "GetMeter i st = (case st_meters st i of None \<Rightarrow> default_meter | Some m \<Rightarrow> m)"

text \<open>The insert of the bare row, then one update of the given columns.\<close>

definition UpdateMeter :: "bool \<Rightarrow> bool \<Rightarrow> int \<Rightarrow> MeterUpdate \<Rightarrow> store \<Rightarrow> meter_row option \<times> store" where
  "UpdateMeter ok1 ok2 i f st =
     (if \<not> ok1 then (None, st)
      else
        (let s1 = (case st_meters st i of None \<Rightarrow> st\<lparr>st_meters := (st_meters st)(i \<mapsto> default_meter)\<rparr> | Some _ \<Rightarrow> st) in
         if no_update f then (Some (GetMeter i s1), s1)
         else if \<not> ok2 then (None, s1)
         else let s2 = s1\<lparr>st_meters := (st_meters s1)(i \<mapsto> apply_update f (GetMeter i s1))\<rparr> in (Some (GetMeter i s2), s2)))"

text \<open>\<open>DeleteMeter\<close>: the annotation, then with \<open>purge\<close> the three tables of the endpoint; the first failure ends it.\<close>

definition DeleteMeter :: "bool \<Rightarrow> bool list \<Rightarrow> int \<Rightarrow> bool \<Rightarrow> store \<Rightarrow> bool \<times> store" where
  "DeleteMeter ok oks i purge st =
     (if \<not> ok then (False, st)
      else
        (let s0 = st\<lparr>st_meters := (st_meters st)(i := None)\<rparr> in
         if \<not> purge then (True, s0)
         else if \<not> oks ! 0 then (False, s0)
         else
           (let s1 = s0\<lparr>st_readings := filter (\<lambda>(r, _). EndpointID r \<noteq> i) (st_readings s0)\<rparr> in
            if \<not> oks ! 1 then (False, s1)
            else
              (let s2 = s1\<lparr>st_index := (st_index s1)(i := None)\<rparr> in
               if \<not> oks ! 2 then (False, s2)
               else (True, s2\<lparr>st_source := st_source s2 |` {k. fst k \<noteq> i}\<rparr>)))))"

record pub_meter =
  pm_EndpointID :: int
  pm_PubName :: "string option"
  pm_PubMultiplier :: real
  pm_PubUnit :: "string option"
  pm_MsgType :: string
  pm_EndpointType :: "int option"
  pm_Commodity :: string

text \<open>\<open>ids\<close> lists the meters in the order of the query.\<close>

definition MetersForPublish :: "int list \<Rightarrow> store \<Rightarrow> pub_meter list" where
  "MetersForPublish ids st =
     List.map_filter (\<lambda>i. case st_meters st i of None \<Rightarrow> None
        | Some m \<Rightarrow> if \<not> mt_publish m then None
            else (let et = (case st_index st i of None \<Rightarrow> None | Some x \<Rightarrow> ix_endpoint_type x);
                      ty = (case st_index st i of None \<Rightarrow> [] | Some x \<Rightarrow> (case ix_msg_type x of None \<Rightarrow> [] | Some t \<Rightarrow> t))
                  in Some \<lparr>pm_EndpointID = i, pm_PubName = mt_pub_name m, pm_PubMultiplier = mt_pub_multiplier m,
                           pm_PubUnit = mt_pub_unit m, pm_MsgType = ty, pm_EndpointType = et, pm_Commodity = Commodity et\<rparr>)) ids"

text \<open>The last two readings with a consumption, newest first, as (time, value).\<close>

definition DerivedPower :: "(instant \<times> real) list \<Rightarrow> real \<Rightarrow> real option" where
  "DerivedPower newest mu =
     (case newest of
        (t0, c0) # (t1, c1) # _ \<Rightarrow>
          (let dh = hours (time_sub t0 t1) in if dh \<le> 0 then None else Some ((c0 - c1) / dh * mu))
      | _ \<Rightarrow> None)"

section \<open>Test windows\<close>

definition CreateTest ::
    "string \<Rightarrow> instant \<Rightarrow> instant option \<Rightarrow> string \<Rightarrow> real option \<Rightarrow> string option \<Rightarrow> store \<Rightarrow> test_row \<times> store" where
  "CreateTest label start end_ts source load entity st =
     (let w = \<lparr>tw_id = st_next_window st, tw_label = label, tw_start = start, tw_end = end_ts, tw_source = source,
               tw_known_load = load, tw_known_entity = entity, tw_snoop_k = None\<rparr>
      in (w, st\<lparr>st_windows := st_windows st @ [w], st_next_window := st_next_window st + 1\<rparr>))"

definition stop_window :: "int \<Rightarrow> instant \<Rightarrow> test_row \<Rightarrow> test_row" where
  "stop_window i end_ts w = (if tw_id w = i \<and> tw_end w = None then w\<lparr>tw_end := Some end_ts\<rparr> else w)"

definition GetTest :: "int \<Rightarrow> store \<Rightarrow> test_row option" where
  "GetTest i st = List.find (\<lambda>w. tw_id w = i) (st_windows st)"

text \<open>The error of the update is dropped; the result is what the row reads afterwards.\<close>

definition StopTest :: "bool \<Rightarrow> int \<Rightarrow> instant \<Rightarrow> store \<Rightarrow> test_row option \<times> store" where
  "StopTest ok i end_ts st =
     (let s1 = (if ok then st\<lparr>st_windows := map (stop_window i end_ts) (st_windows st)\<rparr> else st) in (GetTest i s1, s1))"

definition SetTestSnoopK :: "int \<Rightarrow> int \<Rightarrow> store \<Rightarrow> store" where
  "SetTestSnoopK i k st = st\<lparr>st_windows := map (\<lambda>w. if tw_id w = i then w\<lparr>tw_snoop_k := Some k\<rparr> else w) (st_windows st)\<rparr>"

definition FreezeTestSnoopK :: "bool \<Rightarrow> int \<Rightarrow> nat option \<Rightarrow> store \<Rightarrow> store" where
  "FreezeTestSnoopK ok i survivors st =
     (case survivors of None \<Rightarrow> st | Some n \<Rightarrow> if n = 0 \<or> \<not> ok then st else SetTestSnoopK i (int n) st)"

definition DeleteTest :: "int \<Rightarrow> store \<Rightarrow> store" where
  "DeleteTest i st = st\<lparr>st_windows := filter (\<lambda>w. tw_id w \<noteq> i) (st_windows st)\<rparr>"

text \<open>The open window of a source with the latest start.\<close>

definition OpenWindow :: "string \<Rightarrow> store \<Rightarrow> test_row option" where
  "OpenWindow source st =
     (case sort_key (\<lambda>w. - tw_start w) (filter (\<lambda>w. tw_end w = None \<and> tw_source w = source) (st_windows st)) of
        [] \<Rightarrow> None | w # _ \<Rightarrow> Some w)"

definition closedWindows :: "string \<Rightarrow> store \<Rightarrow> test_row list" where
  "closedWindows source st =
     sort_key tw_start (filter (\<lambda>w. tw_end w \<noteq> None \<and> (source = [] \<or> tw_source w = source)) (st_windows st))"

section \<open>Publish status\<close>

definition RecordPublishOK :: "instant \<Rightarrow> int \<Rightarrow> store \<Rightarrow> store" where
  "RecordPublishOK now i st =
     st\<lparr>st_publish := (st_publish st)(i \<mapsto> \<lparr>pb_last_publish = Some now, pb_last_error = None, pb_updated = now\<rparr>)\<rparr>"

definition RecordPublishError :: "instant \<Rightarrow> int \<Rightarrow> string \<Rightarrow> store \<Rightarrow> store" where
  "RecordPublishError now i msg st =
     st\<lparr>st_publish := (st_publish st)(i \<mapsto>
          \<lparr>pb_last_publish = (case st_publish st i of None \<Rightarrow> None | Some p \<Rightarrow> pb_last_publish p),
           pb_last_error = Some msg, pb_updated = now\<rparr>)\<rparr>"

section \<open>Deletions\<close>

definition scrub_row :: "reading list \<Rightarrow> int \<Rightarrow> index_row \<Rightarrow> index_row" where
  "scrub_row rs i x =
     (let mine = filter (\<lambda>r. EndpointID r = i \<and> Consumption r \<noteq> None) rs;
          cs = map (\<lambda>r. the (Consumption r)) mine
      in if mine = [] then x
         else x\<lparr>ix_min := Some (Min (set cs)), ix_max := Some (Max (set cs)),
                ix_last := Consumption (hd (sort_key (\<lambda>r. - TS r) mine)), ix_last_ts := Max (TS ` set mine)\<rparr>)"

definition scrub_zeros :: "bool \<Rightarrow> bool \<Rightarrow> store \<Rightarrow> bool \<times> store" where
  "scrub_zeros ok1 ok2 st =
     (if \<not> ok1 then (False, st)
      else
        (let s1 = st\<lparr>st_readings := filter (\<lambda>(r, _). case Consumption r of None \<Rightarrow> True | Some c \<Rightarrow> \<not> c \<le> 0) (st_readings st)\<rparr> in
         if \<not> ok2 then (False, s1)
         else (True, s1\<lparr>st_index := (\<lambda>i. map_option (scrub_row (map fst (st_readings s1)) i) (st_index s1 i))\<rparr>)))"

text \<open>
  \<open>dropped\<close> says which rows lie in chunks \<open>drop_chunks\<close> removes; it takes only old rows.
  The result counts the rows of the delete pass alone.
\<close>

definition DeleteReadingsOlderThan ::
    "(reading \<Rightarrow> bool) \<Rightarrow> bool \<Rightarrow> instant \<Rightarrow> int \<Rightarrow> store \<Rightarrow> nat option \<times> store" where
  "DeleteReadingsOlderThan dropped ok now days st =
     (if days \<le> 0 then (None, st)
      else
        (let old = (\<lambda>r. TS r < now - days * day_ns);
             left = filter (\<lambda>(r, _). \<not> (old r \<and> dropped r)) (st_readings st);
             keep = filter (\<lambda>(r, _). \<not> old r) left
         in if ok then (Some (length left - length keep), st\<lparr>st_readings := keep\<rparr>)
            else (None, st\<lparr>st_readings := left\<rparr>)))"

definition DeleteReadingsBySource :: "bool \<Rightarrow> bool \<Rightarrow> bool \<Rightarrow> string \<Rightarrow> store \<Rightarrow> nat option \<times> store" where
  "DeleteReadingsBySource ok1 ok2 ok3 src st =
     (if src = [] \<or> \<not> ok1 then (None, st)
      else
        (let keep = filter (\<lambda>(r, _). Source r \<noteq> src) (st_readings st);
             s1 = st\<lparr>st_readings := keep\<rparr>;
             s2 = (if ok2 then s1\<lparr>st_source := (\<lambda>(i, s). if s = src then None else st_source s1 (i, s))\<rparr> else s1);
             s3 = (if ok3 then s2\<lparr>st_heartbeat := (st_heartbeat s2)(src := None)\<rparr> else s2)
         in (Some (length (st_readings st) - length keep), s3)))"

definition PurgeAllReadings :: "bool \<Rightarrow> bool \<Rightarrow> bool \<Rightarrow> store \<Rightarrow> bool \<times> store" where
  "PurgeAllReadings ok1 ok2 ok3 st =
     (if \<not> ok1 then (False, st)
      else
        (let s1 = st\<lparr>st_readings := []\<rparr>;
             s2 = (if ok2 then s1\<lparr>st_index := Map.empty\<rparr> else s1)
         in (True, if ok3 then s2\<lparr>st_source := Map.empty\<rparr> else s2)))"

definition PurgeTests :: "bool \<Rightarrow> store \<Rightarrow> nat option \<times> store" where
  "PurgeTests ok st = (if ok then (Some (length (st_windows st)), st\<lparr>st_windows := []\<rparr>) else (None, st))"


section \<open>Sample backfill\<close>

text \<open>
  Both sample tables are rewritten the same way, so the two functions are instances of one,
  given by the entity, the time and the backfill mark of a row.
\<close>

definition replace_span ::
    "('r \<Rightarrow> string) \<Rightarrow> ('r \<Rightarrow> instant) \<Rightarrow> ('r \<Rightarrow> bool) \<Rightarrow> string \<Rightarrow> instant \<Rightarrow> instant \<Rightarrow> 'r list \<Rightarrow> 'r list \<Rightarrow> 'r list" where
  "replace_span entity_of ts_of backfilled entity from to new rows =
     filter (\<lambda>r. \<not> (entity_of r = entity \<and> backfilled r \<and> from \<le> ts_of r \<and> ts_of r \<le> to)) rows @ new"

definition ref_rows :: "string \<Rightarrow> instant list \<Rightarrow> real list \<Rightarrow> ref_sample list" where
  "ref_rows entity ts pw = map2 (\<lambda>t w. \<lparr>rs_ts = t, rs_entity = entity, rs_power = w, rs_src = LtsBackfill\<rparr>) ts pw"

definition hvac_rows :: "string \<Rightarrow> instant list \<Rightarrow> string list \<Rightarrow> hvac_sample list" where
  "hvac_rows entity ts actions = map2 (\<lambda>t a. \<lparr>hs_ts = t, hs_entity = entity, hs_action = a, hs_src = HistoryBackfill\<rparr>) ts actions"

definition ReplaceBackfillSamples ::
    "bool \<Rightarrow> bool \<Rightarrow> string \<Rightarrow> instant \<Rightarrow> instant \<Rightarrow> instant list \<Rightarrow> real list \<Rightarrow> store \<Rightarrow> bool \<times> store" where
  "ReplaceBackfillSamples ok1 ok2 entity from to ts pw st =
     (if \<not> ok1 then (False, st)
      else
        (let s1 = st\<lparr>st_ref := replace_span rs_entity rs_ts (\<lambda>r. rs_src r = LtsBackfill) entity from to [] (st_ref st)\<rparr> in
         if ts = [] then (True, s1)
         else if \<not> ok2 then (False, s1)
         else (True, s1\<lparr>st_ref := st_ref s1 @ ref_rows entity ts pw\<rparr>)))"

definition ReplaceHVACBackfill ::
    "bool \<Rightarrow> bool \<Rightarrow> string \<Rightarrow> instant \<Rightarrow> instant \<Rightarrow> instant list \<Rightarrow> string list \<Rightarrow> store \<Rightarrow> bool \<times> store" where
  "ReplaceHVACBackfill ok1 ok2 entity from to ts actions st =
     (if \<not> ok1 then (False, st)
      else
        (let s1 = st\<lparr>st_hvac := replace_span hs_entity hs_ts (\<lambda>r. hs_src r = HistoryBackfill) entity from to [] (st_hvac st)\<rparr> in
         if ts = [] then (True, s1)
         else if \<not> ok2 then (False, s1)
         else (True, s1\<lparr>st_hvac := st_hvac s1 @ hvac_rows entity ts actions\<rparr>)))"

definition InsertReferenceSample :: "string \<Rightarrow> instant \<Rightarrow> real \<Rightarrow> store \<Rightarrow> store" where
  "InsertReferenceSample entity ts w st =
     st\<lparr>st_ref := st_ref st @ [\<lparr>rs_ts = ts, rs_entity = entity, rs_power = w, rs_src = Live\<rparr>]\<rparr>"

definition InsertHVACSample :: "string \<Rightarrow> instant \<Rightarrow> string \<Rightarrow> store \<Rightarrow> store" where
  "InsertHVACSample entity ts a st =
     st\<lparr>st_hvac := st_hvac st @ [\<lparr>hs_ts = ts, hs_entity = entity, hs_action = a, hs_src = Live\<rparr>]\<rparr>"

section \<open>Gaps\<close>

text \<open>
  \<open>sampleGaps\<close> over the times of the entity's samples: the holes between the minutes that
  have a sample, then the hole from the last sample to \<open>capEnd\<close>.
\<close>

definition minute_of :: "instant \<Rightarrow> instant" where "minute_of t = t div minute * minute"

fun minute_holes :: "duration \<Rightarrow> instant list \<Rightarrow> (instant \<times> instant) list" where
  "minute_holes minGap (a # b # ms) =
     (if b - a > minGap then (a, b) # minute_holes minGap (b # ms) else minute_holes minGap (b # ms))"
| "minute_holes minGap _ = []"

definition sampleGaps :: "instant \<Rightarrow> duration \<Rightarrow> duration \<Rightarrow> instant \<Rightarrow> instant list \<Rightarrow> (instant \<times> instant) list" where
  "sampleGaps now lookback minGap capEnd ts =
     (let mins = remdups_adj (sort (map minute_of (filter (\<lambda>t. now - lookback \<le> t) ts))) in
      minute_holes minGap mins
      @ (if ts \<noteq> [] \<and> time_sub capEnd (Max (set ts)) > minGap then [(Max (set ts), capEnd)] else []))"

definition ReferenceGaps :: "instant \<Rightarrow> string list \<Rightarrow> duration \<Rightarrow> duration \<Rightarrow> instant \<Rightarrow> store \<Rightarrow> (instant \<times> instant) list" where
  "ReferenceGaps now entities lookback minGap capEnd st =
     (if entities = [] then []
      else sampleGaps now lookback minGap capEnd (map rs_ts (filter (\<lambda>r. rs_entity r \<in> set entities) (st_ref st))))"

definition HVACGaps :: "instant \<Rightarrow> string \<Rightarrow> duration \<Rightarrow> duration \<Rightarrow> instant \<Rightarrow> store \<Rightarrow> (instant \<times> instant) list" where
  "HVACGaps now entity lookback minGap capEnd st =
     (if entity = [] then []
      else sampleGaps now lookback minGap capEnd (map hs_ts (filter (\<lambda>r. hs_entity r = entity) (st_hvac st))))"

definition HVACSpan :: "string \<Rightarrow> store \<Rightarrow> (instant \<times> instant) option" where
  "HVACSpan entity st =
     (let ts = map hs_ts (filter (\<lambda>r. hs_entity r = entity) (st_hvac st)) in
      if ts = [] then None else Some (Min (set ts), Max (set ts)))"

section \<open>The contract of a backfilled table\<close>

text \<open>
  What the two backfills promise their callers. The client lemmas hold for any table with
  an entity, a time and a backfill mark whose new rows carry the entity and the mark.
\<close>

locale backfill_table =
  fixes entity_of :: "'r \<Rightarrow> string" and ts_of :: "'r \<Rightarrow> instant" and backfilled :: "'r \<Rightarrow> bool"
    and mk :: "string \<Rightarrow> instant \<Rightarrow> 'v \<Rightarrow> 'r"
  assumes mk_entity: "entity_of (mk e t v) = e"
    and mk_ts: "ts_of (mk e t v) = t"
    and mk_mark: "backfilled (mk e t v)"
begin

lemma live_untouched:
  "\<not> backfilled r \<Longrightarrow> r \<in> set (replace_span entity_of ts_of backfilled e a b (map (\<lambda>(t, v). mk e t v) new) rows) \<longleftrightarrow> r \<in> set rows"
  using mk_mark by (auto simp: replace_span_def)

lemma other_untouched:
  "entity_of r \<noteq> e \<or> ts_of r < a \<or> b < ts_of r \<Longrightarrow> \<forall>(t, v) \<in> set new. a \<le> t \<and> t \<le> b
   \<Longrightarrow> r \<in> set (replace_span entity_of ts_of backfilled e a b (map (\<lambda>(t, v). mk e t v) new) rows) \<longleftrightarrow> r \<in> set rows"
  using mk_entity mk_ts by (fastforce simp: replace_span_def)

lemma span_is_new:
  "entity_of r = e \<Longrightarrow> backfilled r \<Longrightarrow> a \<le> ts_of r \<Longrightarrow> ts_of r \<le> b
   \<Longrightarrow> r \<in> set (replace_span entity_of ts_of backfilled e a b (map (\<lambda>(t, v). mk e t v) new) rows)
       \<longleftrightarrow> r \<in> set (map (\<lambda>(t, v). mk e t v) new)"
  by (auto simp: replace_span_def)

lemma replace_twice:
  assumes "\<forall>(t, v) \<in> set new. a \<le> t \<and> t \<le> b"
  shows "replace_span entity_of ts_of backfilled e a b (map (\<lambda>(t, v). mk e t v) new)
           (replace_span entity_of ts_of backfilled e a b (map (\<lambda>(t, v). mk e t v) new) rows)
       = replace_span entity_of ts_of backfilled e a b (map (\<lambda>(t, v). mk e t v) new) rows"
proof -
  have "filter (\<lambda>r. \<not> (entity_of r = e \<and> backfilled r \<and> a \<le> ts_of r \<and> ts_of r \<le> b)) (map (\<lambda>(t, v). mk e t v) new) = []"
    using assms by (auto simp: filter_empty_conv mk_entity mk_ts mk_mark)
  then show ?thesis by (simp add: replace_span_def)
qed

end

interpretation ref_table: backfill_table rs_entity rs_ts "\<lambda>r. rs_src r = LtsBackfill"
    "\<lambda>e t w. \<lparr>rs_ts = t, rs_entity = e, rs_power = w, rs_src = LtsBackfill\<rparr>"
  by unfold_locales simp_all

interpretation hvac_table: backfill_table hs_entity hs_ts "\<lambda>r. hs_src r = HistoryBackfill"
    "\<lambda>e t a. \<lparr>hs_ts = t, hs_entity = e, hs_action = a, hs_src = HistoryBackfill\<rparr>"
  by unfold_locales simp_all

lemma replace_then_append:
  "replace_span en ts bf e a b [] rows @ new = replace_span en ts bf e a b new rows"
  by (simp add: replace_span_def)

lemma ref_rows_map: "ref_rows e ts ws = map (\<lambda>(t, w). \<lparr>rs_ts = t, rs_entity = e, rs_power = w, rs_src = LtsBackfill\<rparr>) (zip ts ws)"
  by (simp add: ref_rows_def)

lemma hvac_rows_map: "hvac_rows e ts as = map (\<lambda>(t, a). \<lparr>hs_ts = t, hs_entity = e, hs_action = a, hs_src = HistoryBackfill\<rparr>) (zip ts as)"
  by (simp add: hvac_rows_def)

lemma ReplaceHVACBackfill_ok:
  "ReplaceHVACBackfill True True e a b ts as st
   = (True, st\<lparr>st_hvac := replace_span hs_entity hs_ts (\<lambda>r. hs_src r = HistoryBackfill) e a b (hvac_rows e ts as) (st_hvac st)\<rparr>)"
  by (simp add: ReplaceHVACBackfill_def Let_def replace_then_append hvac_rows_def)

lemma ReplaceBackfillSamples_ok:
  "ReplaceBackfillSamples True True e a b ts ws st
   = (True, st\<lparr>st_ref := replace_span rs_entity rs_ts (\<lambda>r. rs_src r = LtsBackfill) e a b (ref_rows e ts ws) (st_ref st)\<rparr>)"
  by (simp add: ReplaceBackfillSamples_def Let_def replace_then_append ref_rows_def)

text \<open>
  Backfilling the reference samples of one entity and span twice is the same as once;
  live rows, other entities and times outside the span are never touched; inside the span
  the backfilled rows are exactly the new ones.
\<close>

theorem reference_backfill_contract:
  assumes "\<forall>t \<in> set ts. a \<le> t \<and> t \<le> b" "ReplaceBackfillSamples True True e a b ts ws st = (ok, st')"
  shows "ok \<and> ReplaceBackfillSamples True True e a b ts ws st' = (True, st')
    \<and> (\<forall>r. rs_src r \<noteq> LtsBackfill \<or> rs_entity r \<noteq> e \<or> rs_ts r < a \<or> b < rs_ts r \<longrightarrow> (r \<in> set (st_ref st')) = (r \<in> set (st_ref st)))
    \<and> (\<forall>r. rs_src r = LtsBackfill \<and> rs_entity r = e \<and> a \<le> rs_ts r \<and> rs_ts r \<le> b
         \<longrightarrow> (r \<in> set (st_ref st')) = (r \<in> set (ref_rows e ts ws)))"
proof -
  have z: "\<forall>(t, v) \<in> set (zip ts ws). a \<le> t \<and> t \<le> b" using assms(1) by (auto dest: set_zip_leftD)
  have st': "ok" "st' = st\<lparr>st_ref := replace_span rs_entity rs_ts (\<lambda>r. rs_src r = LtsBackfill) e a b (ref_rows e ts ws) (st_ref st)\<rparr>"
    using assms(2) by (simp_all add: ReplaceBackfillSamples_ok)
  have 1: "ReplaceBackfillSamples True True e a b ts ws st' = (True, st')"
    using ref_table.replace_twice [OF z, of e "st_ref st"] by (simp add: ReplaceBackfillSamples_ok st' ref_rows_map)
  have 2: "(r \<in> set (st_ref st')) = (r \<in> set (st_ref st))"
    if "rs_src r \<noteq> LtsBackfill \<or> rs_entity r \<noteq> e \<or> rs_ts r < a \<or> b < rs_ts r" for r
    using that ref_table.live_untouched [of r e a b "zip ts ws" "st_ref st"] ref_table.other_untouched [OF _ z, of r e "st_ref st"]
    by (auto simp: st' ref_rows_map)
  have 3: "(r \<in> set (st_ref st')) = (r \<in> set (ref_rows e ts ws))"
    if "rs_src r = LtsBackfill" "rs_entity r = e" "a \<le> rs_ts r" "rs_ts r \<le> b" for r
    using that ref_table.span_is_new [of r e a b "zip ts ws" "st_ref st"] by (simp add: st' ref_rows_map)
  show ?thesis using st'(1) 1 2 3 by blast
qed

lemma reference_backfill_contract_witness:
  "\<exists>st'. ReplaceBackfillSamples True True ''sensor.a'' 0 hour [0, minute] [100, 200] (InsertReferenceSample ''sensor.a'' 5 7 empty_store) = (True, st')
     \<and> ReplaceBackfillSamples True True ''sensor.a'' 0 hour [0, minute] [100, 200] st' = (True, st')"
  using reference_backfill_contract [of "[0, minute]" 0 hour "''sensor.a''" "[100, 200]" "InsertReferenceSample ''sensor.a'' 5 7 empty_store"]
  by (simp add: ReplaceBackfillSamples_ok)

section \<open>The registry summarizes the readings\<close>

text \<open>What the registry row of a meter should say about its readings, oldest insert first.\<close>

definition index_of :: "reading list \<Rightarrow> index_row option" where
  "index_of rs = (case rs of [] \<Rightarrow> None | r # rest \<Rightarrow> Some (fold merge_index rest (new_index r)))"

definition readings_of :: "int \<Rightarrow> store \<Rightarrow> reading list" where
  "readings_of i st = filter (\<lambda>r. EndpointID r = i) (map fst (st_readings st))"

definition registry_ok :: "store \<Rightarrow> bool" where
  "registry_ok st \<longleftrightarrow> (\<forall>i. st_index st i = index_of (readings_of i st))"

lemma index_of_snoc:
  "index_of (rs @ [r]) = Some (case index_of rs of None \<Rightarrow> new_index r | Some x \<Rightarrow> merge_index r x)"
  by (cases rs) (simp_all add: index_of_def)

lemma InsertReading_registry:
  assumes "registry_ok st" "io_reading ok = io_index ok"
  shows "registry_ok (snd (InsertReading ok r raw st))"
proof (cases "io_reading ok")
  case False
  with assms show ?thesis by (simp add: InsertReading_def)
next
  case True
  have idx: "st_index (snd (InsertReading ok r raw st)) = upsert_index r (st_index st)"
    and rds: "st_readings (snd (InsertReading ok r raw st)) = st_readings st @ [(r, raw)]"
    using True assms(2) by (simp_all add: InsertReading_def Let_def notify_def)
  have "upsert_index r (st_index st) i = index_of (readings_of i (snd (InsertReading ok r raw st)))" for i
  proof (cases "EndpointID r = i")
    case True
    have "readings_of i (snd (InsertReading ok r raw st)) = readings_of i st @ [r]"
      using True by (simp add: readings_of_def rds)
    then show ?thesis using True assms(1) by (simp add: index_of_snoc upsert_index_def registry_ok_def)
  next
    case False
    then have "readings_of i (snd (InsertReading ok r raw st)) = readings_of i st"
      by (simp add: readings_of_def rds)
    then show ?thesis using False assms(1) by (simp add: upsert_index_def registry_ok_def)
  qed
  then show ?thesis by (simp add: registry_ok_def idx)
qed

text \<open>What the row says, without the recursion.\<close>

definition newest_value :: "reading list \<Rightarrow> real option" where
  "newest_value rs = Consumption (last (filter (\<lambda>r. TS r = Max (TS ` set rs)) rs))"

lemma newest_value_snoc:
  assumes "rs \<noteq> []"
  shows "newest_value (rs @ [r]) = (if Max (TS ` set rs) \<le> TS r then Consumption r else newest_value rs)"
proof -
  define m where "m = Max (TS ` set rs)"
  have "Max (TS ` set (rs @ [r])) = max (TS r) m"
    using assms unfolding m_def by (simp add: Max_insert)
  then show ?thesis
    unfolding newest_value_def m_def [symmetric] by (cases "m \<le> TS r") (simp_all add: max_def)
qed

lemma fold_merge_facts:
  assumes "\<forall>r \<in> set (r0 # rs). Consumption r \<noteq> None"
  defines "x \<equiv> fold merge_index rs (new_index r0)"
  shows "ix_packets x = int (length (r0 # rs))"
    and "ix_first_seen x = TS r0"
    and "ix_last_seen x = Max (TS ` set (r0 # rs))"
    and "ix_last_ts x = Max (TS ` set (r0 # rs))"
    and "ix_min x = Some (Min ((\<lambda>r. the (Consumption r)) ` set (r0 # rs)))"
    and "ix_max x = Some (Max ((\<lambda>r. the (Consumption r)) ` set (r0 # rs)))"
    and "ix_last x = newest_value (r0 # rs)"
proof -
  have "ix_packets x = int (length (r0 # rs)) \<and> ix_first_seen x = TS r0 \<and> ix_last_seen x = Max (TS ` set (r0 # rs))
    \<and> ix_last_ts x = Max (TS ` set (r0 # rs)) \<and> ix_min x = Some (Min ((\<lambda>r. the (Consumption r)) ` set (r0 # rs)))
    \<and> ix_max x = Some (Max ((\<lambda>r. the (Consumption r)) ` set (r0 # rs))) \<and> ix_last x = newest_value (r0 # rs)"
    unfolding x_def using assms(1)
  proof (induction rs rule: rev_induct)
    case Nil
    then show ?case by (auto simp: new_index_def newest_value_def)
  next
    case (snoc r rs)
    obtain c where c: "Consumption r = Some c" using snoc.prems by auto
    have set: "set (r0 # rs @ [r]) = insert r (set (r0 # rs))" by auto
    have mx: "Max (TS ` set (r0 # rs @ [r])) = max (Max (TS ` set (r0 # rs))) (TS r)"
      unfolding set image_insert by (subst Max_insert) (auto simp: max.commute)
    have mn: "Min ((\<lambda>r. the (Consumption r)) ` set (r0 # rs @ [r])) = min (Min ((\<lambda>r. the (Consumption r)) ` set (r0 # rs))) c"
      unfolding set image_insert by (subst Min_insert) (auto simp: c min.commute)
    have mxc: "Max ((\<lambda>r. the (Consumption r)) ` set (r0 # rs @ [r])) = max (Max ((\<lambda>r. the (Consumption r)) ` set (r0 # rs))) c"
      unfolding set image_insert by (subst Max_insert) (auto simp: c max.commute)
    have nv: "newest_value (r0 # rs @ [r]) = (if Max (TS ` set (r0 # rs)) \<le> TS r then Consumption r else newest_value (r0 # rs))"
      using newest_value_snoc [of "r0 # rs" r] by simp
    define y where "y = fold merge_index rs (new_index r0)"
    have ih: "ix_packets y = int (length (r0 # rs))" "ix_first_seen y = TS r0" "ix_last_seen y = Max (TS ` set (r0 # rs))"
      "ix_last_ts y = Max (TS ` set (r0 # rs))" "ix_min y = Some (Min ((\<lambda>r. the (Consumption r)) ` set (r0 # rs)))"
      "ix_max y = Some (Max ((\<lambda>r. the (Consumption r)) ` set (r0 # rs)))" "ix_last y = newest_value (r0 # rs)"
      using snoc unfolding y_def by simp_all
    have step: "fold merge_index (rs @ [r]) (new_index r0) = merge_index r y" by (simp add: y_def)
    show ?case
      unfolding step mx mn mxc nv
      by (simp add: merge_index_def ih c least_opt_def greatest_opt_def del: set_simps image_insert)
  qed
  then show "ix_packets x = int (length (r0 # rs))" "ix_first_seen x = TS r0" "ix_last_seen x = Max (TS ` set (r0 # rs))"
    "ix_last_ts x = Max (TS ` set (r0 # rs))" "ix_min x = Some (Min ((\<lambda>r. the (Consumption r)) ` set (r0 # rs)))"
    "ix_max x = Some (Max ((\<lambda>r. the (Consumption r)) ` set (r0 # rs)))" "ix_last x = newest_value (r0 # rs)"
    by blast+
qed


definition insert_all :: "(insert_ok \<times> reading \<times> string) list \<Rightarrow> store \<Rightarrow> store" where
  "insert_all xs st = fold (\<lambda>(ok, r, raw) s. snd (InsertReading ok r raw s)) xs st"

lemma insert_all_registry:
  "registry_ok st \<Longrightarrow> \<forall>(ok, r, raw) \<in> set xs. io_reading ok = io_index ok \<Longrightarrow> registry_ok (insert_all xs st)"
  by (induction xs arbitrary: st) (auto simp: insert_all_def InsertReading_registry)

text \<open>
  C21. As long as the registry statement fails only together with the insert of the reading,
  the registry row of every meter is the summary of its stored readings after any sequence
  of inserts: the packet count, first and last time, smallest and largest counter, and the
  counter of the newest reading, the later insert winning between readings of one time.
\<close>

theorem registry_summarizes:
  assumes "registry_ok st" "\<forall>(ok, r, raw) \<in> set xs. io_reading ok = io_index ok"
    "st_index (insert_all xs st) i = Some x" "\<forall>r \<in> set (readings_of i (insert_all xs st)). Consumption r \<noteq> None"
  shows "let rs = readings_of i (insert_all xs st) in
     rs \<noteq> [] \<and> ix_packets x = int (length rs) \<and> ix_first_seen x = TS (hd rs) \<and> ix_last_seen x = Max (TS ` set rs)
     \<and> ix_min x = Some (Min ((\<lambda>r. the (Consumption r)) ` set rs)) \<and> ix_max x = Some (Max ((\<lambda>r. the (Consumption r)) ` set rs))
     \<and> ix_last x = newest_value rs"
proof -
  have x: "index_of (readings_of i (insert_all xs st)) = Some x"
    using insert_all_registry [OF assms(1,2)] assms(3) by (simp add: registry_ok_def)
  then obtain r0 rs where rs: "readings_of i (insert_all xs st) = r0 # rs" "x = fold merge_index rs (new_index r0)"
    by (cases "readings_of i (insert_all xs st)") (auto simp: index_of_def)
  note F = fold_merge_facts [of r0 rs]
  from F assms(4) show ?thesis unfolding rs Let_def by simp
qed

definition sample_reading :: "instant \<Rightarrow> real \<Rightarrow> reading" where
  "sample_reading t c = \<lparr>TS = t, MsgType = ''SCM'', EndpointID = 7, EndpointType = Some 4, Consumption = Some c, Source = ''rtl''\<rparr>"

lemma registry_summarizes_witness:
  "ix_packets (the (st_index (insert_all [(all_ok, sample_reading 0 5, []), (all_ok, sample_reading minute 6, [])] empty_store) 7)) = 2"
proof -
  let ?xs = "[(all_ok, sample_reading 0 5, []), (all_ok, sample_reading minute 6, [])]"
  have r: "readings_of 7 (insert_all ?xs empty_store) = [sample_reading 0 5, sample_reading minute 6]"
    by (simp add: insert_all_def readings_of_def InsertReading_def Let_def notify_def all_ok_def empty_store_def sample_reading_def)
  have ok: "registry_ok empty_store" by (simp add: registry_ok_def readings_of_def empty_store_def index_of_def)
  have all: "\<forall>(ok, r, raw) \<in> set ?xs. io_reading ok = io_index ok" by (simp add: all_ok_def)
  have "st_index (insert_all ?xs empty_store) 7 = index_of [sample_reading 0 5, sample_reading minute 6]"
    using insert_all_registry [OF ok all] r by (simp add: registry_ok_def)
  then obtain x where x: "st_index (insert_all ?xs empty_store) 7 = Some x" by (simp add: index_of_def)
  from registry_summarizes [OF ok all x] r x show ?thesis by (simp add: sample_reading_def)
qed

section \<open>Annotations\<close>

text \<open>
  An update of a meter changes exactly the fields it carries: each given field reads
  back, every other field of the meter, every other meter and every other table keep their
  values, and what is returned is what is stored.
\<close>

theorem UpdateMeter_frame:
  assumes "UpdateMeter True True i f st = (res, st')"
  shows "res = Some (GetMeter i st') \<and> GetMeter i st' = apply_update f (GetMeter i st)
    \<and> (\<forall>j. j \<noteq> i \<longrightarrow> st_meters st' j = st_meters st j) \<and> st' = st\<lparr>st_meters := st_meters st'\<rparr>"
proof -
  have id: "no_update f \<Longrightarrow> apply_update f m = m" for m
    by (simp add: no_update_def apply_update_def upd_def upd_opt_def)
  show ?thesis
    using assms id by (cases "no_update f"; cases "st_meters st i") (auto simp: UpdateMeter_def Let_def GetMeter_def)
qed

lemma UpdateMeter_frame_witness:
  "\<exists>res st'. UpdateMeter True True 7 \<lparr>mu_Label = Some ''house'', mu_Notes = None, mu_IsCandidate = None, mu_IsMine = Some True,
       mu_Ignored = None, mu_Publish = None, mu_PubName = None, mu_PubMultiplier = None, mu_PubUnit = None\<rparr> empty_store = (res, st')
     \<and> mt_label (GetMeter 7 st') = Some ''house'' \<and> mt_is_mine (GetMeter 7 st') \<and> mt_pub_multiplier (GetMeter 7 st') = 1"
proof -
  let ?f = "\<lparr>mu_Label = Some ''house'', mu_Notes = None, mu_IsCandidate = None, mu_IsMine = Some True,
       mu_Ignored = None, mu_Publish = None, mu_PubName = None, mu_PubMultiplier = None, mu_PubUnit = None\<rparr>"
  obtain res st' where e: "UpdateMeter True True 7 ?f empty_store = (res, st')"
    by (cases "UpdateMeter True True 7 ?f empty_store")
  from UpdateMeter_frame [OF e] e show ?thesis
    by (auto simp: apply_update_def upd_def upd_opt_def GetMeter_def default_meter_def empty_store_def)
qed

text \<open>
  A successful purge of a meter leaves no annotation, reading, registry or coverage row
  of it, and every row of every other meter, the settings and the windows as they were; the
  registry still summarizes the readings.
\<close>

theorem DeleteMeter_purges:
  assumes "DeleteMeter True [True, True, True] i True st = (ok, st')"
  shows "ok \<and> st_meters st' i = None \<and> readings_of i st' = [] \<and> st_index st' i = None \<and> (\<forall>s. st_source st' (i, s) = None)
    \<and> (\<forall>j. j \<noteq> i \<longrightarrow> st_meters st' j = st_meters st j \<and> readings_of j st' = readings_of j st \<and> st_index st' j = st_index st j
         \<and> (\<forall>s. st_source st' (j, s) = st_source st (j, s)))
    \<and> st_settings st' = st_settings st \<and> st_windows st' = st_windows st
    \<and> (registry_ok st \<longrightarrow> registry_ok st')"
proof -
  have st': "ok" "st' = st\<lparr>st_meters := (st_meters st)(i := None), st_readings := filter (\<lambda>(r, _). EndpointID r \<noteq> i) (st_readings st),
      st_index := (st_index st)(i := None), st_source := st_source st |` {k. fst k \<noteq> i}\<rparr>"
    using assms by (auto simp: DeleteMeter_def Let_def split_def)
  have r: "readings_of j st' = (if j = i then [] else readings_of j st)" for j
  proof -
    have "filter (\<lambda>r. EndpointID r = j) (map fst (filter (\<lambda>(r, _). EndpointID r \<noteq> i) xs))
        = (if j = i then [] else filter (\<lambda>r. EndpointID r = j) (map fst xs))" for xs :: "(reading \<times> string) list"
      by (induction xs) auto
    then show ?thesis unfolding readings_of_def st' by simp
  qed
  show ?thesis
    using st' r by (auto simp: registry_ok_def index_of_def)
qed

lemma DeleteMeter_purges_witness:
  "st_index (snd (DeleteMeter True [True, True, True] 7 True (insert_all [(all_ok, sample_reading 0 5, [])] empty_store))) 7 = None"
  using DeleteMeter_purges [of 7 "insert_all [(all_ok, sample_reading 0 5, [])] empty_store"]
  by (metis prod.collapse)

end
