(* ===== verification/Gate.thy ===== *)
theory Gate
  imports Prelude
begin

text \<open>
  The USB gate of \<open>cmd/capture/main.go\<close> (\<open>usbGate\<close>): one serial window, a channel of
  capacity one, and one backoff for the whole bus. The goroutines that call \<open>begin\<close>,
  \<open>end\<close>, \<open>ok\<close> and \<open>fail\<close> interleave freely; a step of the relation is one of their
  atomic sections (a channel operation or a section under \<open>bmu\<close>). The number of
  consecutive failures is a natural number, its overflow at the width of \<open>int\<close> is not
  modelled; the shift of the penalty is taken at 64 bits.
\<close>

section \<open>The gate and its operations\<close>

record usbGate =
  g_sem :: nat
  g_fails :: nat
  g_nextOK :: instant

definition gateBase :: duration where "gateBase = 30 * second"
definition gateMax :: duration where "gateMax = 5 * minute"
definition gateHealthy :: duration where "gateHealthy = 60 * second"
definition usbSettle :: duration where "usbSettle = 2 * second"

definition new_gate :: usbGate where
  "new_gate = \<lparr>g_sem = 0, g_fails = 0, g_nextOK = zero_time\<rparr>"

text \<open>The penalty after the given number of consecutive failures.\<close>

definition gate_delay :: "nat \<Rightarrow> duration" where
  "gate_delay fails =
     (let d = sint (push_bit (fails - 1) (word_of_int gateBase :: 64 word)) in
      if d \<le> 0 \<or> d > gateMax then gateMax else d)"

definition gate_ok :: "instant \<Rightarrow> usbGate \<Rightarrow> usbGate" where
  "gate_ok now g = g\<lparr>g_fails := 0, g_nextOK := now\<rparr>"

definition gate_fail :: "instant \<Rightarrow> usbGate \<Rightarrow> usbGate" where
  "gate_fail now g = (let n = g_fails g + 1 in g\<lparr>g_fails := n, g_nextOK := now + gate_delay n\<rparr>)"

lemmas gate_consts = gateBase_def gateMax_def gateHealthy_def usbSettle_def

lemma gate_delay_closed:
  "gate_delay (Suc n) = min (gateBase * 2 ^ n) gateMax"
proof (cases "n < 64")
  case True
  then have "n \<in> set [0..<64]" by simp
  then have "n \<in> {0, 1, 2, 3, 4, 5, 6, 7, 8, 9, 10, 11, 12, 13, 14, 15, 16, 17, 18, 19, 20, 21, 22, 23, 24, 25, 26, 27, 28, 29, 30, 31,
      32, 33, 34, 35, 36, 37, 38, 39, 40, 41, 42, 43, 44, 45, 46, 47, 48, 49, 50, 51, 52, 53, 54, 55, 56, 57, 58, 59, 60, 61, 62, 63}"
    by (simp add: upt_rec numeral_eq_Suc)
  then show ?thesis
    by (elim insertE) (simp_all add: gate_delay_def gate_consts Let_def)
next
  case False
  then have "push_bit n (word_of_int gateBase :: 64 word) = 0" by (intro bit_word_eqI) (simp add: bit_push_bit_iff)
  moreover have "gateMax \<le> gateBase * 2 ^ n"
    using power_increasing [of 64 n "2 :: int"] False by (simp add: gate_consts)
  ultimately show ?thesis by (simp add: gate_delay_def gate_consts min_def)
qed

lemma gate_delay_mono: "1 \<le> m \<Longrightarrow> m \<le> n \<Longrightarrow> gate_delay m \<le> gate_delay n"
proof -
  assume "1 \<le> m" "m \<le> n"
  then obtain i j where "m = Suc i" "n = Suc j" "i \<le> j" by (cases m; cases n) auto
  moreover have "gateBase * 2 ^ i \<le> gateBase * 2 ^ j"
    using \<open>i \<le> j\<close> by (intro mult_left_mono power_increasing) (simp_all add: gateBase_def)
  ultimately show ?thesis by (simp only: gate_delay_closed min.mono [OF _ order_refl])
qed

text \<open>
  The penalty doubles from 30 seconds and is capped at five minutes for every number
  of failures: the 64-bit shift never wraps to a short wait.
\<close>

theorem gate_delay_spec:
  "gate_delay (Suc n) = min (gateBase * 2 ^ n) gateMax"
  by (rule gate_delay_closed)

section \<open>Interleaving\<close>

text \<open>
  Where a goroutine stands: outside \<open>begin\<close>, at the head of its loop, asleep until a time,
  queued for the window, with the window but still to re-check the backoff, and past
  \<open>begin\<close> with the window held.
\<close>

datatype pc = Outside | AtHead | Sleeping instant | Queued | Checking | Holding

record 'c bus =
  b_now :: instant
  b_gate :: usbGate
  b_pc :: "'c \<Rightarrow> pc"

datatype 'c label = Tick duration | Begin 'c | ReadOK 'c | Wake 'c | Acquire 'c | Grant 'c | Regret 'c
  | Cancel 'c | End 'c | OkCall 'c | FailCall 'c

definition set_pc :: "'c \<Rightarrow> pc \<Rightarrow> 'c bus \<Rightarrow> 'c bus" where
  "set_pc c p s = s\<lparr>b_pc := (b_pc s)(c := p)\<rparr>"

definition set_gate :: "usbGate \<Rightarrow> 'c bus \<Rightarrow> 'c bus" where
  "set_gate g s = s\<lparr>b_gate := g\<rparr>"

definition acquire_sem :: "usbGate \<Rightarrow> usbGate" where "acquire_sem g = g\<lparr>g_sem := g_sem g + 1\<rparr>"
definition release_sem :: "usbGate \<Rightarrow> usbGate" where "release_sem g = g\<lparr>g_sem := g_sem g - 1\<rparr>"

definition start_bus :: "instant \<Rightarrow> 'c bus" where
  "start_bus t = \<lparr>b_now = t, b_gate = new_gate, b_pc = (\<lambda>_. Outside)\<rparr>"

inductive bus_step :: "'c bus \<Rightarrow> 'c label \<Rightarrow> 'c bus \<Rightarrow> bool" where
  tick: "0 \<le> d \<Longrightarrow> bus_step s (Tick d) (s\<lparr>b_now := b_now s + d\<rparr>)"
| call: "b_pc s c = Outside \<Longrightarrow> bus_step s (Begin c) (set_pc c AtHead s)"
| read_ok: "b_pc s c = AtHead
    \<Longrightarrow> bus_step s (ReadOK c) (let w = time_sub (g_nextOK (b_gate s)) (b_now s) in
          set_pc c (if w > 0 then Sleeping (b_now s + w) else Queued) s)"
| wake: "b_pc s c = Sleeping u \<Longrightarrow> u \<le> b_now s \<Longrightarrow> bus_step s (Wake c) (set_pc c Queued s)"
| acquire: "b_pc s c = Queued \<Longrightarrow> g_sem (b_gate s) = 0
    \<Longrightarrow> bus_step s (Acquire c) (set_pc c Checking (set_gate (acquire_sem (b_gate s)) s))"
| grant: "b_pc s c = Checking \<Longrightarrow> \<not> b_now s < g_nextOK (b_gate s) \<Longrightarrow> bus_step s (Grant c) (set_pc c Holding s)"
| regret: "b_pc s c = Checking \<Longrightarrow> b_now s < g_nextOK (b_gate s)
    \<Longrightarrow> bus_step s (Regret c) (set_pc c AtHead (set_gate (release_sem (b_gate s)) s))"
| cancel: "b_pc s c = Queued \<or> (\<exists>u. b_pc s c = Sleeping u) \<Longrightarrow> bus_step s (Cancel c) (set_pc c Outside s)"
| end_call: "b_pc s c = Holding \<Longrightarrow> bus_step s (End c) (set_pc c Outside (set_gate (release_sem (b_gate s)) s))"
| ok_call: "b_pc s c = Outside \<or> b_pc s c = Holding \<Longrightarrow> bus_step s (OkCall c) (set_gate (gate_ok (b_now s) (b_gate s)) s)"
| fail_call: "b_pc s c = Outside \<or> b_pc s c = Holding \<Longrightarrow> bus_step s (FailCall c) (set_gate (gate_fail (b_now s) (b_gate s)) s)"

inductive bus_run :: "'c bus \<Rightarrow> 'c label list \<Rightarrow> 'c bus \<Rightarrow> bool" where
  run_nil: "bus_run s [] s"
| run_snoc: "bus_run s ls t \<Longrightarrow> bus_step t l u \<Longrightarrow> bus_run s (ls @ [l]) u"

inductive_cases bus_stepE [elim]: "bus_step s l t"
inductive_cases grantE: "bus_step s (Grant c) t"
inductive_cases failE: "bus_step s (FailCall c) t"
inductive_simps bus_run_nil [simp]: "bus_run s [] t"

lemma set_pc_simps [simp]:
  "b_now (set_pc c p s) = b_now s" "b_gate (set_pc c p s) = b_gate s" "b_pc (set_pc c p s) = (b_pc s)(c := p)"
  by (simp_all add: set_pc_def)

lemma set_gate_simps [simp]:
  "b_now (set_gate g s) = b_now s" "b_gate (set_gate g s) = g" "b_pc (set_gate g s) = b_pc s"
  by (simp_all add: set_gate_def)

lemma gate_op_simps [simp]:
  "g_sem (acquire_sem g) = g_sem g + 1" "g_fails (acquire_sem g) = g_fails g" "g_nextOK (acquire_sem g) = g_nextOK g"
  "g_sem (release_sem g) = g_sem g - 1" "g_fails (release_sem g) = g_fails g" "g_nextOK (release_sem g) = g_nextOK g"
  "g_sem (gate_ok t g) = g_sem g" "g_fails (gate_ok t g) = 0" "g_nextOK (gate_ok t g) = t"
  "g_sem (gate_fail t g) = g_sem g" "g_fails (gate_fail t g) = Suc (g_fails g)" "g_nextOK (gate_fail t g) = t + gate_delay (Suc (g_fails g))"
  by (simp_all add: acquire_sem_def release_sem_def gate_ok_def gate_fail_def Let_def)

section \<open>One opener at a time\<close>

definition window :: "'c bus \<Rightarrow> 'c set" where
  "window s = {c. b_pc s c = Checking \<or> b_pc s c = Holding}"

definition window_inv :: "'c bus \<Rightarrow> bool" where
  "window_inv s \<longleftrightarrow> (g_sem (b_gate s) = 0 \<and> window s = {}) \<or> (g_sem (b_gate s) = 1 \<and> (\<exists>c. window s = {c}))"

lemma window_set_pc [simp]:
  "window (set_pc c p s) = (if p = Checking \<or> p = Holding then insert c (window s) else window s - {c})"
  by (auto simp: window_def)

lemma window_set_gate [simp]: "window (set_gate g s) = window s"
  by (simp add: window_def)

lemma window_now [simp]: "window (s\<lparr>b_now := t\<rparr>) = window s"
  by (simp add: window_def)

lemma in_window [simp]: "c \<in> window s \<longleftrightarrow> b_pc s c = Checking \<or> b_pc s c = Holding"
  by (simp add: window_def)

lemma window_out: "b_pc s c \<noteq> Checking \<Longrightarrow> b_pc s c \<noteq> Holding \<Longrightarrow> window s - {c} = window s"
  by simp

lemma window_in: "window_inv s \<Longrightarrow> c \<in> window s \<Longrightarrow> g_sem (b_gate s) = 1 \<and> window s = {c}"
  unfolding window_inv_def by (metis empty_iff singletonD)

lemma window_step:
  assumes "bus_step s l t" "window_inv s"
  shows "window_inv t"
  using assms(1)
proof cases
  case (read_ok c)
  then show ?thesis using assms(2) window_out [of s c] by (simp add: window_inv_def Let_def)
next
  case (grant c)
  then have "g_sem (b_gate s) = 1 \<and> window s = {c}" using window_in [OF assms(2), of c] by simp
  then show ?thesis using grant by (simp add: window_inv_def)
next
  case (regret c)
  then have "g_sem (b_gate s) = 1 \<and> window s = {c}" using window_in [OF assms(2), of c] by simp
  then show ?thesis using regret by (simp add: window_inv_def)
next
  case (end_call c)
  then have "g_sem (b_gate s) = 1 \<and> window s = {c}" using window_in [OF assms(2), of c] by simp
  then show ?thesis using end_call by (simp add: window_inv_def)
next
  case (cancel c)
  then have "window s - {c} = window s" by (intro window_out) auto
  then show ?thesis using cancel assms(2) by (simp add: window_inv_def)
qed (use assms(2) window_out [of s] in \<open>simp_all add: window_inv_def\<close>)

lemma window_run: "bus_run s ls t \<Longrightarrow> window_inv s \<Longrightarrow> window_inv t"
  by (induction rule: bus_run.induct) (auto dest: window_step)

lemma window_start: "window_inv (start_bus t)"
  by (simp add: window_inv_def window_def start_bus_def new_gate_def)

text \<open>
  C26. However the goroutines interleave, at most one of them is between taking the window
  and giving it back, so no two opens of the bus overlap, and the channel is full exactly
  while one is.
\<close>

theorem gate_mutex:
  assumes "bus_run (start_bus t0) ls s"
  shows "(\<forall>c d. b_pc s c \<in> {Checking, Holding} \<longrightarrow> b_pc s d \<in> {Checking, Holding} \<longrightarrow> c = d)
    \<and> g_sem (b_gate s) \<le> 1 \<and> (g_sem (b_gate s) = 0 \<longleftrightarrow> (\<forall>c. b_pc s c \<notin> {Checking, Holding}))"
proof -
  have inv: "window_inv s" using window_run [OF assms window_start] .
  have "c = d" if "b_pc s c \<in> {Checking, Holding}" "b_pc s d \<in> {Checking, Holding}" for c d
    using window_in [OF inv, of c] window_in [OF inv, of d] that by auto
  moreover have "g_sem (b_gate s) \<le> 1" using inv by (auto simp: window_inv_def)
  moreover have "g_sem (b_gate s) = 0 \<longleftrightarrow> (\<forall>c. b_pc s c \<notin> {Checking, Holding})"
    using inv unfolding window_inv_def by (metis empty_iff in_window insert_iff zero_neq_one equals0I)
  ultimately show ?thesis by blast
qed

section \<open>The backoff is kept\<close>

text \<open>
  What a run without a call of \<open>ok\<close> preserves after a failure: time and the number of
  failures only grow, and no open may begin before the penalty is over.
\<close>

definition held_off :: "instant \<Rightarrow> nat \<Rightarrow> 'c bus \<Rightarrow> bool" where
  "held_off until n s \<longleftrightarrow> until \<le> g_nextOK (b_gate s) \<and> n \<le> g_fails (b_gate s)"

lemma time_step:
  assumes "bus_step s l t"
  shows "b_now s \<le> b_now t"
  using assms by cases (simp_all add: Let_def)

lemma held_off_step:
  assumes "bus_step s l t" "\<forall>c. l \<noteq> OkCall c" "held_off u n s" "1 \<le> n" "f \<le> b_now s" "u = f + gate_delay n"
  shows "held_off u n t"
  using assms(1)
proof cases
  case (fail_call c)
  have "gate_delay n \<le> gate_delay (Suc (g_fails (b_gate s)))"
    using assms(3,4) by (intro gate_delay_mono) (auto simp: held_off_def)
  then show ?thesis using fail_call assms(3,5,6) by (simp add: held_off_def)
qed (use assms in \<open>simp_all add: held_off_def Let_def\<close>)

lemma held_off_run:
  "bus_run s ls t \<Longrightarrow> \<forall>c. OkCall c \<notin> set ls \<Longrightarrow> held_off u n s \<Longrightarrow> 1 \<le> n \<Longrightarrow> f \<le> b_now s \<Longrightarrow> u = f + gate_delay n
   \<Longrightarrow> held_off u n t \<and> b_now s \<le> b_now t"
proof (induction rule: bus_run.induct)
  case (run_snoc s ls t l v)
  then have "held_off u n t" "b_now s \<le> b_now t" by simp_all
  moreover have "held_off u n v"
    using held_off_step [OF run_snoc.hyps(2) _ \<open>held_off u n t\<close>, of f] run_snoc.prems \<open>b_now s \<le> b_now t\<close> by force
  ultimately show ?case using time_step [OF run_snoc.hyps(2)] by simp
qed simp

text \<open>
  After a failure that is the n-th in a row, and until a healthy run calls \<open>ok\<close>, no
  goroutine is granted the window before the n-th penalty has passed, whatever the others
  do meanwhile.
\<close>

theorem gate_spacing:
  assumes "bus_step s (FailCall c) s1" "bus_run s1 ls s2" "\<forall>c. OkCall c \<notin> set ls" "bus_step s2 (Grant d) s3"
  shows "b_now s + min (gateBase * 2 ^ g_fails (b_gate s)) gateMax \<le> b_now s2"
proof -
  have s1: "s1 = set_gate (gate_fail (b_now s) (b_gate s)) s" using assms(1) by (cases rule: bus_step.cases) simp
  have "held_off (b_now s + gate_delay (Suc (g_fails (b_gate s)))) (Suc (g_fails (b_gate s))) s1"
    by (simp add: held_off_def s1)
  then have "held_off (b_now s + gate_delay (Suc (g_fails (b_gate s)))) (Suc (g_fails (b_gate s))) s2"
    using held_off_run [OF assms(2,3)] by (simp add: s1)
  moreover have "g_nextOK (b_gate s2) \<le> b_now s2" using assms(4) by (cases rule: bus_step.cases) simp
  ultimately show ?thesis by (simp add: held_off_def gate_delay_closed)
qed

section \<open>Waits are bounded and the gate does not jam\<close>

definition wait_inv :: "'c bus \<Rightarrow> bool" where
  "wait_inv s \<longleftrightarrow> zero_time \<le> b_now s \<and> g_nextOK (b_gate s) \<le> b_now s + gateMax
     \<and> (\<forall>c u. b_pc s c = Sleeping u \<longrightarrow> u \<le> b_now s + gateMax)"

lemma gate_delay_le: "gate_delay n \<le> gateMax"
  by (simp add: gate_delay_def Let_def)

lemma time_sub_bound: "0 \<le> d \<Longrightarrow> t - u \<le> d \<Longrightarrow> time_sub t u \<le> d"
  by (simp add: time_sub_def int64_min_def int64_max_def)

lemma wait_step:
  assumes "bus_step s l t" "wait_inv s"
  shows "wait_inv t"
  using assms(1)
proof cases
  case (read_ok c)
  have "time_sub (g_nextOK (b_gate s)) (b_now s) \<le> gateMax"
    using assms(2) by (intro time_sub_bound) (simp_all add: wait_inv_def gateMax_def)
  then show ?thesis using assms(2) read_ok by (simp add: wait_inv_def Let_def)
next
  case (tick d)
  have "u \<le> b_now s + d + gateMax" if "b_pc s c = Sleeping u" for c u
    using assms(2) that tick(3) unfolding wait_inv_def by (meson add_increasing2 order_trans add_mono order_refl le_add_same_cancel1)
  then show ?thesis using assms(2) tick by (simp add: wait_inv_def)
next
  case (fail_call c)
  then show ?thesis using assms(2) gate_delay_le by (simp add: wait_inv_def)
next
  case (ok_call c)
  then show ?thesis using assms(2) by (simp add: wait_inv_def gateMax_def)
qed (use assms(2) in \<open>simp_all add: wait_inv_def\<close>)

lemma wait_run: "bus_run s ls t \<Longrightarrow> wait_inv s \<Longrightarrow> wait_inv t"
  by (induction rule: bus_run.induct) (auto dest: wait_step)


section \<open>Runs that meet the hypotheses\<close>

text \<open>Goroutine 0 opens the bus, fails and leaves; goroutine 1 begins and sleeps out the penalty.\<close>

definition held :: "nat bus" where
  "held = \<lparr>b_now = 0, b_gate = new_gate\<lparr>g_sem := 1\<rparr>, b_pc = (\<lambda>_. Outside)(0 := Holding)\<rparr>"

lemma run_held: "bus_run (start_bus 0) [Begin 0, ReadOK 0, Acquire 0, Grant 0] held"
proof -
  let ?s1 = "set_pc 0 AtHead (start_bus 0) :: nat bus"
  let ?s2 = "set_pc 0 Queued ?s1"
  let ?s3 = "set_pc 0 Checking (set_gate (acquire_sem (b_gate ?s2)) ?s2)"
  have 1: "bus_step (start_bus 0) (Begin 0) ?s1" by (rule call) (simp add: start_bus_def)
  have "time_sub zero_time 0 \<le> 0" by (simp add: time_sub_def zero_time_def int64_min_def int64_max_def)
  then have 2: "bus_step ?s1 (ReadOK 0) ?s2"
    using read_ok [of ?s1 0] by (simp add: start_bus_def new_gate_def)
  have 3: "bus_step ?s2 (Acquire 0) ?s3" by (rule acquire) (simp_all add: start_bus_def new_gate_def)
  have 4: "bus_step ?s3 (Grant 0) (set_pc 0 Holding ?s3)"
    by (rule grant) (simp_all add: start_bus_def new_gate_def zero_time_def)
  have "set_pc 0 Holding ?s3 = held"
    by (simp add: held_def set_pc_def set_gate_def start_bus_def acquire_sem_def new_gate_def)
  then show ?thesis
    using run_snoc [OF run_snoc [OF run_snoc [OF run_snoc [OF run_nil 1] 2] 3] 4] by simp
qed

lemma gate_mutex_witness: "g_sem (b_gate held) \<le> 1 \<and> b_pc held 0 = Holding \<and> g_sem (b_gate held) \<noteq> 0"
proof -
  have "b_pc held 0 = Holding" by (simp add: held_def)
  with gate_mutex [OF run_held] show ?thesis by (metis insert_iff)
qed

definition failed :: "nat bus" where
  "failed = set_gate (gate_fail (b_now held) (b_gate held)) held"

lemma step_failed: "bus_step held (FailCall 0) failed"
  unfolding failed_def by (rule fail_call) (simp add: held_def)

definition waited :: "nat bus" where
  "waited = \<lparr>b_now = 30 * second, b_gate = (b_gate failed)\<lparr>g_sem := 1\<rparr>, b_pc = (\<lambda>_. Outside)(1 := Checking)\<rparr>"

lemma run_waited: "bus_run failed [End 0, Tick (30 * second), Begin 1, ReadOK 1, Acquire 1] waited"
proof -
  have d: "gate_delay (Suc 0) = 30 * second" by (simp add: gate_delay_closed gate_consts)
  have n: "g_nextOK (b_gate failed) = 30 * second" "g_sem (b_gate failed) = 1"
    by (simp_all add: failed_def held_def new_gate_def d)
  let ?s1 = "set_pc 0 Outside (set_gate (release_sem (b_gate failed)) failed)"
  let ?s2 = "?s1\<lparr>b_now := b_now ?s1 + 30 * second\<rparr>"
  let ?s3 = "set_pc 1 AtHead ?s2"
  let ?s4 = "set_pc 1 Queued ?s3"
  let ?s5 = "set_pc 1 Checking (set_gate (acquire_sem (b_gate ?s4)) ?s4)"
  have p: "b_pc failed 0 = Holding" "b_pc failed 1 = Outside" "b_now failed = 0" by (simp_all add: failed_def held_def)
  have 1: "bus_step failed (End 0) ?s1" by (rule end_call) (simp add: p)
  have 2: "bus_step ?s1 (Tick (30 * second)) ?s2" by (rule tick) simp
  have 3: "bus_step ?s2 (Begin 1) ?s3" by (rule call) (simp add: p del: One_nat_def)
  have 4: "bus_step ?s3 (ReadOK 1) ?s4"
    using read_ok [of ?s3 1] n p by (simp add: time_sub_def int64_min_def int64_max_def)
  have 5: "bus_step ?s4 (Acquire 1) ?s5" by (rule acquire) (simp_all add: n)
  have "?s5 = waited"
    by (simp add: waited_def set_pc_def set_gate_def release_sem_def acquire_sem_def failed_def held_def fun_eq_iff)
  then show ?thesis
    using run_snoc [OF run_snoc [OF run_snoc [OF run_snoc [OF run_snoc [OF run_nil 1] 2] 3] 4] 5] by simp
qed

lemma gate_spacing_witness: "30 * second \<le> b_now waited \<and> b_pc waited 1 = Checking"
proof -
  have d: "gate_delay (Suc 0) = 30 * second" by (simp add: gate_delay_closed gate_consts)
  have g: "bus_step waited (Grant 1) (set_pc 1 Holding waited)"
    by (rule grant) (simp_all add: waited_def failed_def held_def new_gate_def d)
  have "b_now held + min (gateBase * 2 ^ g_fails (b_gate held)) gateMax \<le> b_now waited"
    by (rule gate_spacing [OF step_failed run_waited _ g]) simp
  then show ?thesis by (simp add: held_def new_gate_def gate_consts waited_def)
qed


end
