(* ===== verification/Capture.thy ===== *)
theory Capture
  imports Store Config Gate
begin

text \<open>
  The capture service, \<open>cmd/capture/main.go\<close> and \<open>devices.go\<close>: naming the dongles,
  keeping one supervisor per enabled dongle, running one receiver pipeline, and ingesting
  its lines. What the environment decides (processes that start or not, lines that arrive,
  cancellation) is an argument: an outcome of a run, a list of events. How the bus is
  enumerated is the subject of theory Dongles; here the list of devices is given.
\<close>

section \<open>Dongles and their stable names\<close>

record sdrDevice =
  sd_index :: int
  sd_serial :: string
  sd_name :: string
  sd_tuner :: string
  sd_source :: string

definition assign_source :: "sdrDevice list \<Rightarrow> sdrDevice \<Rightarrow> sdrDevice" where
  "assign_source devs d =
     (if sd_serial d \<noteq> [] \<and> count_list (map sd_serial devs) (sd_serial d) = 1 then d\<lparr>sd_source := sd_serial d\<rparr>
      else d\<lparr>sd_source := ''dev'' @ format_int (sd_index d)\<rparr>)"

definition assignSources :: "sdrDevice list \<Rightarrow> sdrDevice list" where
  "assignSources devs = map (assign_source devs) devs"

definition splitCSV :: "string \<Rightarrow> string list" where
  "splitCSV s =
     (let out = filter (\<lambda>p. p \<noteq> []) (map trim_space (split_on (CHR '','') s)) in
      if out = [] then [''0''] else out)"

text \<open>The explicit form of \<open>RTL_DEVICES\<close>; None when the bus has to be enumerated.\<close>

definition resolveDevices :: "string \<Rightarrow> sdrDevice list option" where
  "resolveDevices env_value =
     (let raw = trim_space (if env_value \<noteq> [] then env_value else ''auto'') in
      if raw = [] \<or> equal_fold raw ''auto'' then None
      else Some (map (\<lambda>tok. \<lparr>sd_index = atoi_value tok, sd_serial = [], sd_name = [], sd_tuner = [], sd_source = tok\<rparr>) (splitCSV raw)))"

text \<open>\<open>itoa\<close>: the digits of a positive number; nothing for a negative one.\<close>

fun itoa_loop :: "nat \<Rightarrow> string \<Rightarrow> string" where
  "itoa_loop n b = (if n > 0 then itoa_loop (n div 10) (digit_char (n mod 10) # b) else b)"

declare itoa_loop.simps [simp del]

definition itoa :: "int \<Rightarrow> string" where
  "itoa n = (if n = 0 then ''0'' else if n > 0 then itoa_loop (nat n) [] else [])"

section \<open>Scan parameters and the commands\<close>

record scanParams =
  sp_devIndex :: int
  sp_freq :: string
  sp_gain :: string
  sp_ppm :: string
  sp_msgtype :: string
  sp_filt :: string

definition server_addr :: "scanParams \<Rightarrow> string" where
  "server_addr p = ''127.0.0.1:'' @ itoa (1234 + sp_devIndex p)"

definition or_default :: "string \<Rightarrow> string \<Rightarrow> string" where
  "or_default s d = (if s = [] then d else s)"

definition tcp_args :: "scanParams \<Rightarrow> string list" where
  "tcp_args p =
     [''-d'', itoa (sp_devIndex p), ''-a'', ''127.0.0.1'', ''-p'', itoa (1234 + sp_devIndex p), ''-P'', or_default (sp_ppm p) ''0'']
     @ (if sp_gain p \<noteq> [] then [''-g'', sp_gain p] else [])"

definition amr_args :: "scanParams \<Rightarrow> string list" where
  "amr_args p =
     [''-server='' @ server_addr p, ''-msgtype='' @ or_default (sp_msgtype p) ''scm,scm+,idm'', ''-format=json'',
      ''-centerfreq='' @ or_default (sp_freq p) ''912600155'']
     @ (if sp_filt p \<noteq> [] then [''-filterid='' @ sp_filt p] else [])"

section \<open>Ingest\<close>

text \<open>
  The storage target (\<open>Sink\<close>). Whether an insert succeeds is decided outside, by a value of
  type \<open>'o\<close>; a heartbeat's error is dropped by the callers, so it only says if it is written.
\<close>

record ('s, 'o) sink =
  sk_insert :: "'o \<Rightarrow> reading \<Rightarrow> string \<Rightarrow> 's \<Rightarrow> bool \<times> 's"
  sk_heartbeat :: "bool \<Rightarrow> instant \<Rightarrow> string \<Rightarrow> instant \<Rightarrow> int \<Rightarrow> 's \<Rightarrow> 's"

text \<open>What \<open>select\<close> sees: cancellation, the silence timer, the end of the output, or a line.\<close>

datatype 'o event = Cancelled | Silence | Eof instant bool | Line string instant 'o bool

definition decode_text :: "instant \<Rightarrow> string \<Rightarrow> string \<Rightarrow> reading option" where
  "decode_text now source text =
     (let line = trim_space text in if line = [] then None else ExtractReading now line source)"

text \<open>The loop; None while it waits for the next event.\<close>

fun ingest_loop :: "('s, 'o) sink \<Rightarrow> string \<Rightarrow> 'o event list \<Rightarrow> instant \<Rightarrow> int \<Rightarrow> 's \<Rightarrow> (bool \<times> int) option \<times> 's" where
  "ingest_loop sk src [] lastTS n s = (None, s)"
| "ingest_loop sk src (Cancelled # es) lastTS n s = (Some (False, n), s)"
| "ingest_loop sk src (Silence # es) lastTS n s = (Some (True, n), s)"
| "ingest_loop sk src (Eof now hb # es) lastTS n s = (Some (False, n), sk_heartbeat sk hb now src lastTS n s)"
| "ingest_loop sk src (Line text now ok hb # es) lastTS n s =
     (case decode_text now src text of
        None \<Rightarrow> ingest_loop sk src es lastTS n s
      | Some r \<Rightarrow>
          (let (ok', s1) = sk_insert sk ok r (trim_space text) s in
           if \<not> ok' then (Some (False, n), s1)
           else
             (let n1 = n + 1;
                  s2 = (if n1 mod 25 = 0 then sk_heartbeat sk hb now src (TS r) n1 s1 else s1)
              in ingest_loop sk src es (TS r) n1 s2)))"

definition ingest :: "('s, 'o) sink \<Rightarrow> string \<Rightarrow> instant \<Rightarrow> bool \<Rightarrow> 'o event list \<Rightarrow> 's \<Rightarrow> (bool \<times> int) option \<times> 's" where
  "ingest sk src now hb es s = ingest_loop sk src es now 0 (sk_heartbeat sk hb now src now 0 s)"

section \<open>Dead runs\<close>

definition captureMaxDeadRuns :: nat where "captureMaxDeadRuns = 3"

definition noteDeadRun :: "string \<Rightarrow> bool \<Rightarrow> int \<Rightarrow> (string \<rightharpoonup> nat) \<Rightarrow> bool \<times> (string \<rightharpoonup> nat)" where
  "noteDeadRun source stalled pkts m =
     (if stalled \<and> pkts = 0 then
        (let n = (case m source of None \<Rightarrow> 0 | Some k \<Rightarrow> k) + 1 in (n \<ge> captureMaxDeadRuns, m(source \<mapsto> n)))
      else (False, m(source := None)))"

section \<open>The supervisor of one dongle\<close>

text \<open>
  How one iteration goes: the gate is refused, \<open>rtl_tcp\<close> does not start, it never listens (the
  flag: because of a cancellation), \<open>rtlamr\<close> does not start, or the pipeline runs from \<open>start\<close>
  to \<open>now\<close> with the result of ingest and, at its end, a cancelled context or not.
\<close>

datatype run_outcome = GateRefused | TcpFailed instant | NeverListened bool instant | AmrFailed instant
  | Ran instant bool int bool instant

datatype verdict = Again | Stop | ExitProcess

record sup_state =
  ss_gate :: usbGate
  ss_dead :: "string \<rightharpoonup> nat"
  ss_up :: bool

definition supervise_iter :: "string \<Rightarrow> run_outcome \<Rightarrow> sup_state \<Rightarrow> verdict \<times> sup_state" where
  "supervise_iter source out s0 =
     (let s = s0\<lparr>ss_up := False\<rparr>;
          failed = (\<lambda>now. s\<lparr>ss_gate := gate_fail now (ss_gate s)\<rparr>)
      in case out of
           GateRefused \<Rightarrow> (Stop, s)
         | TcpFailed now \<Rightarrow> (Again, failed now)
         | NeverListened cancelled now \<Rightarrow> if cancelled then (Stop, s) else (Again, failed now)
         | AmrFailed now \<Rightarrow> (Again, failed now)
         | Ran start stalled pkts cancelled now \<Rightarrow>
             if cancelled then (Stop, s)
             else
               (let (dead, m) = noteDeadRun source stalled pkts (ss_dead s); s1 = s\<lparr>ss_dead := m\<rparr> in
                if dead then (ExitProcess, s1)
                else if time_sub now start \<ge> gateHealthy then (Again, s1\<lparr>ss_gate := gate_ok now (ss_gate s1)\<rparr>)
                else (Again, s1\<lparr>ss_gate := gate_fail now (ss_gate s1)\<rparr>)))"

text \<open>The loop over the outcomes of its iterations; the state it ends in, still running or not.\<close>

fun superviseSDR :: "string \<Rightarrow> run_outcome list \<Rightarrow> sup_state \<Rightarrow> verdict \<times> sup_state" where
  "superviseSDR source [] s = (Again, s)"
| "superviseSDR source (out # outs) s =
     (let (v, s1) = supervise_iter source out s in if v = Again then superviseSDR source outs s1 else (v, s1))"

section \<open>The manager\<close>

record runningDev =
  rd_params :: scanParams
  rd_up :: bool
  rd_downStreak :: int

record manager =
  mg_running :: "string \<rightharpoonup> runningDev"
  mg_inventory :: "sdrDevice list"
  mg_lastRescan :: instant

definition note_tick :: "runningDev \<Rightarrow> runningDev" where
  "note_tick rd = (if rd_up rd then rd\<lparr>rd_downStreak := 0\<rparr> else rd\<lparr>rd_downStreak := rd_downStreak rd + 1\<rparr>)"

text \<open>\<open>keys\<close> lists the running sources in the order of the loop over the map.\<close>

definition dongleRescanNeeded :: "string list \<Rightarrow> (string \<rightharpoonup> runningDev) \<Rightarrow> bool \<times> (string \<rightharpoonup> runningDev)" where
  "dongleRescanNeeded keys running =
     (if keys = [] then (False, running)
      else
        (let running' = (\<lambda>k. map_option note_tick (running k)) in
         (list_ex (\<lambda>k. case running' k of None \<Rightarrow> False | Some rd \<Rightarrow> \<not> rd_up rd \<and> rd_downStreak rd \<ge> 2) keys, running')))"

definition desired_of :: "CaptureConfig \<Rightarrow> sdrDevice list \<Rightarrow> (string \<rightharpoonup> scanParams)" where
  "desired_of c devs =
     foldl (\<lambda>m d. if \<not> DeviceEnabled c (sd_source d) then m
        else m(sd_source d \<mapsto> \<lparr>sp_devIndex = sd_index d, sp_freq = DeviceFreq c (sd_source d), sp_gain = DeviceGain c (sd_source d),
               sp_ppm = DevicePPM c (sd_source d), sp_msgtype = DeviceMsgType c (sd_source d), sp_filt = DeviceFilterID c (sd_source d)\<rparr>))
       Map.empty devs"

definition fresh_dev :: "scanParams \<Rightarrow> runningDev" where
  "fresh_dev p = \<lparr>rd_params = p, rd_up = False, rd_downStreak = 0\<rparr>"

definition stop_stale :: "(string \<rightharpoonup> scanParams) \<Rightarrow> (string \<rightharpoonup> runningDev) \<Rightarrow> (string \<rightharpoonup> runningDev)" where
  "stop_stale desired running =
     (\<lambda>src. case running src of None \<Rightarrow> None | Some rd \<Rightarrow> if desired src = Some (rd_params rd) then Some rd else None)"

definition start_missing :: "(string \<rightharpoonup> scanParams) \<Rightarrow> (string \<rightharpoonup> runningDev) \<Rightarrow> (string \<rightharpoonup> runningDev)" where
  "start_missing desired running =
     (\<lambda>src. case running src of Some rd \<Rightarrow> Some rd | None \<Rightarrow> map_option fresh_dev (desired src))"

definition sync_running :: "(string \<rightharpoonup> scanParams) \<Rightarrow> (string \<rightharpoonup> runningDev) \<Rightarrow> (string \<rightharpoonup> runningDev)" where
  "sync_running desired running = start_missing desired (stop_stale desired running)"

text \<open>\<open>enumerateOnce\<close>: a found bus is written to the inventory and the rest of it pruned.\<close>

definition record_devices :: "instant \<Rightarrow> sdrDevice list \<Rightarrow> store \<Rightarrow> store" where
  "record_devices now devs st =
     PruneDevices True True (map sd_source devs)
       (fold (\<lambda>d. UpsertDevice now (sd_source d) (sd_index d) (sd_name d) (sd_tuner d)) devs st)"

text \<open>
  \<open>reconcile\<close>: \<open>found\<close> is what the enumeration would return, used when the inventory is
  empty, and \<open>cfg\<close> the loaded configuration, None when that fails.
\<close>

definition reconcile ::
    "instant \<Rightarrow> bool \<Rightarrow> string list \<Rightarrow> sdrDevice list \<Rightarrow> CaptureConfig option \<Rightarrow> manager \<times> store \<Rightarrow> manager \<times> store" where
  "reconcile now mayRescan keys found cfg ms =
     (let (m, st) = ms;
          (needed, running1) = (if mayRescan then dongleRescanNeeded keys (mg_running m) else (False, mg_running m));
          m1 = m\<lparr>mg_running := running1\<rparr>;
          m2 = (if needed \<and> time_sub now (mg_lastRescan m1) > 5 * minute
                then m1\<lparr>mg_running := Map.empty, mg_inventory := [], mg_lastRescan := now\<rparr> else m1);
          (m3, st3) = (if mg_inventory m2 = [] then (m2\<lparr>mg_inventory := found\<rparr>, if found = [] then st else record_devices now found st)
                       else (m2, st))
      in case cfg of None \<Rightarrow> (m3, st3)
         | Some c \<Rightarrow> (m3\<lparr>mg_running := sync_running (desired_of c (mg_inventory m3)) (mg_running m3)\<rparr>, st3))"

definition stopAll :: "manager \<Rightarrow> manager" where
  "stopAll m = m\<lparr>mg_running := Map.empty\<rparr>"

section \<open>What every storage target promises ingest\<close>

definition line_taken :: "('o \<Rightarrow> bool) \<Rightarrow> string \<Rightarrow> 'o event \<Rightarrow> bool" where
  "line_taken accepts src e =
     (case e of Line text now ok hb \<Rightarrow> decode_text now src text = None \<or> accepts ok | _ \<Rightarrow> False)"

fun decoded_of :: "string \<Rightarrow> 'o event list \<Rightarrow> (reading \<times> string) list" where
  "decoded_of src [] = []"
| "decoded_of src (Line text now ok hb # es) =
     (case decode_text now src text of None \<Rightarrow> decoded_of src es | Some r \<Rightarrow> (r, trim_space text) # decoded_of src es)"
| "decoded_of src (e # es) = decoded_of src es"

definition ingest_end :: "'o event list \<Rightarrow> nat \<Rightarrow> (bool \<times> int) option" where
  "ingest_end rest n = (case rest of [] \<Rightarrow> None | Silence # _ \<Rightarrow> Some (True, int n) | _ \<Rightarrow> Some (False, int n))"

lemma ingest_end_Suc:
  "map_option (\<lambda>(b, k). (b, n + k)) (ingest_end rest (Suc j)) = map_option (\<lambda>(b, k). (b, n + 1 + k)) (ingest_end rest j)"
  by (auto simp: ingest_end_def split: list.splits event.splits)

locale reading_sink =
  fixes sk :: "('s, 'o) sink" and stored :: "'s \<Rightarrow> (reading \<times> string) list" and accepts :: "'o \<Rightarrow> bool"
  assumes insert_result: "fst (sk_insert sk ok r raw s) = accepts ok"
    and insert_stored: "stored (snd (sk_insert sk ok r raw s)) = (if accepts ok then stored s @ [(r, raw)] else stored s)"
    and heartbeat_stored: "stored (sk_heartbeat sk hb now src ts n s) = stored s"
begin

lemma insert_cases:
  obtains s1 where "sk_insert sk ok r raw s = (accepts ok, s1)" "stored s1 = (if accepts ok then stored s @ [(r, raw)] else stored s)"
  using insert_result [of ok r raw s] insert_stored [of ok r raw s] by (cases "sk_insert sk ok r raw s") auto

lemma loop_stores:
  "fst (ingest_loop sk src es lastTS n s)
     = map_option (\<lambda>(b, k). (b, n + k)) (ingest_end (dropWhile (line_taken accepts src) es) (length (decoded_of src (takeWhile (line_taken accepts src) es))))
   \<and> stored (snd (ingest_loop sk src es lastTS n s)) = stored s @ decoded_of src (takeWhile (line_taken accepts src) es)"
proof (induction es arbitrary: lastTS n s)
  case Nil
  then show ?case by (simp add: ingest_end_def)
next
  case (Cons e es)
  show ?case
  proof (cases e)
    case (Line line now ok hb)
    show ?thesis
    proof (cases "decode_text now src line")
      case None
      then show ?thesis using Cons.IH [of lastTS n s] Line by (simp add: line_taken_def)
    next
      case (Some r)
      obtain s1 where ins: "sk_insert sk ok r (trim_space line) s = (accepts ok, s1)"
        and st: "stored s1 = (if accepts ok then stored s @ [(r, trim_space line)] else stored s)"
        by (rule insert_cases)
      show ?thesis
      proof (cases "accepts ok")
        case False
        then show ?thesis using Some ins st Line by (simp add: line_taken_def ingest_end_def)
      next
        case True
        define s2 where "s2 = (if (n + 1) mod 25 = 0 then sk_heartbeat sk hb now src (TS r) (n + 1) s1 else s1)"
        have st2: "stored s2 = stored s @ [(r, trim_space line)]" using True st by (simp add: s2_def heartbeat_stored)
        have step: "ingest_loop sk src (e # es) lastTS n s = ingest_loop sk src es (TS r) (n + 1) s2"
          using Line Some ins True by (simp add: s2_def Let_def)
        have tk: "line_taken accepts src e" using Line True by (simp add: line_taken_def)
        have dc: "decoded_of src (e # xs) = (r, trim_space line) # decoded_of src xs" for xs using Line Some by simp
        show ?thesis
          unfolding step using Cons.IH [of "TS r" "n + 1" s2] tk st2 by (simp add: dc ingest_end_Suc)
      qed
    qed
  qed (simp_all add: line_taken_def ingest_end_def heartbeat_stored)
qed

end

text \<open>The database as a storage target; the heartbeat statement may fail too.\<close>

definition db_sink :: "(store, insert_ok) sink" where
  "db_sink = \<lparr>sk_insert = InsertReading,
     sk_heartbeat = (\<lambda>ok now src ts n st. if ok then UpdateHeartbeat now src ts n st else st)\<rparr>"

lemma InsertReading_result:
  "fst (InsertReading ok r raw st) = io_reading ok"
  "st_readings (snd (InsertReading ok r raw st)) = (if io_reading ok then st_readings st @ [(r, raw)] else st_readings st)"
  by (simp_all add: InsertReading_def Let_def notify_def)

interpretation db: reading_sink db_sink st_readings io_reading
  by unfold_locales (simp_all add: db_sink_def InsertReading_result UpdateHeartbeat_def)

text \<open>
  C20. A run of the pipeline stores exactly the readings decoded from its lines, in order, up
  to the first insert the database refuses or the event that ends the run; the packet count
  it returns is their number, and it reports a stall exactly when the silence timer ended it.
\<close>

theorem ingest_stores_decoded:
  "let taken = takeWhile (line_taken io_reading src) es; rest = dropWhile (line_taken io_reading src) es;
       result = ingest db_sink src now hb es st
   in fst result = ingest_end rest (length (decoded_of src taken))
      \<and> st_readings (snd result) = st_readings st @ decoded_of src taken"
proof -
  have "map_option (\<lambda>(b, k). (b, 0 + k)) x = x" for x :: "(bool \<times> int) option" by (cases x) auto
  moreover have "st_readings (sk_heartbeat db_sink hb now src now 0 st) = st_readings st" by (rule db.heartbeat_stored)
  ultimately show ?thesis
    using db.loop_stores [of src es now 0 "sk_heartbeat db_sink hb now src now 0 st"] by (simp add: ingest_def Let_def)
qed

section \<open>Three dead runs in a row\<close>

text \<open>A run of some source: was it stalled, and its packets.\<close>

type_synonym run = "string \<times> bool \<times> int"

definition dead_run :: "run \<Rightarrow> bool" where
  "dead_run r = (case r of (_, stalled, pkts) \<Rightarrow> stalled \<and> pkts = 0)"

text \<open>How many of the latest runs of a source, newest first, were dead.\<close>

definition dead_streak :: "string \<Rightarrow> run list \<Rightarrow> nat" where
  "dead_streak src rs = length (takeWhile dead_run (rev (filter (\<lambda>r. fst r = src) rs)))"

definition runs_noted :: "run list \<Rightarrow> (string \<rightharpoonup> nat)" where
  "runs_noted rs = fold (\<lambda>(src, stalled, pkts) m. snd (noteDeadRun src stalled pkts m)) rs Map.empty"

lemma runs_noted_snoc:
  "runs_noted (rs @ [(src, stalled, pkts)]) = snd (noteDeadRun src stalled pkts (runs_noted rs))"
  by (simp add: runs_noted_def)

lemma dead_streak_snoc:
  "dead_streak s (rs @ [r]) = (if fst r = s then (if dead_run r then Suc (dead_streak s rs) else 0) else dead_streak s rs)"
  by (simp add: dead_streak_def)

lemma runs_noted_streak: "(case runs_noted rs s of None \<Rightarrow> 0 | Some k \<Rightarrow> k) = dead_streak s rs"
proof (induction rs rule: rev_induct)
  case Nil
  then show ?case by (simp add: runs_noted_def dead_streak_def)
next
  case (snoc r rs)
  obtain src stalled pkts where r: "r = (src, stalled, pkts)" by (cases r)
  show ?case
    using snoc unfolding r runs_noted_snoc dead_streak_snoc
    by (auto simp: noteDeadRun_def Let_def dead_run_def split: option.splits)
qed

text \<open>
  However the runs of the dongles interleave, and however often their supervisors are
  replaced in between, a run ends the process exactly when it is at least the third in a row
  of its own source that stalled without a packet.
\<close>

theorem dead_run_escalates:
  "fst (noteDeadRun src stalled pkts (runs_noted rs)) \<longleftrightarrow> 3 \<le> dead_streak src (rs @ [(src, stalled, pkts)])"
  using runs_noted_streak [of rs src]
  by (auto simp: noteDeadRun_def Let_def captureMaxDeadRuns_def dead_streak_snoc dead_run_def split: option.splits)

section \<open>The supervisor and the gate\<close>

text \<open>
  A cancelled run leaves the backoff and the dead-run counts alone; a run that was not
  cancelled and does not end the process clears the backoff when it lasted at least a
  minute and otherwise adds one failure to it.
\<close>

theorem supervise_gate:
  "let (v, s') = supervise_iter src (Ran start stalled pkts cancelled now) s in
     (if cancelled then v = Stop \<and> ss_gate s' = ss_gate s \<and> ss_dead s' = ss_dead s
      else if fst (noteDeadRun src stalled pkts (ss_dead s)) then v = ExitProcess \<and> ss_gate s' = ss_gate s
      else v = Again \<and> (if gateHealthy \<le> now - start then g_fails (ss_gate s') = 0
                        else g_fails (ss_gate s') = Suc (g_fails (ss_gate s))
                          \<and> g_nextOK (ss_gate s') = now + gate_delay (Suc (g_fails (ss_gate s)))))"
proof -
  have t: "gateHealthy \<le> time_sub now start \<longleftrightarrow> gateHealthy \<le> now - start"
    by (rule time_sub_ge_iff) (simp_all add: gateHealthy_def int64_min_def int64_max_def)
  show ?thesis
    by (cases "noteDeadRun src stalled pkts (ss_dead s)") (simp add: supervise_iter_def Let_def t)
qed

section \<open>The manager\<close>

lemma sync_running_params: "map_option rd_params (sync_running d running src) = d src"
  by (auto simp: sync_running_def start_missing_def stop_stale_def fresh_dev_def option.map_comp o_def option.map_ident split: option.splits)

lemma sync_running_keeps: "running src = Some rd \<Longrightarrow> d src = Some (rd_params rd) \<Longrightarrow> sync_running d running src = Some rd"
  by (simp add: sync_running_def start_missing_def stop_stale_def)

text \<open>
  After every reconciliation with a loaded configuration, rescan or not, exactly the
  enabled dongles of the inventory run, each with its effective parameters; without a rescan
  a supervisor whose parameters did not change is the one that ran before.
\<close>

theorem reconcile_exact:
  "let m' = fst (reconcile now mayRescan keys found (Some c) (m, st)); desired = desired_of c (mg_inventory m') in
     (map_option rd_params \<circ> mg_running m' = desired)
     \<and> (\<not> mayRescan \<and> mg_running m src = Some rd \<and> desired src = Some (rd_params rd) \<longrightarrow> mg_running m' src = Some rd)"
  unfolding Let_def reconcile_def
  by (auto simp: fun_eq_iff sync_running_params sync_running_keeps split_def)

definition one_dongle :: sdrDevice where
  "one_dongle = \<lparr>sd_index = 0, sd_serial = ''00000001'', sd_name = [], sd_tuner = [], sd_source = ''00000001''\<rparr>"

definition plain_capture :: CaptureConfig where
  "plain_capture = \<lparr>cc_Freq = ''912600155'', cc_Gain = [], cc_PPM = ''0'', cc_MsgType = ''scm'', cc_FilterID = [], cc_Devices = Map.empty\<rparr>"

definition busy_manager :: manager where
  "busy_manager =
     (let p = \<lparr>sp_devIndex = 0, sp_freq = ''912600155'', sp_gain = [], sp_ppm = ''0'', sp_msgtype = ''scm'', sp_filt = []\<rparr>
      in \<lparr>mg_running = [''00000001'' \<mapsto> \<lparr>rd_params = p, rd_up = True, rd_downStreak = 0\<rparr>],
          mg_inventory = [one_dongle], mg_lastRescan = 0\<rparr>)"

lemma reconcile_exact_witness:
  "mg_running (fst (reconcile 0 False [] [] (Some plain_capture) (busy_manager, empty_store))) ''00000001''
     = mg_running busy_manager ''00000001''"
proof -
  obtain rd where rd: "mg_running busy_manager ''00000001'' = Some rd" by (simp add: busy_manager_def Let_def)
  have "mg_inventory (fst (reconcile 0 False [] [] (Some plain_capture) (busy_manager, empty_store))) = [one_dongle]"
    by (simp add: reconcile_def busy_manager_def Let_def)
  moreover have "desired_of plain_capture [one_dongle] ''00000001'' = Some (rd_params rd)"
    using rd by (auto simp: desired_of_def one_dongle_def plain_capture_def busy_manager_def Let_def DeviceEnabled_def device_of_def pick_def
      DeviceFreq_def DeviceGain_def DevicePPM_def DeviceMsgType_def DeviceFilterID_def zero_device_def)
  ultimately show ?thesis
    using reconcile_exact [of 0 False "[]" "[]" plain_capture busy_manager empty_store "''00000001''" rd] rd by (simp add: Let_def)
qed

section \<open>Names of dongles\<close>

lemma count_list_one:
  assumes "count_list xs x = 1" "i < length xs" "j < length xs" "xs ! i = x" "xs ! j = x"
  shows "i = j"
proof (rule ccontr)
  assume "i \<noteq> j"
  then have "card {i, j} = 2" by simp
  moreover have "{i, j} \<subseteq> {k. k < length xs \<and> xs ! k = x}" using assms by auto
  moreover have "card {k. k < length xs \<and> xs ! k = x} = 1"
    using assms(1) by (simp add: count_list_eq_length_filter length_filter_conv_card eq_commute)
  ultimately show False
    using card_mono [of "{k. k < length xs \<and> xs ! k = x}" "{i, j}"] by simp
qed

text \<open>
  The dongles of one enumeration get different names, as long as none of them carries a
  serial that looks like the fallback name of another.
\<close>

theorem assignSources_distinct:
  assumes "distinct (map sd_index devs)" "\<forall>d \<in> set devs. \<forall>e \<in> set devs. sd_serial d \<noteq> ''dev'' @ format_int (sd_index e)"
  shows "distinct (map sd_source (assignSources devs))"
proof -
  have "sd_source (assign_source devs (devs ! i)) \<noteq> sd_source (assign_source devs (devs ! j))"
    if ij: "i < length devs" "j < length devs" "i \<noteq> j" for i j
  proof
    assume eq: "sd_source (assign_source devs (devs ! i)) = sd_source (assign_source devs (devs ! j))"
    have idx: "sd_index (devs ! i) \<noteq> sd_index (devs ! j)"
      using assms(1) ij by (simp add: distinct_conv_nth)
    have fb: "sd_serial (devs ! i) \<noteq> ''dev'' @ format_int (sd_index (devs ! j))" "sd_serial (devs ! j) \<noteq> ''dev'' @ format_int (sd_index (devs ! i))"
      using assms(2) ij by simp_all
    from eq idx fb have "sd_serial (devs ! i) = sd_serial (devs ! j)" "count_list (map sd_serial devs) (sd_serial (devs ! i)) = 1"
      by (auto simp: assign_source_def dest: format_int_inj split: if_splits)
    then show False using count_list_one [of "map sd_serial devs" "sd_serial (devs ! j)" i j] ij by simp
  qed
  then show ?thesis by (simp add: assignSources_def distinct_conv_nth)
qed

definition dongle :: "int \<Rightarrow> string \<Rightarrow> sdrDevice" where
  "dongle i s = \<lparr>sd_index = i, sd_serial = s, sd_name = [], sd_tuner = [], sd_source = []\<rparr>"

lemma assignSources_distinct_witness:
  "distinct (map sd_source (assignSources [dongle 0 ''A1'', dongle 1 [], dongle 2 []]))"
proof (rule assignSources_distinct)
  show "distinct (map sd_index [dongle 0 ''A1'', dongle 1 [], dongle 2 []])" by (simp add: dongle_def)
  show "\<forall>d \<in> set [dongle 0 ''A1'', dongle 1 [], dongle 2 []]. \<forall>e \<in> set [dongle 0 ''A1'', dongle 1 [], dongle 2 []].
      sd_serial d \<noteq> ''dev'' @ format_int (sd_index e)"
    by (simp add: dongle_def)
qed

text \<open>Without that a serial \<open>dev1\<close> on the first dongle is also the fallback name of the second.\<close>

lemma assignSources_clash:
  "map sd_source (assignSources [dongle 0 ''dev1'', dongle 1 []]) = [''dev1'', ''dev1'']"
  by code_simp

text \<open>\<open>itoa\<close> agrees with the decimal form on the ports and indices it is used for.\<close>

lemma itoa_loop_digits: "0 < n \<Longrightarrow> itoa_loop n b = nat_digits n @ b"
proof (induction n b rule: itoa_loop.induct)
  case (1 n b)
  show ?case
  proof (cases "n < 10")
    case True
    then show ?thesis using "1.prems" by (subst itoa_loop.simps, subst nat_digits.simps) (simp add: itoa_loop.simps [of 0])
  next
    case False
    then show ?thesis using 1 by (subst itoa_loop.simps, subst nat_digits.simps) simp
  qed
qed

lemma itoa_format_int: "0 \<le> n \<Longrightarrow> itoa n = format_int n"
  by (simp add: itoa_def format_int_def itoa_loop_digits nat_digits.simps [of 0] digit_char_0)

text \<open>Remote dongles are rows of the same inventory: enumerating the local bus prunes them.\<close>

lemma enumeration_drops_remote:
  "st_devices (record_devices now [dongle 0 []\<lparr>sd_source := ''A1''\<rparr>] (UpsertDevice 0 ''agent/B2'' 0 ''agent'' ''remote'' empty_store)) ''agent/B2'' = None"
  by (simp add: record_devices_def PruneDevices_def UpsertDevice_def Let_def dongle_def)

end
