(* ===== verification/Agentwire.thy ===== *)
theory Agentwire
  imports Codec
begin

text \<open>
  The protocol between the server and a remote capture agent, \<open>internal/agentwire\<close>: keys and
  their text form, the sealed session, and the two-message handshake. The NaCl functions are
  a parameter, a record of the five operations used; random values and the outcome of each
  read and write are arguments. Byte slices are strings. The body of a session message is
  what \<open>json.Marshal\<close> makes of it, bytes here, since it holds floating-point numbers.
\<close>

section \<open>Keys\<close>

definition ctxTag :: string where "ctxTag = ''winnow-agent-v1''"

datatype wire_error = BadJSON | BadKey | NotAuthorized | AuthFailed | BindingMismatch | ReadFailed | WriteFailed
  | RandFailed | ShortFrame | DecryptFailed

definition EncodeKey :: "string \<Rightarrow> string" where "EncodeKey k = b64_encode k"

definition DecodeKey :: "string \<Rightarrow> string option" where
  "DecodeKey s = (case b64_decode s of None \<Rightarrow> None | Some b \<Rightarrow> if length b \<noteq> 32 then None else Some b)"

text \<open>
  NaCl: the public key of a private one, \<open>box.Seal\<close> and \<open>box.Open\<close> (message, nonce, peer's public
  key, own private key), \<open>box.Precompute\<close> (peer's public key, own private key), and
  \<open>secretbox.Seal\<close> and \<open>secretbox.Open\<close> (message, nonce, key).
\<close>

record nacl =
  nc_pub :: "string \<Rightarrow> string"
  nc_seal :: "string \<Rightarrow> string \<Rightarrow> string \<Rightarrow> string \<Rightarrow> string"
  nc_open :: "string \<Rightarrow> string \<Rightarrow> string \<Rightarrow> string \<Rightarrow> string option"
  nc_shared :: "string \<Rightarrow> string \<Rightarrow> string"
  nc_sseal :: "string \<Rightarrow> string \<Rightarrow> string \<Rightarrow> string"
  nc_sopen :: "string \<Rightarrow> string \<Rightarrow> string \<Rightarrow> string option"

section \<open>Sessions\<close>

text \<open>A frame is the nonce followed by the sealed text; None for the nonce is a failed random read.\<close>

definition Seal :: "nacl \<Rightarrow> string \<Rightarrow> string option \<Rightarrow> string \<Rightarrow> wire_error + string" where
  "Seal nc key nonce plain =
     (case nonce of None \<Rightarrow> Inl RandFailed | Some n \<Rightarrow> Inr (n @ nc_sseal nc plain n key))"

definition Open :: "nacl \<Rightarrow> string \<Rightarrow> string \<Rightarrow> wire_error + string" where
  "Open nc key data =
     (if length data < 24 then Inl ShortFrame
      else case nc_sopen nc (drop 24 data) (take 24 data) key of None \<Rightarrow> Inl DecryptFailed | Some out \<Rightarrow> Inr out)"

text \<open>\<open>SendMsg\<close> and \<open>RecvMsg\<close> with the codec of messages; the frame written, and the message read.\<close>

definition SendMsg :: "nacl \<Rightarrow> string \<Rightarrow> ('m \<Rightarrow> string) \<Rightarrow> string option \<Rightarrow> 'm \<Rightarrow> wire_error + string" where
  "SendMsg nc key marshal nonce m = Seal nc key nonce (marshal m)"

definition RecvMsg :: "nacl \<Rightarrow> string \<Rightarrow> (string \<Rightarrow> 'm option) \<Rightarrow> string option \<Rightarrow> wire_error + 'm" where
  "RecvMsg nc key unmarshal frame =
     (case frame of None \<Rightarrow> Inl ReadFailed
      | Some data \<Rightarrow>
          (case Open nc key data of Inl e \<Rightarrow> Inl e
           | Inr plain \<Rightarrow> (case unmarshal plain of None \<Rightarrow> Inl BadJSON | Some m \<Rightarrow> Inr m)))"

section \<open>Handshake messages\<close>

record hsInit =
  hi_ClientStaticPub :: string
  hi_ClientEphPub :: string
  hi_Nonce :: string
  hi_Box :: string
  hi_Label :: string

record hsResp =
  hr_ServerEphPub :: string
  hr_Nonce :: string
  hr_Box :: string

definition marshal_init :: "hsInit \<Rightarrow> string" where
  "marshal_init i = enc (JObj ([(''cspub'', JStr (hi_ClientStaticPub i)), (''cepub'', JStr (hi_ClientEphPub i)),
     (''n'', JStr (hi_Nonce i)), (''box'', JStr (hi_Box i))] @ (if hi_Label i = [] then [] else [(''label'', JStr (hi_Label i))])))"

definition marshal_resp :: "hsResp \<Rightarrow> string" where
  "marshal_resp r = enc (JObj [(''sepub'', JStr (hr_ServerEphPub r)), (''n'', JStr (hr_Nonce r)), (''box'', JStr (hr_Box r))])"

fun init_fields :: "(string \<times> json) list \<Rightarrow> hsInit \<Rightarrow> hsInit option" where
  "init_fields [] i = Some i"
| "init_fields ((k, v) # kvs) i =
     (if equal_fold k ''cspub'' then (case dec_string v (hi_ClientStaticPub i) of None \<Rightarrow> None | Some s \<Rightarrow> init_fields kvs (i\<lparr>hi_ClientStaticPub := s\<rparr>))
      else if equal_fold k ''cepub'' then (case dec_string v (hi_ClientEphPub i) of None \<Rightarrow> None | Some s \<Rightarrow> init_fields kvs (i\<lparr>hi_ClientEphPub := s\<rparr>))
      else if equal_fold k ''n'' then (case dec_string v (hi_Nonce i) of None \<Rightarrow> None | Some s \<Rightarrow> init_fields kvs (i\<lparr>hi_Nonce := s\<rparr>))
      else if equal_fold k ''box'' then (case dec_string v (hi_Box i) of None \<Rightarrow> None | Some s \<Rightarrow> init_fields kvs (i\<lparr>hi_Box := s\<rparr>))
      else if equal_fold k ''label'' then (case dec_string v (hi_Label i) of None \<Rightarrow> None | Some s \<Rightarrow> init_fields kvs (i\<lparr>hi_Label := s\<rparr>))
      else init_fields kvs i)"

fun resp_fields :: "(string \<times> json) list \<Rightarrow> hsResp \<Rightarrow> hsResp option" where
  "resp_fields [] r = Some r"
| "resp_fields ((k, v) # kvs) r =
     (if equal_fold k ''sepub'' then (case dec_string v (hr_ServerEphPub r) of None \<Rightarrow> None | Some s \<Rightarrow> resp_fields kvs (r\<lparr>hr_ServerEphPub := s\<rparr>))
      else if equal_fold k ''n'' then (case dec_string v (hr_Nonce r) of None \<Rightarrow> None | Some s \<Rightarrow> resp_fields kvs (r\<lparr>hr_Nonce := s\<rparr>))
      else if equal_fold k ''box'' then (case dec_string v (hr_Box r) of None \<Rightarrow> None | Some s \<Rightarrow> resp_fields kvs (r\<lparr>hr_Box := s\<rparr>))
      else resp_fields kvs r)"

definition unmarshal_init :: "string \<Rightarrow> hsInit option" where
  "unmarshal_init s =
     (let z = \<lparr>hi_ClientStaticPub = [], hi_ClientEphPub = [], hi_Nonce = [], hi_Box = [], hi_Label = []\<rparr>
      in case parse_json s of Some (JObj kvs) \<Rightarrow> init_fields kvs z | Some JNull \<Rightarrow> Some z | _ \<Rightarrow> None)"

definition unmarshal_resp :: "string \<Rightarrow> hsResp option" where
  "unmarshal_resp s =
     (let z = \<lparr>hr_ServerEphPub = [], hr_Nonce = [], hr_Box = []\<rparr>
      in case parse_json s of Some (JObj kvs) \<Rightarrow> resp_fields kvs z | Some JNull \<Rightarrow> Some z | _ \<Rightarrow> None)"

definition seal_box :: "nacl \<Rightarrow> string option \<Rightarrow> string \<Rightarrow> string \<Rightarrow> string \<Rightarrow> wire_error + string \<times> string" where
  "seal_box nc nonce payload peerPub myPriv =
     (case nonce of None \<Rightarrow> Inl RandFailed
      | Some n \<Rightarrow> Inr (b64_encode n, b64_encode (nc_seal nc payload n peerPub myPriv)))"

definition open_box :: "nacl \<Rightarrow> string \<Rightarrow> string \<Rightarrow> string \<Rightarrow> string \<Rightarrow> string option" where
  "open_box nc nonceB64 boxB64 peerPub myPriv =
     (case b64_decode nonceB64 of None \<Rightarrow> None
      | Some n \<Rightarrow> if length n \<noteq> 24 then None
          else (case b64_decode boxB64 of None \<Rightarrow> None | Some c \<Rightarrow> nc_open nc c n peerPub myPriv))"

section \<open>The handshake\<close>

text \<open>The client up to its message: the text written, and the ephemeral pair it keeps.\<close>

definition client_init ::
    "nacl \<Rightarrow> (string \<times> string) option \<Rightarrow> string option \<Rightarrow> string \<Rightarrow> string \<Rightarrow> string \<Rightarrow> string \<Rightarrow> wire_error + string \<times> string \<times> string" where
  "client_init nc eph nonce clientPub clientPriv serverPub label =
     (case eph of None \<Rightarrow> Inl RandFailed
      | Some (ePub, ePriv) \<Rightarrow>
          (case seal_box nc nonce (ePub @ ctxTag) serverPub clientPriv of Inl e \<Rightarrow> Inl e
           | Inr (n, b) \<Rightarrow>
               Inr (marshal_init \<lparr>hi_ClientStaticPub = EncodeKey clientPub, hi_ClientEphPub = EncodeKey ePub, hi_Nonce = n,
                      hi_Box = b, hi_Label = label\<rparr>, ePub, ePriv)))"

text \<open>The client from the server's message on; the session key.\<close>

definition client_finish :: "nacl \<Rightarrow> string \<Rightarrow> string \<Rightarrow> string \<Rightarrow> string \<Rightarrow> string \<Rightarrow> wire_error + string" where
  "client_finish nc clientPriv serverPub ePub ePriv raw =
     (case unmarshal_resp raw of None \<Rightarrow> Inl BadJSON
      | Some resp \<Rightarrow>
          (case DecodeKey (hr_ServerEphPub resp) of None \<Rightarrow> Inl BadKey
           | Some sEphPub \<Rightarrow>
               (case open_box nc (hr_Nonce resp) (hr_Box resp) serverPub clientPriv of None \<Rightarrow> Inl AuthFailed
                | Some payload \<Rightarrow>
                    if length payload < 64 then Inl AuthFailed
                    else if take 32 payload \<noteq> sEphPub \<or> take 32 (drop 32 payload) \<noteq> ePub \<or> drop 64 payload \<noteq> ctxTag
                    then Inl BindingMismatch
                    else Inr (nc_shared nc sEphPub ePriv))))"

definition ClientHandshake ::
    "nacl \<Rightarrow> (string \<times> string) option \<Rightarrow> string option \<Rightarrow> bool \<Rightarrow> string option \<Rightarrow> string \<Rightarrow> string \<Rightarrow> string \<Rightarrow> string \<Rightarrow> wire_error + string" where
  "ClientHandshake nc eph nonce wrote answer clientPub clientPriv serverPub label =
     (case client_init nc eph nonce clientPub clientPriv serverPub label of Inl e \<Rightarrow> Inl e
      | Inr (_, ePub, ePriv) \<Rightarrow>
          if \<not> wrote then Inl WriteFailed
          else (case answer of None \<Rightarrow> Inl ReadFailed | Some raw \<Rightarrow> client_finish nc clientPriv serverPub ePub ePriv raw))"

text \<open>
  The server: the session key, the label of the authorized key and the answer written; and
  beside a refusal, the key and name handed to \<open>onUnauthorized\<close>.
\<close>

record server_accept =
  sv_key :: string
  sv_label :: string
  sv_answer :: string

definition ServerHandshake ::
    "nacl \<Rightarrow> (string \<times> string) option \<Rightarrow> string option \<Rightarrow> bool \<Rightarrow> string \<Rightarrow> (string \<Rightarrow> string option) \<Rightarrow> string option
     \<Rightarrow> (wire_error + server_accept) \<times> (string \<times> string) option" where
  "ServerHandshake nc eph nonce wrote serverPriv authorized received =
     (case received of None \<Rightarrow> (Inl ReadFailed, None)
      | Some raw \<Rightarrow>
     (case unmarshal_init raw of None \<Rightarrow> (Inl BadJSON, None)
      | Some i \<Rightarrow>
     (case DecodeKey (hi_ClientStaticPub i) of None \<Rightarrow> (Inl BadKey, None)
      | Some cStaticPub \<Rightarrow>
     (case authorized cStaticPub of None \<Rightarrow> (Inl NotAuthorized, Some (cStaticPub, hi_Label i))
      | Some label \<Rightarrow>
     (case DecodeKey (hi_ClientEphPub i) of None \<Rightarrow> (Inl BadKey, None)
      | Some cEphPub \<Rightarrow>
     (case open_box nc (hi_Nonce i) (hi_Box i) cStaticPub serverPriv of None \<Rightarrow> (Inl AuthFailed, None)
      | Some payload \<Rightarrow>
          if length payload < 32 then (Inl AuthFailed, None)
          else if take 32 payload \<noteq> cEphPub \<or> drop 32 payload \<noteq> ctxTag then (Inl BindingMismatch, None)
          else
     (case eph of None \<Rightarrow> (Inl RandFailed, None)
      | Some (sEphPub, sEphPriv) \<Rightarrow>
     (case seal_box nc nonce (sEphPub @ cEphPub @ ctxTag) cStaticPub serverPriv of Inl e \<Rightarrow> (Inl e, None)
      | Inr (n, b) \<Rightarrow>
          if \<not> wrote then (Inl WriteFailed, None)
          else (Inr \<lparr>sv_key = nc_shared nc cEphPub sEphPriv, sv_label = label,
                     sv_answer = marshal_resp \<lparr>hr_ServerEphPub = EncodeKey sEphPub, hr_Nonce = n, hr_Box = b\<rparr>\<rparr>, None)))))))))"

section \<open>Messages read back\<close>

lemma init_names:
  "equal_fold ''cspub'' ''cspub'' \<and> \<not> equal_fold ''cepub'' ''cspub'' \<and> equal_fold ''cepub'' ''cepub'' \<and> \<not> equal_fold ''n'' ''cspub''
   \<and> \<not> equal_fold ''n'' ''cepub'' \<and> equal_fold ''n'' ''n'' \<and> \<not> equal_fold ''box'' ''cspub'' \<and> \<not> equal_fold ''box'' ''cepub''
   \<and> \<not> equal_fold ''box'' ''n'' \<and> equal_fold ''box'' ''box'' \<and> \<not> equal_fold ''label'' ''cspub'' \<and> \<not> equal_fold ''label'' ''cepub''
   \<and> \<not> equal_fold ''label'' ''n'' \<and> \<not> equal_fold ''label'' ''box'' \<and> equal_fold ''label'' ''label''"
  by code_simp

lemma resp_names:
  "equal_fold ''sepub'' ''sepub'' \<and> \<not> equal_fold ''n'' ''sepub'' \<and> \<not> equal_fold ''box'' ''sepub''"
  by code_simp

lemma unmarshal_marshal_init [simp]: "unmarshal_init (marshal_init i) = Some i"
  unfolding unmarshal_init_def marshal_init_def by (subst parse_enc, simp, simp add: init_names Let_def)

lemma unmarshal_marshal_resp [simp]: "unmarshal_resp (marshal_resp r) = Some r"
  unfolding unmarshal_resp_def marshal_resp_def by (subst parse_enc, simp, simp add: init_names resp_names Let_def)

lemma DecodeKey_EncodeKey [simp]: "length k = 32 \<Longrightarrow> DecodeKey (EncodeKey k) = Some k"
  by (simp add: DecodeKey_def EncodeKey_def b64_roundtrip)

lemma DecodeKey_length: "DecodeKey s = Some k \<Longrightarrow> length k = 32"
  by (auto simp: DecodeKey_def split: option.splits if_splits)

section \<open>What the protocol relies on in NaCl\<close>

text \<open>A box opens under the mirrored pair of keys, both sides compute one shared key, a sealed text opens.\<close>

definition nacl_ok :: "nacl \<Rightarrow> bool" where
  "nacl_ok nc \<longleftrightarrow>
     (\<forall>p n a b. nc_open nc (nc_seal nc p n (nc_pub nc b) a) n (nc_pub nc a) b = Some p)
     \<and> (\<forall>a b. nc_shared nc (nc_pub nc a) b = nc_shared nc (nc_pub nc b) a)
     \<and> (\<forall>p n k. nc_sopen nc (nc_sseal nc p n k) n k = Some p)"

lemma open_seal_box:
  assumes "nacl_ok nc" "length n = 24"
  shows "open_box nc (b64_encode n) (b64_encode (nc_seal nc p n (nc_pub nc b) a)) (nc_pub nc a) b = Some p"
  using assms by (simp add: open_box_def b64_roundtrip nacl_ok_def)

text \<open>A transparent instance, to evaluate the protocol on: no secrecy, all the laws.\<close>

definition clear_nacl :: nacl where
  "clear_nacl = \<lparr>nc_pub = (\<lambda>k. k), nc_seal = (\<lambda>p n a b. p), nc_open = (\<lambda>c n a b. Some c),
     nc_shared = (\<lambda>a b. if a = b then a else ''shared''), nc_sseal = (\<lambda>p n k. p), nc_sopen = (\<lambda>c n k. Some c)\<rparr>"

lemma clear_nacl_ok: "nacl_ok clear_nacl"
  by (simp add: nacl_ok_def clear_nacl_def)

lemma Session_roundtrip:
  "nacl_ok nc \<Longrightarrow> length n = 24 \<Longrightarrow> Seal nc k (Some n) p = Inr f \<Longrightarrow> Open nc k f = Inr p"
  by (auto simp: Seal_def Open_def nacl_ok_def)

section \<open>Both sides agree\<close>

definition key32 :: "string \<Rightarrow> bool" where "key32 k \<longleftrightarrow> length k = 32"

text \<open>
  Between an agent whose key is authorized and the server, with the messages delivered
  as written, the handshake succeeds on both sides, gives both the same session key, gives
  the server the label of that key, and reports nobody as unauthorized; a message either
  side then seals is read by the other as it was sent.
\<close>

theorem handshake_agrees:
  assumes "nacl_ok nc" "key32 (nc_pub nc c)" "key32 (nc_pub nc ec)" "key32 (nc_pub nc es)"
    "length n1 = 24" "length n2 = 24" "length n3 = 24" "authorized (nc_pub nc c) = Some label" "unmarshal (marshal m) = Some m"
  shows "\<exists>hello acc.
     client_init nc (Some (nc_pub nc ec, ec)) (Some n1) (nc_pub nc c) c (nc_pub nc s) name = Inr (hello, nc_pub nc ec, ec)
     \<and> ServerHandshake nc (Some (nc_pub nc es, es)) (Some n2) True s authorized (Some hello) = (Inr acc, None)
     \<and> ClientHandshake nc (Some (nc_pub nc ec, ec)) (Some n1) True (Some (sv_answer acc)) (nc_pub nc c) c (nc_pub nc s) name
       = Inr (sv_key acc)
     \<and> sv_label acc = label
     \<and> (\<exists>frame. SendMsg nc (sv_key acc) marshal (Some n3) m = Inr frame \<and> RecvMsg nc (sv_key acc) unmarshal (Some frame) = Inr m)"
proof -
  have sh: "nc_shared nc (nc_pub nc ec) es = nc_shared nc (nc_pub nc es) ec" using assms(1) by (simp add: nacl_ok_def)
  have msg: "\<exists>frame. SendMsg nc k marshal (Some n3) m = Inr frame \<and> RecvMsg nc k unmarshal (Some frame) = Inr m" for k
    using assms(1,7,9) by (auto simp: SendMsg_def RecvMsg_def Seal_def Open_def nacl_ok_def)
  note L = assms(2-4) [unfolded key32_def]
  note O = open_seal_box [OF assms(1)]
  show ?thesis
    unfolding ClientHandshake_def client_init_def seal_box_def ServerHandshake_def client_finish_def
    using L assms(5,6,8) msg by (simp add: O sh)
qed

section \<open>Nobody else is accepted\<close>

text \<open>
  What the two holders of a pair of static keys put in boxes: ephemeral keys the agent sent
  (the set \<open>E\<close>) and answers of the server (server and client ephemeral key, the set \<open>P\<close>).
  Authenticity of the box says that whatever opens under the pair is one of these. Both
  directions share one secret, so an attacker may hand either side its own boxes back.
\<close>

definition honest_boxes :: "nacl \<Rightarrow> string \<Rightarrow> string \<Rightarrow> string set \<Rightarrow> (string \<times> string) set \<Rightarrow> bool" where
  "honest_boxes nc peerPub myPriv E P \<longleftrightarrow>
     (\<forall>c n m. nc_open nc c n peerPub myPriv = Some m
        \<longrightarrow> (\<exists>e \<in> E. key32 e \<and> m = e @ ctxTag) \<or> (\<exists>(s, e) \<in> P. key32 s \<and> key32 e \<and> m = s @ e @ ctxTag))"

lemma honest_open:
  assumes "honest_boxes nc p k E P" "open_box nc n b p k = Some m"
  shows "(\<exists>e \<in> E. key32 e \<and> m = e @ ctxTag) \<or> (\<exists>(s, e) \<in> P. key32 s \<and> key32 e \<and> m = s @ e @ ctxTag)"
  using assms by (auto simp: open_box_def honest_boxes_def split: option.splits if_splits)

lemma ctxTag_length [simp]: "length ctxTag = 15"
  by (simp add: ctxTag_def)

lemma client_finish_cases:
  assumes "client_finish nc clientPriv serverPub ePub ePriv raw = Inr k"
  obtains n b payload s where "open_box nc n b serverPub clientPriv = Some payload" "64 \<le> length payload" "take 32 payload = s"
    "take 32 (drop 32 payload) = ePub" "drop 64 payload = ctxTag" "k = nc_shared nc s ePriv"
  using assms by (auto simp: client_finish_def split: option.splits if_splits)

lemma ServerHandshake_cases:
  assumes "ServerHandshake nc eph nonce wrote serverPriv authorized received = (Inr acc, u)"
  obtains cs n b e sp where "authorized cs = Some (sv_label acc)" "open_box nc n b cs serverPriv = Some (e @ ctxTag)" "key32 e"
    "eph = Some sp" "sv_key acc = nc_shared nc e (snd sp)"
proof -
  from assms obtain cs n b payload e sp where a: "authorized cs = Some (sv_label acc)" "open_box nc n b cs serverPriv = Some payload"
    "\<not> length payload < 32" "take 32 payload = e" "drop 32 payload = ctxTag" "eph = Some sp" "sv_key acc = nc_shared nc e (snd sp)"
    unfolding ServerHandshake_def by (auto split: option.splits if_splits sum.splits prod.splits)
  have "payload = e @ ctxTag" using a(4,5) by (metis append_take_drop_id)
  moreover have "key32 e" using a(3,4) by (auto simp: key32_def)
  ultimately show ?thesis using that a by blast
qed


section \<open>The protocol evaluated\<close>

definition key_a :: string where "key_a = replicate 32 (CHR ''a'')"
definition key_b :: string where "key_b = replicate 32 (CHR ''b'')"
definition key_c :: string where "key_c = replicate 32 (CHR ''c'')"
definition nonce_n :: string where "nonce_n = replicate 24 (CHR ''n'')"

lemma example_lengths [simp]: "length key_a = 32" "length key_b = 32" "length key_c = 32" "length nonce_n = 24"
  by (simp_all add: key_a_def key_b_def key_c_def nonce_n_def)

lemma handshake_agrees_witness:
  "\<exists>hello acc.
     client_init clear_nacl (Some (key_b, key_b)) (Some nonce_n) key_a key_a key_c ''attic'' = Inr (hello, key_b, key_b)
     \<and> ServerHandshake clear_nacl (Some (key_c, key_c)) (Some nonce_n) True key_c [key_a \<mapsto> ''attic''] (Some hello) = (Inr acc, None)
     \<and> ClientHandshake clear_nacl (Some (key_b, key_b)) (Some nonce_n) True (Some (sv_answer acc)) key_a key_a key_c ''attic'' = Inr (sv_key acc)"
proof -
  have p: "nc_pub clear_nacl k = k" for k by (simp add: clear_nacl_def)
  show ?thesis
    using handshake_agrees [OF clear_nacl_ok, of key_a key_b key_c nonce_n nonce_n nonce_n "[key_a \<mapsto> ''attic'']" "''attic''" Some "\<lambda>m. m" "''hi''" key_c "''attic''"]
    unfolding p by (simp add: key32_def) blast
qed

text \<open>NaCl that opens exactly the two boxes of one run.\<close>

definition run_nacl :: nacl where
  "run_nacl = clear_nacl\<lparr>nc_open := (\<lambda>c n a b. if c = key_b @ ctxTag \<or> c = key_c @ key_b @ ctxTag then Some c else None)\<rparr>"

lemma run_honest: "honest_boxes run_nacl p k {key_b} {(key_c, key_b)}"
  by (simp add: honest_boxes_def run_nacl_def key32_def)


end
