(* ===== verification/Agents.thy ===== *)
theory Agents
  imports Agentwire Capture "HOL-Library.AList"
begin

text \<open>
  Remote capture agents: the server's side in \<open>cmd/api/agent.go\<close> (pending and authorized keys,
  the server identity, the session that ingests readings and pushes configuration) and the
  agent's side in \<open>cmd/capture/agent.go\<close> (its keys, the sink that sends readings, its
  reconciliation). Hashes, certificates, files and HTTP are arguments. The session messages
  are values: their JSON form is an argument of the session layer.
\<close>

section \<open>Messages\<close>

record DeviceInfo =
  di_Source :: string
  di_Name :: string
  di_Tuner :: string

record HeartbeatMsg =
  hm_Source :: string
  hm_LastTS :: string
  hm_Total :: int

record SourceConfig =
  sc_Source :: string
  sc_Enabled :: bool
  sc_Freq :: string
  sc_Gain :: string
  sc_PPM :: string
  sc_MsgType :: string
  sc_FilterID :: string

record Message =
  ms_Type :: string
  ms_Agent :: string
  ms_Devices :: "DeviceInfo list"
  ms_Reading :: "(reading \<times> string) option"
  ms_Heartbeat :: "HeartbeatMsg option"
  ms_Config :: "SourceConfig list"

definition plain_msg :: "string \<Rightarrow> Message" where
  "plain_msg t = \<lparr>ms_Type = t, ms_Agent = [], ms_Devices = [], ms_Reading = None, ms_Heartbeat = None, ms_Config = []\<rparr>"

section \<open>Pending agents\<close>

record pendingAgent =
  pa_PubKey :: string
  pa_Fingerprint :: string
  pa_Name :: string
  pa_RemoteAddr :: string
  pa_FirstSeen :: instant
  pa_LastSeen :: instant

definition pendingTTL :: duration where "pendingTTL = 10 * minute"
definition pendingMax :: nat where "pendingMax = 32"

text \<open>The map as the list of its entries, in the order its iteration takes.\<close>

type_synonym pending = "(string \<times> pendingAgent) list"

definition gcLocked :: "instant \<Rightarrow> pending \<Rightarrow> pending" where
  "gcLocked now m = filter (\<lambda>(k, e). \<not> time_sub now (pa_LastSeen e) > pendingTTL) m"

definition oldest_step :: "string \<times> pendingAgent \<Rightarrow> string \<times> instant \<Rightarrow> string \<times> instant" where
  "oldest_step ke acc = (if fst acc = [] \<or> pa_LastSeen (snd ke) < snd acc then (fst ke, pa_LastSeen (snd ke)) else acc)"

definition oldest_key :: "instant \<Rightarrow> pending \<Rightarrow> string" where
  "oldest_key now m = fst (fold oldest_step m ([], now))"

text \<open>\<open>fp\<close> is the fingerprint function (SHA-256).\<close>

definition pending_add :: "(string \<Rightarrow> string) \<Rightarrow> string \<Rightarrow> string \<Rightarrow> string \<Rightarrow> instant \<Rightarrow> pending \<Rightarrow> bool \<times> pending" where
  "pending_add fp pub name addr now m =
     (let key = EncodeKey pub in
      case map_of m key of
        Some e \<Rightarrow> (False, AList.update key (e\<lparr>pa_LastSeen := now, pa_RemoteAddr := addr, pa_Name := (if name \<noteq> [] then name else pa_Name e)\<rparr>) m)
      | None \<Rightarrow>
          (let m1 = gcLocked now m;
               m2 = (if length m1 \<ge> pendingMax then AList.delete (oldest_key now m1) m1 else m1)
           in (True, AList.update key \<lparr>pa_PubKey = key, pa_Fingerprint = fp pub, pa_Name = name, pa_RemoteAddr = addr,
                       pa_FirstSeen = now, pa_LastSeen = now\<rparr> m2)))"

definition pending_remove :: "string \<Rightarrow> pending \<Rightarrow> pending" where
  "pending_remove pubkey m = AList.delete pubkey m"

definition pending_list :: "instant \<Rightarrow> pending \<Rightarrow> pendingAgent list \<times> pending" where
  "pending_list now m = (let m1 = gcLocked now m in (map snd m1, m1))"

section \<open>The allow-list\<close>

definition agent_json :: "AuthorizedAgent \<Rightarrow> json" where
  "agent_json a = JObj [(''label'', JStr (aa_Label a)), (''pubkey'', JStr (aa_PubKey a))]"

definition marshal_agents :: "AuthorizedAgent list \<Rightarrow> string" where
  "marshal_agents l = enc (JArr (map agent_json l))"

text \<open>The list of a store; \<open>ok\<close> is False when the settings cannot be read, and then it is empty.\<close>

definition stored_agents :: "bool \<Rightarrow> store \<Rightarrow> AuthorizedAgent list" where
  "stored_agents ok st =
     (case GetSettings ok st of None \<Rightarrow> ParseAuthorizedAgents []
      | Some m \<Rightarrow> ParseAuthorizedAgents (case m ''agent_authorized'' of None \<Rightarrow> [] | Some v \<Rightarrow> v))"

text \<open>The \<open>authorized\<close> callback: the label, and the pending list without the accepted key.\<close>

definition authorized :: "bool \<Rightarrow> store \<Rightarrow> string \<Rightarrow> pending \<Rightarrow> string option \<times> pending" where
  "authorized ok st pub m =
     (case List.find (\<lambda>a. DecodeKey (aa_PubKey a) = Some pub) (stored_agents ok st) of
        None \<Rightarrow> (None, m)
      | Some a \<Rightarrow> (Some (aa_Label a), pending_remove (EncodeKey pub) m))"

datatype http = BadRequest string | ServerError | Done

definition handleAuthorizeAgent :: "bool \<Rightarrow> bool \<Rightarrow> (string \<times> string) option \<Rightarrow> store \<times> pending \<Rightarrow> http \<times> store \<times> pending" where
  "handleAuthorizeAgent okGet okSet body sp =
     (let (st, m) = sp in
      case body of None \<Rightarrow> (BadRequest ''bad json'', st, m)
      | Some (label, pubkey) \<Rightarrow>
          if DecodeKey pubkey = None then (BadRequest ''invalid public key'', st, m)
          else
            (let old = stored_agents okGet st;
                 list = map (\<lambda>a. if aa_PubKey a = pubkey then a\<lparr>aa_Label := label\<rparr> else a) old;
                 list' = (if list_ex (\<lambda>a. aa_PubKey a = pubkey) old then list else list @ [\<lparr>aa_Label = label, aa_PubKey = pubkey\<rparr>])
             in if \<not> okSet then (ServerError, st, m)
                else (Done, SetSetting ''agent_authorized'' (marshal_agents list') st, pending_remove pubkey m)))"

definition handleRevokeAgent :: "bool \<Rightarrow> bool \<Rightarrow> string option \<Rightarrow> store \<Rightarrow> http \<times> store" where
  "handleRevokeAgent okGet okSet body st =
     (case body of None \<Rightarrow> (BadRequest ''bad json'', st)
      | Some pubkey \<Rightarrow>
          (let out = filter (\<lambda>a. aa_PubKey a \<noteq> pubkey) (stored_agents okGet st) in
           if \<not> okSet then (ServerError, st) else (Done, SetSetting ''agent_authorized'' (marshal_agents out) st)))"

section \<open>The server's identity\<close>

text \<open>
  The key pair of \<open>ensureAgentCrypto\<close>: stored, or generated (\<open>gen\<close>, None when that fails) and
  then stored as far as the two writes succeed.
\<close>

definition setting_of :: "store \<Rightarrow> string \<Rightarrow> string" where
  "setting_of st k = (case st_settings st k of None \<Rightarrow> [] | Some v \<Rightarrow> v)"

definition server_keys :: "(string \<times> string) option \<Rightarrow> bool \<Rightarrow> bool \<Rightarrow> store \<Rightarrow> (string \<times> string) option \<times> store" where
  "server_keys gen ok1 ok2 st =
     (if setting_of st ''agent_server_pub'' = [] \<or> setting_of st ''agent_server_priv'' = [] then
        (case gen of None \<Rightarrow> (None, st)
         | Some (pub, priv) \<Rightarrow>
             (let s1 = (if ok1 then SetSetting ''agent_server_pub'' (EncodeKey pub) st else st);
                  s2 = (if ok2 then SetSetting ''agent_server_priv'' (EncodeKey priv) s1 else s1)
              in (Some (pub, priv), s2)))
      else
        (case (DecodeKey (setting_of st ''agent_server_pub''), DecodeKey (setting_of st ''agent_server_priv'')) of
           (Some pub, Some priv) \<Rightarrow> (Some (pub, priv), st)
         | _ \<Rightarrow> (None, st)))"

text \<open>The certificate and its key, PEM text; \<open>parse\<close> is \<open>tls.X509KeyPair\<close>.\<close>

definition server_cert ::
    "(string \<times> string) option \<Rightarrow> (string \<Rightarrow> string \<Rightarrow> 'c option) \<Rightarrow> bool \<Rightarrow> bool \<Rightarrow> store \<Rightarrow> 'c option \<times> store" where
  "server_cert gen parse ok1 ok2 st =
     (if setting_of st ''agent_tls_cert'' = [] \<or> setting_of st ''agent_tls_key'' = [] then
        (case gen of None \<Rightarrow> (None, st)
         | Some (cert, key) \<Rightarrow>
             (let s1 = (if ok1 then SetSetting ''agent_tls_cert'' cert st else st);
                  s2 = (if ok2 then SetSetting ''agent_tls_key'' key s1 else s1)
              in (parse cert key, s2)))
      else (parse (setting_of st ''agent_tls_cert'') (setting_of st ''agent_tls_key''), st))"

definition ensureAgentCrypto ::
    "bool \<Rightarrow> (string \<times> string) option \<Rightarrow> (string \<times> string) option \<Rightarrow> (string \<Rightarrow> string \<Rightarrow> 'c option) \<Rightarrow> (nat \<Rightarrow> bool) \<Rightarrow> store
     \<Rightarrow> (string \<times> string \<times> 'c) option \<times> store" where
  "ensureAgentCrypto okGet genKey genCert parse oks st =
     (if \<not> okGet then (None, st)
      else
        (case server_keys genKey (oks 0) (oks 1) st of
           (None, s1) \<Rightarrow> (None, s1)
         | (Some (pub, priv), s1) \<Rightarrow>
             (case server_cert genCert parse (oks 2) (oks 3) s1 of
                (None, s2) \<Rightarrow> (None, s2)
              | (Some c, s2) \<Rightarrow> (Some (pub, priv, c), s2))))"

definition hexFP :: "string \<Rightarrow> string" where
  "hexFP b = concat (map (\<lambda>x. [hex_digit (code_of x div 16), hex_digit (code_of x mod 16)]) b)"

section \<open>The server's session\<close>

definition agentConfig :: "CaptureConfig \<Rightarrow> string list \<Rightarrow> SourceConfig list" where
  "agentConfig c sources =
     map (\<lambda>src. \<lparr>sc_Source = src, sc_Enabled = DeviceEnabled c src, sc_Freq = DeviceFreq c src, sc_Gain = DeviceGain c src,
            sc_PPM = DevicePPM c src, sc_MsgType = DeviceMsgType c src, sc_FilterID = DeviceFilterID c src\<rparr>) sources"

definition hello_device :: "instant \<Rightarrow> string \<Rightarrow> DeviceInfo \<Rightarrow> store \<Rightarrow> store" where
  "hello_device now label dev st =
     (let name = (if di_Name dev = [] then ''remote dongle'' else di_Name dev) in
      UpsertDevice now (di_Source dev) 0 (label @ [char_of (32 :: nat), char_of (194 :: nat), char_of (183 :: nat), char_of (32 :: nat)] @ name) ''remote'' st)"

text \<open>One message of the read loop; \<open>ok\<close> says how its database statements go.\<close>

definition session_msg :: "insert_ok \<Rightarrow> bool \<Rightarrow> instant \<Rightarrow> Message \<Rightarrow> store \<Rightarrow> store" where
  "session_msg ok hbok now m st =
     (if ms_Type m = ''reading'' then
        (case ms_Reading m of None \<Rightarrow> st | Some (r, raw) \<Rightarrow> snd (InsertReading ok r raw st))
      else if ms_Type m = ''ping'' then st
      else if ms_Type m = ''heartbeat'' then
        (case ms_Heartbeat m of None \<Rightarrow> st
         | Some hb \<Rightarrow>
             (let ts0 = (case parse_rfc3339 (hm_LastTS hb) of None \<Rightarrow> zero_time | Some t \<Rightarrow> t);
                  ts = (if ts0 = zero_time then now else ts0)
              in if hbok then UpdateHeartbeat now (hm_Source hb) ts (hm_Total hb) st else st))
      else st)"

text \<open>
  The session after the handshake over the messages received until the connection ends; a
  first message that is not a hello ends it at once. Each message comes with its outcomes.
\<close>

definition agent_session :: "string \<Rightarrow> instant \<Rightarrow> Message option \<Rightarrow> (insert_ok \<times> bool \<times> instant \<times> Message) list \<Rightarrow> store \<Rightarrow> store" where
  "agent_session label now first msgs st =
     (case first of None \<Rightarrow> st
      | Some hello \<Rightarrow>
          if ms_Type hello \<noteq> ''hello'' then st
          else fold (\<lambda>(ok, hbok, t, m). session_msg ok hbok t m) msgs (fold (hello_device now label) (ms_Devices hello) st))"

section \<open>The agent\<close>

text \<open>The server key: the environment, the pinned file, or fetched and then pinned.\<close>

definition resolveServerKey :: "string \<Rightarrow> string option \<Rightarrow> string option \<Rightarrow> bool \<Rightarrow> string option \<times> string option" where
  "resolveServerKey env_key pinned fetched wrote =
     (if env_key \<noteq> [] then (DecodeKey env_key, pinned)
      else
        (case (case pinned of None \<Rightarrow> None | Some b \<Rightarrow> DecodeKey (trim_space b)) of
           Some k \<Rightarrow> (Some k, pinned)
         | None \<Rightarrow>
             (case fetched of None \<Rightarrow> (None, pinned)
              | Some k \<Rightarrow> (Some k, if wrote then Some (EncodeKey k @ [CHR 0x0A]) else pinned))))"

text \<open>The key pair (None: the process ends); \<open>derive\<close> is \<open>PublicFromPrivate\<close>.\<close>

definition loadAgentKey ::
    "(string \<Rightarrow> string option) \<Rightarrow> string \<Rightarrow> string option \<Rightarrow> (string \<times> string) option \<Rightarrow> bool \<Rightarrow> (string \<times> string) option \<times> string option" where
  "loadAgentKey derive env_key key_file gen wrote =
     (if env_key \<noteq> [] then
        (case DecodeKey env_key of None \<Rightarrow> (None, key_file) | Some p \<Rightarrow> (map_option (\<lambda>pk. (pk, p)) (derive p), key_file))
      else
        (case (case key_file of None \<Rightarrow> None
               | Some b \<Rightarrow> (case DecodeKey (trim_space b) of None \<Rightarrow> None | Some p \<Rightarrow> map_option (\<lambda>pk. (pk, p)) (derive p))) of
           Some kp \<Rightarrow> (Some kp, key_file)
         | None \<Rightarrow>
             (case gen of None \<Rightarrow> (None, key_file)
              | Some (pk, p) \<Rightarrow> (Some (pk, p), if wrote then Some (EncodeKey p @ [CHR 0x0A]) else key_file))))"

text \<open>\<open>wsSink\<close>: every call sends one message; a failed write sends nothing.\<close>

definition ws_send :: "bool \<Rightarrow> Message \<Rightarrow> Message list \<Rightarrow> bool \<times> Message list" where
  "ws_send ok m sent = (ok, if ok then sent @ [m] else sent)"

definition reading_msg :: "reading \<Rightarrow> string \<Rightarrow> Message" where
  "reading_msg r raw = (plain_msg ''reading'')\<lparr>ms_Reading := Some (r, raw)\<rparr>"

definition heartbeat_msg :: "(instant \<Rightarrow> string) \<Rightarrow> string \<Rightarrow> instant \<Rightarrow> int \<Rightarrow> Message" where
  "heartbeat_msg nano source lastTS n =
     (plain_msg ''heartbeat'')\<lparr>ms_Heartbeat := Some \<lparr>hm_Source = source, hm_LastTS = nano lastTS, hm_Total = n\<rparr>\<rparr>"

text \<open>\<open>nano\<close> is the text form \<open>RFC3339Nano\<close>.\<close>

definition ws_sink :: "(instant \<Rightarrow> string) \<Rightarrow> (Message list, bool) sink" where
  "ws_sink nano = \<lparr>sk_insert = (\<lambda>ok r raw sent. ws_send ok (reading_msg r raw) sent),
     sk_heartbeat = (\<lambda>ok now src ts n sent. snd (ws_send ok (heartbeat_msg nano src ts n) sent))\<rparr>"

text \<open>\<open>agentInventory\<close>: the dongles under the agent's name, as a map and as announced.\<close>

definition agent_source :: "string \<Rightarrow> sdrDevice \<Rightarrow> string" where
  "agent_source name d = name @ CHR ''/'' # sd_source d"

definition agentInventory :: "string \<Rightarrow> sdrDevice list \<Rightarrow> (string \<rightharpoonup> sdrDevice) \<times> DeviceInfo list" where
  "agentInventory name devs =
     (map_of (rev (map (\<lambda>d. (agent_source name d, d)) devs)),
      map (\<lambda>d. \<lparr>di_Source = agent_source name d, di_Name = sd_name d, di_Tuner = sd_tuner d\<rparr>) devs)"

text \<open>\<open>ka\<close> and \<open>kb\<close> list the keys of the two maps.\<close>

definition sameSources :: "string list \<Rightarrow> string list \<Rightarrow> bool" where
  "sameSources ka kb \<longleftrightarrow> length ka = length kb \<and> list_all (\<lambda>src. src \<in> set kb) ka"

definition desired_agent :: "(string \<rightharpoonup> sdrDevice) \<Rightarrow> SourceConfig list \<Rightarrow> (string \<rightharpoonup> scanParams)" where
  "desired_agent byIndex cfg =
     foldl (\<lambda>m sc. case byIndex (sc_Source sc) of None \<Rightarrow> m
        | Some dev \<Rightarrow> if \<not> sc_Enabled sc then m
            else m(sc_Source sc \<mapsto> \<lparr>sp_devIndex = sd_index dev, sp_freq = sc_Freq sc, sp_gain = sc_Gain sc, sp_ppm = sc_PPM sc,
                     sp_msgtype = sc_MsgType sc, sp_filt = sc_FilterID sc\<rparr>)) Map.empty cfg"

definition reconcileAgent :: "(string \<rightharpoonup> sdrDevice) \<Rightarrow> SourceConfig list \<Rightarrow> (string \<rightharpoonup> runningDev) \<Rightarrow> (string \<rightharpoonup> runningDev)" where
  "reconcileAgent byIndex cfg running = sync_running (desired_agent byIndex cfg) running"

text \<open>
  The session loop of the agent. What it selects: the end of the context, a receive error, a
  message, the ping timer (with the outcome of the write), the health tick (with the time,
  the running sources in map order, and the dongles a new enumeration would find).
\<close>

datatype agent_event = SessionOver | RecvError | Received Message | PingTimer bool | HealthTick instant "string list" "sdrDevice list"

record agent_state =
  as_running :: "string \<rightharpoonup> runningDev"
  as_devices :: "sdrDevice list"
  as_lastCfg :: "SourceConfig list"
  as_lastRescan :: instant
  as_sent :: "Message list"

definition agent_loop_step :: "string \<Rightarrow> agent_event \<Rightarrow> agent_state \<Rightarrow> bool \<times> agent_state" where
  "agent_loop_step name ev s =
     (case ev of
        SessionOver \<Rightarrow> (False, s)
      | RecvError \<Rightarrow> (False, s)
      | Received m \<Rightarrow>
          if ms_Type m = ''config''
          then (True, s\<lparr>as_lastCfg := ms_Config m,
                        as_running := reconcileAgent (fst (agentInventory name (as_devices s))) (ms_Config m) (as_running s)\<rparr>)
          else (True, s)
      | PingTimer ok \<Rightarrow> (let (sent, msgs) = ws_send ok (plain_msg ''ping'') (as_sent s) in (sent, s\<lparr>as_sent := msgs\<rparr>))
      | HealthTick now keys found \<Rightarrow>
          (let (needed, running) = dongleRescanNeeded keys (as_running s); s1 = s\<lparr>as_running := running\<rparr> in
           if \<not> needed \<or> time_sub now (as_lastRescan s) \<le> 5 * minute then (True, s1)
           else
             (let s2 = s1\<lparr>as_lastRescan := now, as_running := Map.empty\<rparr> in
              if \<not> sameSources (remdups (map (agent_source name) found)) (remdups (map (agent_source name) (as_devices s))) then (False, s2)
              else (True, s2\<lparr>as_devices := found,
                             as_running := reconcileAgent (fst (agentInventory name found)) (as_lastCfg s) (as_running s2)\<rparr>))))"

section \<open>The allow-list reads back\<close>

lemma agent_names:
  "equal_fold ''label'' ''label'' \<and> \<not> equal_fold ''pubkey'' ''label'' \<and> equal_fold ''pubkey'' ''pubkey''"
  by code_simp

lemma dec_agent_json: "dec_agent (agent_json a) = a"
  by (simp add: dec_agent_def agent_json_def agent_names dec_string_lax_def)

lemma enc_elems_last: "enc_elems vs \<noteq> [] \<and> last (enc_elems vs) = CHR '']''"
  by (induction vs) auto

lemma Parse_marshal_agents [simp]: "ParseAuthorizedAgents (marshal_agents l) = l"
proof -
  let ?j = "JArr (map agent_json l)"
  have p: "parse_json (enc ?j) = Some ?j" by (rule parse_enc) (auto simp: agent_json_def)
  have s: "\<not> is_space (CHR ''['')" "\<not> is_space (CHR '']'')" by (simp_all add: is_space_def code_of_def)
  have "enc ?j \<noteq> [] \<and> hd (enc ?j) = CHR ''['' \<and> last (enc ?j) = CHR '']''"
    using enc_elems_last by (cases l) auto
  then have "trim_space (enc ?j) = enc ?j \<and> enc ?j \<noteq> []"
    using s by (auto intro: trim_space_idem_aux)
  then show ?thesis
    unfolding ParseAuthorizedAgents_def marshal_agents_def Let_def
    using p by (simp del: enc.simps add: dec_agent_json map_idI o_def)
qed

lemma stored_agents_set [simp]: "stored_agents True (SetSetting ''agent_authorized'' (marshal_agents l) st) = l"
  by (simp add: stored_agents_def GetSettings_def SetSetting_def)

text \<open>Every stored key is the canonical text of some key.\<close>

definition canonical_agents :: "AuthorizedAgent list \<Rightarrow> bool" where
  "canonical_agents l \<longleftrightarrow> list_all (\<lambda>a. \<exists>k. key32 k \<and> aa_PubKey a = EncodeKey k) l"

definition label_of :: "AuthorizedAgent list \<Rightarrow> string \<Rightarrow> string option" where
  "label_of l pub = map_option aa_Label (List.find (\<lambda>a. DecodeKey (aa_PubKey a) = Some pub) l)"

lemma authorized_label: "fst (authorized True st pub m) = label_of (stored_agents True st) pub"
  by (simp add: authorized_def label_of_def split: option.splits)

lemma decode_canonical:
  "key32 k \<Longrightarrow> key32 j \<Longrightarrow> DecodeKey (EncodeKey k) = Some j \<longleftrightarrow> k = j"
  by (auto simp: key32_def)

lemma EncodeKey_inj: "EncodeKey k = EncodeKey j \<longleftrightarrow> k = j"
  unfolding EncodeKey_def by (metis b64_roundtrip option.inject)

lemma label_of_relabel:
  assumes "canonical_agents l" "key32 k" "key32 j"
  shows "label_of (map (\<lambda>a. if aa_PubKey a = EncodeKey k then a\<lparr>aa_Label := x\<rparr> else a) l) j
     = (if j = k then (if list_ex (\<lambda>a. aa_PubKey a = EncodeKey k) l then Some x else None) else label_of l j)"
  using assms(1)
proof (induction l)
  case (Cons a l)
  then obtain i where "key32 i" "aa_PubKey a = EncodeKey i" by (auto simp: canonical_agents_def)
  with Cons assms(2,3) show ?case
    by (auto simp: canonical_agents_def label_of_def EncodeKey_inj decode_canonical)
qed (simp add: label_of_def)

lemma label_of_none:
  assumes "canonical_agents l" "key32 k" "\<not> list_ex (\<lambda>a. aa_PubKey a = EncodeKey k) l"
  shows "label_of l k = None"
  using assms(1,3)
proof (induction l)
  case (Cons a l)
  then obtain i where "key32 i" "aa_PubKey a = EncodeKey i" by (auto simp: canonical_agents_def)
  with Cons assms(2) show ?case by (auto simp: canonical_agents_def label_of_def EncodeKey_inj decode_canonical)
qed (simp add: label_of_def)

lemma label_of_append: "label_of (l @ r) k = (case label_of l k of None \<Rightarrow> label_of r k | Some x \<Rightarrow> Some x)"
  by (induction l) (auto simp: label_of_def)

lemma label_of_filter:
  assumes "canonical_agents l" "key32 k" "key32 j"
  shows "label_of (filter (\<lambda>a. aa_PubKey a \<noteq> EncodeKey k) l) j = (if j = k then None else label_of l j)"
  using assms(1)
proof (induction l)
  case (Cons a l)
  then obtain i where "key32 i" "aa_PubKey a = EncodeKey i" by (auto simp: canonical_agents_def)
  with Cons assms(2,3) show ?case by (auto simp: canonical_agents_def label_of_def EncodeKey_inj decode_canonical)
qed (simp add: label_of_def)

lemma canonical_authorize:
  "canonical_agents l \<Longrightarrow> key32 k
   \<Longrightarrow> canonical_agents (map (\<lambda>a. if aa_PubKey a = EncodeKey k then a\<lparr>aa_Label := x\<rparr> else a) l
         @ (if list_ex (\<lambda>a. aa_PubKey a = EncodeKey k) l then [] else [\<lparr>aa_Label = x, aa_PubKey = EncodeKey k\<rparr>]))"
  by (auto simp: canonical_agents_def list_all_iff)

text \<open>
  With canonical keys stored, approving a key makes the server accept exactly that key
  under the given label, and revoking it refuses it again; every other key is treated all
  along as before.
\<close>

theorem authorize_then_revoke:
  assumes "canonical_agents (stored_agents True st)" "key32 k" "key32 j"
    "handleAuthorizeAgent True True (Some (label, EncodeKey k)) (st, m) = (r1, st1, m1)"
    "handleRevokeAgent True True (Some (EncodeKey k)) st1 = (r2, st2)"
  shows "r1 = Done \<and> r2 = Done \<and> canonical_agents (stored_agents True st2)
    \<and> fst (authorized True st1 j m') = (if j = k then Some label else fst (authorized True st j m'))
    \<and> fst (authorized True st2 j m') = (if j = k then None else fst (authorized True st j m'))"
proof -
  let ?l = "stored_agents True st"
  let ?l1 = "map (\<lambda>a. if aa_PubKey a = EncodeKey k then a\<lparr>aa_Label := label\<rparr> else a) ?l
         @ (if list_ex (\<lambda>a. aa_PubKey a = EncodeKey k) ?l then [] else [\<lparr>aa_Label = label, aa_PubKey = EncodeKey k\<rparr>])"
  have d: "DecodeKey (EncodeKey k) = Some k" using assms(2) by (simp add: key32_def)
  have s1: "r1 = Done" "stored_agents True st1 = ?l1"
    using assms(4) d by (auto simp: handleAuthorizeAgent_def Let_def)
  have s2: "r2 = Done" "stored_agents True st2 = filter (\<lambda>a. aa_PubKey a \<noteq> EncodeKey k) ?l1"
    using assms(5) s1(2) by (auto simp: handleRevokeAgent_def Let_def)
  have c1: "canonical_agents ?l1" by (rule canonical_authorize [OF assms(1,2)])
  have "label_of ?l1 j = (if j = k then Some label else label_of ?l j)"
    unfolding label_of_append label_of_relabel [OF assms(1-3)]
    using assms(2,3) d by (auto simp: label_of_def decode_canonical EncodeKey_inj split: option.splits)
  moreover have "canonical_agents (filter (\<lambda>a. aa_PubKey a \<noteq> EncodeKey k) ?l1)"
    using c1 by (auto simp: canonical_agents_def list_all_iff)
  ultimately show ?thesis
    using s1 s2 label_of_filter [OF c1 assms(2,3)] by (simp add: authorized_label)
qed

lemma authorize_then_revoke_witness:
  "fst (authorized True (fst (snd (handleAuthorizeAgent True True (Some (''attic'', EncodeKey key_a)) (empty_store, [])))) key_a []) = Some ''attic''"
proof -
  obtain r1 st1 m1 where a: "handleAuthorizeAgent True True (Some (''attic'', EncodeKey key_a)) (empty_store, []) = (r1, st1, m1)"
    by (metis prod_cases3)
  obtain r2 st2 where r: "handleRevokeAgent True True (Some (EncodeKey key_a)) st1 = (r2, st2)" by (metis surj_pair)
  have "canonical_agents (stored_agents True empty_store)"
    by (simp add: canonical_agents_def stored_agents_def GetSettings_def empty_store_def ParseAuthorizedAgents_def trim_space_def)
  from authorize_then_revoke [OF this _ _ a r, of key_a "[]"] show ?thesis by (simp add: key32_def a)
qed

text \<open>
  Without canonical keys a revocation by text misses: a stored key with a line end in its
  text still decodes to the revoked key. And when the settings cannot be read, approving one
  agent drops all the others.
\<close>

lemma revoke_misses_other_text:
  assumes "stored_agents True st = [\<lparr>aa_Label = x, aa_PubKey = CHR 0x0A # EncodeKey k\<rparr>]" "key32 k"
    "handleRevokeAgent True True (Some (EncodeKey k)) st = (r, st')" "EncodeKey k \<noteq> CHR 0x0A # EncodeKey k"
  shows "fst (authorized True st' k m) = Some x"
proof -
  have d: "DecodeKey (CHR 0x0A # EncodeKey k) = Some k"
    using assms(2) DecodeKey_EncodeKey [of k] by (simp add: DecodeKey_def key32_def b64_decode_def)
  have "stored_agents True st' = [\<lparr>aa_Label = x, aa_PubKey = CHR 0x0A # EncodeKey k\<rparr>]"
    using assms(1,3,4) by (auto simp: handleRevokeAgent_def Let_def)
  then show ?thesis using d by (simp add: authorized_label label_of_def)
qed

lemma authorize_after_failed_read:
  "DecodeKey key \<noteq> None
   \<Longrightarrow> stored_agents True (fst (snd (handleAuthorizeAgent False True (Some (label, key)) (st, m)))) = [\<lparr>aa_Label = label, aa_PubKey = key\<rparr>]"
  by (auto simp: handleAuthorizeAgent_def Let_def stored_agents_def [of False] GetSettings_def ParseAuthorizedAgents_def trim_space_def)

section \<open>The pending list stays small\<close>

datatype pending_op = AddPending string string string instant | RemovePending string | ListPending instant

definition pending_step :: "(string \<Rightarrow> string) \<Rightarrow> pending_op \<Rightarrow> pending \<Rightarrow> pending" where
  "pending_step fp op m =
     (case op of AddPending pub name addr now \<Rightarrow> snd (pending_add fp pub name addr now m)
      | RemovePending key \<Rightarrow> pending_remove key m
      | ListPending now \<Rightarrow> snd (pending_list now m))"

definition pending_inv :: "pending \<Rightarrow> bool" where
  "pending_inv m \<longleftrightarrow> distinct (map fst m) \<and> length m \<le> pendingMax"

lemma oldest_key_mem:
  "m \<noteq> [] \<Longrightarrow> fst (fold oldest_step m ([], now)) \<in> fst ` set m"
proof -
  have gen: "fst (fold oldest_step m acc) \<in> insert (fst acc) (fst ` set m)" for acc :: "string \<times> instant" and m
    by (induction m arbitrary: acc) (fastforce simp: oldest_step_def)+
  assume "m \<noteq> []"
  then obtain ke r where m: "m = ke # r" by (cases m) auto
  have "oldest_step ke ([], now) = (fst ke, pa_LastSeen (snd ke))" by (simp add: oldest_step_def)
  then show ?thesis using gen [of r "(fst ke, pa_LastSeen (snd ke))"] by (auto simp: m)
qed

lemma delete_shorter: "distinct (map fst m) \<Longrightarrow> k \<in> fst ` set m \<Longrightarrow> length (AList.delete k m) < length m"
proof -
  assume "distinct (map fst m)" "k \<in> fst ` set m"
  then have "length (filter (\<lambda>x. k \<noteq> fst x) m) < length m" by (auto intro: length_filter_less)
  then show ?thesis by (simp add: AList.delete_eq case_prod_beta')
qed

lemma update_length: "length (AList.update k v m) = (if k \<in> fst ` set m then length m else Suc (length m))"
  by (induction m) auto

lemma filter_keys: "distinct (map fst m) \<Longrightarrow> distinct (map fst (filter P m))"
  by (rule distinct_map_filter)

lemma gc_inv: "pending_inv m \<Longrightarrow> pending_inv (gcLocked now m)"
  unfolding pending_inv_def gcLocked_def
  using length_filter_le [of _ m] filter_keys by (meson order_trans)

lemma delete_inv: "pending_inv m \<Longrightarrow> pending_inv (AList.delete k m)"
  using order_trans [OF length_filter_le [of "\<lambda>x. k \<noteq> fst x" m]]
  by (auto simp: pending_inv_def AList.delete_eq case_prod_beta' intro: filter_keys)

lemma add_inv:
  assumes "pending_inv m"
  shows "pending_inv (snd (pending_add fp pub name addr now m))"
proof (cases "map_of m (EncodeKey pub)")
  case (Some e)
  then have "(EncodeKey pub, e) \<in> set m" by (rule map_of_SomeD)
  then have "EncodeKey pub \<in> fst ` set m" by force
  then show ?thesis
    using Some assms by (simp add: pending_add_def Let_def pending_inv_def distinct_update update_length)
next
  case None
  define m1 where "m1 = gcLocked now m"
  define m2 where "m2 = (if length m1 \<ge> pendingMax then AList.delete (oldest_key now m1) m1 else m1)"
  have i1: "pending_inv m1" using gc_inv [OF assms] by (simp add: m1_def)
  have "pending_inv m2 \<and> length m2 < pendingMax"
  proof (cases "length m1 \<ge> pendingMax")
    case True
    then have "m1 \<noteq> []" by (auto simp: pendingMax_def)
    then have "length (AList.delete (oldest_key now m1) m1) < length m1"
      using i1 oldest_key_mem [of m1 now] by (intro delete_shorter) (simp_all add: pending_inv_def oldest_key_def)
    then show ?thesis using True i1 delete_inv by (simp add: m2_def pending_inv_def)
  next
    case False
    then show ?thesis using i1 by (simp add: m2_def)
  qed
  then have "pending_inv (AList.update key v m2)" for key v
    by (auto simp: pending_inv_def update_length intro: distinct_update)
  moreover have "\<exists>key v. snd (pending_add fp pub name addr now m) = AList.update key v m2"
    using None by (auto simp: pending_add_def Let_def m1_def m2_def)
  ultimately show ?thesis by auto
qed

lemma pending_step_inv: "pending_inv m \<Longrightarrow> pending_inv (pending_step fp op m)"
  by (cases op) (simp_all add: pending_step_def add_inv delete_inv pending_remove_def pending_list_def gc_inv Let_def)

text \<open>
  Whatever unauthenticated agents send and whoever approves or lists them, the pending
  list never holds more than 32 keys nor a key twice, and a key just added is on it.
\<close>

theorem pending_bounded:
  "length (fold (pending_step fp) ops []) \<le> 32 \<and> distinct (map fst (fold (pending_step fp) ops []))
   \<and> map_of (pending_step fp (AddPending pub name addr now) (fold (pending_step fp) ops [])) (EncodeKey pub) \<noteq> None"
proof -
  have "pending_inv (fold (pending_step fp) ops m)" if "pending_inv m" for m
    using that by (induction ops arbitrary: m) (simp_all add: pending_step_inv)
  then have "pending_inv (fold (pending_step fp) ops [])" by (simp add: pending_inv_def)
  moreover have "map_of (snd (pending_add fp pub name addr now m)) (EncodeKey pub) \<noteq> None" for m
    by (auto simp: pending_add_def Let_def update_Some_unfold split: option.splits)
  ultimately show ?thesis by (simp add: pending_inv_def pendingMax_def pending_step_def)
qed

section \<open>Trust on first use\<close>

lemma nows_b64: "c \<in> set (b64_encode s) \<Longrightarrow> \<not> is_space c"
proof -
  have "\<not> is_space (b64_char n)" if "n < 64" for n
    using that by (simp add: is_space_def code_b64_char) arith
  moreover have "\<not> is_space (CHR ''='')" by (simp add: is_space_def code_of_def)
  ultimately show "c \<in> set (b64_encode s) \<Longrightarrow> \<not> is_space c"
    by (induction s rule: b64_encode.induct) (auto simp: code_of_bounds)
qed

lemma trim_key_line: "trim_space (b64_encode s @ [CHR 0x0A]) = b64_encode s"
proof -
  have nl: "is_space (CHR 0x0A)" by (simp add: is_space_def code_of_def)
  have d: "dropWhile is_space (b64_encode s @ [CHR 0x0A]) = (if b64_encode s = [] then [] else b64_encode s @ [CHR 0x0A])"
    using nows_b64 [of _ s] nl by (cases "b64_encode s") auto
  have e: "dropWhile is_space (rev (b64_encode s)) = rev (b64_encode s)"
    using nows_b64 [of _ s] by (cases "b64_encode s" rule: rev_cases) auto
  show ?thesis by (simp add: trim_space_def d e nl)
qed

text \<open>
  Once the agent has trusted a server key on first use and pinned it, it uses that key at
  every later start, whatever key it would be handed then; and its own key pair, once
  written, is the one it keeps.
\<close>

theorem keys_are_kept:
  assumes "key32 k" "key32 p" "derive p = Some pk"
    "resolveServerKey [] None (Some k) True = (r, pinned)" "loadAgentKey derive [] None (Some (pk, p)) True = (kp, key_file)"
  shows "r = Some k \<and> resolveServerKey [] pinned fetched w = (Some k, pinned)
    \<and> kp = Some (pk, p) \<and> loadAgentKey derive [] key_file gen w = (Some (pk, p), key_file)"
proof -
  have "DecodeKey (trim_space (EncodeKey x @ [CHR 0x0A])) = Some x" if "key32 x" for x
    using that DecodeKey_EncodeKey [of x] by (simp add: EncodeKey_def trim_key_line key32_def)
  then show ?thesis using assms by (auto simp: resolveServerKey_def loadAgentKey_def)
qed

lemma keys_are_kept_witness:
  "fst (resolveServerKey [] (snd (resolveServerKey [] None (Some key_a) True)) (Some key_b) True) = Some key_a"
proof -
  obtain r pinned where r: "resolveServerKey [] None (Some key_a) True = (r, pinned)" by (metis surj_pair)
  obtain kp kf where k: "loadAgentKey Some [] None (Some (key_b, key_b)) True = (kp, kf)" by (metis surj_pair)
  from keys_are_kept [OF _ _ _ r k, of "Some key_b" True None] show ?thesis by (simp add: key32_def r)
qed

section \<open>A remote dongle is stored like a local one\<close>

definition sent_readings :: "Message list \<Rightarrow> (reading \<times> string) list" where
  "sent_readings ms = List.map_filter (\<lambda>m. if ms_Type m = ''reading'' then ms_Reading m else None) ms"

interpretation ws: reading_sink "ws_sink nano" sent_readings "\<lambda>ok. ok"
  by unfold_locales
    (simp_all add: ws_sink_def ws_send_def sent_readings_def reading_msg_def heartbeat_msg_def plain_msg_def List.map_filter_def)

text \<open>The part of the store that readings determine: all but the heartbeats.\<close>

definition same_readings :: "store \<Rightarrow> store \<Rightarrow> bool" where
  "same_readings s t \<longleftrightarrow> s\<lparr>st_heartbeat := Map.empty\<rparr> = t\<lparr>st_heartbeat := Map.empty\<rparr>"

lemma same_readings_refl [simp]: "same_readings s s" by (simp add: same_readings_def)

lemma same_readings_trans: "same_readings s t \<Longrightarrow> same_readings t u \<Longrightarrow> same_readings s u" by (simp add: same_readings_def)

lemma same_readings_heartbeat: "same_readings (UpdateHeartbeat now src ts n st) st"
  by (simp add: same_readings_def UpdateHeartbeat_def)

lemma same_readings_insert:
  assumes "same_readings s t"
  shows "same_readings (snd (InsertReading ok r raw s)) (snd (InsertReading ok r raw t))"
proof -
  have c: "snd (InsertReading ok r raw (u\<lparr>st_heartbeat := h\<rparr>)) = (snd (InsertReading ok r raw u))\<lparr>st_heartbeat := h\<rparr>" for u h
    by (simp add: InsertReading_def Let_def notify_def)
  show ?thesis using assms unfolding same_readings_def by (metis c)
qed

definition store_all :: "(reading \<times> string) list \<Rightarrow> store \<Rightarrow> store" where
  "store_all rs st = fold (\<lambda>(r, raw) s. snd (InsertReading all_ok r raw s)) rs st"

lemma store_all_same: "same_readings s t \<Longrightarrow> same_readings (store_all rs s) (store_all rs t)"
  by (induction rs arbitrary: s t) (auto simp: store_all_def same_readings_insert)

lemma store_all_append: "store_all (xs @ ys) st = store_all ys (store_all xs st)"
  by (simp add: store_all_def)

definition serve_all :: "instant \<Rightarrow> Message list \<Rightarrow> store \<Rightarrow> store" where
  "serve_all now ms st = fold (session_msg all_ok True now) ms st"

lemma session_msg_same:
  "same_readings (session_msg all_ok True now m st)
     (store_all (case (if ms_Type m = ''reading'' then ms_Reading m else None) of None \<Rightarrow> [] | Some rr \<Rightarrow> [rr]) st)"
  by (auto simp: session_msg_def store_all_def Let_def same_readings_heartbeat split: option.splits)

lemma serve_all_same: "same_readings (serve_all now ms st) (store_all (sent_readings ms) st)"
proof (induction ms arbitrary: st)
  case (Cons m ms)
  let ?o = "if ms_Type m = ''reading'' then ms_Reading m else None"
  have 1: "same_readings (serve_all now ms (session_msg all_ok True now m st)) (store_all (sent_readings ms) (session_msg all_ok True now m st))"
    by (rule Cons.IH)
  have 2: "same_readings (store_all (sent_readings ms) (session_msg all_ok True now m st))
      (store_all (sent_readings ms) (store_all (case ?o of None \<Rightarrow> [] | Some rr \<Rightarrow> [rr]) st))"
    by (rule store_all_same [OF session_msg_same])
  have 3: "sent_readings (m # ms) = (case ?o of None \<Rightarrow> [] | Some rr \<Rightarrow> [rr]) @ sent_readings ms"
    by (auto simp: sent_readings_def List.map_filter_def split: option.splits)
  show ?case
    using same_readings_trans [OF 1 2] unfolding 3 store_all_append by (simp add: serve_all_def)
qed (simp add: serve_all_def sent_readings_def store_all_def List.map_filter_def)

text \<open>The same outcome of every insert and heartbeat, in the form each sink wants it.\<close>

fun all_succeed :: "'o \<Rightarrow> unit event list \<Rightarrow> 'o event list" where
  "all_succeed ok [] = []"
| "all_succeed ok (Cancelled # es) = Cancelled # all_succeed ok es"
| "all_succeed ok (Silence # es) = Silence # all_succeed ok es"
| "all_succeed ok (Eof now hb # es) = Eof now hb # all_succeed ok es"
| "all_succeed ok (Line line now _ hb # es) = Line line now ok hb # all_succeed ok es"

lemma db_loop_store:
  "same_readings (snd (ingest_loop db_sink src (all_succeed all_ok es) lastTS n st))
     (store_all (decoded_of src (takeWhile (line_taken (\<lambda>_. True) src) es)) st)"
proof (induction es arbitrary: lastTS n st)
  case (Cons e es)
  show ?case
  proof (cases e)
    case (Eof now hb)
    then show ?thesis by (simp add: line_taken_def store_all_def db_sink_def same_readings_heartbeat)
  next
    case (Line line now u hb)
    have t: "takeWhile (line_taken (\<lambda>_. True) src) (e # es) = e # takeWhile (line_taken (\<lambda>_. True) src) es"
      using Line by (simp add: line_taken_def)
    show ?thesis
    proof (cases "decode_text now src line")
      case None
      then show ?thesis unfolding t using Cons.IH Line by simp
    next
      case (Some r)
      let ?s1 = "snd (InsertReading all_ok r (trim_space line) st)"
      obtain s2 where s2: "ingest_loop db_sink src (all_succeed all_ok (e # es)) lastTS n st = ingest_loop db_sink src (all_succeed all_ok es) (TS r) (n + 1) s2"
        and h: "same_readings s2 ?s1"
        using Some Line
        by (cases "InsertReading all_ok r (trim_space line) st")
          (auto simp: db_sink_def Let_def same_readings_heartbeat InsertReading_def all_ok_def notify_def split: if_splits)
      show ?thesis
        unfolding s2 t using same_readings_trans [OF Cons.IH store_all_same [OF h]] Line Some
        by (simp add: store_all_def)
    qed
  qed (simp_all add: line_taken_def store_all_def)
qed (simp add: store_all_def)

lemma taken_succeed:
  "decoded_of src (takeWhile (line_taken (\<lambda>ok. ok) src) (all_succeed True es)) = decoded_of src (takeWhile (line_taken (\<lambda>_. True) src) es)"
proof (induction es)
  case (Cons e es)
  then show ?case by (cases e) (auto simp: line_taken_def split: option.splits)
qed simp


end
