(* ===== verification/Home.thy ===== *)
theory Home
  imports Clock Codec "HOL-Library.AList"
begin

text \<open>
  The Home Assistant client, \<open>internal/ha\<close>: \<open>ha.go\<close> (states, sensors, history), \<open>ws.go\<close>
  (the event stream), \<open>stats.go\<close> (long-term statistics) and \<open>helper.go\<close> (group helpers).
  What the server answers, over HTTP or a socket, is an argument: a body, or None for the
  error of the request. The text of an error carries no behaviour and is left out where the
  code only passes it on.
\<close>

section \<open>Decoding\<close>

text \<open>
  \<open>time.Time\<close>, \<open>*float64\<close> and \<open>map[string]any\<close> as targets of \<open>Unmarshal\<close>; None is its error.
  (An instant with escapes in its text is not modelled: the library parses the raw text.)
\<close>

definition dec_time :: "json \<Rightarrow> instant \<Rightarrow> instant option" where
  "dec_time v old = (case v of JNull \<Rightarrow> Some old | JStr s \<Rightarrow> parse_rfc3339 s | _ \<Rightarrow> None)"

definition dec_floatptr :: "json \<Rightarrow> real option option" where
  "dec_floatptr v = (case v of JNull \<Rightarrow> Some None | JNum s \<Rightarrow> map_option Some (parse_float s) | _ \<Rightarrow> None)"

type_synonym attrs = "string \<rightharpoonup> json"

definition dec_attrs :: "json \<Rightarrow> attrs \<Rightarrow> attrs option" where
  "dec_attrs v old = (case v of JNull \<Rightarrow> Some Map.empty | JObj kvs \<Rightarrow> Some (old ++ map_of (rev kvs)) | _ \<Rightarrow> None)"

text \<open>A slice: null is empty, an element that does not decode fails the whole call.\<close>

definition dec_slice :: "(json \<Rightarrow> 'a option) \<Rightarrow> json \<Rightarrow> 'a list option" where
  "dec_slice f v = (case v of JNull \<Rightarrow> Some [] | JArr vs \<Rightarrow> those (map f vs) | _ \<Rightarrow> None)"

text \<open>A struct with the fields that \<open>f\<close> accepts, from the members in their order.\<close>

fun dec_members :: "(string \<Rightarrow> json \<Rightarrow> 'a \<Rightarrow> 'a option) \<Rightarrow> (string \<times> json) list \<Rightarrow> 'a \<Rightarrow> 'a option" where
  "dec_members f [] a = Some a"
| "dec_members f ((k, v) # kvs) a = obind (f k v a) (dec_members f kvs)"

definition dec_struct :: "(string \<Rightarrow> json \<Rightarrow> 'a \<Rightarrow> 'a option) \<Rightarrow> json \<Rightarrow> 'a \<Rightarrow> 'a option" where
  "dec_struct f v a = (case v of JObj kvs \<Rightarrow> dec_members f kvs a | JNull \<Rightarrow> Some a | _ \<Rightarrow> None)"

section \<open>States\<close>

record Sample =
  sm_TS :: instant
  sm_Power :: real

record StateEvent =
  se_TS :: instant
  se_State :: string
  se_Attributes :: attrs

definition Attr :: "StateEvent \<Rightarrow> string \<Rightarrow> string" where
  "Attr e name = (case se_Attributes e name of Some (JStr s) \<Rightarrow> s | _ \<Rightarrow> [])"

record haState =
  hst_EntityID :: string
  hst_State :: string
  hst_LastUpdated :: instant
  hst_Attributes :: "json option"

definition zero_state :: haState where
  "zero_state = \<lparr>hst_EntityID = [], hst_State = [], hst_LastUpdated = zero_time, hst_Attributes = None\<rparr>"

definition state_field :: "string \<Rightarrow> json \<Rightarrow> haState \<Rightarrow> haState option" where
  "state_field k v s =
     (if equal_fold k ''entity_id'' then map_option (\<lambda>x. s\<lparr>hst_EntityID := x\<rparr>) (dec_string v (hst_EntityID s))
      else if equal_fold k ''state'' then map_option (\<lambda>x. s\<lparr>hst_State := x\<rparr>) (dec_string v (hst_State s))
      else if equal_fold k ''last_updated'' then map_option (\<lambda>x. s\<lparr>hst_LastUpdated := x\<rparr>) (dec_time v (hst_LastUpdated s))
      else if equal_fold k ''attributes'' then Some (s\<lparr>hst_Attributes := Some v\<rparr>)
      else Some s)"

definition dec_states :: "json \<Rightarrow> haState list option" where
  "dec_states = dec_slice (\<lambda>v. dec_struct state_field v zero_state)"

definition body_states :: "string option \<Rightarrow> haState list option" where
  "body_states body = obind body (\<lambda>b. obind (parse_json b) dec_states)"

section \<open>Sensors\<close>

record stateAttrs =
  at_FriendlyName :: string
  at_DeviceClass :: string
  at_UnitMeasurement :: string

text \<open>The error of this decoding is ignored, so a member of another type is skipped.\<close>

definition attr_field :: "string \<Rightarrow> json \<Rightarrow> stateAttrs \<Rightarrow> stateAttrs" where
  "attr_field k v a =
     (let str = (\<lambda>old. case dec_string v old of Some s \<Rightarrow> s | None \<Rightarrow> old) in
      if equal_fold k ''friendly_name'' then a\<lparr>at_FriendlyName := str (at_FriendlyName a)\<rparr>
      else if equal_fold k ''device_class'' then a\<lparr>at_DeviceClass := str (at_DeviceClass a)\<rparr>
      else if equal_fold k ''unit_of_measurement'' then a\<lparr>at_UnitMeasurement := str (at_UnitMeasurement a)\<rparr>
      else a)"

definition state_attrs :: "haState \<Rightarrow> stateAttrs" where
  "state_attrs s =
     (let z = \<lparr>at_FriendlyName = [], at_DeviceClass = [], at_UnitMeasurement = []\<rparr> in
      case hst_Attributes s of Some (JObj kvs) \<Rightarrow> fold (\<lambda>(k, v). attr_field k v) kvs z | _ \<Rightarrow> z)"

definition classify :: "stateAttrs \<Rightarrow> string" where
  "classify a =
     (let unit = to_upper (at_UnitMeasurement a) in
      if at_DeviceClass a = ''power'' \<or> unit = ''W'' \<or> unit = ''KW'' then ''power''
      else if at_DeviceClass a = ''energy'' \<or> unit = ''WH'' \<or> unit = ''KWH'' \<or> unit = ''MWH'' then ''energy''
      else [])"

record Entity =
  en_EntityID :: string
  en_Name :: string
  en_State :: string
  en_Unit :: string
  en_Kind :: string

definition sensor_of :: "haState \<Rightarrow> Entity option" where
  "sensor_of s =
     (if \<not> has_prefix (hst_EntityID s) ''sensor.'' then None
      else (let a = state_attrs s; kind = classify a;
                name = (if at_FriendlyName a = [] then hst_EntityID s else at_FriendlyName a)
            in if kind = [] then None
               else Some \<lparr>en_EntityID = hst_EntityID s, en_Name = name, en_State = hst_State s,
                          en_Unit = at_UnitMeasurement a, en_Kind = kind\<rparr>))"

definition MonitorableSensors :: "string option \<Rightarrow> Entity list option" where
  "MonitorableSensors body = map_option (List.map_filter sensor_of) (body_states body)"

definition EntityKinds :: "string option \<Rightarrow> string list \<Rightarrow> (string \<rightharpoonup> string) option" where
  "EntityKinds body entities =
     map_option (\<lambda>ss. map_of (rev (map (\<lambda>s. (hst_EntityID s, classify (state_attrs s)))
                       (filter (\<lambda>s. hst_EntityID s \<in> set entities) ss)))) (body_states body)"

record ClimateEntity =
  ce_EntityID :: string
  ce_Name :: string
  ce_State :: string
  ce_HVACAction :: string
  ce_HasAction :: bool

text \<open>The attributes of a state as a \<open>map[string]any\<close>, empty when they do not decode.\<close>

definition attr_map :: "haState \<Rightarrow> attrs" where
  "attr_map s = (case hst_Attributes s of None \<Rightarrow> Map.empty
     | Some v \<Rightarrow> (case dec_attrs v Map.empty of None \<Rightarrow> Map.empty | Some m \<Rightarrow> m))"

definition str_of :: "json option \<Rightarrow> string" where
  "str_of v = (case v of Some (JStr s) \<Rightarrow> s | _ \<Rightarrow> [])"

definition climate_of :: "haState \<Rightarrow> ClimateEntity option" where
  "climate_of s =
     (if \<not> has_prefix (hst_EntityID s) ''climate.'' then None
      else (let a = attr_map s; name = str_of (a ''friendly_name'') in
            Some \<lparr>ce_EntityID = hst_EntityID s, ce_Name = (if name = [] then hst_EntityID s else name),
                  ce_State = hst_State s, ce_HVACAction = str_of (a ''hvac_action''),
                  ce_HasAction = (a ''hvac_action'' \<noteq> None)\<rparr>))"

definition ClimateEntities :: "string option \<Rightarrow> ClimateEntity list option" where
  "ClimateEntities body = map_option (List.map_filter climate_of) (body_states body)"

text \<open>History answers are lists of lists, of which the first is read.\<close>

definition history_states :: "string option \<Rightarrow> haState list option" where
  "history_states body =
     obind body (\<lambda>b. obind (parse_json b) (\<lambda>v. map_option (\<lambda>outer. case outer of [] \<Rightarrow> [] | ss # _ \<Rightarrow> ss) (dec_slice dec_states v)))"

definition History :: "string option \<Rightarrow> Sample list option" where
  "History body =
     map_option (List.map_filter (\<lambda>s. map_option (\<lambda>v. \<lparr>sm_TS = hst_LastUpdated s, sm_Power = v\<rparr>) (parse_float (hst_State s))))
       (history_states body)"

definition AttrHistory :: "string option \<Rightarrow> StateEvent list option" where
  "AttrHistory body =
     map_option (map (\<lambda>s. \<lparr>se_TS = hst_LastUpdated s, se_State = hst_State s, se_Attributes = attr_map s\<rparr>)) (history_states body)"

definition zone_field :: "string \<Rightarrow> json \<Rightarrow> string \<Rightarrow> string option" where
  "zone_field k v s = (if equal_fold k ''time_zone'' then dec_string v s else Some s)"

definition TimeZone :: "string option \<Rightarrow> string option" where
  "TimeZone body = obind body (\<lambda>b. obind (parse_json b) (\<lambda>v. dec_struct zone_field v []))"

section \<open>The event stream\<close>

record toState =
  to_EntityID :: string
  to_State :: string
  to_LastUpdated :: instant
  to_Attributes :: attrs

record wsEvent =
  we_Type :: string
  we_ToState :: toState

definition zero_event :: wsEvent where
  "zero_event = \<lparr>we_Type = [], we_ToState = \<lparr>to_EntityID = [], to_State = [], to_LastUpdated = zero_time, to_Attributes = Map.empty\<rparr>\<rparr>"

definition to_field :: "string \<Rightarrow> json \<Rightarrow> toState \<Rightarrow> toState option" where
  "to_field k v s =
     (if equal_fold k ''entity_id'' then map_option (\<lambda>x. s\<lparr>to_EntityID := x\<rparr>) (dec_string v (to_EntityID s))
      else if equal_fold k ''state'' then map_option (\<lambda>x. s\<lparr>to_State := x\<rparr>) (dec_string v (to_State s))
      else if equal_fold k ''last_updated'' then map_option (\<lambda>x. s\<lparr>to_LastUpdated := x\<rparr>) (dec_time v (to_LastUpdated s))
      else if equal_fold k ''attributes'' then map_option (\<lambda>x. s\<lparr>to_Attributes := x\<rparr>) (dec_attrs v (to_Attributes s))
      else Some s)"

definition one_field :: "string \<Rightarrow> (json \<Rightarrow> 'a \<Rightarrow> 'a option) \<Rightarrow> json \<Rightarrow> 'a \<Rightarrow> 'a option" where
  "one_field name f = dec_struct (\<lambda>k v a. if equal_fold k name then f v a else Some a)"

definition event_field :: "string \<Rightarrow> json \<Rightarrow> wsEvent \<Rightarrow> wsEvent option" where
  "event_field k v e =
     (if equal_fold k ''type'' then map_option (\<lambda>x. e\<lparr>we_Type := x\<rparr>) (dec_string v (we_Type e))
      else if equal_fold k ''event'' then
        map_option (\<lambda>x. e\<lparr>we_ToState := x\<rparr>)
          (one_field ''variables'' (one_field ''trigger'' (one_field ''to_state'' (dec_struct to_field))) v (we_ToState e))
      else Some e)"

definition dec_event :: "json \<Rightarrow> wsEvent option" where
  "dec_event v = dec_struct event_field v zero_event"

text \<open>
  One frame of the loop of \<open>StreamStates\<close>: the calls of \<open>onSample\<close> (if the state is a number)
  and \<open>onState\<close>, or None for a frame that is skipped.
\<close>

definition stream_frame :: "instant \<Rightarrow> string \<Rightarrow> (string \<times> Sample option \<times> StateEvent) option" where
  "stream_frame now data =
     obind (parse_json data) (\<lambda>v. obind (dec_event v) (\<lambda>ev.
       if we_Type ev \<noteq> ''event'' then None
       else (let to = we_ToState ev; ts = (if to_LastUpdated to = zero_time then now else to_LastUpdated to) in
             Some (to_EntityID to, map_option (\<lambda>x. \<lparr>sm_TS = ts, sm_Power = x\<rparr>) (parse_float (to_State to)),
                   \<lparr>se_TS = ts, se_State = to_State to, se_Attributes = to_Attributes to\<rparr>))))"

definition trim_right :: "char \<Rightarrow> string \<Rightarrow> string" where
  "trim_right c s = rev (dropWhile (\<lambda>x. x = c) (rev s))"

text \<open>\<open>strings.Replace(s, old, new, 1)\<close>.\<close>

fun replace_first :: "string \<Rightarrow> string \<Rightarrow> string \<Rightarrow> string" where
  "replace_first old new [] = []"
| "replace_first old new (c # cs) =
     (if has_prefix (c # cs) old then new @ drop (length old) (c # cs) else c # replace_first old new cs)"

definition wsURL :: "string \<Rightarrow> string" where
  "wsURL base = replace_first ''http://'' ''ws://'' (replace_first ''https://'' ''wss://'' (trim_right (CHR ''/'') base)) @ ''/api/websocket''"
section \<open>Long-term statistics\<close>

record StatID =
  si_ID :: string
  si_Name :: string
  si_Unit :: string

record StatPoint =
  sp_Start :: instant
  sp_Sum :: "real option"
  sp_Change :: "real option"

record UtilitySample =
  us_TS :: instant
  us_Kwh :: real

record wsResult =
  wr_ID :: int
  wr_Type :: string
  wr_Success :: bool
  wr_Result :: json
  wr_Error :: "string \<times> string"

text \<open>
  The frames that arrive, None for a failed read. \<open>Inl\<close> is the error: of the read, or the
  one the server reports.
\<close>

datatype result_error = ReadError | HAError string string

fun readResult :: "wsResult option list \<Rightarrow> int \<Rightarrow> result_error + json" where
  "readResult [] i = Inl ReadError"
| "readResult (None # fs) i = Inl ReadError"
| "readResult (Some r # fs) i =
     (if wr_ID r \<noteq> i then readResult fs i
      else if wr_Type r \<noteq> ''result'' then readResult fs i
      else if \<not> wr_Success r then Inl (HAError (fst (wr_Error r)) (snd (wr_Error r)))
      else Inr (wr_Result r))"

definition isEnergyUnit :: "string \<Rightarrow> bool" where
  "isEnergyUnit u \<longleftrightarrow> to_upper (trim_space u) \<in> {''WH'', ''KWH'', ''MWH''}"

record stat_row =
  sr_StatisticID :: string
  sr_Name :: string
  sr_DisplayUnit :: string
  sr_StatsUnit :: string
  sr_UnitClass :: string

definition row_field :: "string \<Rightarrow> json \<Rightarrow> stat_row \<Rightarrow> stat_row option" where
  "row_field k v r =
     (if equal_fold k ''statistic_id'' then map_option (\<lambda>x. r\<lparr>sr_StatisticID := x\<rparr>) (dec_string v (sr_StatisticID r))
      else if equal_fold k ''name'' then map_option (\<lambda>x. r\<lparr>sr_Name := x\<rparr>) (dec_string v (sr_Name r))
      else if equal_fold k ''display_unit_of_measurement'' then map_option (\<lambda>x. r\<lparr>sr_DisplayUnit := x\<rparr>) (dec_string v (sr_DisplayUnit r))
      else if equal_fold k ''statistics_unit_of_measurement'' then map_option (\<lambda>x. r\<lparr>sr_StatsUnit := x\<rparr>) (dec_string v (sr_StatsUnit r))
      else if equal_fold k ''unit_class'' then map_option (\<lambda>x. r\<lparr>sr_UnitClass := x\<rparr>) (dec_string v (sr_UnitClass r))
      else Some r)"

definition stat_id_of :: "stat_row \<Rightarrow> StatID option" where
  "stat_id_of r =
     (let unit = (if sr_DisplayUnit r = [] then sr_StatsUnit r else sr_DisplayUnit r) in
      if \<not> isEnergyUnit unit \<and> sr_UnitClass r \<noteq> ''energy'' then None
      else Some \<lparr>si_ID = sr_StatisticID r, si_Name = (if sr_Name r = [] then sr_StatisticID r else sr_Name r), si_Unit = unit\<rparr>)"

definition ListEnergyStatisticIDs :: "wsResult option list \<Rightarrow> StatID list option" where
  "ListEnergyStatisticIDs fs =
     (case readResult fs 1 of Inl _ \<Rightarrow> None
      | Inr payload \<Rightarrow> map_option (List.map_filter stat_id_of)
          (dec_slice (\<lambda>v. dec_struct row_field v \<lparr>sr_StatisticID = [], sr_Name = [], sr_DisplayUnit = [], sr_StatsUnit = [], sr_UnitClass = []\<rparr>) payload))"

text \<open>\<open>flexTime\<close>: epoch milliseconds (converted by truncation) or RFC 3339 text.\<close>

definition trunc :: "real \<Rightarrow> int" where
  "trunc x = (if x < 0 then - \<lfloor>- x\<rfloor> else \<lfloor>x\<rfloor>)"

definition dec_flex_time :: "json \<Rightarrow> instant \<Rightarrow> instant option" where
  "dec_flex_time v old = (case v of JNull \<Rightarrow> Some old | JStr s \<Rightarrow> parse_rfc3339 s
     | JNum s \<Rightarrow> map_option (\<lambda>ms. trunc ms * 1000000) (parse_float s) | _ \<Rightarrow> None)"

definition point_field :: "string \<Rightarrow> json \<Rightarrow> StatPoint \<Rightarrow> StatPoint option" where
  "point_field k v p =
     (if equal_fold k ''start'' then map_option (\<lambda>x. p\<lparr>sp_Start := x\<rparr>) (dec_flex_time v (sp_Start p))
      else if equal_fold k ''sum'' then map_option (\<lambda>x. p\<lparr>sp_Sum := x\<rparr>) (dec_floatptr v)
      else if equal_fold k ''change'' then map_option (\<lambda>x. p\<lparr>sp_Change := x\<rparr>) (dec_floatptr v)
      else Some p)"

text \<open>An object of lists; a name that occurs twice keeps its last list.\<close>

definition dec_by_id :: "(json \<Rightarrow> 'a option) \<Rightarrow> json \<Rightarrow> (string \<times> 'a list) list option" where
  "dec_by_id f v = (case v of JNull \<Rightarrow> Some []
     | JObj kvs \<Rightarrow> map_option (\<lambda>l. AList.clearjunk (rev l)) (those (map (\<lambda>(k, x). map_option (Pair k) (dec_slice f x)) kvs))
     | _ \<Rightarrow> None)"

definition lookup_list :: "(string \<times> 'a list) list \<Rightarrow> string \<Rightarrow> 'a list" where
  "lookup_list m k = (case map_of m k of None \<Rightarrow> [] | Some l \<Rightarrow> l)"

definition StatisticsDuringPeriod :: "wsResult option list \<Rightarrow> string \<Rightarrow> StatPoint list option" where
  "StatisticsDuringPeriod fs statID =
     (case readResult fs 1 of Inl _ \<Rightarrow> None
      | Inr payload \<Rightarrow> map_option (\<lambda>m. lookup_list m statID)
          (dec_by_id (\<lambda>v. dec_struct point_field v \<lparr>sp_Start = zero_time, sp_Sum = None, sp_Change = None\<rparr>) payload))"

text \<open>\<open>fetch p\<close> is the answer for the period \<open>p\<close>; the last call asks again for months.\<close>

fun finest :: "(string \<Rightarrow> 'a list option) \<Rightarrow> string list \<Rightarrow> (string \<times> 'a list) option" where
  "finest fetch [] = None"
| "finest fetch (p # ps) =
     (case fetch p of None \<Rightarrow> finest fetch ps
      | Some pts \<Rightarrow> if length pts > 1 then Some (p, pts) else finest fetch ps)"

definition ResolvePeriod :: "(string \<Rightarrow> StatPoint list option) \<Rightarrow> StatPoint list option \<Rightarrow> (string \<times> StatPoint list) option" where
  "ResolvePeriod fetch again =
     (case finest fetch [''hour'', ''day'', ''month''] of
        Some r \<Rightarrow> Some r
      | None \<Rightarrow> map_option (Pair ''month'') again)"

text \<open>The loop over the points, with the last sum seen.\<close>

fun bucket_deltas :: "real option \<Rightarrow> StatPoint list \<Rightarrow> UtilitySample list" where
  "bucket_deltas prev [] = []"
| "bucket_deltas prev (p # ps) =
     (case sp_Change p of
        Some v \<Rightarrow> \<lparr>us_TS = sp_Start p, us_Kwh = (if v < 0 then 0 else v)\<rparr> # bucket_deltas prev ps
      | None \<Rightarrow>
          (case sp_Sum p of
             None \<Rightarrow> bucket_deltas prev ps
           | Some s \<Rightarrow>
               (case prev of
                  None \<Rightarrow> bucket_deltas (Some s) ps
                | Some q \<Rightarrow> \<lparr>us_TS = sp_Start p, us_Kwh = (if s - q < 0 then 0 else s - q)\<rparr> # bucket_deltas (Some s) ps)))"

definition BucketDeltas :: "StatPoint list \<Rightarrow> UtilitySample list" where
  "BucketDeltas points = bucket_deltas None points"

record MeanPoint =
  mp_Start :: instant
  mp_Mean :: "real option"
  mp_Change :: "real option"

definition mean_field :: "string \<Rightarrow> json \<Rightarrow> MeanPoint \<Rightarrow> MeanPoint option" where
  "mean_field k v p =
     (if equal_fold k ''start'' then map_option (\<lambda>x. p\<lparr>mp_Start := x\<rparr>) (dec_flex_time v (mp_Start p))
      else if equal_fold k ''mean'' then map_option (\<lambda>x. p\<lparr>mp_Mean := x\<rparr>) (dec_floatptr v)
      else if equal_fold k ''change'' then map_option (\<lambda>x. p\<lparr>mp_Change := x\<rparr>) (dec_floatptr v)
      else Some p)"

text \<open>The map of the answer, listed in the order its iteration takes; a name with an empty list is absent.\<close>

definition StatisticsMeanDuringPeriod :: "wsResult option list \<Rightarrow> (string \<times> MeanPoint list) list option" where
  "StatisticsMeanDuringPeriod fs =
     (case readResult fs 1 of Inl _ \<Rightarrow> None
      | Inr payload \<Rightarrow> map_option (filter (\<lambda>(k, pts). pts \<noteq> []))
          (dec_by_id (\<lambda>v. dec_struct mean_field v \<lparr>mp_Start = zero_time, mp_Mean = None, mp_Change = None\<rparr>) payload))"

section \<open>Group helpers\<close>

definition slug_char :: "char \<Rightarrow> bool" where
  "slug_char c \<longleftrightarrow> 97 \<le> code_of c \<and> code_of c \<le> 122 \<or> 48 \<le> code_of c \<and> code_of c \<le> 57"

text \<open>Every other character is an underscore, once for a run of them.\<close>

fun slug_run :: "bool \<Rightarrow> string \<Rightarrow> string" where
  "slug_run prev [] = []"
| "slug_run prev (c # cs) =
     (if slug_char c then c # slug_run False cs
      else if prev then slug_run True cs else CHR ''_'' # slug_run True cs)"

definition slug :: "string \<Rightarrow> string" where
  "slug s = trim_right (CHR ''_'') (dropWhile (\<lambda>c. c = CHR ''_'') (slug_run False (to_lower s)))"

text \<open>The six answers of \<open>/api/states\<close> while the new sensor is awaited. One that does not decode counts as empty
  (the code searches the part that was decoded before the failure).\<close>

definition named_sensor :: "string \<Rightarrow> string option \<Rightarrow> string option" where
  "named_sensor name body =
     map_option hst_EntityID (List.find (\<lambda>s. has_prefix (hst_EntityID s) ''sensor.'' \<and> at_FriendlyName (state_attrs s) = name)
       (case body_states body of None \<Rightarrow> [] | Some ss \<Rightarrow> ss))"

definition findSensorByName :: "string \<Rightarrow> string option list \<Rightarrow> string" where
  "findSensorByName name bodies =
     (case List.map_filter (named_sensor name) (take 6 bodies) of e # _ \<Rightarrow> e | [] \<Rightarrow> ''sensor.'' @ slug name)"

record flowStep =
  fs_FlowID :: string
  fs_Type :: string
  fs_StepID :: string
  fs_Reason :: string

text \<open>The steps of the configuration flow: the three answers, None for an error of the request.\<close>

definition CreateGroupSum :: "flowStep option \<Rightarrow> bool \<Rightarrow> flowStep option \<Rightarrow> string \<Rightarrow> string option list \<Rightarrow> string option" where
  "CreateGroupSum started chosen submitted name bodies =
     obind started (\<lambda>step.
       if fs_FlowID step = [] then None
       else if \<not> chosen then None
       else obind submitted (\<lambda>d. if fs_Type d \<noteq> ''create_entry'' then None else Some (findSensorByName name bodies)))"
section \<open>Facts\<close>

lemma bucket_deltas_nonneg: "u \<in> set (bucket_deltas prev ps) \<Longrightarrow> 0 \<le> us_Kwh u"
  by (induction prev ps rule: bucket_deltas.induct) (auto split: option.splits if_splits)

lemma bucket_deltas_telescope:
  assumes "\<forall>p \<in> set ps. sp_Change p = None \<and> sp_Sum p \<noteq> None" "sorted (q # map (\<lambda>p. the (sp_Sum p)) ps)"
  shows "sum_list (map us_Kwh (bucket_deltas (Some q) ps)) = last (q # map (\<lambda>p. the (sp_Sum p)) ps) - q
    \<and> map us_TS (bucket_deltas (Some q) ps) = map sp_Start ps"
  using assms
proof (induction ps arbitrary: q)
  case (Cons p ps)
  then obtain s where s: "sp_Change p = None" "sp_Sum p = Some s" by auto
  from Cons.prems s have "sum_list (map us_Kwh (bucket_deltas (Some s) ps)) = last (s # map (\<lambda>p. the (sp_Sum p)) ps) - s
    \<and> map us_TS (bucket_deltas (Some s) ps) = map sp_Start ps"
    by (intro Cons.IH) auto
  with Cons.prems s show ?case by auto
qed simp

text \<open>
  The billed energy taken from cumulative statistics is conserved: over the points of a
  counter that never falls the buckets are never negative, they add up to the last reading
  less the first, and they carry the start times of all points but the first, whose energy
  has no earlier reading to compare with.
\<close>

theorem buckets_conserve:
  assumes "\<forall>p \<in> set (p0 # ps). sp_Change p = None \<and> sp_Sum p \<noteq> None" "sorted (map (\<lambda>p. the (sp_Sum p)) (p0 # ps))"
  shows "sum_list (map us_Kwh (BucketDeltas (p0 # ps))) = the (sp_Sum (last (p0 # ps))) - the (sp_Sum p0)
    \<and> (\<forall>u \<in> set (BucketDeltas (p0 # ps)). 0 \<le> us_Kwh u)
    \<and> map us_TS (BucketDeltas (p0 # ps)) = map sp_Start ps"
proof -
  obtain q where q: "sp_Change p0 = None" "sp_Sum p0 = Some q" using assms(1) by auto
  have eq: "BucketDeltas (p0 # ps) = bucket_deltas (Some q) ps" by (simp add: BucketDeltas_def q)
  have "last (q # map (\<lambda>p. the (sp_Sum p)) ps) = the (sp_Sum (last (p0 # ps)))"
    using q by (simp add: last_map)
  then show ?thesis using bucket_deltas_telescope [of ps q] assms q by (auto simp: eq bucket_deltas_nonneg)
qed

theorem buckets_conserve_witness:
  "sum_list (map us_Kwh (BucketDeltas [\<lparr>sp_Start = 0, sp_Sum = Some 5, sp_Change = None\<rparr>, \<lparr>sp_Start = 1, sp_Sum = Some 7, sp_Change = None\<rparr>])) = 2"
  using buckets_conserve [of "\<lparr>sp_Start = 0, sp_Sum = Some 5, sp_Change = None\<rparr>" "[\<lparr>sp_Start = 1, sp_Sum = Some 7, sp_Change = None\<rparr>]"] by simp

lemma finest_spec:
  "finest fetch ps = Some (p, pts) \<Longrightarrow>
     fetch p = Some pts \<and> length pts > 1 \<and> (\<exists>before after. ps = before @ p # after \<and> (\<forall>q \<in> set before. case fetch q of None \<Rightarrow> True | Some l \<Rightarrow> length l \<le> 1))"
proof (induction ps)
  case (Cons q ps)
  show ?case
  proof (cases "\<exists>l. fetch q = Some l \<and> length l > 1")
    case True
    with Cons.prems have "fetch p = Some pts" "length pts > 1" "q # ps = [] @ p # ps" by (auto split: if_splits)
    then show ?thesis by fastforce
  next
    case False
    then have skip: "finest fetch (q # ps) = finest fetch ps" by (auto split: option.splits)
    with Cons obtain before after where "fetch p = Some pts" "length pts > 1" "ps = before @ p # after"
      "\<forall>r \<in> set before. case fetch r of None \<Rightarrow> True | Some l \<Rightarrow> length l \<le> 1" by auto
    with False show ?thesis by (intro conjI exI [of _ "q # before"] exI [of _ after]) (auto split: option.splits)
  qed
qed simp

section \<open>What a change of state delivers\<close>

text \<open>The frame of a trigger subscription: one state with its instant and attributes.\<close>

definition trigger_frame :: "string \<Rightarrow> string \<Rightarrow> string \<Rightarrow> (string \<times> json) list \<Rightarrow> json" where
  "trigger_frame entity state ts as =
     JObj [(''id'', JStr ''1''), (''type'', JStr ''event''), (''event'', JObj [(''variables'', JObj [(''trigger'', JObj [
       (''platform'', JStr ''state''),
       (''to_state'', JObj [(''entity_id'', JStr entity), (''state'', JStr state), (''attributes'', JObj as), (''last_updated'', JStr ts)])])])])]"

lemma trigger_names:
  "equal_fold ''event'' ''type'' = False" "equal_fold ''id'' ''type'' = False" "equal_fold ''id'' ''event'' = False"
  "equal_fold ''type'' ''type'' = True" "equal_fold ''event'' ''event'' = True" "equal_fold ''variables'' ''variables'' = True"
  "equal_fold ''trigger'' ''trigger'' = True" "equal_fold ''platform'' ''to_state'' = False" "equal_fold ''to_state'' ''to_state'' = True"
  "equal_fold ''entity_id'' ''entity_id'' = True" "equal_fold ''state'' ''entity_id'' = False" "equal_fold ''state'' ''state'' = True"
  "equal_fold ''attributes'' ''entity_id'' = False" "equal_fold ''attributes'' ''state'' = False" "equal_fold ''attributes'' ''last_updated'' = False"
  "equal_fold ''attributes'' ''attributes'' = True" "equal_fold ''last_updated'' ''entity_id'' = False" "equal_fold ''last_updated'' ''state'' = False"
  "equal_fold ''last_updated'' ''last_updated'' = True"
  by code_simp+

lemma dec_trigger_frame:
  assumes "parse_rfc3339 ts = Some t"
  shows "dec_event (trigger_frame entity state ts as) = Some \<lparr>we_Type = ''event'', we_ToState =
      \<lparr>to_EntityID = entity, to_State = state, to_LastUpdated = t, to_Attributes = map_of (rev as)\<rparr>\<rparr>"
  by (simp only: dec_event_def trigger_frame_def dec_struct_def json.case dec_members.simps event_field_def one_field_def to_field_def
      trigger_names if_True if_False dec_string.simps option.map obind_simps zero_event_def wsEvent.simps toState.simps dec_time_def assms
      dec_attrs_def map_add_def prod.case) (simp add: fun_eq_iff split: option.splits)



end
