(* ===== verification/Hvac.thy ===== *)
theory Hvac
  imports Home
begin

text \<open>
  The climate part of the worker, \<open>cmd/worker/hvac.go\<close>: the action that is currently asserted,
  the planning of the history to fetch and the expansion of state changes into samples. The
  loop of the expansion steps by a duration; it is modelled with the value None for a loop that
  never ends, and shown to end for every positive step.
\<close>

record hvacKA =
  ka_set :: bool
  ka_action :: string
  ka_ts :: instant

definition no_action :: hvacKA where
  "no_action = \<lparr>ka_set = False, ka_action = [], ka_ts = zero_time\<rparr>"

definition hvacTransition :: "hvacKA \<Rightarrow> string \<Rightarrow> instant \<Rightarrow> hvacKA" where
  "hvacTransition cur action ts = (if action = [] then no_action else \<lparr>ka_set = True, ka_action = action, ka_ts = ts\<rparr>)"

definition hvacWatts :: "string \<Rightarrow> real \<Rightarrow> real \<Rightarrow> real" where
  "hvacWatts action heatKW coolKW =
     (if action = ''heating'' then heatKW * 1000 else if action = ''cooling'' then coolKW * 1000 else 0)"

text \<open>\<open>planHVACBackfill\<close>.\<close>

definition planHVACBackfill ::
    "instant option \<Rightarrow> (instant \<times> instant) list \<Rightarrow> instant \<Rightarrow> duration \<Rightarrow> duration \<Rightarrow> instant \<Rightarrow> (instant \<times> instant) list" where
  "planHVACBackfill first gaps now lookback minGap capEnd =
     (let lookStart = now - lookback in
      case first of
        None \<Rightarrow> [(lookStart, capEnd)]
      | Some f \<Rightarrow>
          (if f > lookStart + minGap then [(lookStart, f)] else [])
          @ List.map_filter (\<lambda>(lo, hi). let hi' = (if hi > capEnd then capEnd else hi) in if \<not> lo < hi' then None else Some (lo, hi')) gaps)"

text \<open>The inner loop of \<open>expandHVACHistory\<close>: from \<open>t\<close> in steps while the segment lasts.\<close>

partial_function (option) seg_loop ::
    "instant \<Rightarrow> instant \<Rightarrow> duration \<Rightarrow> instant \<Rightarrow> bool \<Rightarrow> instant \<Rightarrow> instant list \<Rightarrow> instant list option" where
  "seg_loop lo hi step segEnd inclusive t acc =
     (if t < segEnd \<or> inclusive \<and> t = segEnd
      then seg_loop lo hi step segEnd inclusive (t + step) (if lo \<le> t \<and> t \<le> hi then acc @ [t] else acc)
      else Some acc)"

definition seg_end :: "instant \<Rightarrow> StateEvent list \<Rightarrow> instant \<times> bool" where
  "seg_end hi rest = (case rest of [] \<Rightarrow> (hi, True) | e # _ \<Rightarrow> if se_TS e > hi then (hi, True) else (se_TS e, False))"

fun expandHVACHistory :: "StateEvent list \<Rightarrow> instant \<Rightarrow> instant \<Rightarrow> duration \<Rightarrow> (instant \<times> string) list option" where
  "expandHVACHistory [] lo hi step = Some []"
| "expandHVACHistory (e # es) lo hi step =
     (let action = Attr e ''hvac_action'' in
      if action = [] then expandHVACHistory es lo hi step
      else (case seg_end hi es of (segEnd, inclusive) \<Rightarrow>
        Option.bind (seg_loop lo hi step segEnd inclusive (se_TS e) [])
          (\<lambda>ts. map_option (\<lambda>r. map (\<lambda>t. (t, action)) ts @ r) (expandHVACHistory es lo hi step))))"

section \<open>The loop ends\<close>

declare seg_loop.simps [code]

text \<open>The instants \<open>t, t + step, \<dots>\<close> before \<open>stop\<close>.\<close>

function grid :: "instant \<Rightarrow> duration \<Rightarrow> instant \<Rightarrow> instant list" where
  "grid t step stop = (if 0 < step \<and> t < stop then t # grid (t + step) step stop else [])"
  by auto
termination
  by (relation "measure (\<lambda>(t, step, stop). nat (stop - t))") auto

declare grid.simps [simp del]

lemma grid_set: "0 < step \<Longrightarrow> x \<in> set (grid t step stop) \<longleftrightarrow> t \<le> x \<and> x < stop \<and> (x - t) mod step = 0"
proof (induction t step stop rule: grid.induct)
  case (1 t step stop)
  show ?case
  proof (cases "t < stop")
    case True
    have "(x - t) mod step = (x - (t + step)) mod step"
      by (metis diff_add_cancel diff_diff_add minus_mod_self2)
    moreover have "x < t + step \<Longrightarrow> t \<le> x \<Longrightarrow> (x - t) mod step = 0 \<Longrightarrow> x = t"
      by (simp add: mod_pos_pos_trivial)
    ultimately show ?thesis using 1 True by (subst grid.simps) force
  next
    case False
    then show ?thesis by (subst grid.simps) auto
  qed
qed

lemma grid_sorted: "0 < step \<Longrightarrow> sorted_wrt (<) (grid t step stop)"
proof (induction t step stop rule: grid.induct)
  case (1 t step stop)
  then show ?case by (subst grid.simps) (auto simp: grid_set)
qed

lemma seg_loop_grid:
  assumes "0 < step"
  shows "seg_loop lo hi step segEnd inclusive t acc
       = Some (acc @ filter (\<lambda>t. lo \<le> t \<and> t \<le> hi) (grid t step (if inclusive then segEnd + 1 else segEnd)))"
  using assms
proof (induction t step "if inclusive then segEnd + 1 else segEnd" arbitrary: acc rule: grid.induct)
  case (1 t step)
  show ?case
  proof (cases "t < segEnd \<or> inclusive \<and> t = segEnd")
    case True
    then have "t < (if inclusive then segEnd + 1 else segEnd)" by auto
    with 1 True show ?thesis by (subst seg_loop.simps, subst grid.simps) simp
  next
    case False
    then have "\<not> t < (if inclusive then segEnd + 1 else segEnd)" by auto
    with False show ?thesis by (subst seg_loop.simps, subst grid.simps) auto
  qed
qed
section \<open>The expansion\<close>

text \<open>The state \<open>e\<close> is current at \<open>t\<close>: recorded by then, and the later ones are not.\<close>

definition current_at :: "StateEvent list \<Rightarrow> instant \<Rightarrow> StateEvent \<Rightarrow> bool" where
  "current_at es t e \<longleftrightarrow> (\<exists>before after. es = before @ e # after \<and> se_TS e \<le> t \<and> (\<forall>e' \<in> set after. t < se_TS e'))"

lemma current_at_Nil [simp]: "\<not> current_at [] t e"
  by (simp add: current_at_def)

lemma current_at_Cons:
  "current_at (x # es) t e \<longleftrightarrow> e = x \<and> se_TS x \<le> t \<and> (\<forall>e' \<in> set es. t < se_TS e') \<or> current_at es t e"
  by (auto simp: current_at_def Cons_eq_append_conv)

lemma current_at_mem: "current_at es t e \<Longrightarrow> e \<in> set es \<and> se_TS e \<le> t"
  by (auto simp: current_at_def)

definition seg_points :: "instant \<Rightarrow> instant \<Rightarrow> duration \<Rightarrow> StateEvent \<Rightarrow> StateEvent list \<Rightarrow> instant list" where
  "seg_points lo hi step e es =
     (case seg_end hi es of (stop, inclusive) \<Rightarrow>
        filter (\<lambda>t. lo \<le> t \<and> t \<le> hi) (grid (se_TS e) step (if inclusive then stop + 1 else stop)))"

lemma seg_points_set:
  assumes "0 < step" "sorted (map se_TS es)"
  shows "t \<in> set (seg_points lo hi step e es) \<longleftrightarrow>
      lo \<le> t \<and> t \<le> hi \<and> se_TS e \<le> t \<and> (t - se_TS e) mod step = 0 \<and> (\<forall>e' \<in> set es. t < se_TS e')"
proof (cases es)
  case Nil
  then show ?thesis by (simp add: seg_points_def seg_end_def grid_set assms(1)) linarith
next
  case (Cons x xs)
  have "(\<forall>e' \<in> set es. t < se_TS e') \<longleftrightarrow> t < se_TS x"
    using assms(2) by (fastforce simp: Cons)
  moreover have "t \<in> set (seg_points lo hi step e (x # xs)) \<longleftrightarrow>
      lo \<le> t \<and> t \<le> hi \<and> se_TS e \<le> t \<and> (t - se_TS e) mod step = 0 \<and> t < se_TS x"
    by (cases "se_TS x > hi"; simp add: seg_points_def seg_end_def grid_set assms(1)) linarith+
  ultimately show ?thesis by (simp add: Cons)
qed

lemma seg_points_sorted: "0 < step \<Longrightarrow> sorted_wrt (<) (seg_points lo hi step e es)"
  by (auto simp: seg_points_def grid_sorted sorted_wrt_filter split: prod.split)

lemma expand_Cons:
  assumes "0 < step" "expandHVACHistory es lo hi step = Some r"
  shows "expandHVACHistory (e # es) lo hi step =
    Some (if Attr e ''hvac_action'' = [] then r else map (\<lambda>t. (t, Attr e ''hvac_action'')) (seg_points lo hi step e es) @ r)"
  using assms by (simp add: Let_def seg_loop_grid seg_points_def split: prod.split)

lemma expand_exact:
  assumes "0 < step" "sorted (map se_TS es)"
  shows "\<exists>out. expandHVACHistory es lo hi step = Some out \<and> sorted_wrt (<) (map fst out)
    \<and> (\<forall>t a. (t, a) \<in> set out \<longleftrightarrow> a \<noteq> [] \<and> lo \<le> t \<and> t \<le> hi
          \<and> (\<exists>e. current_at es t e \<and> Attr e ''hvac_action'' = a \<and> (t - se_TS e) mod step = 0))"
  using assms(2)
proof (induction es)
  case (Cons e es)
  let ?a = "Attr e ''hvac_action''"
  from Cons obtain r where r: "expandHVACHistory es lo hi step = Some r" "sorted_wrt (<) (map fst r)"
    "\<And>t a. (t, a) \<in> set r \<longleftrightarrow> a \<noteq> [] \<and> lo \<le> t \<and> t \<le> hi
        \<and> (\<exists>e. current_at es t e \<and> Attr e ''hvac_action'' = a \<and> (t - se_TS e) mod step = 0)" by auto
  define s where "s = (if ?a = [] then [] else seg_points lo hi step e es)"
  have sorted: "sorted (map se_TS es)" using Cons.prems by simp
  have out: "expandHVACHistory (e # es) lo hi step = Some (map (\<lambda>t. (t, ?a)) s @ r)"
    using expand_Cons [OF assms(1) r(1), of e] by (simp add: s_def)
  have later: "t < t'" if "t \<in> set s" "t' \<in> fst ` set r" for t t'
  proof -
    from that(2) r(3) obtain e' where "current_at es t' e'" by fastforce
    then have "e' \<in> set es" "se_TS e' \<le> t'" by (auto dest: current_at_mem)
    with that(1) show ?thesis using seg_points_set [OF assms(1) sorted] by (fastforce simp: s_def split: if_splits)
  qed
  have "sorted_wrt (<) (map fst (map (\<lambda>t. (t, ?a)) s @ r))"
    using later r(2) seg_points_sorted [OF assms(1), of lo hi e es] by (auto simp: sorted_wrt_append s_def o_def)
  moreover have "(t, a) \<in> set (map (\<lambda>t. (t, ?a)) s @ r) \<longleftrightarrow> a \<noteq> [] \<and> lo \<le> t \<and> t \<le> hi
        \<and> (\<exists>x. current_at (e # es) t x \<and> Attr x ''hvac_action'' = a \<and> (t - se_TS x) mod step = 0)" for t a
    using seg_points_set [OF assms(1) sorted, of t lo hi e] by (auto simp: s_def r(3) current_at_Cons split: if_splits)
  ultimately show ?case unfolding out by blast
qed simp

text \<open>
  C33. The expansion of a climate history ends for every positive step and gives samples in
  strictly ascending time inside the range, no instant twice: each carries the non-empty
  action that was current then. And it is dense: wherever an action is current, at least
  one step into the range, there is a sample of that action less than one step back.
\<close>

theorem expansion_terminates_exactly:
  assumes "0 < step" "sorted (map se_TS es)"
  shows "\<exists>out. expandHVACHistory es lo hi step = Some out \<and> sorted_wrt (<) (map fst out)
    \<and> (\<forall>(t, a) \<in> set out. lo \<le> t \<and> t \<le> hi \<and> a \<noteq> [] \<and> (\<exists>e. current_at es t e \<and> Attr e ''hvac_action'' = a))
    \<and> (\<forall>x e. lo + step \<le> x \<and> x \<le> hi \<and> current_at es x e \<and> Attr e ''hvac_action'' \<noteq> []
          \<longrightarrow> (\<exists>t. (t, Attr e ''hvac_action'') \<in> set out \<and> x - step < t \<and> t \<le> x))"
proof -
  obtain out where out: "expandHVACHistory es lo hi step = Some out" "sorted_wrt (<) (map fst out)"
    "\<And>t a. (t, a) \<in> set out \<longleftrightarrow> a \<noteq> [] \<and> lo \<le> t \<and> t \<le> hi
          \<and> (\<exists>e. current_at es t e \<and> Attr e ''hvac_action'' = a \<and> (t - se_TS e) mod step = 0)"
    using expand_exact [OF assms, of lo hi] by auto
  have "\<exists>t. (t, Attr e ''hvac_action'') \<in> set out \<and> x - step < t \<and> t \<le> x"
    if h: "lo + step \<le> x" "x \<le> hi" "current_at es x e" "Attr e ''hvac_action'' \<noteq> []" for x e
  proof -
    define t where "t = x - (x - se_TS e) mod step"
    have b: "0 \<le> (x - se_TS e) mod step" "(x - se_TS e) mod step < step" using assms(1) by simp_all
    have le: "(x - se_TS e) mod step \<le> x - se_TS e"
      using h(3) assms(1) by (intro zmod_le_nonneg_dividend) (auto dest: current_at_mem)
    have "t - se_TS e = (x - se_TS e) - (x - se_TS e) mod step" by (simp add: t_def)
    then have "(t - se_TS e) mod step = 0" by (simp add: minus_mod_eq_mult_div)
    moreover have "current_at es t e" using h(3) b le unfolding current_at_def t_def by fastforce
    moreover have "x - step < t" "t \<le> x" "lo \<le> t" using b h(1) by (simp_all add: t_def)
    ultimately show ?thesis using h out(3) by (intro exI [of _ t]) auto
  qed
  with out show ?thesis by (intro exI [of _ out]) auto
qed

theorem expansion_terminates_exactly_witness:
  "\<exists>out. expandHVACHistory [\<lparr>se_TS = 5, se_State = ''cool'', se_Attributes = [''hvac_action'' \<mapsto> JStr ''cooling'']\<rparr>] 0 30 10 = Some out
     \<and> (\<exists>t. (t, ''cooling'') \<in> set out \<and> 10 < t \<and> t \<le> 20)"
proof -
  let ?e = "\<lparr>se_TS = 5, se_State = ''cool'', se_Attributes = [''hvac_action'' \<mapsto> JStr ''cooling'']\<rparr>"
  have c: "current_at [?e] 20 ?e" by (simp add: current_at_Cons)
  have a: "Attr ?e ''hvac_action'' = ''cooling''" by (simp add: Attr_def)
  have "0 < (10 :: int)" "sorted (map se_TS [?e])" by simp_all
  note E = expansion_terminates_exactly [OF this, of 0 30]
  from E obtain out where o: "expandHVACHistory [?e] 0 30 10 = Some out"
    and d: "\<forall>x e. 0 + 10 \<le> x \<and> x \<le> 30 \<and> current_at [?e] x e \<and> Attr e ''hvac_action'' \<noteq> []
          \<longrightarrow> (\<exists>t. (t, Attr e ''hvac_action'') \<in> set out \<and> x - 10 < t \<and> t \<le> x)" by (elim exE conjE)
  have "Attr ?e ''hvac_action'' \<noteq> []" unfolding a by simp
  with d [rule_format, of 20 ?e] c have "\<exists>t. (t, Attr ?e ''hvac_action'') \<in> set out \<and> 20 - 10 < t \<and> t \<le> 20" by simp
  with o show ?thesis unfolding a by (intro exI [of _ out]) simp
qed

section \<open>The plan\<close>

lemma plan_clamped:
  assumes "(lo, hi) \<in> set (planHVACBackfill first gaps now lookback minGap capEnd)" "0 \<le> minGap"
    "now - lookback < capEnd" "\<And>f. first = Some f \<Longrightarrow> f \<le> capEnd"
  shows "lo < hi \<and> hi \<le> capEnd"
  using assms by (auto simp: planHVACBackfill_def Let_def List.map_filter_def split: option.splits if_splits)

text \<open>The leading range is not clamped: an entity first sampled just now is planned up to that sample.\<close>

lemma plan_leading_past_cap:
  "(now - lookback, now) \<in> set (planHVACBackfill (Some now) [] now lookback minGap (now - 2 * hour))" if "minGap < lookback"
  using that by (simp add: planHVACBackfill_def Let_def)

lemma transition_clears: "hvacWatts (ka_action (hvacTransition cur [] ts)) h c = 0 \<and> \<not> ka_set (hvacTransition cur [] ts)"
  by (simp add: hvacTransition_def no_action_def hvacWatts_def)

end
