(* ===== verification/Mqtt.thy ===== *)
theory Mqtt
  imports Store Config Codec
begin

text \<open>
  The publisher, \<open>internal/mqtt/mqtt.go\<close>: discovery configurations, state messages and the
  removal of a meter. A publish is a message in the output of an operation; the number formatted by
  \<open>%g\<close> is kept as a number. The client library is not modelled: whether a client exists is part of
  the state, whether it is connected an argument.
\<close>

datatype payload = Text string | Num real

record mqtt_msg =
  mm_topic :: string
  mm_qos :: nat
  mm_retained :: bool
  mm_payload :: payload

definition availabilityTopic :: string where
  "availabilityTopic = ''winnow/status''"

definition deviceID :: "int \<Rightarrow> string" where
  "deviceID i = ''winnow_'' @ format_int i"

definition stateTopic :: "int \<Rightarrow> string \<Rightarrow> string" where
  "stateTopic i kind = ''winnow/'' @ format_int i @ ''/'' @ kind"

record sensor =
  sn_kind :: string
  sn_nameSuffix :: string
  sn_deviceClass :: string
  sn_stateClass :: string
  sn_unit :: string

definition sensors_of :: "string \<Rightarrow> sensor list" where
  "sensors_of unit =
     [\<lparr>sn_kind = ''energy'', sn_nameSuffix = ''Energy'', sn_deviceClass = ''energy'', sn_stateClass = ''total_increasing'', sn_unit = unit\<rparr>,
      \<lparr>sn_kind = ''power'', sn_nameSuffix = ''Power'', sn_deviceClass = ''power'', sn_stateClass = ''measurement'', sn_unit = ''W''\<rparr>,
      \<lparr>sn_kind = ''signal'', sn_nameSuffix = ''Signal'', sn_deviceClass = [], sn_stateClass = ''measurement'', sn_unit = ''pkt/h''\<rparr>]"

definition member :: "string \<Rightarrow> string \<Rightarrow> (string \<times> json) list" where
  "member k v = (if v \<noteq> [] then [(k, JStr v)] else [])"

text \<open>\<open>encoding/json\<close> writes the members of a map in the order of their names.\<close>

definition sensor_config :: "pub_meter \<Rightarrow> sensor \<Rightarrow> json" where
  "sensor_config m s =
     (let dev = deviceID (pm_EndpointID m);
          name = (case pm_PubName m of Some n \<Rightarrow> if n \<noteq> [] then n else dev | None \<Rightarrow> dev);
          device = JObj [(''identifiers'', JArr [JStr dev]), (''manufacturer'', JStr ''winnow''),
                         (''model'', JStr (pm_Commodity m @ '' meter (ERT)'')), (''name'', JStr name)]
      in JObj ([(''availability_topic'', JStr availabilityTopic), (''device'', device)]
               @ member ''device_class'' (sn_deviceClass s)
               @ [(''name'', JStr (sn_nameSuffix s)), (''object_id'', JStr (dev @ ''_'' @ sn_kind s))]
               @ member ''state_class'' (sn_stateClass s)
               @ [(''state_topic'', JStr (stateTopic (pm_EndpointID m) (sn_kind s))), (''unique_id'', JStr (dev @ ''_'' @ sn_kind s))]
               @ member ''unit_of_measurement'' (sn_unit s)))"

definition config_topic :: "string \<Rightarrow> int \<Rightarrow> string \<Rightarrow> string" where
  "config_topic prefix i kind = prefix @ ''/sensor/'' @ deviceID i @ ''_'' @ kind @ ''/config''"

definition BuildDiscovery :: "string \<Rightarrow> pub_meter \<Rightarrow> (string \<times> string) list" where
  "BuildDiscovery prefix m =
     map (\<lambda>s. (config_topic prefix (pm_EndpointID m) (sn_kind s), enc (sensor_config m s)))
       (sensors_of (case pm_PubUnit m of None \<Rightarrow> [] | Some u \<Rightarrow> u))"

record Publisher =
  pu_client :: bool
  pu_prefix :: string
  pu_known :: "int set"

definition NewPublisher :: Publisher where
  "NewPublisher = \<lparr>pu_client = False, pu_prefix = [], pu_known = {}\<rparr>"

text \<open>The new client replaces the old one before it is known whether the broker answers.\<close>

definition Connect :: "Config \<Rightarrow> bool \<Rightarrow> Publisher \<Rightarrow> bool \<times> Publisher" where
  "Connect cfg ok p = (ok, p\<lparr>pu_prefix := MQTTPrefix cfg, pu_known := {}, pu_client := True\<rparr>)"

definition Connected :: "bool \<Rightarrow> Publisher \<Rightarrow> bool" where
  "Connected is_connected p \<longleftrightarrow> pu_client p \<and> is_connected"

definition state_msg :: "int \<Rightarrow> string \<Rightarrow> real \<Rightarrow> mqtt_msg" where
  "state_msg i kind x = \<lparr>mm_topic = stateTopic i kind, mm_qos = 0, mm_retained = False, mm_payload = Num x\<rparr>"

definition announcements :: "string \<Rightarrow> pub_meter \<Rightarrow> mqtt_msg list" where
  "announcements prefix m =
     map (\<lambda>(t, p). \<lparr>mm_topic = t, mm_qos = 1, mm_retained = True, mm_payload = Text p\<rparr>) (BuildDiscovery prefix m)"

definition PublishState :: "pub_meter \<Rightarrow> real option \<Rightarrow> real option \<Rightarrow> real \<Rightarrow> Publisher \<Rightarrow> mqtt_msg list \<times> Publisher" where
  "PublishState m energy pwr signal p =
     (if \<not> pu_client p then ([], p)
      else
        (let i = pm_EndpointID m;
             (ann, p') = (if i \<notin> pu_known p then (announcements (pu_prefix p) m, p\<lparr>pu_known := insert i (pu_known p)\<rparr>) else ([], p));
             e = (case energy of None \<Rightarrow> [] | Some x \<Rightarrow> [state_msg i ''energy'' x]);
             w = (case pwr of None \<Rightarrow> [] | Some x \<Rightarrow> [state_msg i ''power'' x])
         in (ann @ e @ w @ [state_msg i ''signal'' signal], p')))"

definition Remove :: "pub_meter \<Rightarrow> Publisher \<Rightarrow> mqtt_msg list \<times> Publisher" where
  "Remove m p =
     (if \<not> pu_client p then ([], p)
      else (map (\<lambda>(t, _). \<lparr>mm_topic = t, mm_qos = 1, mm_retained = True, mm_payload = Text []\<rparr>) (BuildDiscovery (pu_prefix p) m),
            p\<lparr>pu_known := pu_known p - {pm_EndpointID m}\<rparr>))"

definition CloseMsgs :: "bool \<Rightarrow> Publisher \<Rightarrow> mqtt_msg list" where
  "CloseMsgs is_connected p =
     (if Connected is_connected p
      then [\<lparr>mm_topic = availabilityTopic, mm_qos = 1, mm_retained = True, mm_payload = Text ''offline''\<rparr>] else [])"
section \<open>What the broker retains\<close>

text \<open>A retained message replaces the one of its topic, an empty one removes it.\<close>

definition retain :: "mqtt_msg \<Rightarrow> (string \<rightharpoonup> payload) \<Rightarrow> (string \<rightharpoonup> payload)" where
  "retain msg r = (if \<not> mm_retained msg then r else if mm_payload msg = Text [] then r(mm_topic msg := None) else r(mm_topic msg \<mapsto> mm_payload msg))"

definition retain_all :: "mqtt_msg list \<Rightarrow> (string \<rightharpoonup> payload) \<Rightarrow> (string \<rightharpoonup> payload)" where
  "retain_all = fold retain"

lemma retain_all_append [simp]: "retain_all (xs @ ys) r = retain_all ys (retain_all xs r)"
  by (simp add: retain_all_def)

lemma retain_all_Nil [simp]: "retain_all [] r = r"
  by (simp add: retain_all_def)

lemma nat_digits_no_sep: "CHR ''_'' \<notin> set (format_int i)"
proof -
  have "\<not> is_digit (CHR ''_'')" by (simp add: is_digit_def code_of_def)
  then show ?thesis using nat_digits_all_digits by (auto simp: format_int_def list_all_iff)
qed

lemma sep_inj: "xs @ c # ys = xs' @ c # ys' \<Longrightarrow> c \<notin> set xs \<Longrightarrow> c \<notin> set xs' \<Longrightarrow> xs = xs' \<and> ys = ys'"
  by (induction xs arbitrary: xs') (auto simp: Cons_eq_append_conv)

lemma config_topic_inj: "config_topic p i k = config_topic p j l \<Longrightarrow> i = j \<and> k = l"
proof -
  assume "config_topic p i k = config_topic p j l"
  then have "format_int i @ CHR ''_'' # k @ ''/config'' = format_int j @ CHR ''_'' # l @ ''/config''"
    by (simp add: config_topic_def deviceID_def)
  from sep_inj [OF this nat_digits_no_sep nat_digits_no_sep] show ?thesis using format_int_inj by auto
qed

definition kinds :: "string list" where "kinds = [''energy'', ''power'', ''signal'']"

lemma map_sn_kind [simp]: "map sn_kind (sensors_of u) = kinds"
  by (simp add: sensors_of_def kinds_def)

lemma retain_map_other:
  "t \<notin> f ` set xs \<Longrightarrow> retain_all (map (\<lambda>x. \<lparr>mm_topic = f x, mm_qos = q, mm_retained = b, mm_payload = g x\<rparr>) xs) r t = r t"
  by (induction xs arbitrary: r) (auto simp: retain_all_def retain_def)

lemma retain_map_last:
  assumes "x \<in> set xs" "inj_on f (set xs)" "distinct xs"
  shows "retain_all (map (\<lambda>x. \<lparr>mm_topic = f x, mm_qos = q, mm_retained = True, mm_payload = g x\<rparr>) xs) r (f x)
       = (if g x = Text [] then None else Some (g x))"
  using assms
proof (induction xs arbitrary: r)
  case (Cons y ys)
  have tl: "retain_all (map (\<lambda>x. \<lparr>mm_topic = f x, mm_qos = q, mm_retained = True, mm_payload = g x\<rparr>) (y # ys)) r
      = retain_all (map (\<lambda>x. \<lparr>mm_topic = f x, mm_qos = q, mm_retained = True, mm_payload = g x\<rparr>) ys) (retain \<lparr>mm_topic = f y, mm_qos = q, mm_retained = True, mm_payload = g y\<rparr> r)"
    by (simp add: retain_all_def)
  show ?case
  proof (cases "x = y")
    case True
    with Cons.prems have "f x \<notin> f ` set ys" by (auto simp: inj_on_def)
    then show ?thesis unfolding tl by (simp add: retain_map_other retain_def True)
  next
    case False
    with Cons show ?thesis unfolding tl by (auto simp: inj_on_def)
  qed
qed simp

lemma dom_retain_texts:
  "(\<And>x. g x \<noteq> Text []) \<Longrightarrow>
   dom (retain_all (map (\<lambda>x. \<lparr>mm_topic = f x, mm_qos = q, mm_retained = True, mm_payload = g x\<rparr>) xs) r) = dom r \<union> f ` set xs"
  by (induction xs arbitrary: r) (auto simp: retain_all_def retain_def)

lemma dom_retain_clears:
  "dom (retain_all (map (\<lambda>x. \<lparr>mm_topic = f x, mm_qos = q, mm_retained = True, mm_payload = Text []\<rparr>) xs) r) = dom r - f ` set xs"
  by (induction xs arbitrary: r) (auto simp: retain_all_def retain_def)

lemma enc_config_nonempty: "enc (sensor_config m s) \<noteq> []"
  by (simp add: sensor_config_def Let_def)

definition config_topics :: "string \<Rightarrow> int \<Rightarrow> string set" where
  "config_topics prefix i = config_topic prefix i ` set kinds"

lemma topics_of_sensors: "(\<lambda>s. config_topic prefix i (sn_kind s)) ` set (sensors_of u) = config_topics prefix i"
  by (simp add: sensors_of_def kinds_def config_topics_def)

lemma announcements_map:
  "announcements prefix m = map (\<lambda>s. \<lparr>mm_topic = config_topic prefix (pm_EndpointID m) (sn_kind s), mm_qos = 1, mm_retained = True,
       mm_payload = Text (enc (sensor_config m s))\<rparr>) (sensors_of (case pm_PubUnit m of None \<Rightarrow> [] | Some u \<Rightarrow> u))"
  by (simp add: announcements_def BuildDiscovery_def o_def)

lemma retain_states [simp]: "retain (state_msg i k x) r = r"
  by (simp add: retain_def state_msg_def)

lemma retain_publish:
  "retain_all (fst (PublishState m e w s p)) r =
     (if pu_client p \<and> pm_EndpointID m \<notin> pu_known p then retain_all (announcements (pu_prefix p) m) r else r)"
  by (auto simp: PublishState_def Let_def retain_all_def split: option.splits)

lemma publish_state:
  "snd (PublishState m e w s p) = (if pu_client p then p\<lparr>pu_known := insert (pm_EndpointID m) (pu_known p)\<rparr> else p)"
  by (auto simp: PublishState_def Let_def insert_absorb)

lemma dom_announce: "dom (retain_all (announcements prefix m) r) = dom r \<union> config_topics prefix (pm_EndpointID m)"
proof -
  let ?ss = "sensors_of (case pm_PubUnit m of None \<Rightarrow> [] | Some u \<Rightarrow> u)"
  have "dom (retain_all (announcements prefix m) r)
      = dom r \<union> (\<lambda>s. config_topic prefix (pm_EndpointID m) (sn_kind s)) ` set ?ss"
    unfolding announcements_map by (rule dom_retain_texts) (simp add: enc_config_nonempty)
  then show ?thesis by (simp only: topics_of_sensors)
qed

lemma dom_remove:
  "dom (retain_all (fst (Remove m p)) r) = (if pu_client p then dom r - config_topics (pu_prefix p) (pm_EndpointID m) else dom r)"
proof -
  let ?ss = "sensors_of (case pm_PubUnit m of None \<Rightarrow> [] | Some u \<Rightarrow> u)"
  have "fst (Remove m p) = (if pu_client p then map (\<lambda>s. \<lparr>mm_topic = config_topic (pu_prefix p) (pm_EndpointID m) (sn_kind s), mm_qos = 1,
      mm_retained = True, mm_payload = Text []\<rparr>) ?ss else [])"
    by (simp add: Remove_def BuildDiscovery_def o_def)
  then show ?thesis by (simp add: dom_retain_clears topics_of_sensors del: One_nat_def)
qed

lemma remove_state: "snd (Remove m p) = (if pu_client p then p\<lparr>pu_known := pu_known p - {pm_EndpointID m}\<rparr> else p)"
  by (simp add: Remove_def)

lemma topics_disjoint: "i \<noteq> j \<Longrightarrow> config_topics p i \<inter> config_topics p j = {}"
  by (auto simp: config_topics_def dest: config_topic_inj)

datatype pub_op = Publish pub_meter "real option" "real option" real | Unpublish pub_meter

definition pub_step :: "pub_op \<Rightarrow> Publisher \<times> (string \<rightharpoonup> payload) \<Rightarrow> Publisher \<times> (string \<rightharpoonup> payload)" where
  "pub_step op s = (case op of
     Publish m e w g \<Rightarrow> (case PublishState m e w g (fst s) of (msgs, p) \<Rightarrow> (p, retain_all msgs (snd s)))
   | Unpublish m \<Rightarrow> (case Remove m (fst s) of (msgs, p) \<Rightarrow> (p, retain_all msgs (snd s))))"

text \<open>The retained topics beyond those of others are the configurations of the known meters.\<close>

definition retains_known :: "(string \<rightharpoonup> payload) \<Rightarrow> Publisher \<Rightarrow> (string \<rightharpoonup> payload) \<Rightarrow> bool" where
  "retains_known r0 p r \<longleftrightarrow> dom r = dom r0 \<union> (\<Union>i \<in> pu_known p. config_topics (pu_prefix p) i)"

lemma pub_step_inv:
  assumes "retains_known r0 p r" "pu_client p" "\<forall>i. config_topics (pu_prefix p) i \<inter> dom r0 = {}" "pub_step op (p, r) = (p', r')"
  shows "retains_known r0 p' r' \<and> pu_client p' \<and> pu_prefix p' = pu_prefix p"
proof (cases op)
  case (Publish m e w g)
  then have s: "p' = snd (PublishState m e w g p)" "r' = retain_all (fst (PublishState m e w g p)) r"
    using assms(4) by (simp_all add: pub_step_def split: prod.splits)
  then show ?thesis using assms(1,2) by (auto simp: retains_known_def publish_state retain_publish dom_announce insert_absorb)
next
  case (Unpublish m)
  then have s: "p' = snd (Remove m p)" "r' = retain_all (fst (Remove m p)) r"
    using assms(4) by (simp_all add: pub_step_def split: prod.splits)
  let ?T = "config_topics (pu_prefix p)"
  have "(\<Union>i \<in> pu_known p. ?T i) - ?T (pm_EndpointID m) = (\<Union>i \<in> pu_known p - {pm_EndpointID m}. ?T i)"
  proof -
    have "?T i - ?T (pm_EndpointID m) = ?T i" if "i \<noteq> pm_EndpointID m" for i
      using topics_disjoint [OF that] by (simp add: Diff_triv)
    then show ?thesis by fastforce
  qed
  moreover have "dom r0 - ?T (pm_EndpointID m) = dom r0" using assms(3) by blast
  ultimately have "dom r - ?T (pm_EndpointID m) = dom r0 \<union> (\<Union>i \<in> pu_known p - {pm_EndpointID m}. ?T i)"
    using assms(1) unfolding retains_known_def by (simp only: Un_Diff)
  then show ?thesis using assms(2) by (simp add: s retains_known_def dom_remove remove_state)
qed

lemma pub_steps_inv:
  assumes "retains_known r0 p r" "pu_client p" "\<forall>i. config_topics (pu_prefix p) i \<inter> dom r0 = {}"
  shows "retains_known r0 (fst (fold pub_step ops (p, r))) (snd (fold pub_step ops (p, r)))
    \<and> pu_prefix (fst (fold pub_step ops (p, r))) = pu_prefix p"
  using assms
proof (induction ops arbitrary: p r)
  case (Cons op ops)
  obtain p' r' where s: "pub_step op (p, r) = (p', r')" by (cases "pub_step op (p, r)")
  from pub_step_inv [OF Cons.prems s] Cons.IH [of p' r'] Cons.prems s show ?case by simp
qed simp

text \<open>
  On one connection the broker keeps exactly the discovery configurations of the meters
  that were announced and not removed: whatever meters are published and removed, in any
  order, the retained topics are the ones retained before, which are none of the
  configurations, and the three of every known meter; the state messages are never retained.
\<close>

theorem broker_retains_known:
  assumes "\<forall>i. config_topics (MQTTPrefix cfg) i \<inter> dom r0 = {}"
    "fold pub_step ops (snd (Connect cfg ok p), r0) = (p', r)"
  shows "dom r = dom r0 \<union> (\<Union>i \<in> pu_known p'. config_topics (MQTTPrefix cfg) i)"
proof -
  let ?p = "snd (Connect cfg ok p)"
  have p: "pu_client ?p" "pu_prefix ?p = MQTTPrefix cfg" "pu_known ?p = {}" by (simp_all add: Connect_def)
  have "retains_known r0 ?p r0" by (simp add: retains_known_def p)
  with pub_steps_inv [of r0 ?p r0 ops] assms p show ?thesis by (simp add: retains_known_def)
qed

text \<open>A known meter is not announced again, so a changed name or unit stays as it was announced.\<close>

lemma rename_not_announced:
  "pm_EndpointID m \<in> pu_known p \<Longrightarrow> retain_all (fst (PublishState m e w s p)) r = r"
  by (simp add: retain_publish)

lemma announced_payload:
  assumes "pu_client p" "pm_EndpointID m \<notin> pu_known p" "s \<in> set (sensors_of (case pm_PubUnit m of None \<Rightarrow> [] | Some u \<Rightarrow> u))"
  shows "retain_all (fst (PublishState m e w g p)) r (config_topic (pu_prefix p) (pm_EndpointID m) (sn_kind s))
       = Some (Text (enc (sensor_config m s)))"
proof -
  let ?ss = "sensors_of (case pm_PubUnit m of None \<Rightarrow> [] | Some u \<Rightarrow> u)"
  let ?f = "\<lambda>s. config_topic (pu_prefix p) (pm_EndpointID m) (sn_kind s)"
  have "distinct (map sn_kind ?ss)" unfolding map_sn_kind by (simp add: kinds_def)
  then have "distinct ?ss" "inj_on sn_kind (set ?ss)" unfolding distinct_map by blast+
  then have "inj_on ?f (set ?ss)" by (auto simp: inj_on_def dest: config_topic_inj)
  then show ?thesis
    unfolding retain_publish announcements_map using assms retain_map_last [OF assms(3), of ?f 1 "\<lambda>s. Text (enc (sensor_config m s))" r] \<open>distinct ?ss\<close>
    by (simp add: enc_config_nonempty)
qed

definition sample_pub_meter :: pub_meter where
  "sample_pub_meter = \<lparr>pm_EndpointID = 7, pm_PubName = Some ''Water'', pm_PubMultiplier = 1, pm_PubUnit = Some ''gal'', pm_MsgType = ''SCM'',
     pm_EndpointType = Some 13, pm_Commodity = ''Water''\<rparr>"

theorem broker_retains_known_witness:
  "let cfg = FromMap (\<lambda>_. []) Map.empty; s = fold pub_step [Publish sample_pub_meter None (Some 3) 12] (snd (Connect cfg True NewPublisher), Map.empty)
   in pu_known (fst s) = {7} \<and> dom (snd s) = config_topics (MQTTPrefix cfg) 7"
proof -
  define cfg where "cfg = FromMap (\<lambda>_. []) Map.empty"
  obtain p' r where s: "fold pub_step [Publish sample_pub_meter None (Some 3) 12] (snd (Connect cfg True NewPublisher), Map.empty) = (p', r)"
    by (cases "fold pub_step [Publish sample_pub_meter None (Some 3) 12] (snd (Connect cfg True NewPublisher), Map.empty)")
  have "pu_known p' = {7}"
    using s publish_state [of sample_pub_meter None "Some 3" 12 "snd (Connect cfg True NewPublisher)"]
    by (auto simp: pub_step_def sample_pub_meter_def Connect_def NewPublisher_def split: prod.splits)
  with broker_retains_known [OF _ s] show ?thesis unfolding Let_def cfg_def [symmetric] s by simp
qed

end
