(* ===== verification/Events.thy ===== *)
theory Events
  imports Store Codec "HOL-Library.Sublist"
begin

text \<open>
  Notifications on their way out of the database: the broker of the dashboard, \<open>cmd/api/broker.go\<close>
  (clients with a bounded queue, the text of an event), and the dispatch of the worker, \<open>listenLoop\<close> of
  \<open>cmd/worker/main.go\<close>. A channel is a number, the queue of a client the list of the texts it has
  not taken yet.
\<close>

section \<open>The broker\<close>

definition queue_size :: nat where "queue_size = 16"

record broker =
  br_clients :: "nat \<rightharpoonup> string list"
  br_next :: nat

definition newBroker :: broker where
  "newBroker = \<lparr>br_clients = Map.empty, br_next = 0\<rparr>"

definition broker_add :: "broker \<Rightarrow> nat \<times> broker" where
  "broker_add b = (br_next b, b\<lparr>br_clients := (br_clients b)(br_next b \<mapsto> []), br_next := br_next b + 1\<rparr>)"

definition broker_remove :: "nat \<Rightarrow> broker \<Rightarrow> broker" where
  "broker_remove ch b = (if br_clients b ch \<noteq> None then b\<lparr>br_clients := (br_clients b)(ch := None)\<rparr> else b)"

text \<open>A send that would block is dropped.\<close>

definition offer :: "string \<Rightarrow> string list \<Rightarrow> string list" where
  "offer msg q = (if length q < queue_size then q @ [msg] else q)"

definition publish :: "string \<Rightarrow> broker \<Rightarrow> broker" where
  "publish msg b = b\<lparr>br_clients := (\<lambda>ch. map_option (offer msg) (br_clients b ch))\<rparr>"

text \<open>A client takes the oldest text of its queue.\<close>

definition receive :: "nat \<Rightarrow> broker \<Rightarrow> string option \<times> broker" where
  "receive ch b = (case br_clients b ch of Some (m # q) \<Rightarrow> (Some m, b\<lparr>br_clients := (br_clients b)(ch \<mapsto> q)\<rparr>) | _ \<Rightarrow> (None, b))"

text \<open>The event of a notification, None for a channel that is not handled.\<close>

definition event_text :: "string \<Rightarrow> string \<Rightarrow> string option" where
  "event_text channel payload =
     (if channel = ''winnow'' then
        (case cut_at unit_sep payload of (i, src, _) \<Rightarrow>
           Some (''{'' @ json_quote ''type'' @ '':'' @ json_quote ''reading'' @ '','' @ json_quote ''endpoint_id'' @ '':'' @ i
                 @ '','' @ json_quote ''source'' @ '':'' @ json_quote src @ ''}''))
      else if channel = ''winnow_ref'' then
        Some (''{'' @ json_quote ''type'' @ '':'' @ json_quote ''reference'' @ '','' @ json_quote ''power'' @ '':'' @ payload @ ''}'')
      else if channel = ''winnow_config'' then Some (''{'' @ json_quote ''type'' @ '':'' @ json_quote ''config'' @ ''}'')
      else if channel = ''winnow_tests'' then Some (''{'' @ json_quote ''type'' @ '':'' @ json_quote ''tests'' @ ''}'')
      else None)"

definition broker_notified :: "string \<times> string \<Rightarrow> broker \<Rightarrow> broker" where
  "broker_notified n b = (case event_text (fst n) (snd n) of None \<Rightarrow> b | Some ev \<Rightarrow> publish ev b)"

section \<open>The worker\<close>

datatype worker_event = ReloadConfig | OnReading int

definition listen_dispatch :: "string \<Rightarrow> string \<Rightarrow> worker_event option" where
  "listen_dispatch channel payload =
     (if channel = ''winnow_config'' then Some ReloadConfig
      else if channel = ''winnow'' then map_option OnReading (parse_int payload)
      else None)"

section \<open>Queues are bounded and in order\<close>

datatype broker_op = Add | Drop nat | Send string | Take nat

text \<open>A run of operations, with what the client \<open>ch\<close> has taken.\<close>

definition broker_op :: "nat \<Rightarrow> broker_op \<Rightarrow> string list \<times> broker \<Rightarrow> string list \<times> broker" where
  "broker_op ch op s = (case op of
     Add \<Rightarrow> (fst s, snd (broker_add (snd s)))
   | Drop c \<Rightarrow> (fst s, broker_remove c (snd s))
   | Send m \<Rightarrow> (fst s, publish m (snd s))
   | Take c \<Rightarrow> (case receive c (snd s) of (r, b) \<Rightarrow> ((case r of Some m \<Rightarrow> if c = ch then fst s @ [m] else fst s | None \<Rightarrow> fst s), b)))"

definition sent :: "broker_op list \<Rightarrow> string list" where
  "sent ops = List.map_filter (\<lambda>op. case op of Send m \<Rightarrow> Some m | _ \<Rightarrow> None) ops"
definition fifo_inv :: "nat \<Rightarrow> string list \<Rightarrow> string list \<times> broker \<Rightarrow> bool" where
  "fifo_inv ch prev s \<longleftrightarrow> ch < br_next (snd s)
     \<and> (\<exists>q. br_clients (snd s) ch = Some q \<and> length q \<le> queue_size \<and> subseq (fst s @ q) prev
          \<and> (length prev \<le> queue_size \<longrightarrow> fst s @ q = prev))"

lemma fifo_step:
  assumes "fifo_inv ch prev s" "op \<noteq> Drop ch"
  shows "fifo_inv ch (prev @ sent [op]) (broker_op ch op s)"
proof -
  obtain t b where s: "s = (t, b)" by (cases s)
  from assms(1) obtain q where n: "ch < br_next b" and q: "br_clients b ch = Some q" "length q \<le> queue_size" "subseq (t @ q) prev"
    "length prev \<le> queue_size \<Longrightarrow> t @ q = prev" by (auto simp: fifo_inv_def s)
  show ?thesis
  proof (cases op)
    case Add
    then show ?thesis using n q by (auto simp: fifo_inv_def s broker_op_def broker_add_def sent_def List.map_filter_def)
  next
    case (Drop c)
    then show ?thesis using n q assms(2) by (auto simp: fifo_inv_def s broker_op_def broker_remove_def sent_def List.map_filter_def)
  next
    case (Send m)
    have len: "length (t @ q) \<le> length prev" using q(3) by (rule list_emb_length)
    have "subseq (t @ q @ [m]) (prev @ [m])" using list_emb_append_mono [OF q(3), of "[m]" "[m]"] by simp
    moreover have "subseq (t @ q) (prev @ [m])" using q(3) by (simp add: subseq_rev_drop_many)
    ultimately show ?thesis using n q len
      by (auto simp: fifo_inv_def s Send broker_op_def publish_def offer_def sent_def List.map_filter_def)
  next
    case (Take c)
    show ?thesis
    proof (cases "c = ch")
      case True
      then show ?thesis using n q
        by (cases q) (auto simp: fifo_inv_def s Take broker_op_def receive_def sent_def List.map_filter_def)
    next
      case False
      then show ?thesis using n q
        by (auto simp: fifo_inv_def s Take broker_op_def receive_def sent_def List.map_filter_def split: option.splits list.splits)
    qed
  qed
qed

lemma sent_Cons: "sent (op # ops) = sent [op] @ sent ops"
  by (simp add: sent_def List.map_filter_def)

lemma fifo_run:
  "fifo_inv ch prev s \<Longrightarrow> Drop ch \<notin> set ops \<Longrightarrow> fifo_inv ch (prev @ sent ops) (fold (broker_op ch) ops s)"
proof (induction ops arbitrary: prev s)
  case Nil
  then show ?case by (simp add: sent_def List.map_filter_def)
next
  case (Cons op ops)
  then have "fifo_inv ch (prev @ sent [op]) (broker_op ch op s)" by (intro fifo_step) auto
  with Cons have "fifo_inv ch ((prev @ sent [op]) @ sent ops) (fold (broker_op ch) ops (broker_op ch op s))" by (intro Cons.IH) auto
  then show ?case by (simp add: sent_Cons [of op ops])
qed

text \<open>
  A client of the broker, from its connection until it leaves, receives texts in the
  order they were published, each at most once, and never has more than 16 waiting,
  whatever other clients do; publishing never waits for it. As long as no more than 16
  texts were published nothing is lost at all.
\<close>

theorem broker_fifo:
  assumes "broker_add b0 = (ch, b1)" "Drop ch \<notin> set ops" "fold (broker_op ch) ops ([], b1) = (taken, b2)"
  shows "\<exists>waiting. br_clients b2 ch = Some waiting \<and> length waiting \<le> 16 \<and> subseq (taken @ waiting) (sent ops)
    \<and> (length (sent ops) \<le> 16 \<longrightarrow> taken @ waiting = sent ops)"
proof -
  have "fifo_inv ch [] ([], b1)" using assms(1) by (auto simp: fifo_inv_def broker_add_def)
  from fifo_run [OF this assms(2)] assms(3) show ?thesis by (auto simp: fifo_inv_def queue_size_def)
qed

theorem broker_fifo_witness:
  "\<exists>waiting. br_clients (snd (fold (broker_op 0) [Send ''a'', Take 0, Send ''b''] ([], snd (broker_add newBroker)))) 0 = Some waiting
     \<and> fst (fold (broker_op 0) [Send ''a'', Take 0, Send ''b''] ([], snd (broker_add newBroker))) @ waiting = [''a'', ''b'']"
proof -
  obtain b1 where b: "broker_add newBroker = (0, b1)" by (simp add: broker_add_def newBroker_def)
  obtain t b2 where f: "fold (broker_op 0) [Send ''a'', Take 0, Send ''b''] ([], b1) = (t, b2)"
    by (cases "fold (broker_op 0) [Send ''a'', Take 0, Send ''b''] ([], b1)")
  have s: "sent [Send ''a'', Take 0, Send ''b''] = [''a'', ''b'']" by (simp add: sent_def List.map_filter_def)
  have "Drop 0 \<notin> set [Send ''a'', Take 0, Send ''b'']" by simp
  from broker_fifo [OF b this f] show ?thesis unfolding b snd_conv f fst_conv s by auto
qed

section \<open>What a stored reading is announced as\<close>

lemma unit_sep_not_in_int: "unit_sep \<notin> set (format_int i)"
proof -
  have "\<not> is_digit unit_sep" "unit_sep \<noteq> CHR ''-''" by (simp_all add: is_digit_def code_of_def unit_sep_def)
  then show ?thesis using nat_digits_all_digits by (auto simp: format_int_def list_all_iff)
qed

lemma cut_payload: "cut_at unit_sep (reading_payload r) = (format_int (EndpointID r), Source r, True)"
proof -
  have "takeWhile (\<lambda>c. c \<noteq> unit_sep) (format_int (EndpointID r) @ unit_sep # Source r) = format_int (EndpointID r)"
    using unit_sep_not_in_int by (subst takeWhile_append2) auto
  moreover have "dropWhile (\<lambda>c. c \<noteq> unit_sep) (format_int (EndpointID r) @ unit_sep # Source r) = unit_sep # Source r"
    using unit_sep_not_in_int by (subst dropWhile_append2) auto
  ultimately show ?thesis by (simp add: cut_at_def reading_payload_def)
qed

lemma p_value_int:
  assumes "0 \<le> i" "c = CHR '','' \<or> c = CHR ''}''"
  shows "p_value (Suc n) (format_int i @ c # r) = Some (JNum (format_int i), c # r)"
proof -
  have "\<not> is_digit c \<and> c \<noteq> CHR ''.'' \<and> c \<noteq> CHR ''e'' \<and> c \<noteq> CHR ''E''"
    using assms(2) by (elim disjE) (simp_all add: is_digit_def code_of_def)
  then show ?thesis using assms(1) p_value_nat_digits [of c n "nat i" r] by (simp add: format_int_def)
qed

lemma members_value:
  assumes "p_value n cs = Some (v, d # rest)" "d = CHR '','' \<or> d = CHR ''}''"
  shows "p_members (Suc n) (json_quote k @ CHR '':'' # cs) =
    (if d = CHR ''}'' then Some ([(k, v)], rest) else map_option (\<lambda>(ms, r). ((k, v) # ms, r)) (p_members n rest))"
proof -
  have "string_body (length (concat (map esc_char k)) + Suc (length s)) (concat (map esc_char k) @ CHR 0x22 # s) = Some (k, s)" for s
    using json_quote_body [of k s] by simp
  from this [of "CHR '':'' # cs"] show ?thesis using assms by (auto simp: json_quote_def skip_ws_nows)
qed

lemma p_value_obj:
  "p_members n (json_quote k @ s) = Some (ms, r) \<Longrightarrow> p_value (Suc n) (CHR ''{'' # json_quote k @ s) = Some (JObj ms, r)"
  by (simp add: json_quote_def skip_ws_nows)

lemma reading_event_parses:
  assumes "0 \<le> EndpointID r"
  shows "\<exists>ev. event_text ''winnow'' (reading_payload r) = Some ev
    \<and> parse_json ev = Some (JObj [(''type'', JStr ''reading''), (''endpoint_id'', JNum (format_int (EndpointID r))), (''source'', JStr (Source r))])"
proof -
  let ?s = "CHR ''}'' # []"
  define c where "c = json_quote ''source'' @ CHR '':'' # json_quote (Source r) @ ?s"
  define b where "b = json_quote ''endpoint_id'' @ CHR '':'' # format_int (EndpointID r) @ CHR '','' # c"
  define a where "a = json_quote ''type'' @ CHR '':'' # json_quote ''reading'' @ CHR '','' # b"
  define ev where "ev = CHR ''{'' # a"
  have len: "2 * length ev + 2 = Suc (Suc (Suc (Suc (Suc (2 * length ev - 3)))))"
    by (simp add: ev_def a_def json_quote_def)
  define n where "n = 2 * length ev - 3"
  have c: "p_members (Suc (Suc n)) c = Some ([(''source'', JStr (Source r))], [])"
    unfolding c_def by (subst members_value [OF p_value_string]) simp_all
  have b: "p_members (Suc (Suc (Suc n))) b
      = Some ([(''endpoint_id'', JNum (format_int (EndpointID r))), (''source'', JStr (Source r))], [])"
    unfolding b_def by (subst members_value [OF p_value_int [OF assms]]) (simp_all only: c, simp_all)
  have a: "p_members (Suc (Suc (Suc (Suc n)))) a
      = Some ([(''type'', JStr ''reading''), (''endpoint_id'', JNum (format_int (EndpointID r))), (''source'', JStr (Source r))], [])"
    unfolding a_def by (subst members_value [OF p_value_string]) (simp_all only: b, simp_all)
  have "p_value (2 * length ev + 2) ev
      = Some (JObj [(''type'', JStr ''reading''), (''endpoint_id'', JNum (format_int (EndpointID r))), (''source'', JStr (Source r))], [])"
    unfolding len n_def [symmetric] using p_value_obj [OF a [unfolded a_def]] by (simp only: ev_def a_def)
  moreover have "event_text ''winnow'' (reading_payload r) = Some ev"
    by (simp add: event_text_def cut_payload ev_def a_def b_def c_def)
  ultimately show ?thesis by (simp add: parse_json_def skip_ws_def)
qed

text \<open>
  C39. Storing a reading announces it to every dashboard: the notification that the insert sends is
  turned into one event, and whatever the source is called the event is a valid JSON object
  with exactly the meter and the source of the reading.
\<close>

theorem reading_is_announced:
  assumes "0 \<le> EndpointID r"
  shows "\<exists>channel pay ev. st_notes (snd (InsertReading all_ok r raw st)) = st_notes st @ [(channel, pay)]
    \<and> event_text channel pay = Some ev
    \<and> parse_json ev = Some (JObj [(''type'', JStr ''reading''), (''endpoint_id'', JNum (format_int (EndpointID r))), (''source'', JStr (Source r))])"
proof -
  have "st_notes (snd (InsertReading all_ok r raw st)) = st_notes st @ [(''winnow'', reading_payload r)]"
    by (simp add: InsertReading_def Let_def all_ok_def notify_def)
  with reading_event_parses [OF assms] show ?thesis by blast
qed

theorem reading_is_announced_witness:
  "\<exists>channel pay ev. st_notes (snd (InsertReading all_ok (sample_reading 0 1) [] empty_store)) = [(channel, pay)] \<and> event_text channel pay = Some ev"
proof -
  have "0 \<le> EndpointID (sample_reading 0 1)" by (simp add: sample_reading_def)
  from reading_is_announced [OF this, of "[]" empty_store] show ?thesis by (auto simp: empty_store_def)
qed

text \<open>
  The worker never publishes on a reading: the payload of the notification that every
  successful insert sends carries the source after a separator, so it is not the decimal
  number the worker expects, and the notification is dropped.
\<close>

theorem worker_misses_readings:
  "listen_dispatch (fst (last (st_notes (snd (InsertReading all_ok r raw st))))) (snd (last (st_notes (snd (InsertReading all_ok r raw st))))) = None"
proof -
  have "parse_int (reading_payload r) = None"
  proof (rule ccontr)
    assume "parse_int (reading_payload r) \<noteq> None"
    then obtain i where "parse_int (reading_payload r) = Some i" by blast
    from parse_int_chars [OF this, of unit_sep] show False
      by (auto simp: reading_payload_def is_digit_def code_of_def unit_sep_def)
  qed
  then show ?thesis by (simp add: InsertReading_def Let_def all_ok_def notify_def listen_dispatch_def)
qed

end
