(* ===== verification/Queries.thy ===== *)
theory Queries
  imports Store Config Codec
begin

text \<open>
  The reads of the database that the worker and the handlers use, and the small writes beside
  them: \<open>meters.go\<close> (latest reading, annotations with registry data, export), \<open>overview.go\<close> (the
  meter at the center, publish outcomes, the worker's own report), \<open>windows.go\<close> (lists), \<open>db.go\<close>
  (devices, notifications, configuration), \<open>consumption.go\<close> (start of history). A query that
  orders by time lists rows of equal time in insertion order; a failing query is the caller's
  Boolean argument where the code tells it from an empty result.
\<close>

section \<open>Readings\<close>

definition counter_rows :: "int \<Rightarrow> store \<Rightarrow> (instant \<times> real) list" where
  "counter_rows i st =
     List.map_filter (\<lambda>(r, _). if EndpointID r = i then map_option (Pair (TS r)) (Consumption r) else None) (st_readings st)"

definition newest_first :: "(instant \<times> 'a) list \<Rightarrow> (instant \<times> 'a) list" where
  "newest_first = sort_key (\<lambda>x. - fst x)"

definition LatestReading :: "int \<Rightarrow> store \<Rightarrow> (instant \<times> real) option" where
  "LatestReading i st = (case newest_first (counter_rows i st) of [] \<Rightarrow> None | x # _ \<Rightarrow> Some x)"

definition LatestMsgType :: "int \<Rightarrow> store \<Rightarrow> string option" where
  "LatestMsgType i st =
     (case newest_first (map (\<lambda>(r, _). (TS r, MsgType r)) (filter (\<lambda>(r, _). EndpointID r = i) (st_readings st))) of
        [] \<Rightarrow> None | (_, m) # _ \<Rightarrow> Some m)"

definition SignalPerHour :: "instant \<Rightarrow> int \<Rightarrow> store \<Rightarrow> real" where
  "SignalPerHour now i st = real (length (filter (\<lambda>(r, _). EndpointID r = i \<and> now - hour \<le> TS r) (st_readings st)))"

definition OldestReadingTS :: "store \<Rightarrow> instant option" where
  "OldestReadingTS st = (if st_readings st = [] then None else Some (Min (set (map (\<lambda>(r, _). TS r) (st_readings st)))))"

definition MeterReadings :: "int \<Rightarrow> instant option \<Rightarrow> instant option \<Rightarrow> store \<Rightarrow> reading list" where
  "MeterReadings i since until st =
     sort_key TS (filter (\<lambda>r. EndpointID r = i \<and> (case since of None \<Rightarrow> True | Some t \<Rightarrow> t \<le> TS r)
        \<and> (case until of None \<Rightarrow> True | Some t \<Rightarrow> TS r \<le> t)) (map fst (st_readings st)))"

section \<open>Annotations\<close>

record meter_info =
  mi_EndpointID :: int
  mi_meter :: meter_row
  mi_MsgType :: string
  mi_EndpointType :: "int option"
  mi_Commodity :: string
  mi_Packets :: int
  mi_LatestConsumption :: "real option"
  mi_FirstSeen :: "instant option"
  mi_LastSeen :: "instant option"

definition MeterInfo :: "int \<Rightarrow> store \<Rightarrow> meter_info" where
  "MeterInfo i st =
     (let ix = st_index st i; et = Option.bind ix ix_endpoint_type in
      \<lparr>mi_EndpointID = i, mi_meter = GetMeter i st,
       mi_MsgType = (case Option.bind ix ix_msg_type of None \<Rightarrow> [] | Some t \<Rightarrow> t),
       mi_EndpointType = et, mi_Commodity = Commodity et,
       mi_Packets = (case ix of None \<Rightarrow> 0 | Some x \<Rightarrow> ix_packets x),
       mi_LatestConsumption = Option.bind ix ix_last,
       mi_FirstSeen = map_option ix_first_seen ix, mi_LastSeen = map_option ix_last_seen ix\<rparr>)"

text \<open>\<open>ids\<close> lists the keys of the annotations in ascending order.\<close>

definition MyMeter :: "int list \<Rightarrow> store \<Rightarrow> (int \<times> meter_row) option" where
  "MyMeter ids st =
     (let ok = List.map_filter (\<lambda>i. case st_meters st i of None \<Rightarrow> None
                 | Some m \<Rightarrow> if \<not> mt_ignored m \<and> (mt_is_mine m \<or> mt_is_candidate m \<and> mt_label m \<noteq> None) then Some (i, m) else None) ids
      in case filter (\<lambda>(_, m). mt_is_mine m) ok @ filter (\<lambda>(_, m). \<not> mt_is_mine m) ok of [] \<Rightarrow> None | x # _ \<Rightarrow> Some x)"

section \<open>Devices and windows\<close>

record Device =
  de_Serial :: string
  de_DevIndex :: int
  de_Name :: string
  de_Tuner :: string
  de_LastSeen :: instant
  de_Alive :: bool
  de_PacketsLastMin :: nat
  de_MetersHeard :: nat
  de_Age :: "duration option"

definition list_device :: "instant \<Rightarrow> duration \<Rightarrow> int list \<Rightarrow> store \<Rightarrow> string \<Rightarrow> device_row \<Rightarrow> Device" where
  "list_device now staleAfter meters st serial d =
     (let age = map_option (\<lambda>h. time_sub now (hb_updated h)) (st_heartbeat st serial) in
      \<lparr>de_Serial = serial, de_DevIndex = dv_index d, de_Name = dv_name d, de_Tuner = dv_tuner d, de_LastSeen = dv_last_seen d,
       de_Alive = (case age of None \<Rightarrow> False | Some a \<Rightarrow> a \<le> staleAfter),
       de_PacketsLastMin = length (filter (\<lambda>(r, _). Source r = serial \<and> now - minute \<le> TS r) (st_readings st)),
       de_MetersHeard = length (filter (\<lambda>i. st_source st (i, serial) \<noteq> None) meters), de_Age = age\<rparr>)"

text \<open>\<open>serials\<close> lists the keys of the device table, \<open>meters\<close> the endpoints of \<open>meter_source\<close>.\<close>

definition ListDevices :: "instant \<Rightarrow> duration \<Rightarrow> string list \<Rightarrow> int list \<Rightarrow> store \<Rightarrow> Device list" where
  "ListDevices now staleAfter serials meters st =
     sort_key de_DevIndex (List.map_filter (\<lambda>s. map_option (list_device now staleAfter meters st s) (st_devices st s)) serials)"

definition ListTests :: "store \<Rightarrow> test_row list" where
  "ListTests st = sort_key (\<lambda>w. - tw_start w) (st_windows st)"

section \<open>Notifications and configuration\<close>

definition NotifyConfig :: "store \<Rightarrow> store" where
  "NotifyConfig = notify ''winnow_config'' []"

definition NotifyTests :: "store \<Rightarrow> store" where
  "NotifyTests = notify ''winnow_tests'' []"

text \<open>\<open>strconv.FormatFloat(x, 'f', 2, 64)\<close>: the nearest number of hundredths, a tie to the even one.\<close>

definition round_even :: "real \<Rightarrow> int" where
  "round_even x = (let n = \<lfloor>x\<rfloor>; f = x - of_int n in
     if f < 1 / 2 then n else if f > 1 / 2 then n + 1 else if even n then n else n + 1)"

definition format_f2 :: "real \<Rightarrow> string" where
  "format_f2 x =
     (let h = nat (round_even (\<bar>x\<bar> * 100)) in
      (if x < 0 then ''-'' else []) @ nat_digits (h div 100) @ ''.'' @ [digit_char (h mod 100 div 10), digit_char (h mod 10)])"

definition NotifyReference :: "real \<Rightarrow> store \<Rightarrow> store" where
  "NotifyReference watts = notify ''winnow_ref'' (format_f2 watts)"

definition LoadConfig :: "(string \<Rightarrow> string) \<Rightarrow> bool \<Rightarrow> store \<Rightarrow> Config option" where
  "LoadConfig envs ok st = map_option (FromMap envs) (GetSettings ok st)"

section \<open>The report of the worker\<close>

record WorkerStatus =
  ws_MQTTConnected :: bool
  ws_Detail :: string
  ws_HAStream :: string
  ws_HALastEventTS :: string
  ws_UpdatedAt :: string

definition omitempty :: "string \<Rightarrow> string \<Rightarrow> (string \<times> json) list" where
  "omitempty k v = (if v = [] then [] else [(k, JStr v)])"

definition status_json :: "WorkerStatus \<Rightarrow> json" where
  "status_json w = JObj ([(''mqtt_connected'', JBool (ws_MQTTConnected w))] @ omitempty ''detail'' (ws_Detail w)
     @ omitempty ''ha_stream'' (ws_HAStream w) @ omitempty ''ha_last_event_ts'' (ws_HALastEventTS w)
     @ [(''updated_at'', JStr (ws_UpdatedAt w))])"

definition SetWorkerStatus :: "instant \<Rightarrow> WorkerStatus \<Rightarrow> store \<Rightarrow> store" where
  "SetWorkerStatus now w st = SetSetting ''worker_status'' (enc (status_json (w\<lparr>ws_UpdatedAt := format_rfc3339 now\<rparr>))) st"

fun status_fields :: "(string \<times> json) list \<Rightarrow> WorkerStatus \<Rightarrow> WorkerStatus option" where
  "status_fields [] w = Some w"
| "status_fields ((k, v) # kvs) w =
     (if equal_fold k ''mqtt_connected'' then
        (case v of JBool b \<Rightarrow> status_fields kvs (w\<lparr>ws_MQTTConnected := b\<rparr>) | JNull \<Rightarrow> status_fields kvs w | _ \<Rightarrow> None)
      else if equal_fold k ''detail'' then (case dec_string v (ws_Detail w) of None \<Rightarrow> None | Some s \<Rightarrow> status_fields kvs (w\<lparr>ws_Detail := s\<rparr>))
      else if equal_fold k ''ha_stream'' then (case dec_string v (ws_HAStream w) of None \<Rightarrow> None | Some s \<Rightarrow> status_fields kvs (w\<lparr>ws_HAStream := s\<rparr>))
      else if equal_fold k ''ha_last_event_ts'' then (case dec_string v (ws_HALastEventTS w) of None \<Rightarrow> None | Some s \<Rightarrow> status_fields kvs (w\<lparr>ws_HALastEventTS := s\<rparr>))
      else if equal_fold k ''updated_at'' then (case dec_string v (ws_UpdatedAt w) of None \<Rightarrow> None | Some s \<Rightarrow> status_fields kvs (w\<lparr>ws_UpdatedAt := s\<rparr>))
      else status_fields kvs w)"

definition GetWorkerStatus :: "bool \<Rightarrow> store \<Rightarrow> WorkerStatus option" where
  "GetWorkerStatus ok st =
     (case GetSettings ok st of None \<Rightarrow> None
      | Some m \<Rightarrow>
          (case m ''worker_status'' of None \<Rightarrow> None
           | Some raw \<Rightarrow> if raw = [] then None
               else (let z = \<lparr>ws_MQTTConnected = False, ws_Detail = [], ws_HAStream = [], ws_HALastEventTS = [], ws_UpdatedAt = []\<rparr> in
                     case parse_json raw of Some (JObj kvs) \<Rightarrow> status_fields kvs z | Some JNull \<Rightarrow> Some z | _ \<Rightarrow> None)))"

section \<open>The report is read back\<close>

lemma status_names:
  "equal_fold ''mqtt_connected'' ''mqtt_connected'' = True" "equal_fold ''detail'' ''mqtt_connected'' = False"
  "equal_fold ''detail'' ''detail'' = True" "equal_fold ''ha_stream'' ''mqtt_connected'' = False" "equal_fold ''ha_stream'' ''detail'' = False"
  "equal_fold ''ha_stream'' ''ha_stream'' = True" "equal_fold ''ha_last_event_ts'' ''mqtt_connected'' = False"
  "equal_fold ''ha_last_event_ts'' ''detail'' = False" "equal_fold ''ha_last_event_ts'' ''ha_stream'' = False"
  "equal_fold ''ha_last_event_ts'' ''ha_last_event_ts'' = True" "equal_fold ''updated_at'' ''mqtt_connected'' = False"
  "equal_fold ''updated_at'' ''detail'' = False" "equal_fold ''updated_at'' ''ha_stream'' = False"
  "equal_fold ''updated_at'' ''ha_last_event_ts'' = False" "equal_fold ''updated_at'' ''updated_at'' = True"
  by code_simp+

lemma status_fields_omit [simp]:
  "status_fields (omitempty ''detail'' s @ kvs) w = status_fields kvs (if s = [] then w else w\<lparr>ws_Detail := s\<rparr>)"
  "status_fields (omitempty ''ha_stream'' s @ kvs) w = status_fields kvs (if s = [] then w else w\<lparr>ws_HAStream := s\<rparr>)"
  "status_fields (omitempty ''ha_last_event_ts'' s @ kvs) w = status_fields kvs (if s = [] then w else w\<lparr>ws_HALastEventTS := s\<rparr>)"
  by (simp_all add: omitempty_def status_names)

lemma enc_obj_nonempty: "enc (JObj kvs) \<noteq> []"
  by (cases "JObj kvs" rule: enc.cases) simp_all

lemma worker_status_read_back:
  "GetWorkerStatus True (SetWorkerStatus now w st) = Some (w\<lparr>ws_UpdatedAt := format_rfc3339 now\<rparr>)"
proof -
  let ?w = "w\<lparr>ws_UpdatedAt := format_rfc3339 now\<rparr>"
  have "no_numbers (status_json ?w)" by (auto simp: status_json_def omitempty_def)
  then have p: "parse_json (enc (status_json ?w)) = Some (status_json ?w)" by (rule parse_enc)
  have ne: "enc (status_json ?w) \<noteq> []" unfolding status_json_def by (rule enc_obj_nonempty)
  show ?thesis
    by (simp add: GetWorkerStatus_def SetWorkerStatus_def GetSettings_def SetSetting_def p ne)
      (cases w; simp add: status_json_def status_names Let_def)
qed

end
