(* ===== verification/Detector.thy ===== *)
theory Detector
  imports Queries
begin

text \<open>
  The automatic test windows of the worker, \<open>cmd/worker/main.go\<close>: the pure decision
  \<open>autoDecide\<close> on one sample of the summed power and the state machine \<open>autoWindow\<close> around it,
  which creates, closes and deletes rows of \<open>test_windows\<close>. Which statements succeed is an
  argument, and so is the survivor count that freezes the snooping pool. A start time that
  is read back is the instant that was stored (its text form is exact).
\<close>

section \<open>The decision\<close>

record autoState =
  as_inited :: bool
  as_baseline :: real
  as_dev :: real
  as_open :: bool
  as_openID :: int
  as_openedAt :: instant
  as_lastClosedAt :: instant

definition zero_auto :: autoState where
  "zero_auto = \<lparr>as_inited = False, as_baseline = 0, as_dev = 0, as_open = False, as_openID = 0,
     as_openedAt = zero_time, as_lastClosedAt = zero_time\<rparr>"

definition autoMaxDuration :: duration where "autoMaxDuration = 15 * minute"
definition autoMinDuration :: duration where "autoMinDuration = 3 * minute"
definition autoCooldown :: duration where "autoCooldown = 5 * minute"
definition autoBaselineA :: real where "autoBaselineA = 2 / 100"
definition autoDevA :: real where "autoDevA = 5 / 100"

datatype autoAction = AutoNone | AutoOpen | AutoClose | AutoDiscard

definition autoDecide :: "autoState \<Rightarrow> real \<Rightarrow> real \<Rightarrow> instant \<Rightarrow> autoAction \<times> autoState" where
  "autoDecide aw watts delta now =
     (let openDelta = (if delta \<le> 0 then 400 else delta) in
      if \<not> as_open aw then
        (let dev = as_dev aw * (1 - autoDevA) + \<bar>watts - as_baseline aw\<bar> * autoDevA;
             baseline = as_baseline aw * (1 - autoBaselineA) + watts * autoBaselineA;
             aw' = aw\<lparr>as_dev := dev, as_baseline := baseline\<rparr>
         in (if watts \<ge> baseline + max openDelta (3 * dev) \<and> time_sub now (as_lastClosedAt aw) \<ge> autoCooldown
             then AutoOpen else AutoNone, aw'))
      else
        (if watts < as_baseline aw + max (openDelta * (1 / 2)) (3 / 2 * as_dev aw) \<or> time_sub now (as_openedAt aw) \<ge> autoMaxDuration
         then (if time_sub now (as_openedAt aw) < autoMinDuration then AutoDiscard else AutoClose)
         else AutoNone, aw))"

section \<open>The state machine\<close>

record auto_env =
  ae_create :: bool
  ae_stop :: bool
  ae_delete :: bool
  ae_freeze :: bool
  ae_survivors :: "nat option"

definition hhmm :: "instant \<Rightarrow> string" where
  "hhmm t = (let s = (t mod day_ns) div 1000000000 in pad_digits 2 (nat (s div 3600)) @ '':'' @ pad_digits 2 (nat (s div 60 mod 60)))"

text \<open>The first sample adopts an open window and takes the power as the baseline.\<close>

definition auto_init :: "real \<Rightarrow> store \<Rightarrow> autoState \<Rightarrow> autoState" where
  "auto_init watts st aw =
     (if as_inited aw then aw
      else (let aw1 = (case OpenWindow ''auto'' st of None \<Rightarrow> aw
                       | Some w \<Rightarrow> aw\<lparr>as_open := True, as_openID := tw_id w, as_openedAt := tw_start w\<rparr>)
            in aw1\<lparr>as_baseline := watts, as_inited := True\<rparr>))"

definition autoWindow :: "auto_env \<Rightarrow> real \<Rightarrow> real \<Rightarrow> bool \<Rightarrow> instant \<Rightarrow> autoState \<times> store \<Rightarrow> autoState \<times> store" where
  "autoWindow e watts openDelta on now s =
     (let st = snd s; aw = auto_init watts st (fst s) in
      if \<not> on then
        (if as_open aw then
           (aw\<lparr>as_open := False, as_lastClosedAt := now\<rparr>, NotifyTests (snd (StopTest (ae_stop e) (as_openID aw) now st)))
         else (aw, st))
      else
        (case autoDecide aw watts openDelta now of (action, aw') \<Rightarrow>
           (case action of
              AutoNone \<Rightarrow> (aw', st)
            | AutoOpen \<Rightarrow>
                (if ae_create e then
                   (case CreateTest (''auto load '' @ hhmm now) now None ''auto'' (Some (math_round (watts - as_baseline aw'))) None st of
                      (t, st') \<Rightarrow> (aw'\<lparr>as_open := True, as_openID := tw_id t, as_openedAt := now\<rparr>, NotifyTests st'))
                 else (aw', st))
            | AutoClose \<Rightarrow>
                (let s1 = snd (StopTest (ae_stop e) (as_openID aw') now st);
                     s2 = FreezeTestSnoopK (ae_freeze e) (as_openID aw') (ae_survivors e) s1
                 in (aw'\<lparr>as_open := False, as_lastClosedAt := now\<rparr>, NotifyTests s2))
            | AutoDiscard \<Rightarrow>
                (aw'\<lparr>as_open := False, as_lastClosedAt := now\<rparr>,
                 NotifyTests (if ae_delete e then DeleteTest (as_openID aw') st else st)))))"
section \<open>Decisions\<close>

lemma decide_closed:
  assumes "\<not> as_open aw" "autoDecide aw p d now = (a, aw')"
  shows "(\<exists>v b. aw' = aw\<lparr>as_dev := v, as_baseline := b\<rparr>) \<and> (a = AutoNone \<or> a = AutoOpen \<and> 5 * minute \<le> now - as_lastClosedAt aw)"
  using assms time_sub_ge_iff [of "5 * minute" now "as_lastClosedAt aw"]
  by (auto simp: autoDecide_def Let_def autoCooldown_def int64_min_def int64_max_def split: if_splits)

lemma decide_open:
  assumes "as_open aw" "autoDecide aw p d now = (a, aw')"
  shows "aw' = aw \<and> (a = AutoNone \<and> now - as_openedAt aw < 15 * minute \<or> a = AutoDiscard \<and> now - as_openedAt aw < 3 * minute
    \<or> a = AutoClose \<and> 3 * minute \<le> now - as_openedAt aw)"
  using assms time_sub_ge_iff [of "15 * minute" now "as_openedAt aw"] time_sub_ge_iff [of "3 * minute" now "as_openedAt aw"]
  by (auto simp: autoDecide_def Let_def autoMaxDuration_def autoMinDuration_def int64_min_def int64_max_def split: if_splits)

section \<open>The windows kept\<close>

definition auto_rows :: "store \<Rightarrow> test_row list" where
  "auto_rows st = filter (\<lambda>w. tw_source w = ''auto'') (st_windows st)"

definition ids_ok :: "store \<Rightarrow> bool" where
  "ids_ok st \<longleftrightarrow> distinct (map tw_id (st_windows st)) \<and> (\<forall>w \<in> set (st_windows st). tw_id w < st_next_window st)"

lemma stop_window_fields [simp]:
  "tw_source (stop_window i t w) = tw_source w" "tw_id (stop_window i t w) = tw_id w" "tw_start (stop_window i t w) = tw_start w"
  by (simp_all add: stop_window_def)

lemma auto_rows_map:
  "(\<And>w. tw_source (f w) = tw_source w) \<Longrightarrow> filter (\<lambda>w. tw_source w = ''auto'') (map f ws) = map f (filter (\<lambda>w. tw_source w = ''auto'') ws)"
  by (induction ws) auto

lemma auto_rows_ops:
  "auto_rows (NotifyTests st) = auto_rows st" "ids_ok (NotifyTests st) = ids_ok st"
  "auto_rows (snd (CreateTest l t None ''auto'' x y st)) = auto_rows st @ [fst (CreateTest l t None ''auto'' x y st)]"
  "ids_ok st \<Longrightarrow> ids_ok (snd (CreateTest l t None ''auto'' x y st))"
  "auto_rows (snd (StopTest True i t st)) = map (stop_window i t) (auto_rows st)"
  "ids_ok (snd (StopTest True i t st)) = ids_ok st"
  "auto_rows (DeleteTest i st) = filter (\<lambda>w. tw_id w \<noteq> i) (auto_rows st)"
  "ids_ok st \<Longrightarrow> ids_ok (DeleteTest i st)"
  by (auto simp: auto_rows_def ids_ok_def NotifyTests_def notify_def CreateTest_def Let_def StopTest_def auto_rows_map DeleteTest_def
      filter_filter conj_commute o_def intro: distinct_map_filter)

lemma CreateTest_row:
  "tw_id (fst (CreateTest l t None ''auto'' x y st)) = st_next_window st" "tw_start (fst (CreateTest l t None ''auto'' x y st)) = t"
  "tw_end (fst (CreateTest l t None ''auto'' x y st)) = None"
  by (simp_all add: CreateTest_def Let_def)

lemma freeze_rows:
  "\<exists>f. (\<forall>w. \<exists>k. f w = w\<lparr>tw_snoop_k := k\<rparr>) \<and> auto_rows (FreezeTestSnoopK ok i n st) = map f (auto_rows st)
     \<and> ids_ok (FreezeTestSnoopK ok i n st) = ids_ok st"
proof (cases "n = None \<or> n = Some 0 \<or> \<not> ok")
  case True
  then have "FreezeTestSnoopK ok i n st = st" by (auto simp: FreezeTestSnoopK_def split: option.split)
  moreover have "\<exists>k. w = w\<lparr>tw_snoop_k := k\<rparr>" for w :: test_row by (rule exI [of _ "tw_snoop_k w"]) simp
  ultimately show ?thesis by (intro exI [of _ "\<lambda>w. w"]) simp
next
  case False
  then obtain m where "n = Some m" "m \<noteq> 0" ok by auto
  then have eq: "FreezeTestSnoopK ok i n st = SetTestSnoopK i (int m) st" by (simp add: FreezeTestSnoopK_def)
  define f where "f w = (if tw_id w = i then w\<lparr>tw_snoop_k := Some (int m)\<rparr> else w)" for w :: test_row
  have f: "tw_source (f w) = tw_source w" "tw_id (f w) = tw_id w" "\<exists>k. f w = w\<lparr>tw_snoop_k := k\<rparr>" for w
    by (auto simp: f_def intro: exI [of _ "tw_snoop_k w"])
  have w: "st_windows (SetTestSnoopK i (int m) st) = map f (st_windows st)" "st_next_window (SetTestSnoopK i (int m) st) = st_next_window st"
    by (simp_all add: SetTestSnoopK_def f_def)
  then have "ids_ok (SetTestSnoopK i (int m) st) = ids_ok st" by (simp add: ids_ok_def o_def f)
  moreover have "auto_rows (SetTestSnoopK i (int m) st) = map f (auto_rows st)" by (simp add: auto_rows_def w auto_rows_map f)
  ultimately show ?thesis unfolding eq using f(3) by blast
qed

text \<open>A kept window is closed, at least three minutes long and at most fifteen and a sample gap.\<close>

definition kept :: "duration \<Rightarrow> test_row \<Rightarrow> bool" where
  "kept G w \<longleftrightarrow> (\<exists>e. tw_end w = Some e \<and> tw_start w + 3 * minute \<le> e \<and> e \<le> tw_start w + 15 * minute + G)"

definition apart :: "test_row \<Rightarrow> test_row \<Rightarrow> bool" where
  "apart v w \<longleftrightarrow> (\<forall>e. tw_end v = Some e \<longrightarrow> e + 5 * minute \<le> tw_start w)"

definition detector_inv :: "duration \<Rightarrow> instant \<Rightarrow> autoState \<times> store \<Rightarrow> bool" where
  "detector_inv G prev s \<longleftrightarrow>
     ids_ok (snd s) \<and> as_lastClosedAt (fst s) \<le> prev \<and> sorted_wrt apart (auto_rows (snd s))
     \<and> (as_inited (fst s) \<or> auto_rows (snd s) = [] \<and> \<not> as_open (fst s))
     \<and> (if as_open (fst s) then
          (\<exists>closed w. auto_rows (snd s) = closed @ [w] \<and> tw_id w = as_openID (fst s) \<and> tw_start w = as_openedAt (fst s) \<and> tw_end w = None
             \<and> (\<forall>c \<in> set closed. kept G c) \<and> as_openedAt (fst s) \<le> prev \<and> prev < as_openedAt (fst s) + 15 * minute
             \<and> (\<forall>c \<in> set closed. \<forall>e. tw_end c = Some e \<longrightarrow> e \<le> prev))
        else (\<forall>c \<in> set (auto_rows (snd s)). kept G c \<and> (\<forall>e. tw_end c = Some e \<longrightarrow> e \<le> as_lastClosedAt (fst s))))"

lemma auto_init_fields:
  assumes "as_inited aw \<or> auto_rows st = [] \<and> \<not> as_open aw"
  shows "as_open (auto_init p st aw) = as_open aw" "as_openID (auto_init p st aw) = as_openID aw"
    "as_openedAt (auto_init p st aw) = as_openedAt aw" "as_lastClosedAt (auto_init p st aw) = as_lastClosedAt aw" "as_inited (auto_init p st aw)"
proof -
  have "OpenWindow ''auto'' st = None" if "auto_rows st = []"
  proof -
    have "filter (\<lambda>w. tw_end w = None \<and> tw_source w = ''auto'') (st_windows st) = []"
      using that by (auto simp: auto_rows_def filter_empty_conv)
    then show ?thesis by (simp add: OpenWindow_def)
  qed
  then show "as_open (auto_init p st aw) = as_open aw" "as_openID (auto_init p st aw) = as_openID aw"
    "as_openedAt (auto_init p st aw) = as_openedAt aw" "as_lastClosedAt (auto_init p st aw) = as_lastClosedAt aw" "as_inited (auto_init p st aw)"
    using assms by (auto simp: auto_init_def Let_def)
qed

lemma stop_kept: "kept G c \<Longrightarrow> stop_window i t c = c"
  by (auto simp: kept_def stop_window_def)

lemma map_stop_kept: "\<forall>c \<in> set cs. kept G c \<Longrightarrow> map (stop_window i t) cs = cs"
  by (intro map_idI) (auto intro: stop_kept)

lemma same_times:
  assumes "\<forall>w. \<exists>k. f w = w\<lparr>tw_snoop_k := k\<rparr>"
  shows "tw_start (f w) = tw_start w" "tw_end (f w) = tw_end w" "kept G (f w) = kept G w" "apart (f v) (f w) = apart v w"
proof -
  obtain k l where "f w = w\<lparr>tw_snoop_k := k\<rparr>" "f v = v\<lparr>tw_snoop_k := l\<rparr>" using assms by blast
  then show "tw_start (f w) = tw_start w" "tw_end (f w) = tw_end w" "kept G (f w) = kept G w" "apart (f v) (f w) = apart v w"
    by (simp_all add: kept_def apart_def)
qed

lemma detector_closed_step:
  assumes inv: "detector_inv G prev (aw, st)" "\<not> as_open aw" and now: "prev \<le> now" and e: "ae_create e"
  shows "detector_inv G now (autoWindow e p d True now (aw, st))"
proof -
  define aw1 where "aw1 = auto_init p st aw"
  have i: "as_inited aw \<or> auto_rows st = [] \<and> \<not> as_open aw" using inv(1) by (simp add: detector_inv_def)
  note f = auto_init_fields [OF i, of p, folded aw1_def]
  obtain a aw' where d: "autoDecide aw1 p d now = (a, aw')" by (cases "autoDecide aw1 p d now")
  have "\<not> as_open aw1" using f(1) inv(2) by simp
  from decide_closed [OF this d] obtain v b where aw': "aw' = aw1\<lparr>as_dev := v, as_baseline := b\<rparr>"
    and a: "a = AutoNone \<or> a = AutoOpen \<and> 5 * minute \<le> now - as_lastClosedAt aw" using f(4) by auto
  from inv have I: "ids_ok st" "as_lastClosedAt aw \<le> prev" "sorted_wrt apart (auto_rows st)"
    "\<And>c. c \<in> set (auto_rows st) \<Longrightarrow> kept G c" "\<And>c e. c \<in> set (auto_rows st) \<Longrightarrow> tw_end c = Some e \<Longrightarrow> e \<le> as_lastClosedAt aw"
    by (auto simp: detector_inv_def)
  from a show ?thesis
  proof (elim disjE conjE)
    assume "a = AutoNone"
    then have "autoWindow e p d True now (aw, st) = (aw', st)" by (simp add: autoWindow_def Let_def aw1_def [symmetric] d)
    then show ?thesis using I now inv(2) by (auto simp: detector_inv_def aw' f)
  next
    assume o: "a = AutoOpen" and cool: "5 * minute \<le> now - as_lastClosedAt aw"
    obtain t st' where c: "CreateTest (''auto load '' @ hhmm now) now None ''auto'' (Some (math_round (p - as_baseline aw'))) None st = (t, st')"
      by (cases "CreateTest (''auto load '' @ hhmm now) now None ''auto'' (Some (math_round (p - as_baseline aw'))) None st")
    have t: "tw_start t = now" "tw_end t = None" "auto_rows st' = auto_rows st @ [t]" "ids_ok st'"
      using CreateTest_row auto_rows_ops(3,4) I(1) c by (metis fst_conv snd_conv)+
    have step: "autoWindow e p d True now (aw, st) = (aw'\<lparr>as_open := True, as_openID := tw_id t, as_openedAt := now\<rparr>, NotifyTests st')"
      by (simp only: autoWindow_def Let_def fst_conv snd_conv aw1_def [symmetric] d o prod.case autoAction.case e c if_True not_True_eq_False if_False)
    have "\<forall>x \<in> set (auto_rows st). apart x t" using I(5) cool t(1) by (fastforce simp: apart_def)
    moreover have "e \<le> now" if "c \<in> set (auto_rows st)" "tw_end c = Some e" for c e using I(2) I(5) [OF that] now by simp
    ultimately show ?thesis using I now t unfolding step
      by (auto simp: detector_inv_def auto_rows_ops aw' f sorted_wrt_append)
  qed
qed

lemma detector_open_step:
  assumes inv: "detector_inv G prev (aw, st)" "as_open aw" and now: "prev \<le> now" "now \<le> prev + G" and e: "ae_stop e" "ae_delete e"
  shows "detector_inv G now (autoWindow e p d True now (aw, st))"
proof -
  define aw1 where "aw1 = auto_init p st aw"
  have i: "as_inited aw \<or> auto_rows st = [] \<and> \<not> as_open aw" using inv(1) by (simp add: detector_inv_def)
  note f = auto_init_fields [OF i, of p, folded aw1_def]
  obtain a aw' where d: "autoDecide aw1 p d now = (a, aw')" by (cases "autoDecide aw1 p d now")
  have "as_open aw1" using f(1) inv(2) by simp
  from decide_open [OF this d] have aw': "aw' = aw1"
    and a: "a = AutoNone \<and> now - as_openedAt aw < 15 * minute \<or> a = AutoDiscard \<or> a = AutoClose \<and> 3 * minute \<le> now - as_openedAt aw"
    using f(3) by auto
  from inv obtain cs w where I: "ids_ok st" "as_lastClosedAt aw \<le> prev" "sorted_wrt apart (cs @ [w])" "auto_rows st = cs @ [w]"
    "tw_id w = as_openID aw" "tw_start w = as_openedAt aw" "tw_end w = None" "\<forall>c \<in> set cs. kept G c"
    "as_openedAt aw \<le> prev" "prev < as_openedAt aw + 15 * minute" "\<forall>c \<in> set cs. \<forall>e. tw_end c = Some e \<longrightarrow> e \<le> prev"
    by (auto simp: detector_inv_def)
  have late: "\<forall>c \<in> set cs. \<forall>e. tw_end c = Some e \<longrightarrow> e \<le> now" using I(11) now(1) by (meson order_trans)
  from a show ?thesis
  proof (elim disjE conjE)
    assume a: "a = AutoNone" "now - as_openedAt aw < 15 * minute"
    then have step: "autoWindow e p d True now (aw, st) = (aw', st)"
      by (simp only: autoWindow_def Let_def fst_conv snd_conv aw1_def [symmetric] d prod.case autoAction.case not_True_eq_False if_False)
    show ?thesis unfolding step using I a(2) now late inv(2) by (auto simp: detector_inv_def aw' f)
  next
    assume a: "a = AutoDiscard"
    have step: "autoWindow e p d True now (aw, st) = (aw1\<lparr>as_open := False, as_lastClosedAt := now\<rparr>, NotifyTests (DeleteTest (as_openID aw) st))"
      by (simp only: autoWindow_def Let_def fst_conv snd_conv aw1_def [symmetric] d a prod.case autoAction.case e not_True_eq_False if_False if_True aw' f(2))
    have "distinct (map tw_id (cs @ [w]))"
      using I(1) I(4) [symmetric] distinct_map_filter [of tw_id "st_windows st"] by (simp add: ids_ok_def auto_rows_def)
    then have "filter (\<lambda>x. tw_id x \<noteq> as_openID aw) (cs @ [w]) = cs"
      using I(5) by (auto simp: filter_id_conv) (metis image_eqI)
    then show ?thesis unfolding step using I late by (auto simp: detector_inv_def auto_rows_ops f sorted_wrt_append)
  next
    assume a: "a = AutoClose" "3 * minute \<le> now - as_openedAt aw"
    define st' where "st' = FreezeTestSnoopK (ae_freeze e) (as_openID aw) (ae_survivors e) (snd (StopTest True (as_openID aw) now st))"
    have step: "autoWindow e p d True now (aw, st) = (aw1\<lparr>as_open := False, as_lastClosedAt := now\<rparr>, NotifyTests st')"
      using e by (simp only: autoWindow_def Let_def fst_conv snd_conv aw1_def [symmetric] d a(1) prod.case autoAction.case not_True_eq_False if_False aw' f(2) st'_def)
    obtain g where g: "\<forall>w. \<exists>k. g w = w\<lparr>tw_snoop_k := k\<rparr>" and rows: "auto_rows st' = map g (auto_rows (snd (StopTest True (as_openID aw) now st)))"
      and ok: "ids_ok st'" using freeze_rows auto_rows_ops(6) I(1) unfolding st'_def by metis
    define w' where "w' = w\<lparr>tw_end := Some now\<rparr>"
    have "stop_window (as_openID aw) now w = w'" using I(5,7) by (simp add: stop_window_def w'_def)
    then have R: "auto_rows st' = map g (cs @ [w'])"
      unfolding rows auto_rows_ops I(4) by (simp add: map_stop_kept [OF I(8)])
    have "kept G w'" using I(6,10) a(2) now(2) by (simp add: kept_def w'_def)
    then have "\<forall>c \<in> set (cs @ [w']). kept G c" using I(8) by simp
    moreover have "sorted_wrt apart (cs @ [w'])" using I(3) by (auto simp: sorted_wrt_append apart_def w'_def)
    then have "sorted_wrt apart (map g (cs @ [w']))" by (simp only: sorted_wrt_map same_times(4) [OF g])
    moreover have "\<forall>c \<in> set (cs @ [w']). \<forall>e. tw_end c = Some e \<longrightarrow> e \<le> now" using late by (auto simp: w'_def)
    ultimately show ?thesis unfolding step using ok
      by (auto simp: detector_inv_def auto_rows_ops f R same_times [OF g])
  qed
qed

section \<open>Any feed of samples\<close>

text \<open>A sample: the statements that succeed, the power, the threshold and the time.\<close>

type_synonym auto_sample = "auto_env \<times> real \<times> real \<times> instant"

definition auto_run :: "auto_sample list \<Rightarrow> autoState \<times> store \<Rightarrow> autoState \<times> store" where
  "auto_run = fold (\<lambda>(e, p, d, t). autoWindow e p d True t)"

fun fed :: "duration \<Rightarrow> instant \<Rightarrow> auto_sample list \<Rightarrow> bool" where
  "fed G prev [] = True"
| "fed G prev ((e, p, d, t) # ss) = (ae_create e \<and> ae_stop e \<and> ae_delete e \<and> prev \<le> t \<and> t \<le> prev + G \<and> fed G t ss)"

lemma detector_step:
  "detector_inv G prev s \<Longrightarrow> prev \<le> now \<Longrightarrow> now \<le> prev + G \<Longrightarrow> ae_create e \<Longrightarrow> ae_stop e \<Longrightarrow> ae_delete e
   \<Longrightarrow> detector_inv G now (autoWindow e p d True now s)"
  using detector_closed_step detector_open_step by (cases s) (metis fst_conv)

lemma detector_run: "detector_inv G prev s \<Longrightarrow> fed G prev ss \<Longrightarrow> \<exists>now. detector_inv G now (auto_run ss s)"
proof (induction ss arbitrary: prev s)
  case (Cons x ss)
  obtain e p d t where x: "x = (e, p, d, t)" by (cases x)
  from Cons.prems have "detector_inv G t (autoWindow e p d True t s)" "fed G t ss" by (auto simp: x intro: detector_step)
  from Cons.IH [OF this] show ?case by (simp add: auto_run_def x)
qed (auto simp: auto_run_def)


definition good_env :: auto_env where
  "good_env = \<lparr>ae_create = True, ae_stop = True, ae_delete = True, ae_freeze = True, ae_survivors = None\<rparr>"


text \<open>
  The error of the closing statement is dropped: when it fails the row stays open although the
  detector has forgotten it, and no later sample closes it.
\<close>

lemma failed_stop_orphans:
  assumes "as_inited aw" "as_open aw" "autoDecide aw p d now = (AutoClose, aw)" "\<not> ae_stop e" "ae_survivors e = None"
  shows "autoWindow e p d True now (aw, st) = (aw\<lparr>as_open := False, as_lastClosedAt := now\<rparr>, NotifyTests st)"
  using assms by (simp add: autoWindow_def auto_init_def Let_def StopTest_def FreezeTestSnoopK_def)

text \<open>A window that is closed because the feature is switched off is neither frozen nor discarded.\<close>

lemma switched_off_not_frozen:
  assumes "as_inited aw" "as_open aw"
  shows "autoWindow e p d False now (aw, st) = (aw\<lparr>as_open := False, as_lastClosedAt := now\<rparr>, NotifyTests (snd (StopTest (ae_stop e) (as_openID aw) now st)))"
  using assms by (simp add: autoWindow_def auto_init_def Let_def)

end
