(* ===== verification/Worker.thy ===== *)
theory Worker
  imports Detector Hvac Mqtt Events
begin

text \<open>
  The hub, \<open>cmd/worker/main.go\<close>: resolution of the monitored entities, publishing with its
  throttled outcomes, the reload of the configuration, the callbacks of the live
  subscription (normalization to watts, keepalive, aggregate), the scheduled backfills and
  the one-time materialization of history. Time, the results of statements and what Home
  Assistant answers are arguments; connectivity of the broker is one where it matters.
\<close>

section \<open>Entities\<close>

record einfo =
  ei_kind :: string
  ei_factor :: real

definition unitFactor :: "string \<Rightarrow> string \<Rightarrow> real" where
  "unitFactor kind unit =
     (let u = to_upper unit in if u = ''KW'' then 1000 else if u = ''WH'' then 1 / 1000 else if u = ''MWH'' then 1000 else 1)"

text \<open>The last sensor of an identifier wins; \<open>None\<close> of the sensors is the error of the request.\<close>

definition buildEntityInfo :: "Entity list option \<Rightarrow> string list \<Rightarrow> (string \<rightharpoonup> einfo) \<times> bool" where
  "buildEntityInfo sensors entities =
     (case sensors of None \<Rightarrow> (Map.empty, False)
      | Some ss \<Rightarrow>
          (\<lambda>e. if e \<notin> set entities then None
               else map_option (\<lambda>s. \<lparr>ei_kind = en_Kind s, ei_factor = unitFactor (en_Kind s) (en_Unit s)\<rparr>)
                      (map_of (rev (map (\<lambda>s. (en_EntityID s, s)) ss)) e), True))"

definition resolveEntityInfo :: "(string \<rightharpoonup> einfo) \<Rightarrow> (string \<rightharpoonup> einfo) \<Rightarrow> string list \<Rightarrow> (string \<rightharpoonup> einfo) \<times> bool" where
  "resolveEntityInfo fresh cache entities =
     (let out = (\<lambda>e. if e \<notin> set entities then None else case fresh e of Some i \<Rightarrow> Some i | None \<Rightarrow> cache e)
      in (out, \<exists>e \<in> set entities. out e \<noteq> None))"

section \<open>State\<close>

record pubNote =
  pn_ok :: bool
  pn_err :: string
  pn_at :: instant

record worker =
  wk_cfg :: Config
  wk_pub :: Publisher
  wk_publishSet :: "(int \<times> pub_meter) list"
  wk_pubNoted :: "int \<rightharpoonup> pubNote"
  wk_haRestart :: bool
  wk_utilRestart :: bool
  wk_aw :: autoState
  wk_einfo :: "string \<rightharpoonup> einfo"
  wk_mqttDetail :: string
  wk_haStream :: string
  wk_lastRef :: int

definition putWorkerStatus :: "instant \<Rightarrow> bool \<Rightarrow> worker \<Rightarrow> store \<Rightarrow> store" where
  "putWorkerStatus now conn w st =
     SetWorkerStatus now
       \<lparr>ws_MQTTConnected = Connected conn (wk_pub w), ws_Detail = wk_mqttDetail w, ws_HAStream = wk_haStream w,
        ws_HALastEventTS = (if wk_lastRef w > 0 then format_rfc3339 (wk_lastRef w * 1000000000) else []), ws_UpdatedAt = []\<rparr> st"

definition setHAStream :: "instant \<Rightarrow> bool \<Rightarrow> string \<Rightarrow> worker \<times> store \<Rightarrow> worker \<times> store" where
  "setHAStream now conn state s =
     (let w = (fst s)\<lparr>wk_haStream := state\<rparr> in
      if wk_haStream (fst s) = state then (w, snd s) else (w, putWorkerStatus now conn w (snd s)))"

section \<open>Publishing\<close>

text \<open>The new set, and the removal of the discovery of every meter that left it; \<open>None\<close> is a failed query.\<close>

definition refreshPublishSet :: "pub_meter list option \<Rightarrow> worker \<Rightarrow> mqtt_msg list \<times> worker" where
  "refreshPublishSet meters w =
     (case meters of None \<Rightarrow> ([], w)
      | Some ms \<Rightarrow>
          (let next = AList.clearjunk (rev (map (\<lambda>m. (pm_EndpointID m, m)) ms));
               gone = map snd (filter (\<lambda>(i, m). i \<notin> fst ` set next) (wk_publishSet w));
               (msgs, p) = fold (\<lambda>m (out, p). case Remove m p of (o', p') \<Rightarrow> (out @ o', p')) gone ([], wk_pub w)
           in (msgs, w\<lparr>wk_publishSet := next, wk_pub := p\<rparr>)))"

definition notePublish :: "instant \<Rightarrow> int \<Rightarrow> bool \<Rightarrow> string \<Rightarrow> worker \<times> store \<Rightarrow> worker \<times> store" where
  "notePublish now i ok err s =
     (let w = fst s; prev = wk_pubNoted w i;
          transition = (case prev of None \<Rightarrow> True | Some n \<Rightarrow> pn_ok n \<noteq> ok \<or> \<not> ok \<and> pn_err n \<noteq> err);
          recent = (case prev of None \<Rightarrow> False | Some n \<Rightarrow> time_sub now (pn_at n) < 30 * second)
      in if \<not> transition \<and> ok \<and> recent then s
         else (w\<lparr>wk_pubNoted := (wk_pubNoted w)(i \<mapsto> \<lparr>pn_ok = ok, pn_err = err, pn_at = now\<rparr>)\<rparr>,
               if ok then RecordPublishOK now i (snd s) else RecordPublishError now i err (snd s)))"

definition onReading :: "instant \<Rightarrow> bool \<Rightarrow> int \<Rightarrow> worker \<times> store \<Rightarrow> mqtt_msg list \<times> worker \<times> store" where
  "onReading now conn i s =
     (let w = fst s; st = snd s in
      case map_of (wk_publishSet w) i of None \<Rightarrow> ([], s)
      | Some m \<Rightarrow>
          if \<not> Connected conn (wk_pub w) then ([], notePublish now i False ''mqtt broker not connected'' s)
          else
            (let energy = map_option (\<lambda>(_, c). c * pm_PubMultiplier m) (LatestReading i st);
                 watts = DerivedPower (newest_first (counter_rows i st)) (pm_PubMultiplier m);
                 (msgs, p) = PublishState m energy watts (SignalPerHour now i st) (wk_pub w)
             in (msgs, notePublish now i True [] (w\<lparr>wk_pub := p\<rparr>, st))))"

text \<open>What the reload finds: whether the settings load, the broker before, the connection attempt, the broker after and the flagged meters.\<close>

record reload_env =
  re_envs :: "string \<Rightarrow> string"
  re_load :: bool
  re_before :: bool
  re_connect :: bool
  re_after :: bool
  re_meters :: "pub_meter list option"

definition reloadConfig :: "instant \<Rightarrow> reload_env \<Rightarrow> worker \<times> store \<Rightarrow> mqtt_msg list \<times> worker \<times> store" where
  "reloadConfig now e s =
     (case LoadConfig (re_envs e) (re_load e) (snd s) of None \<Rightarrow> ([], s)
      | Some cfg \<Rightarrow>
          (let w = fst s; prevHost = MQTTHost (wk_cfg w); prevUser = MQTTUser (wk_cfg w); w1 = w\<lparr>wk_cfg := cfg\<rparr>;
               w2 = (if MQTTConfigured cfg \<and> (\<not> Connected (re_before e) (wk_pub w) \<or> prevHost \<noteq> MQTTHost cfg \<or> prevUser \<noteq> MQTTUser cfg)
                     then w1\<lparr>wk_pub := snd (Connect cfg (re_connect e) (wk_pub w1))\<rparr> else w1);
               w3 = w2\<lparr>wk_mqttDetail := (if \<not> MQTTConfigured cfg then ''not configured'' else [])\<rparr>;
               st = putWorkerStatus now (re_after e) w3 (snd s);
               (msgs, w4) = refreshPublishSet (re_meters e) w3
           in (msgs, w4\<lparr>wk_haRestart := True, wk_utilRestart := True\<rparr>, st)))"

text \<open>One notification of the listener.\<close>

definition listen_step :: "instant \<Rightarrow> reload_env \<Rightarrow> string \<times> string \<Rightarrow> worker \<times> store \<Rightarrow> mqtt_msg list \<times> worker \<times> store" where
  "listen_step now e n s =
     (case listen_dispatch (fst n) (snd n) of None \<Rightarrow> ([], s)
      | Some ReloadConfig \<Rightarrow> reloadConfig now e s
      | Some (OnReading i) \<Rightarrow> onReading now (re_after e) i s)"
section \<open>Outcomes are truthful\<close>

text \<open>The row of every meter with a remembered outcome tells that outcome.\<close>

definition outcomes_ok :: "worker \<times> store \<Rightarrow> bool" where
  "outcomes_ok s \<longleftrightarrow> (\<forall>i n. wk_pubNoted (fst s) i = Some n \<longrightarrow>
     (\<exists>p. st_publish (snd s) i = Some p \<and> pb_last_error p = (if pn_ok n then None else Some (pn_err n))
        \<and> (pn_ok n \<longrightarrow> pb_last_publish p = Some (pn_at n))))"

lemma RecordPublish_row:
  "st_publish (RecordPublishOK now i st) = (st_publish st)(i \<mapsto> \<lparr>pb_last_publish = Some now, pb_last_error = None, pb_updated = now\<rparr>)"
  "\<exists>p. st_publish (RecordPublishError now i e st) = (st_publish st)(i \<mapsto> p) \<and> pb_last_error p = Some e"
proof -
  let ?p = "\<lparr>pb_last_publish = (case st_publish st i of None \<Rightarrow> None | Some p \<Rightarrow> pb_last_publish p), pb_last_error = Some e, pb_updated = now\<rparr>"
  show "\<exists>p. st_publish (RecordPublishError now i e st) = (st_publish st)(i \<mapsto> p) \<and> pb_last_error p = Some e"
    by (intro exI [of _ ?p]) (simp add: RecordPublishError_def)
qed (simp add: RecordPublishOK_def)

text \<open>
  The publish status in the database is the truth up to thirty seconds: from any state
  whose rows tell the remembered outcomes, after an outcome is noted the row of the meter
  shows exactly that outcome, with its reason; a success also shows a publish less than
  thirty seconds old; and the rows still tell all remembered outcomes.
\<close>

theorem publish_status_truthful:
  assumes "outcomes_ok s" "notePublish now i ok err s = s'"
  shows "outcomes_ok s' \<and> (\<exists>p. st_publish (snd s') i = Some p \<and> pb_last_error p = (if ok then None else Some err)
    \<and> (ok \<longrightarrow> (\<exists>t. pb_last_publish p = Some t \<and> now - t < 30 * second)))"
proof -
  let ?n = "\<lparr>pn_ok = ok, pn_err = err, pn_at = now\<rparr>"
  have iff: "time_sub now t < 30 * second \<longleftrightarrow> now - t < 30 * second" for t
    using time_sub_ge_iff [of "30 * second" now t] by (simp add: int64_min_def int64_max_def not_le [symmetric])
  show ?thesis
  proof (cases "s' = s \<and> ok \<and> (\<exists>n. wk_pubNoted (fst s) i = Some n \<and> pn_ok n \<and> now - pn_at n < 30 * second)")
    case True
    then obtain n where n: "wk_pubNoted (fst s) i = Some n" "pn_ok n" "now - pn_at n < 30 * second" and s: "s' = s" "ok" by blast
    from assms(1) n(1) obtain p where "st_publish (snd s) i = Some p" "pb_last_error p = None" "pb_last_publish p = Some (pn_at n)"
      using n(2) unfolding outcomes_ok_def by fastforce
    then show ?thesis using assms(1) n s by auto
  next
    case False
    then have s': "s' = ((fst s)\<lparr>wk_pubNoted := (wk_pubNoted (fst s))(i \<mapsto> ?n)\<rparr>,
        if ok then RecordPublishOK now i (snd s) else RecordPublishError now i err (snd s))"
      using assms(2) iff by (auto simp: notePublish_def Let_def split: option.splits if_splits)
    have "\<exists>p. st_publish (snd s') = (st_publish (snd s))(i \<mapsto> p) \<and> pb_last_error p = (if ok then None else Some err)
      \<and> (ok \<longrightarrow> pb_last_publish p = Some now)"
    proof (cases ok)
      case True
      then show ?thesis by (intro exI [of _ "\<lparr>pb_last_publish = Some now, pb_last_error = None, pb_updated = now\<rparr>"]) (simp add: s' RecordPublish_row(1))
    next
      case False
      then show ?thesis using RecordPublish_row(2) [of now i err "snd s"] by (auto simp: s')
    qed
    then obtain p where p: "st_publish (snd s') = (st_publish (snd s))(i \<mapsto> p)" "pb_last_error p = (if ok then None else Some err)"
      "ok \<longrightarrow> pb_last_publish p = Some now" by blast
    have "outcomes_ok s'" using assms(1) p by (auto simp: outcomes_ok_def s')
    then show ?thesis using p by auto
  qed
qed

definition new_worker :: "Config \<Rightarrow> worker" where
  "new_worker cfg = \<lparr>wk_cfg = cfg, wk_pub = NewPublisher, wk_publishSet = [], wk_pubNoted = Map.empty, wk_haRestart = False,
     wk_utilRestart = False, wk_aw = zero_auto, wk_einfo = Map.empty, wk_mqttDetail = [], wk_haStream = [], wk_lastRef = 0\<rparr>"

theorem publish_status_truthful_witness:
  "\<exists>p. st_publish (snd (notePublish 0 7 False ''mqtt broker not connected'' (new_worker (FromMap (\<lambda>_. []) Map.empty), empty_store))) 7 = Some p
     \<and> pb_last_error p = Some ''mqtt broker not connected''"
proof -
  have "outcomes_ok (new_worker (FromMap (\<lambda>_. []) Map.empty), empty_store)" by (simp add: outcomes_ok_def new_worker_def)
  from publish_status_truthful [OF this, of 0 7 False "''mqtt broker not connected''"] show ?thesis by auto
qed

section \<open>Home Assistant keeps no meter that is not published\<close>

definition retained_ok :: "string set \<Rightarrow> (string \<rightharpoonup> payload) \<Rightarrow> worker \<Rightarrow> bool" where
  "retained_ok base r w \<longleftrightarrow> pu_client (wk_pub w) \<and> (\<forall>(i, m) \<in> set (wk_publishSet w). pm_EndpointID m = i)
     \<and> dom r \<subseteq> base \<union> (\<Union>i \<in> fst ` set (wk_publishSet w). config_topics (pu_prefix (wk_pub w)) i)"

lemma removes:
  assumes "pu_client p"
  shows "\<exists>out p'. fold (\<lambda>m (out, p). case Remove m p of (o', p') \<Rightarrow> (out @ o', p')) ms (out0, p) = (out0 @ out, p')
    \<and> pu_client p' \<and> pu_prefix p' = pu_prefix p
    \<and> dom (retain_all out r) = dom r - (\<Union>m \<in> set ms. config_topics (pu_prefix p) (pm_EndpointID m))"
  using assms
proof (induction ms arbitrary: out0 p r)
  case (Cons m ms)
  obtain o1 p1 where m: "Remove m p = (o1, p1)" by (cases "Remove m p")
  have p1: "pu_client p1" "pu_prefix p1 = pu_prefix p" using remove_state [of m p] m Cons.prems by auto
  have d: "dom (retain_all o1 r) = dom r - config_topics (pu_prefix p) (pm_EndpointID m)"
    using dom_remove [of m p r] m Cons.prems by simp
  from Cons.IH [OF p1(1), of "out0 @ o1" "retain_all o1 r"] obtain out p' where
    "fold (\<lambda>m (out, p). case Remove m p of (o', p') \<Rightarrow> (out @ o', p')) ms (out0 @ o1, p1) = ((out0 @ o1) @ out, p')"
    "pu_client p'" "pu_prefix p' = pu_prefix p1"
    "dom (retain_all out (retain_all o1 r)) = dom (retain_all o1 r) - (\<Union>m \<in> set ms. config_topics (pu_prefix p1) (pm_EndpointID m))"
    by blast
  then show ?case using p1 d by (intro exI [of _ "o1 @ out"] exI [of _ p']) (auto simp: m)
qed (auto intro: exI [of _ "[]"])

lemma refresh_retained:
  assumes "retained_ok base r w" "refreshPublishSet (Some ms) w = (msgs, w')"
  shows "retained_ok base (retain_all msgs r) w' \<and> fst ` set (wk_publishSet w') = pm_EndpointID ` set ms"
proof -
  define nxt where "nxt = AList.clearjunk (rev (map (\<lambda>m. (pm_EndpointID m, m)) ms))"
  define gone where "gone = map snd (filter (\<lambda>(i, m). i \<notin> fst ` set nxt) (wk_publishSet w))"
  have keys: "fst ` set nxt = pm_EndpointID ` set ms"
    by (simp add: nxt_def dom_clearjunk image_image)
  have "set nxt = Map.graph (map_of (rev (map (\<lambda>m. (pm_EndpointID m, m)) ms)))"
    unfolding nxt_def by (rule graph_map_of [symmetric])
  then have nxt_ok: "\<forall>(i, m) \<in> set nxt. pm_EndpointID m = i"
    by (auto simp: Map.graph_def dest!: map_of_SomeD)
  have R: "pu_client (wk_pub w)" "\<forall>(i, m) \<in> set (wk_publishSet w). pm_EndpointID m = i"
    "dom r \<subseteq> base \<union> (\<Union>i \<in> fst ` set (wk_publishSet w). config_topics (pu_prefix (wk_pub w)) i)"
    using assms(1) by (auto simp: retained_ok_def)
  from removes [OF R(1), of gone "[]" r] obtain out p' where f:
    "fold (\<lambda>m (out, p). case Remove m p of (o', p') \<Rightarrow> (out @ o', p')) gone ([], wk_pub w) = (out, p')"
    "pu_client p'" "pu_prefix p' = pu_prefix (wk_pub w)"
    "dom (retain_all out r) = dom r - (\<Union>m \<in> set gone. config_topics (pu_prefix (wk_pub w)) (pm_EndpointID m))" by auto
  have w': "msgs = out" "w' = w\<lparr>wk_publishSet := nxt, wk_pub := p'\<rparr>"
    using assms(2) f(1) by (simp_all add: refreshPublishSet_def Let_def nxt_def [symmetric] gone_def [symmetric])
  have "dom (retain_all out r) \<subseteq> base \<union> (\<Union>i \<in> fst ` set nxt. config_topics (pu_prefix (wk_pub w)) i)"
  proof
    fix t assume t: "t \<in> dom (retain_all out r)"
    then have td: "t \<in> dom r" and live: "\<And>m. m \<in> set gone \<Longrightarrow> t \<notin> config_topics (pu_prefix (wk_pub w)) (pm_EndpointID m)"
      unfolding f(4) by (simp_all only: Diff_iff UN_iff) blast+
    from td R(3) have "t \<in> base \<or> (\<exists>x \<in> set (wk_publishSet w). t \<in> config_topics (pu_prefix (wk_pub w)) (fst x))" by blast
    then consider "t \<in> base" | i m where "(i, m) \<in> set (wk_publishSet w)" "t \<in> config_topics (pu_prefix (wk_pub w)) i" by fastforce
    then show "t \<in> base \<union> (\<Union>i \<in> fst ` set nxt. config_topics (pu_prefix (wk_pub w)) i)"
    proof cases
      case 2
      have "i \<in> fst ` set nxt"
      proof (rule ccontr)
        assume "i \<notin> fst ` set nxt"
        then have "m \<in> set gone" "pm_EndpointID m = i" using 2(1) R(2) by (force simp: gone_def)+
        then show False using live 2(2) by auto
      qed
      then show ?thesis using 2(2) by blast
    qed simp
  qed
  then show ?thesis using f nxt_ok keys by (simp add: retained_ok_def w')
qed

lemma reload_retained:
  assumes "retained_ok base r w" "\<And>cfg. LoadConfig (re_envs e) (re_load e) st = Some cfg \<Longrightarrow> MQTTPrefix cfg = pu_prefix (wk_pub w)"
    "reloadConfig now e (w, st) = (msgs, w', st')"
  shows "retained_ok base (retain_all msgs r) w'
    \<and> (\<forall>ms. re_load e \<and> re_meters e = Some ms \<longrightarrow> fst ` set (wk_publishSet w') = pm_EndpointID ` set ms)"
proof (cases "LoadConfig (re_envs e) (re_load e) st")
  case None
  then have "\<not> re_load e" by (auto simp: LoadConfig_def GetSettings_def)
  then show ?thesis using None assms(1,3) by (simp add: reloadConfig_def)
next
  case (Some cfg)
  define w1 where "w1 = (if MQTTConfigured cfg \<and> (\<not> Connected (re_before e) (wk_pub w) \<or> MQTTHost (wk_cfg w) \<noteq> MQTTHost cfg \<or> MQTTUser (wk_cfg w) \<noteq> MQTTUser cfg)
     then w\<lparr>wk_cfg := cfg, wk_pub := snd (Connect cfg (re_connect e) (wk_pub w))\<rparr> else w\<lparr>wk_cfg := cfg\<rparr>)
     \<lparr>wk_mqttDetail := (if \<not> MQTTConfigured cfg then ''not configured'' else [])\<rparr>"
  obtain m2 w2 where rf: "refreshPublishSet (re_meters e) w1 = (m2, w2)" by (cases "refreshPublishSet (re_meters e) w1")
  have out: "msgs = m2" "w' = w2\<lparr>wk_haRestart := True, wk_utilRestart := True\<rparr>"
    using assms(3) rf by (auto simp: reloadConfig_def Some Let_def w1_def split: if_splits)
  have keep: "retained_ok base r w1"
    using assms(1,2) Some by (auto simp: retained_ok_def w1_def Connect_def)
  have sim: "retained_ok base r' (x\<lparr>wk_haRestart := a, wk_utilRestart := b\<rparr>) = retained_ok base r' x" for r' x a b
    by (simp add: retained_ok_def)
  show ?thesis
  proof (cases "re_meters e")
    case None
    then show ?thesis using keep rf by (simp add: out sim) (simp add: refreshPublishSet_def)
  next
    case (Some ms)
    then show ?thesis using refresh_retained [OF keep] rf by (simp add: out sim)
  qed
qed

lemma onReading_retained:
  assumes "retained_ok base r w" "onReading now conn i (w, st) = (msgs, w', st')"
  shows "retained_ok base (retain_all msgs r) w'"
proof -
  have note_pub: "wk_pub (fst (notePublish now i ok err s)) = wk_pub (fst s)" "wk_publishSet (fst (notePublish now i ok err s)) = wk_publishSet (fst s)"
    for ok err s by (simp_all add: notePublish_def Let_def)
  have nt: "retained_ok base r (fst (notePublish now i ok err s)) = retained_ok base r (fst s)" for r ok err s
    by (simp add: retained_ok_def note_pub)
  show ?thesis
  proof (cases "map_of (wk_publishSet w) i")
    case None
    then show ?thesis using assms by (simp add: onReading_def)
  next
    case (Some m)
    then have mem: "(i, m) \<in> set (wk_publishSet w)" by (rule map_of_SomeD)
    show ?thesis
    proof (cases "Connected conn (wk_pub w)")
      case False
      then have "msgs = []" "w' = fst (notePublish now i False ''mqtt broker not connected'' (w, st))"
        using assms(2) Some by (auto simp: onReading_def Let_def)
      then show ?thesis using assms(1) nt by simp
    next
      case True
      let ?ps = "PublishState m (map_option (\<lambda>(_, c). c * pm_PubMultiplier m) (LatestReading i st))
          (DerivedPower (newest_first (counter_rows i st)) (pm_PubMultiplier m)) (SignalPerHour now i st) (wk_pub w)"
      have msgs: "msgs = fst ?ps" and w': "w' = fst (notePublish now i True [] (w\<lparr>wk_pub := snd ?ps\<rparr>, st))"
        using assms(2) Some True by (auto simp: onReading_def Let_def split: prod.splits)
      have "i \<in> fst ` set (wk_publishSet w)" "pm_EndpointID m = i" using mem assms(1) by (force simp: retained_ok_def)+
      then have "retained_ok base (retain_all msgs r) (w\<lparr>wk_pub := snd ?ps\<rparr>)" using assms(1)
        by (auto simp: msgs retain_publish publish_state dom_announce retained_ok_def split: if_splits)
      then show ?thesis unfolding w' nt by simp
    qed
  qed
qed

text \<open>
  C34. Home Assistant never keeps a meter that is not published: on a broker whose retained
  configurations are all of meters in the publish set, every notification the worker
  handles, a reload with a reconnection included, leaves only configurations of meters in
  the new publish set, and after a reload that set is exactly the meters flagged in the
  database. (The discovery prefix is assumed not to change while the worker runs.)
\<close>

theorem hub_retains_published:
  assumes "retained_ok base r w" "\<And>cfg. LoadConfig (re_envs e) (re_load e) st = Some cfg \<Longrightarrow> MQTTPrefix cfg = pu_prefix (wk_pub w)"
    "listen_step now e n (w, st) = (msgs, w', st')"
  shows "retained_ok base (retain_all msgs r) w'
    \<and> (\<forall>ms. fst n = ''winnow_config'' \<and> re_load e \<and> re_meters e = Some ms \<longrightarrow> fst ` set (wk_publishSet w') = pm_EndpointID ` set ms)"
proof (cases "listen_dispatch (fst n) (snd n)")
  case None
  then show ?thesis using assms(1,3) by (auto simp: listen_step_def listen_dispatch_def split: if_splits)
next
  case (Some ev)
  show ?thesis
  proof (cases ev)
    case ReloadConfig
    then have "reloadConfig now e (w, st) = (msgs, w', st')" using assms(3) Some by (simp add: listen_step_def)
    from reload_retained [OF assms(1,2) this] show ?thesis by blast
  next
    case (OnReading i)
    then have "onReading now (re_after e) i (w, st) = (msgs, w', st')" "fst n \<noteq> ''winnow_config''"
      using assms(3) Some by (auto simp: listen_step_def listen_dispatch_def split: if_splits)
    with onReading_retained [OF assms(1)] show ?thesis by blast
  qed
qed

theorem hub_retains_published_witness:
  "let cfg = FromMap (\<lambda>_. []) Map.empty;
       w = (new_worker cfg)\<lparr>wk_publishSet := [(7, sample_pub_meter)], wk_pub := snd (Connect cfg True NewPublisher)\<rparr>;
       e = \<lparr>re_envs = \<lambda>_. [], re_load = True, re_before = True, re_connect = True, re_after = True, re_meters = Some []\<rparr>;
       r = listen_step 0 e (''winnow_config'', []) (w, empty_store)
   in wk_publishSet (fst (snd r)) = [] \<and> dom (retain_all (fst r) Map.empty) = {}"
proof -
  define cfg where "cfg = FromMap (\<lambda>_. []) Map.empty"
  define w where "w = (new_worker cfg)\<lparr>wk_publishSet := [(7, sample_pub_meter)], wk_pub := snd (Connect cfg True NewPublisher)\<rparr>"
  define e where "e = \<lparr>re_envs = \<lambda>_. [] :: string, re_load = True, re_before = True, re_connect = True, re_after = True, re_meters = Some ([] :: pub_meter list)\<rparr>"
  obtain msgs w' st' where r: "listen_step 0 e (''winnow_config'', []) (w, empty_store) = (msgs, w', st')"
    by (cases "listen_step 0 e (''winnow_config'', []) (w, empty_store)")
  have "retained_ok {} Map.empty w" by (simp add: retained_ok_def w_def new_worker_def Connect_def sample_pub_meter_def)
  moreover have "MQTTPrefix c = pu_prefix (wk_pub w)" if "LoadConfig (re_envs e) (re_load e) empty_store = Some c" for c
    using that by (simp add: LoadConfig_def GetSettings_def e_def empty_store_def w_def new_worker_def Connect_def cfg_def)
  ultimately have "retained_ok {} (retain_all msgs Map.empty) w' \<and> fst ` set (wk_publishSet w') = {}"
    using hub_retains_published [OF _ _ r, of "{}" Map.empty] by (simp add: e_def)
  then have "wk_publishSet w' = [] \<and> dom (retain_all msgs Map.empty) = {}" by (auto simp: retained_ok_def)
  then show ?thesis unfolding Let_def cfg_def [symmetric] w_def [symmetric] e_def [symmetric] r by simp
qed

end
