(* ===== verification/Feed.thy ===== *)
theory Feed
  imports Worker
begin

text \<open>
  The live subscription of the worker, \<open>haLoop\<close> of \<open>cmd/worker/main.go\<close>: the decision to subscribe,
  the callbacks \<open>onSample\<close> and \<open>onState\<close> with their normalization to watts, the aggregate they
  publish, the keepalive tick and the seed of the climate state. The callbacks run one at a time;
  the tick is atomic under its lock. Maps that are iterated are association lists.
\<close>

section \<open>Subscribing\<close>

definition trim :: "string \<Rightarrow> nat \<Rightarrow> string" where
  "trim s n = (if length s \<le> n then s else take n s @ [CHR 0xE2, CHR 0x80, CHR 0xA6])"

datatype ha_plan = NotConfigured | Unresolved string | Subscribe "string \<rightharpoonup> einfo" "string list"

text \<open>\<open>err\<close> is the text of the error of the request for the states, if it failed.\<close>

definition ha_plan :: "Config \<Rightarrow> (string \<rightharpoonup> einfo) \<Rightarrow> Entity list option \<Rightarrow> string \<Rightarrow> ha_plan" where
  "ha_plan cfg cache sensors err =
     (if \<not> HAConfigured cfg \<or> \<not> ReferenceConfigured cfg then NotConfigured
      else (let entities = MonitoredEntities cfg; (fresh, ferr_nil) = buildEntityInfo sensors entities;
                (info, ok) = resolveEntityInfo fresh cache entities
            in if \<not> ok then
                 Unresolved (if \<not> ferr_nil then trim_space err
                             else ''0 of '' @ format_int (int (length entities)) @ '' monitored entities found in HA states'')
               else Subscribe info (if HVACConfigured cfg then entities @ [HVACEntityID cfg] else entities)))"

definition ha_connect :: "instant \<Rightarrow> bool \<Rightarrow> Entity list option \<Rightarrow> string \<Rightarrow> worker \<times> store \<Rightarrow> ha_plan \<times> worker \<times> store" where
  "ha_connect now conn sensors err s =
     (let plan = ha_plan (wk_cfg (fst s)) (wk_einfo (fst s)) sensors err in
      (plan,
       case plan of
         NotConfigured \<Rightarrow> setHAStream now conn ''not configured'' s
       | Unresolved reason \<Rightarrow> setHAStream now conn (''entity resolution failed: '' @ reason) s
       | Subscribe info _ \<Rightarrow> ((fst s)\<lparr>wk_einfo := info\<rparr>, snd s)))"

section \<open>The subscription\<close>

record sub =
  sb_lastPower :: "(string \<times> real) list"
  sb_es :: "string \<rightharpoonup> real \<times> instant"
  sb_ka :: "(string \<times> instant \<times> real) list"
  sb_hvac :: hvacKA

definition new_sub :: sub where
  "new_sub = \<lparr>sb_lastPower = [], sb_es = Map.empty, sb_ka = [], sb_hvac = no_action\<rparr>"

text \<open>Watts of a sample, and the energy reading to remember for the entity.\<close>

definition normalize_sample :: "einfo \<Rightarrow> Sample \<Rightarrow> (real \<times> instant) option \<Rightarrow> real option \<times> (real \<times> instant) option" where
  "normalize_sample i s st =
     (if ei_kind i = ''power'' then (Some (sm_Power s * ei_factor i), st)
      else if ei_kind i = ''energy'' then
        (let kwh = sm_Power s * ei_factor i in
         case st of None \<Rightarrow> (None, Some (kwh, sm_TS s))
         | Some (prevKwh, lastTS) \<Rightarrow>
             (let dt = hours (time_sub (sm_TS s) lastTS); w = (kwh - prevKwh) * 1000 / dt in
              (if dt \<le> 0 then None else Some (if w < 0 then 0 else w), Some (kwh, sm_TS s))))
      else (None, st))"

text \<open>The environment of a callback: which inserts succeed, the statements of the detector, the broker.\<close>

record feed_env =
  fe_insert :: "string \<Rightarrow> bool"
  fe_hvac :: bool
  fe_auto :: auto_env
  fe_conn :: bool

type_synonym feed = "worker \<times> store \<times> sub"

definition aggregate_watts :: "Config \<Rightarrow> sub \<Rightarrow> real" where
  "aggregate_watts cfg b = sum_list (map snd (sb_lastPower b))
     + (if ka_set (sb_hvac b) then hvacWatts (ka_action (sb_hvac b)) (HVACHeatingKW cfg) (HVACCoolingKW cfg) else 0)"

definition feed_publish :: "feed_env \<Rightarrow> Config \<Rightarrow> instant \<Rightarrow> feed \<Rightarrow> feed" where
  "feed_publish e cfg now f = (case f of (w, st, b) \<Rightarrow>
     (let agg = aggregate_watts cfg b;
          (aw, st') = autoWindow (fe_auto e) agg (ThresholdW cfg) (AutoWindow cfg) now (wk_aw w, NotifyReference agg st)
      in (w\<lparr>wk_aw := aw\<rparr>, st', b)))"

definition note_ref :: "instant \<Rightarrow> feed_env \<Rightarrow> worker \<times> store \<Rightarrow> worker \<times> store" where
  "note_ref now e s =
     (let w = fst s; t = now div second; prev = wk_lastRef w;
          w1 = w\<lparr>wk_lastRef := t, wk_utilRestart := wk_utilRestart w \<or> prev > 0 \<and> t - prev > 900\<rparr>
      in setHAStream now (fe_conn e) ''ok'' (w1, snd s))"

definition onSample :: "feed_env \<Rightarrow> Config \<Rightarrow> (string \<rightharpoonup> einfo) \<Rightarrow> instant \<Rightarrow> string \<Rightarrow> Sample \<Rightarrow> feed \<Rightarrow> feed" where
  "onSample e cfg info now entity s f = (case f of (w, st, b) \<Rightarrow>
     (case info entity of None \<Rightarrow> f
      | Some i \<Rightarrow>
          (case normalize_sample i s (sb_es b entity) of (watts, es) \<Rightarrow>
             (let b1 = b\<lparr>sb_es := (sb_es b)(entity := es)\<rparr> in
              case watts of None \<Rightarrow> (w, st, b1)
              | Some p \<Rightarrow>
                  (let (w1, st1) = (if fe_insert e entity then note_ref now e (w, InsertReferenceSample entity (sm_TS s) p st) else (w, st));
                       b2 = b1\<lparr>sb_ka := AList.update entity (sm_TS s, p) (sb_ka b1), sb_lastPower := AList.update entity p (sb_lastPower b1)\<rparr>
                   in feed_publish e cfg now (w1, st1, b2))))))"

definition onState :: "feed_env \<Rightarrow> Config \<Rightarrow> instant \<Rightarrow> string \<Rightarrow> StateEvent \<Rightarrow> feed \<Rightarrow> feed" where
  "onState e cfg now entity ev f = (case f of (w, st, b) \<Rightarrow>
     (if \<not> HVACConfigured cfg \<or> entity \<noteq> HVACEntityID cfg then f
      else (let action = Attr ev ''hvac_action'' in
            if action = [] then feed_publish e cfg now (w, st, b\<lparr>sb_hvac := hvacTransition (sb_hvac b) [] (se_TS ev)\<rparr>)
            else if fe_hvac e then
              feed_publish e cfg now (w, InsertHVACSample entity (se_TS ev) action st, b\<lparr>sb_hvac := hvacTransition (sb_hvac b) action (se_TS ev)\<rparr>)
            else feed_publish e cfg now f)))"

text \<open>The keepalive: every value that is five minutes old is inserted again, now.\<close>

fun keep_values :: "feed_env \<Rightarrow> instant \<Rightarrow> (string \<times> instant \<times> real) list \<Rightarrow> worker \<times> store \<Rightarrow> (string \<times> instant \<times> real) list \<times> worker \<times> store" where
  "keep_values e now [] s = ([], s)"
| "keep_values e now ((k, t, p) # ks) s =
     (if time_sub now t \<ge> 5 * minute \<and> fe_insert e k then
        (case keep_values e now ks ((fst s)\<lparr>wk_lastRef := now div second\<rparr>, InsertReferenceSample k now p (snd s)) of
           (ks', s') \<Rightarrow> ((k, now, p) # ks', s'))
      else (case keep_values e now ks s of (ks', s') \<Rightarrow> ((k, t, p) # ks', s')))"

definition keepalive :: "feed_env \<Rightarrow> Config \<Rightarrow> instant \<Rightarrow> feed \<Rightarrow> feed" where
  "keepalive e cfg now f = (case f of (w, st, b) \<Rightarrow>
     (case keep_values e now (sb_ka b) (w, st) of (ka, w1, st1) \<Rightarrow>
        (let h = sb_hvac b in
         if ka_set h \<and> time_sub now (ka_ts h) \<ge> 5 * minute \<and> fe_hvac e
         then (w1, InsertHVACSample (HVACEntityID cfg) now (ka_action h) st1, b\<lparr>sb_ka := ka, sb_hvac := h\<lparr>ka_ts := now\<rparr>\<rparr>)
         else (w1, st1, b\<lparr>sb_ka := ka\<rparr>))))"

text \<open>The seed on (re)connect, from the climate entities if they could be read.\<close>

definition seed_hvac :: "feed_env \<Rightarrow> Config \<Rightarrow> instant \<Rightarrow> ClimateEntity list option \<Rightarrow> feed \<Rightarrow> feed" where
  "seed_hvac e cfg now climates f = (case f of (w, st, b) \<Rightarrow>
     (if \<not> HVACConfigured cfg then f
      else (case List.find (\<lambda>c. ce_EntityID c = HVACEntityID cfg) (case climates of None \<Rightarrow> [] | Some cs \<Rightarrow> cs) of
              None \<Rightarrow> f
            | Some c \<Rightarrow>
                if ce_HasAction c \<and> ce_HVACAction c \<noteq> [] \<and> fe_hvac e
                then (w, InsertHVACSample (HVACEntityID cfg) now (ce_HVACAction c) st,
                      b\<lparr>sb_hvac := \<lparr>ka_set = True, ka_action = ce_HVACAction c, ka_ts = now\<rparr>\<rparr>)
                else f)))"

text \<open>One frame of the stream: \<open>onSample\<close> if the state is a number, then \<open>onState\<close>.\<close>

definition feed_frame :: "feed_env \<Rightarrow> Config \<Rightarrow> (string \<rightharpoonup> einfo) \<Rightarrow> instant \<Rightarrow> string \<Rightarrow> feed \<Rightarrow> feed" where
  "feed_frame e cfg info now data f =
     (case stream_frame now data of None \<Rightarrow> f
      | Some (entity, smp, ev) \<Rightarrow>
          onState e cfg now entity ev (case smp of None \<Rightarrow> f | Some s \<Rightarrow> onSample e cfg info now entity s f))"

text \<open>The stream ended with an error.\<close>

definition stream_ended :: "instant \<Rightarrow> bool \<Rightarrow> string \<Rightarrow> worker \<times> store \<Rightarrow> worker \<times> store" where
  "stream_ended now conn err = setHAStream now conn (''reconnecting: '' @ trim (trim_space err) 120)"
section \<open>Energy sensors keep their energy\<close>

text \<open>The watts that a run of samples of one entity yields.\<close>

fun watts_of :: "einfo \<Rightarrow> (real \<times> instant) option \<Rightarrow> Sample list \<Rightarrow> real list" where
  "watts_of i es [] = []"
| "watts_of i es (s # ss) =
     (case normalize_sample i s es of (w, es') \<Rightarrow> (case w of None \<Rightarrow> watts_of i es' ss | Some x \<Rightarrow> x # watts_of i es' ss))"

definition span_hours :: "Sample \<times> Sample \<Rightarrow> real" where
  "span_hours ab = hours (time_sub (sm_TS (snd ab)) (sm_TS (fst ab)))"

definition rising :: "Sample list \<Rightarrow> bool" where
  "rising ss \<longleftrightarrow> (\<forall>ab \<in> set (zip ss (tl ss)). 0 < span_hours ab \<and> sm_Power (fst ab) \<le> sm_Power (snd ab))"

lemma watts_telescope:
  assumes "ei_kind i = ''energy''" "0 \<le> ei_factor i" "rising (a # ss)"
  shows "sum_list (map2 (\<lambda>w ab. w / 1000 * span_hours ab) (watts_of i (Some (sm_Power a * ei_factor i, sm_TS a)) ss) (zip (a # ss) ss))
       = (sm_Power (last (a # ss)) - sm_Power a) * ei_factor i
    \<and> length (watts_of i (Some (sm_Power a * ei_factor i, sm_TS a)) ss) = length ss"
  using assms(3)
proof (induction ss arbitrary: a)
  case (Cons b ss)
  have kind: "ei_kind i \<noteq> ''power''" using assms(1) by simp
  have ab: "0 < span_hours (a, b)" "sm_Power a \<le> sm_Power b" and r: "rising (b # ss)" using Cons.prems by (auto simp: rising_def)
  have le: "sm_Power a * ei_factor i \<le> sm_Power b * ei_factor i" using ab(2) assms(2) by (rule mult_right_mono)
  define w where "w = (sm_Power b * ei_factor i - sm_Power a * ei_factor i) * 1000 / span_hours (a, b)"
  have "0 \<le> w" using le ab(1) by (simp add: w_def)
  then have n: "normalize_sample i b (Some (sm_Power a * ei_factor i, sm_TS a)) = (Some w, Some (sm_Power b * ei_factor i, sm_TS b))"
    using ab(1) kind assms(1) by (simp add: normalize_sample_def Let_def w_def span_hours_def not_less)
  have "w / 1000 * span_hours (a, b) = (sm_Power b - sm_Power a) * ei_factor i"
    using ab(1) by (simp add: w_def field_simps)
  with Cons.IH [OF r] n show ?case by (simp add: algebra_simps)
qed simp

text \<open>
  Turning an energy sensor into watts loses nothing: over samples of a counter that never falls,
  at strictly increasing times, the first sample only sets the start, every other yields one value,
  and these, each held over the time since the sample before, add up to exactly
  the energy the counter advanced, in kWh.
\<close>

theorem energy_differentiation_conserves:
  assumes "ei_kind i = ''energy''" "0 \<le> ei_factor i" "rising (a # ss)"
  shows "length (watts_of i None (a # ss)) = length ss
    \<and> sum_list (map2 (\<lambda>w ab. w / 1000 * span_hours ab) (watts_of i None (a # ss)) (zip (a # ss) ss))
      = (sm_Power (last (a # ss)) - sm_Power a) * ei_factor i"
proof -
  have "normalize_sample i a None = (None, Some (sm_Power a * ei_factor i, sm_TS a))"
    using assms(1) by (simp add: normalize_sample_def Let_def)
  then show ?thesis using watts_telescope [OF assms] by simp
qed

theorem energy_differentiation_conserves_witness:
  "sum_list (map2 (\<lambda>w ab. w / 1000 * span_hours ab)
      (watts_of \<lparr>ei_kind = ''energy'', ei_factor = 1\<rparr> None [\<lparr>sm_TS = 0, sm_Power = 5\<rparr>, \<lparr>sm_TS = hour, sm_Power = 7\<rparr>])
      (zip [\<lparr>sm_TS = 0, sm_Power = 5\<rparr>, \<lparr>sm_TS = hour, sm_Power = 7\<rparr>] [\<lparr>sm_TS = hour, sm_Power = 7\<rparr>])) = 2"
proof -
  have "rising [\<lparr>sm_TS = 0, sm_Power = 5\<rparr>, \<lparr>sm_TS = hour, sm_Power = 7\<rparr>]"
    by (simp add: rising_def span_hours_def hours_def time_sub_def int64_min_def int64_max_def)
  from energy_differentiation_conserves [OF _ _ this, of "\<lparr>ei_kind = ''energy'', ei_factor = 1\<rparr>"] show ?thesis by simp
qed

section \<open>The keepalive\<close>

definition stale :: "feed_env \<Rightarrow> instant \<Rightarrow> string \<times> instant \<times> real \<Rightarrow> bool" where
  "stale e now x \<longleftrightarrow> (case x of (k, t, p) \<Rightarrow> 5 * minute \<le> now - t \<and> fe_insert e k)"

definition live_row :: "instant \<Rightarrow> string \<times> instant \<times> real \<Rightarrow> ref_sample" where
  "live_row now x = (case x of (k, t, p) \<Rightarrow> \<lparr>rs_ts = now, rs_entity = k, rs_power = p, rs_src = Live\<rparr>)"

lemma stale_iff: "time_sub now t \<ge> 5 * minute \<longleftrightarrow> 5 * minute \<le> now - t"
  by (rule time_sub_ge_iff) (simp_all add: int64_min_def int64_max_def)

lemma keep_values_exact:
  "\<exists>w. keep_values e now ks s = (map (\<lambda>x. if stale e now x then (fst x, now, snd (snd x)) else x) ks,
     w, (snd s)\<lparr>st_ref := st_ref (snd s) @ map (live_row now) (filter (stale e now) ks)\<rparr>)"
proof (induction ks arbitrary: s)
  case (Cons x ks)
  obtain k t p where x: "x = (k, t, p)" by (cases x) auto
  show ?case
  proof (cases "stale e now x")
    case True
    from Cons.IH [of "((fst s)\<lparr>wk_lastRef := now div second\<rparr>, InsertReferenceSample k now p (snd s))"] obtain w where
      "keep_values e now ks ((fst s)\<lparr>wk_lastRef := now div second\<rparr>, InsertReferenceSample k now p (snd s))
        = (map (\<lambda>x. if stale e now x then (fst x, now, snd (snd x)) else x) ks, w,
           (InsertReferenceSample k now p (snd s))\<lparr>st_ref := st_ref (InsertReferenceSample k now p (snd s)) @ map (live_row now) (filter (stale e now) ks)\<rparr>)"
      by auto
    moreover have "time_sub now t \<ge> 5 * minute \<and> fe_insert e k" using True stale_iff by (simp add: stale_def x)
    moreover have "live_row now (k, t, p) = \<lparr>rs_ts = now, rs_entity = k, rs_power = p, rs_src = Live\<rparr>" by (simp add: live_row_def)
    ultimately show ?thesis using True by (simp add: x InsertReferenceSample_def)
  next
    case False
    from Cons.IH [of s] obtain w where
      "keep_values e now ks s = (map (\<lambda>x. if stale e now x then (fst x, now, snd (snd x)) else x) ks, w,
         (snd s)\<lparr>st_ref := st_ref (snd s) @ map (live_row now) (filter (stale e now) ks)\<rparr>)" by auto
    moreover have "\<not> (time_sub now t \<ge> 5 * minute \<and> fe_insert e k)" using False stale_iff by (simp add: stale_def x)
    ultimately show ?thesis using False by (auto simp: x)
  qed
qed auto

text \<open>
  After a keepalive tick whose inserts succeed no value of the live feed is five minutes old:
  the tick adds one live row at its time for exactly the values that were, with
  the power they had, and touches neither the others nor any row already stored; with a tick
  every five minutes a healthy feed never shows a gap of ten, so a gap of fifteen is a dead feed.
\<close>

theorem keepalive_bounds_age:
  assumes "\<And>k. fe_insert e k" "keepalive e cfg now (w, st, b) = (w', st', b')"
  shows "(\<forall>(k, t, p) \<in> set (sb_ka b'). now - t < 5 * minute)
    \<and> map fst (sb_ka b') = map fst (sb_ka b) \<and> map (snd \<circ> snd) (sb_ka b') = map (snd \<circ> snd) (sb_ka b)
    \<and> st_ref st' = st_ref st @ map (\<lambda>(k, t, p). \<lparr>rs_ts = now, rs_entity = k, rs_power = p, rs_src = Live\<rparr>)
         (filter (\<lambda>(k, t, p). 5 * minute \<le> now - t) (sb_ka b))"
proof -
  obtain w1 where kv: "keep_values e now (sb_ka b) (w, st) = (map (\<lambda>x. if stale e now x then (fst x, now, snd (snd x)) else x) (sb_ka b),
     w1, st\<lparr>st_ref := st_ref st @ map (live_row now) (filter (stale e now) (sb_ka b))\<rparr>)"
    using keep_values_exact [of e now "sb_ka b" "(w, st)"] by auto
  have ka: "sb_ka b' = map (\<lambda>x. if stale e now x then (fst x, now, snd (snd x)) else x) (sb_ka b)"
    and ref: "st_ref st' = st_ref st @ map (live_row now) (filter (stale e now) (sb_ka b))"
    using assms(2) kv by (auto simp: keepalive_def Let_def InsertHVACSample_def split: if_splits)
  have st: "stale e now = (\<lambda>(k, t, p). 5 * minute \<le> now - t)" using assms(1) by (auto simp: stale_def fun_eq_iff)
  have lr: "live_row now = (\<lambda>(k, t, p). \<lparr>rs_ts = now, rs_entity = k, rs_power = p, rs_src = Live\<rparr>)"
    by (auto simp: live_row_def fun_eq_iff)
  show ?thesis unfolding ref lr st ka by (auto simp: split: if_splits)
qed

theorem keepalive_bounds_age_witness:
  "let e = \<lparr>fe_insert = \<lambda>_. True, fe_hvac = True, fe_auto = good_env, fe_conn = True\<rparr>;
       r = keepalive e (FromMap (\<lambda>_. []) Map.empty) (5 * minute) (new_worker (FromMap (\<lambda>_. []) Map.empty), empty_store, new_sub\<lparr>sb_ka := [(''sensor.a'', 0, 7)]\<rparr>)
   in st_ref (fst (snd r)) = [\<lparr>rs_ts = 5 * minute, rs_entity = ''sensor.a'', rs_power = 7, rs_src = Live\<rparr>]"
proof -
  define e where "e = \<lparr>fe_insert = \<lambda>_ :: string. True, fe_hvac = True, fe_auto = good_env, fe_conn = True\<rparr>"
  define cfg where "cfg = FromMap (\<lambda>_. []) Map.empty"
  obtain w' st' b' where r: "keepalive e cfg (5 * minute) (new_worker cfg, empty_store, new_sub\<lparr>sb_ka := [(''sensor.a'', 0, 7)]\<rparr>) = (w', st', b')"
    by (cases "keepalive e cfg (5 * minute) (new_worker cfg, empty_store, new_sub\<lparr>sb_ka := [(''sensor.a'', 0, 7)]\<rparr>)")
  have "fe_insert e k" for k by (simp add: e_def)
  from keepalive_bounds_age [OF this r] have "st_ref st' = [\<lparr>rs_ts = 5 * minute, rs_entity = ''sensor.a'', rs_power = 7, rs_src = Live\<rparr>]"
    by (simp add: empty_store_def)
  then show ?thesis unfolding Let_def e_def [symmetric] cfg_def [symmetric] r by simp
qed

section \<open>A silent thermostat is not made up\<close>

datatype feed_event = Frame string | Tick

definition feed_event :: "feed_env \<Rightarrow> Config \<Rightarrow> (string \<rightharpoonup> einfo) \<Rightarrow> feed_event \<times> instant \<Rightarrow> feed \<Rightarrow> feed" where
  "feed_event e cfg info x f = (case x of (Frame data, now) \<Rightarrow> feed_frame e cfg info now data f | (Tick, now) \<Rightarrow> keepalive e cfg now f)"

text \<open>The frame does not report an action of the configured climate entity.\<close>

definition reports_action :: "Config \<Rightarrow> feed_event \<times> instant \<Rightarrow> bool" where
  "reports_action cfg x = (case x of (Tick, _) \<Rightarrow> False
     | (Frame data, now) \<Rightarrow> (case stream_frame now data of None \<Rightarrow> False
         | Some (entity, _, ev) \<Rightarrow> entity = HVACEntityID cfg \<and> Attr ev ''hvac_action'' \<noteq> []))"

lemma hvac_frame [simp]:
  "st_hvac (NotifyReference p st) = st_hvac st" "st_hvac (NotifyTests st) = st_hvac st"
  "st_hvac (InsertReferenceSample k t p st) = st_hvac st" "st_hvac (SetWorkerStatus t ws st) = st_hvac st"
  "st_hvac (snd (CreateTest l t en src ld ent st)) = st_hvac st" "st_hvac (snd (StopTest ok i t st)) = st_hvac st"
  "st_hvac (DeleteTest i st) = st_hvac st" "st_hvac (FreezeTestSnoopK ok i n st) = st_hvac st"
  by (simp_all add: NotifyReference_def NotifyTests_def notify_def InsertReferenceSample_def SetWorkerStatus_def SetSetting_def
      CreateTest_def Let_def StopTest_def DeleteTest_def FreezeTestSnoopK_def SetTestSnoopK_def split: option.split)

lemma hvac_autoWindow [simp]: "st_hvac (snd (autoWindow e p d on t s)) = st_hvac (snd s)"
proof -
  obtain a aw' where "autoDecide (auto_init p (snd s) (fst s)) p d t = (a, aw')"
    by (cases "autoDecide (auto_init p (snd s) (fst s)) p d t")
  moreover obtain tw st' where "CreateTest (''auto load '' @ hhmm t) t None ''auto'' (Some (math_round (p - as_baseline aw'))) None (snd s) = (tw, st')"
    by (cases "CreateTest (''auto load '' @ hhmm t) t None ''auto'' (Some (math_round (p - as_baseline aw'))) None (snd s)")
  moreover from this have "st_hvac st' = st_hvac (snd s)" using hvac_frame(5) by (metis snd_conv)
  ultimately show ?thesis
    by (cases a) (simp_all only: autoWindow_def Let_def prod.case autoAction.case if_distrib [of snd] if_distrib [of st_hvac] snd_conv
        hvac_frame if_cancel simp_thms split: if_split)
qed

lemma hvac_publish:
  assumes "feed_publish e cfg now (w, st, b) = (w', st', b')"
  shows "st_hvac st' = st_hvac st \<and> b' = b"
proof -
  let ?s = "(wk_aw w, NotifyReference (aggregate_watts cfg b) st)"
  obtain aw st2 where aw: "autoWindow (fe_auto e) (aggregate_watts cfg b) (ThresholdW cfg) (AutoWindow cfg) now ?s = (aw, st2)"
    by (cases "autoWindow (fe_auto e) (aggregate_watts cfg b) (ThresholdW cfg) (AutoWindow cfg) now ?s")
  have "st_hvac st2 = st_hvac st"
    using hvac_autoWindow [of "fe_auto e" "aggregate_watts cfg b" "ThresholdW cfg" "AutoWindow cfg" now ?s] aw by simp
  then show ?thesis using assms aw by (simp add: feed_publish_def Let_def)
qed

lemma hvac_note_ref [simp]: "st_hvac (snd (note_ref now e s)) = st_hvac (snd s)"
  by (simp add: note_ref_def Let_def setHAStream_def putWorkerStatus_def)

lemma hvac_onSample:
  assumes "onSample e cfg info now entity s (w, st, b) = (w', st', b')"
  shows "st_hvac st' = st_hvac st \<and> sb_hvac b' = sb_hvac b"
proof (cases "info entity")
  case None
  then show ?thesis using assms by (simp add: onSample_def)
next
  case (Some i)
  obtain watts es where n: "normalize_sample i s (sb_es b entity) = (watts, es)" by (cases "normalize_sample i s (sb_es b entity)")
  show ?thesis
  proof (cases watts)
    case None
    then show ?thesis using assms Some n by (auto simp: onSample_def Let_def)
  next
    case (Some p)
    define w1 where "w1 = (if fe_insert e entity then note_ref now e (w, InsertReferenceSample entity (sm_TS s) p st) else (w, st))"
    define b2 where "b2 = b\<lparr>sb_es := (sb_es b)(entity := es), sb_ka := AList.update entity (sm_TS s, p) (sb_ka b),
      sb_lastPower := AList.update entity p (sb_lastPower b)\<rparr>"
    have "feed_publish e cfg now (fst w1, snd w1, b2) = (w', st', b')"
      using assms \<open>info entity = Some i\<close> n Some by (simp add: onSample_def Let_def w1_def b2_def split: if_splits prod.splits)
    from hvac_publish [OF this] have "st_hvac st' = st_hvac (snd w1)" "b' = b2" by simp_all
    moreover have "st_hvac (snd w1) = st_hvac st" by (simp add: w1_def)
    moreover have "sb_hvac b2 = sb_hvac b" by (simp add: b2_def)
    ultimately show ?thesis by simp
  qed
qed

lemma hvac_onState_silent:
  assumes "onState e cfg now entity ev (w, st, b) = (w', st', b')" "\<not> ka_set (sb_hvac b)"
    "\<not> (entity = HVACEntityID cfg \<and> Attr ev ''hvac_action'' \<noteq> [])"
  shows "st_hvac st' = st_hvac st \<and> \<not> ka_set (sb_hvac b')"
proof (cases "HVACConfigured cfg \<and> entity = HVACEntityID cfg")
  case False
  then show ?thesis using assms by (auto simp: onState_def)
next
  case True
  then have "feed_publish e cfg now (w, st, b\<lparr>sb_hvac := hvacTransition (sb_hvac b) [] (se_TS ev)\<rparr>) = (w', st', b')"
    using assms by (simp add: onState_def)
  from hvac_publish [OF this] show ?thesis by (auto simp: hvacTransition_def no_action_def)
qed

lemma hvac_keepalive_silent:
  assumes "keepalive e cfg now (w, st, b) = (w', st', b')" "\<not> ka_set (sb_hvac b)"
  shows "st_hvac st' = st_hvac st \<and> \<not> ka_set (sb_hvac b')"
  using assms keep_values_exact [of e now "sb_ka b" "(w, st)"] by (auto simp: keepalive_def Let_def)

lemma hvac_event_silent:
  assumes "feed_event e cfg info x (w, st, b) = (w', st', b')" "\<not> ka_set (sb_hvac b)" "\<not> reports_action cfg x"
  shows "st_hvac st' = st_hvac st \<and> \<not> ka_set (sb_hvac b')"
proof -
  obtain ev now where x: "x = (ev, now)" by (cases x)
  show ?thesis
  proof (cases ev)
    case Tick
    then show ?thesis using assms hvac_keepalive_silent by (simp add: x feed_event_def)
  next
    case (Frame data)
    show ?thesis
    proof (cases "stream_frame now data")
      case None
      then show ?thesis using assms by (simp add: x Frame feed_event_def feed_frame_def)
    next
      case (Some r)
      obtain entity smp se where r: "r = (entity, smp, se)" by (cases r) auto
      obtain w1 st1 b1 where f1: "(case smp of None \<Rightarrow> (w, st, b) | Some s \<Rightarrow> onSample e cfg info now entity s (w, st, b)) = (w1, st1, b1)"
        by (cases "case smp of None \<Rightarrow> (w, st, b) | Some s \<Rightarrow> onSample e cfg info now entity s (w, st, b)") auto
      have one: "st_hvac st1 = st_hvac st \<and> \<not> ka_set (sb_hvac b1)"
        using f1 assms(2) hvac_onSample by (cases smp) fastforce+
      have "onState e cfg now entity se (w1, st1, b1) = (w', st', b')"
        using assms(1) Some f1 by (simp add: x Frame feed_event_def feed_frame_def r)
      moreover have "\<not> (entity = HVACEntityID cfg \<and> Attr se ''hvac_action'' \<noteq> [])"
        using assms(3) Some by (simp add: x Frame reports_action_def r)
      ultimately show ?thesis using hvac_onState_silent one by fastforce
    qed
  qed
qed

lemma silence_clears:
  assumes "HVACConfigured cfg" "Attr ev ''hvac_action'' = []" "onState e cfg now (HVACEntityID cfg) ev (w, st, b) = (w', st', b')"
  shows "\<not> ka_set (sb_hvac b')"
proof -
  have "feed_publish e cfg now (w, st, b\<lparr>sb_hvac := hvacTransition (sb_hvac b) [] (se_TS ev)\<rparr>) = (w', st', b')"
    using assms by (simp add: onState_def)
  from hvac_publish [OF this] show ?thesis by (simp add: hvacTransition_def no_action_def)
qed



end
