(* ===== verification/Reference.thy ===== *)
theory Reference
  imports Store Stats Counter Config
begin

text \<open>
  The reference side, \<open>internal/db/reference.go\<close> with the climate query of \<open>hvac.go\<close>: the gap-fill
  ladder \<open>refBoundedCTEs\<close>, the energies and statistics computed on it and the health of the
  feed. \<open>time_bucket_gapfill\<close> lists every minute from that of the lower bound to that of the
  upper one, \<open>locf\<close> carries the last value; both follow the TimescaleDB documentation. Rows of
  an entity without a sample in the span do not exist.
\<close>

section \<open>The ladder\<close>

definition refCarryLimit :: duration where "refCarryLimit = 15 * minute"

definition minute_grid :: "instant \<Rightarrow> instant \<Rightarrow> instant list" where
  "minute_grid lo hi = map (\<lambda>k. minute_of lo + int k * minute) [0 ..< nat ((minute_of hi - minute_of lo) div minute + 1)]"

definition in_minute :: "instant \<Rightarrow> (instant \<times> 'a) list \<Rightarrow> (instant \<times> 'a) list" where
  "in_minute mt ss = filter (\<lambda>(t, _). minute_of t = mt) ss"

text \<open>The value and the time of the latest sample, carried.\<close>

definition carry :: "((instant \<times> 'a) list \<Rightarrow> 'b) \<Rightarrow> (instant \<times> 'a) list \<Rightarrow> instant \<Rightarrow> ('b \<times> instant) option \<Rightarrow> ('b \<times> instant) option" where
  "carry agg ss mt prev = (let here = in_minute mt ss in if here = [] then prev else Some (agg here, Max (set (map fst here))))"

definition bounded :: "instant \<Rightarrow> ('b \<times> instant) option \<Rightarrow> 'b option" where
  "bounded mt cur = (case cur of None \<Rightarrow> None | Some (w, src) \<Rightarrow> if mt \<le> src + refCarryLimit then Some w else None)"

fun gapfill :: "((instant \<times> 'a) list \<Rightarrow> 'b) \<Rightarrow> (instant \<times> 'a) list \<Rightarrow> ('b \<times> instant) option \<Rightarrow> instant list \<Rightarrow> (instant \<times> 'b option) list" where
  "gapfill agg ss prev [] = []"
| "gapfill agg ss prev (mt # mts) = (let cur = carry agg ss mt prev in (mt, bounded mt cur) # gapfill agg ss cur mts)"

definition span_samples :: "instant \<Rightarrow> instant \<Rightarrow> (instant \<times> 'a) list \<Rightarrow> (instant \<times> 'a) list" where
  "span_samples lo hi ss = filter (\<lambda>(t, _). lo \<le> t \<and> t \<le> hi) ss"

definition filled :: "((instant \<times> 'a) list \<Rightarrow> 'b) \<Rightarrow> instant \<Rightarrow> instant \<Rightarrow> (instant \<times> 'a) list \<Rightarrow> (instant \<times> 'b option) list" where
  "filled agg lo hi ss = (let w = span_samples lo hi ss in if w = [] then [] else gapfill agg w None (minute_grid lo hi))"

definition avg_power :: "(instant \<times> real) list \<Rightarrow> real" where
  "avg_power here = mean (map snd here)"

definition entity_minutes :: "instant \<Rightarrow> instant \<Rightarrow> string \<Rightarrow> store \<Rightarrow> (instant \<times> real option) list" where
  "entity_minutes lo hi entity st =
     filled avg_power lo hi (map (\<lambda>r. (rs_ts r, rs_power r)) (filter (\<lambda>r. rs_entity r = entity) (st_ref st)))"

text \<open>\<open>last(action, ts)\<close>.\<close>

definition last_action :: "(instant \<times> string) list \<Rightarrow> string" where
  "last_action here = snd (last (sort_key fst here))"

definition action_minutes :: "instant \<Rightarrow> instant \<Rightarrow> store \<Rightarrow> (instant \<times> string option) list" where
  "action_minutes lo hi st =
     (case st_settings st ''hvac_entity_id'' of None \<Rightarrow> []
      | Some e \<Rightarrow> filled last_action lo hi (map (\<lambda>r. (hs_ts r, hs_action r)) (filter (\<lambda>r. hs_entity r = btrim e) (st_hvac st))))"

text \<open>The power of an action under the settings; None when the setting does not convert, which fails the query.\<close>

definition action_watts :: "(string \<rightharpoonup> string) \<Rightarrow> string option \<Rightarrow> real option option" where
  "action_watts m act =
     (case act of None \<Rightarrow> Some None
      | Some a \<Rightarrow>
          if a = ''heating'' then map_option (\<lambda>k. Some (1000 * k)) (settingKW m ''hvac_heating_kw'')
          else if a = ''cooling'' then map_option (\<lambda>k. Some (1000 * k)) (settingKW m ''hvac_cooling_kw'')
          else Some (Some 0))"

definition hvac_minutes :: "instant \<Rightarrow> instant \<Rightarrow> store \<Rightarrow> (instant \<times> real option) list option" where
  "hvac_minutes lo hi st =
     those (map (\<lambda>(mt, a). map_option (Pair mt) (action_watts (st_settings st) a)) (action_minutes lo hi st))"

text \<open>\<open>per_min\<close>: the minutes with their total, \<open>coalesce(w, 0)\<close>; no rows when no entity has a sample.\<close>

definition row_watts :: "instant \<Rightarrow> (instant \<times> real option) list \<Rightarrow> real" where
  "row_watts mt rows = (case map_of rows mt of Some (Some w) \<Rightarrow> w | _ \<Rightarrow> 0)"

definition monitored_minutes :: "string list \<Rightarrow> instant \<Rightarrow> instant \<Rightarrow> store \<Rightarrow> (instant \<times> real) list option" where
  "monitored_minutes entities lo hi st =
     map_option (\<lambda>hv.
       let tables = filter (\<lambda>t. t \<noteq> []) (hv # map (\<lambda>e. entity_minutes lo hi e st) (remdups entities)) in
       if tables = [] then [] else map (\<lambda>mt. (mt, sum_list (map (row_watts mt) tables))) (minute_grid lo hi))
     (hvac_minutes lo hi st)"

section \<open>What is read from it\<close>

definition kwh_of :: "real list \<Rightarrow> real" where
  "kwh_of ws = sum_list ws / 60 / 1000"

definition MonitoredEnergy :: "string list \<Rightarrow> instant \<Rightarrow> instant \<Rightarrow> store \<Rightarrow> real" where
  "MonitoredEnergy entities lo hi st =
     (if entities = [] then 0
      else case monitored_minutes entities lo hi st of None \<Rightarrow> 0 | Some ms \<Rightarrow> round_places (kwh_of (map snd ms)) 3)"

definition EntityEnergy :: "string \<Rightarrow> instant \<Rightarrow> instant \<Rightarrow> store \<Rightarrow> real" where
  "EntityEnergy entity lo hi st =
     (if entity = [] then 0 else round_places (kwh_of (map (\<lambda>(_, w). deref w) (entity_minutes lo hi entity st))) 3)"

definition MonitoredCV :: "string list \<Rightarrow> instant \<Rightarrow> instant \<Rightarrow> store \<Rightarrow> real option" where
  "MonitoredCV entities lo hi st =
     (if entities = [] then None
      else case monitored_minutes entities lo hi st of None \<Rightarrow> None
        | Some ms \<Rightarrow>
            (let ws = filter (\<lambda>w. w > 0) (map snd ms) in
             if length ws < 2 \<or> mean ws \<le> 0 then None else Some (round_places (stddev ws / mean ws) 3)))"

definition MonitoredFloor :: "string list \<Rightarrow> instant \<Rightarrow> instant \<Rightarrow> store \<Rightarrow> real" where
  "MonitoredFloor entities lo hi st =
     (if entities = [] then 0
      else case monitored_minutes entities lo hi st of None \<Rightarrow> 0
        | Some ms \<Rightarrow>
            (case percentile_cont (5 / 100) (filter (\<lambda>w. w > 0) (map snd ms)) of None \<Rightarrow> 0 | Some f \<Rightarrow> round_places f 1))"

record ReferenceHealth =
  rh_Configured :: bool
  rh_LastSample :: "instant option"
  rh_Stale :: bool
  rh_Gaps7d :: "(instant \<times> instant) list"

definition ReferenceHealth :: "instant \<Rightarrow> string list \<Rightarrow> store \<Rightarrow> ReferenceHealth" where
  "ReferenceHealth now entities st =
     (if entities = [] then \<lparr>rh_Configured = False, rh_LastSample = None, rh_Stale = False, rh_Gaps7d = []\<rparr>
      else (let ts = map rs_ts (filter (\<lambda>r. rs_entity r \<in> set entities) (st_ref st));
                lst = (if ts = [] then None else Some (Max (set ts)));
                mins = remdups_adj (sort (map minute_of (filter (\<lambda>t. now - 168 * hour \<le> t) ts)))
            in \<lparr>rh_Configured = True, rh_LastSample = lst,
                rh_Stale = (case lst of None \<Rightarrow> True | Some t \<Rightarrow> time_sub now t > 30 * minute),
                rh_Gaps7d = minute_holes (30 * minute) mins\<rparr>))"

definition HVACStatus :: "string \<Rightarrow> store \<Rightarrow> string \<times> instant option" where
  "HVACStatus entity st =
     (case sort_key (\<lambda>r. - hs_ts r) (filter (\<lambda>r. hs_entity r = entity) (st_hvac st)) of
        [] \<Rightarrow> ([], None) | r # _ \<Rightarrow> (hs_action r, Some (hs_ts r)))"

section \<open>Nothing is carried past the bound\<close>

lemma minute_of_le: "minute_of t \<le> t" "t < minute_of t + minute"
proof -
  have "t = t div minute * minute + t mod minute" by simp
  moreover have "0 \<le> t mod minute" "t mod minute < minute" by simp_all
  ultimately show "minute_of t \<le> t" "t < minute_of t + minute" unfolding minute_of_def by linarith+
qed

lemma sorted_grid: "sorted_wrt (<) (minute_grid lo hi)"
  by (auto simp: minute_grid_def sorted_wrt_map sorted_wrt_iff_nth_less)

text \<open>The carried state comes from a sample whose minute has been reached.\<close>

definition sourced :: "(instant \<times> 'a) list \<Rightarrow> instant list \<Rightarrow> ('b \<times> instant) option \<Rightarrow> bool" where
  "sourced ss mts cur \<longleftrightarrow> (\<forall>w src. cur = Some (w, src) \<longrightarrow> src \<in> fst ` set ss \<and> (\<forall>mt \<in> set mts. minute_of src \<le> mt))"

lemma carry_sourced:
  assumes "sourced ss (mt # mts) prev" "sorted_wrt (<) (mt # mts)"
  shows "sourced ss (mt # mts) (carry agg ss mt prev)"
proof (cases "in_minute mt ss = []")
  case True
  then show ?thesis using assms(1) by (simp add: carry_def)
next
  case False
  define src where "src = Max (set (map fst (in_minute mt ss)))"
  have "src \<in> set (map fst (in_minute mt ss))" unfolding src_def using False by (intro Max_in) auto
  then have "src \<in> fst ` set ss" "minute_of src = mt" by (auto simp: in_minute_def)
  moreover have "\<forall>m \<in> set (mt # mts). mt \<le> m" using assms(2) by auto
  moreover have "carry agg ss mt prev = Some (agg (in_minute mt ss), src)"
    using False by (simp add: carry_def Let_def src_def)
  ultimately show ?thesis by (auto simp: sourced_def)
qed

lemma gapfill_sound:
  assumes "sourced ss mts prev" "sorted_wrt (<) mts" "(mt, Some w) \<in> set (gapfill agg ss prev mts)"
  shows "\<exists>t \<in> fst ` set ss. mt - refCarryLimit \<le> t \<and> t < mt + minute"
  using assms
proof (induction mts arbitrary: prev)
  case (Cons m mts)
  let ?c = "carry agg ss m prev"
  have c: "sourced ss (m # mts) ?c" using Cons.prems(1,2) by (rule carry_sourced)
  show ?case
  proof (cases "(mt, Some w) = (m, bounded m ?c)")
    case True
    then obtain src where "?c = Some (w, src)" "m \<le> src + refCarryLimit" by (auto simp: bounded_def split: option.splits if_splits)
    moreover from this c have "src \<in> fst ` set ss" "minute_of src \<le> m" by (auto simp: sourced_def)
    ultimately show ?thesis using minute_of_le(2) [of src] True by (intro bexI [of _ src]) auto
  next
    case False
    then have "(mt, Some w) \<in> set (gapfill agg ss ?c mts)" using Cons.prems(3) by (auto simp: Let_def)
    moreover have "sourced ss mts ?c" using c by (auto simp: sourced_def)
    ultimately show ?thesis using Cons.IH Cons.prems(2) by simp
  qed
qed simp

lemma entity_minutes_sound:
  assumes "(mt, Some w) \<in> set (entity_minutes lo hi entity st)"
  shows "\<exists>r \<in> set (st_ref st). rs_entity r = entity \<and> lo \<le> rs_ts r \<and> rs_ts r \<le> hi \<and> mt - refCarryLimit \<le> rs_ts r \<and> rs_ts r < mt + minute"
proof -
  define ss where "ss = span_samples lo hi (map (\<lambda>r. (rs_ts r, rs_power r)) (filter (\<lambda>r. rs_entity r = entity) (st_ref st)))"
  have "(mt, Some w) \<in> set (gapfill avg_power ss None (minute_grid lo hi))"
    using assms by (auto simp: entity_minutes_def filled_def ss_def [symmetric] Let_def split: if_splits)
  from gapfill_sound [OF _ sorted_grid this] obtain t where t: "t \<in> fst ` set ss" "mt - refCarryLimit \<le> t" "t < mt + minute"
    by (auto simp: sourced_def)
  then show ?thesis by (auto simp: ss_def span_samples_def)
qed

text \<open>
  A dead feed contributes nothing: a minute in which a monitored sensor counts with any power
  has a stored sample of that sensor, inside the queried span, at most fifteen minutes
  before it; so after an outage begins the last value is never carried on.
\<close>

theorem dead_feed_contributes_nothing:
  assumes "\<not> (\<exists>r \<in> set (st_ref st). rs_entity r = entity \<and> mt - 15 * minute \<le> rs_ts r \<and> rs_ts r < mt + minute)"
  shows "row_watts mt (entity_minutes lo hi entity st) = 0"
proof (rule ccontr)
  assume "row_watts mt (entity_minutes lo hi entity st) \<noteq> 0"
  then obtain w where "map_of (entity_minutes lo hi entity st) mt = Some (Some w)"
    by (auto simp: row_watts_def split: option.splits)
  then have "(mt, Some w) \<in> set (entity_minutes lo hi entity st)" by (rule map_of_SomeD)
  from entity_minutes_sound [OF this] assms show False by (auto simp: refCarryLimit_def)
qed

definition one_sample :: store where
  "one_sample = InsertReferenceSample ''sensor.a'' 0 500 empty_store"

theorem dead_feed_contributes_nothing_witness:
  "row_watts (20 * minute) (entity_minutes 0 (30 * minute) ''sensor.a'' one_sample) = 0 \<and> row_watts 0 (entity_minutes 0 0 ''sensor.a'' one_sample) = 500"
proof -
  have "\<not> (\<exists>r \<in> set (st_ref one_sample). rs_entity r = ''sensor.a'' \<and> 20 * minute - 15 * minute \<le> rs_ts r \<and> rs_ts r < 20 * minute + minute)"
    by (simp add: one_sample_def InsertReferenceSample_def empty_store_def)
  from dead_feed_contributes_nothing [OF this, of 0 "30 * minute"]
  have "row_watts (20 * minute) (entity_minutes 0 (30 * minute) ''sensor.a'' one_sample) = 0" .
  moreover have "row_watts 0 (entity_minutes 0 0 ''sensor.a'' one_sample) = 500"
    by (simp add: row_watts_def entity_minutes_def filled_def span_samples_def one_sample_def InsertReferenceSample_def empty_store_def
        minute_grid_def minute_of_def carry_def in_minute_def bounded_def refCarryLimit_def avg_power_def mean_def Let_def)
  ultimately show ?thesis by blast
qed

end
