(* ===== verification/Backfill.thy ===== *)
theory Backfill
  imports Reference Feed Utility
begin

text \<open>
  The scheduled work of \<open>cmd/worker/main.go\<close>: the materialization of history in resumable steps
  (\<open>caggBackfillLoop\<close>), the reconstruction of reference samples from hourly statistics and of
  climate samples from the state history, and the refresh of the billed energy. What Home
  Assistant answers and which statements succeed are arguments.
\<close>

section \<open>Materializing history\<close>

definition cagg_key :: string where "cagg_key = ''readings_1h_refreshed_to''"
definition cagg_range :: duration where "cagg_range = 168 * hour"

definition trunc_hour :: "instant \<Rightarrow> instant" where "trunc_hour t = t div hour * hour"

record cagg_env =
  cg_now :: instant
  cg_settings :: bool
  cg_refresh :: bool
  cg_set :: bool

datatype cagg_next = Stop | Retry | Continue "instant \<times> instant"

definition set_if :: "bool \<Rightarrow> string \<Rightarrow> string \<Rightarrow> store \<Rightarrow> store" where
  "set_if ok k v st = (if ok then SetSetting k v st else st)"

definition watermark :: "(string \<rightharpoonup> string) \<Rightarrow> instant" where
  "watermark m = (case m cagg_key of None \<Rightarrow> zero_time
     | Some v \<Rightarrow> if v = [] then zero_time else (case parse_rfc3339 v of None \<Rightarrow> zero_time | Some t \<Rightarrow> t))"

text \<open>One turn of the loop: stop, wait and retry, or a range was materialized.\<close>

definition cagg_step :: "cagg_env \<Rightarrow> store \<Rightarrow> cagg_next \<times> store" where
  "cagg_step e st =
     (case GetSettings (cg_settings e) st of None \<Rightarrow> (Retry, st)
      | Some m \<Rightarrow>
          (case (if watermark m = zero_time then map_option trunc_hour (OldestReadingTS st) else Some (watermark m)) of
             None \<Rightarrow> (Stop, set_if (cg_set e) cagg_key (format_rfc3339 (cg_now e)) st)
           | Some from \<Rightarrow>
               (let target = trunc_hour (cg_now e - 48 * hour) in
                if \<not> from < target then (Stop, st)
                else (let to = (if from + cagg_range > target then target else from + cagg_range) in
                      if \<not> cg_refresh e then (Retry, st)
                      else (Continue (from, to), set_if (cg_set e) cagg_key (format_rfc3339 to) st)))))"

text \<open>The turns until it stops, or until the environment ends (shutdown): the ranges, whether it stopped, the store.\<close>

fun caggBackfillLoop :: "cagg_env list \<Rightarrow> store \<Rightarrow> (instant \<times> instant) list \<times> bool \<times> store" where
  "caggBackfillLoop [] st = ([], False, st)"
| "caggBackfillLoop (e # es) st =
     (case cagg_step e st of
        (Stop, st') \<Rightarrow> ([], True, st')
      | (Retry, st') \<Rightarrow> caggBackfillLoop es st'
      | (Continue r, st') \<Rightarrow> (case caggBackfillLoop es st' of (rs, b, st2) \<Rightarrow> (r # rs, b, st2)))"

section \<open>Reference samples from statistics\<close>

definition point_watts :: "einfo \<Rightarrow> MeanPoint \<Rightarrow> real option" where
  "point_watts i p =
     (let w = (if ei_kind i = ''power'' then map_option (\<lambda>m. m * ei_factor i) (mp_Mean p)
               else if ei_kind i = ''energy'' then map_option (\<lambda>c. c * ei_factor i * 1000) (mp_Change p) else None)
      in map_option (\<lambda>x. if x < 0 then 0 else x) w)"

text \<open>Twelve samples in the hour of a point, those inside the gap.\<close>

definition hour_times :: "instant \<Rightarrow> instant \<Rightarrow> instant \<Rightarrow> instant list" where
  "hour_times lo hi start = filter (\<lambda>t. lo \<le> t \<and> t \<le> hi) (map (\<lambda>k. start + int k * (5 * minute)) [0 ..< 12])"

definition backfill_rows :: "einfo \<Rightarrow> instant \<Rightarrow> instant \<Rightarrow> MeanPoint list \<Rightarrow> (instant \<times> real) list" where
  "backfill_rows i lo hi pts =
     concat (map (\<lambda>p. case point_watts i p of None \<Rightarrow> [] | Some w \<Rightarrow> map (\<lambda>t. (t, w)) (hour_times lo hi (mp_Start p))) pts)"

text \<open>The statements of an entity: \<open>oks entity\<close> says whether the delete and the insert succeed.\<close>

definition fill_entity ::
    "(string \<Rightarrow> bool \<times> bool) \<Rightarrow> (string \<rightharpoonup> einfo) \<Rightarrow> instant \<Rightarrow> instant \<Rightarrow> string \<times> MeanPoint list \<Rightarrow> store \<Rightarrow> store" where
  "fill_entity oks info lo hi ep st =
     (case info (fst ep) of None \<Rightarrow> st
      | Some i \<Rightarrow> (let rows = backfill_rows i lo hi (snd ep); (ok1, ok2) = oks (fst ep) in
                   snd (ReplaceBackfillSamples ok1 ok2 (fst ep) lo hi (map fst rows) (map snd rows) st)))"

text \<open>\<open>fetch\<close> is the answer for a span; its failure ends the whole run.\<close>

fun fill_gaps ::
    "(instant \<Rightarrow> instant \<Rightarrow> (string \<times> MeanPoint list) list option) \<Rightarrow> (string \<Rightarrow> bool \<times> bool) \<Rightarrow> (string \<rightharpoonup> einfo) \<Rightarrow> instant
     \<Rightarrow> (instant \<times> instant) list \<Rightarrow> store \<Rightarrow> store" where
  "fill_gaps fetch oks info capEnd [] st = st"
| "fill_gaps fetch oks info capEnd ((lo, hi0) # gs) st =
     (let hi = (if hi0 > capEnd then capEnd else hi0) in
      if \<not> lo < hi then fill_gaps fetch oks info capEnd gs st
      else (case fetch (lo - hour) hi of None \<Rightarrow> st
            | Some means \<Rightarrow> fill_gaps fetch oks info capEnd gs (fold (fill_entity oks info lo hi) means st)))"

definition backfillReferenceGaps ::
    "instant \<Rightarrow> Config \<Rightarrow> (string \<rightharpoonup> einfo) \<Rightarrow> Entity list option
     \<Rightarrow> (instant \<Rightarrow> instant \<Rightarrow> (string \<times> MeanPoint list) list option) \<Rightarrow> (string \<Rightarrow> bool \<times> bool) \<Rightarrow> store \<Rightarrow> store" where
  "backfillReferenceGaps now cfg cache sensors fetch oks st =
     (let capEnd = now - 2 * hour; entities = MonitoredEntities cfg;
          gaps = ReferenceGaps now entities (1440 * hour) (30 * minute) capEnd st
      in if gaps = [] then st
         else (let (info, ok) = resolveEntityInfo (fst (buildEntityInfo sensors entities)) cache entities in
               if \<not> ok then st else fill_gaps fetch oks info capEnd gaps st))"

section \<open>Climate samples from history\<close>

fun fill_ranges ::
    "(instant \<Rightarrow> instant \<Rightarrow> StateEvent list option) \<Rightarrow> bool \<times> bool \<Rightarrow> string \<Rightarrow> (instant \<times> instant) list \<Rightarrow> store \<Rightarrow> store option" where
  "fill_ranges fetch oks entity [] st = Some st"
| "fill_ranges fetch oks entity ((lo, hi) # rs) st =
     (case fetch (lo - hour) hi of None \<Rightarrow> Some st
      | Some events \<Rightarrow>
          Option.bind (expandHVACHistory events lo hi (5 * minute)) (\<lambda>rows.
            fill_ranges fetch oks entity rs
              (snd (ReplaceHVACBackfill (fst oks) (snd oks) entity lo hi (map fst rows) (map snd rows) st))))"

text \<open>None is an expansion that does not end, which \<open>fill_ranges_total\<close> excludes.\<close>

definition backfillHVACHistory ::
    "instant \<Rightarrow> Config \<Rightarrow> (instant \<Rightarrow> instant \<Rightarrow> StateEvent list option) \<Rightarrow> bool \<times> bool \<Rightarrow> store \<Rightarrow> store option" where
  "backfillHVACHistory now cfg fetch oks st =
     (let entity = HVACEntityID cfg; capEnd = now - 2 * hour; lookback = 240 * hour; minGap = 30 * minute;
          first = map_option fst (HVACSpan entity st);
          gaps = (if first = None then [] else HVACGaps now entity lookback minGap capEnd st)
      in fill_ranges fetch oks entity (planHVACBackfill first gaps now lookback minGap capEnd) st)"

section \<open>Materializing history ends\<close>

text \<open>Where the next turn starts.\<close>

definition cagg_from :: "store \<Rightarrow> instant option" where
  "cagg_from st = (if watermark (st_settings st) = zero_time then map_option trunc_hour (OldestReadingTS st)
                   else Some (watermark (st_settings st)))"

lemma watermark_set:
  assumes "0 \<le> t" "t < 2930167 * day_ns" "t mod hour = 0"
  shows "cagg_from (SetSetting cagg_key (format_rfc3339 t) st) = Some t"
proof -
  have "t = t div hour * hour" using div_mult_mod_eq [of t hour] assms(3) by (simp only: add_0_right)
  then have "t = t div hour * 3600 * 1000000000" by (simp only: mult.assoc)
  then have w: "t div 1000000000 * 1000000000 = t" by (metis nonzero_mult_div_cancel_right zero_neq_numeral)
  have "format_rfc3339 t \<noteq> []" by (simp add: format_rfc3339_def)
  moreover have "t \<noteq> zero_time" using assms(1) by (simp add: zero_time_def)
  ultimately show ?thesis using parse_format_rfc3339 [OF printable_range [OF assms(1,2)]]
    by (simp add: cagg_from_def watermark_def SetSetting_def w del: not_None_eq)
qed

lemma trunc_hour_bounds: "trunc_hour t \<le> t" "trunc_hour t mod hour = 0" "0 \<le> t \<Longrightarrow> 0 \<le> trunc_hour t"
  by (simp_all add: trunc_hour_def minus_mod_eq_div_mult [symmetric] zmod_le_nonneg_dividend)

lemma hour_step:
  fixes a b :: int
  assumes "a mod hour = 0" "b mod hour = 0" "a < b"
  shows "a + hour \<le> b"
proof -
  obtain i j where ij: "a = hour * i" "b = hour * j" using assms(1,2) by (metis mult_div_mod_eq add_0_right)
  with assms(3) have "i + 1 \<le> j" by simp
  then have "hour * (i + 1) \<le> hour * j" by (rule mult_left_mono) simp
  with ij show ?thesis by (simp only: distrib_left mult_1_right)
qed

definition good_turn :: "cagg_env \<Rightarrow> bool" where
  "good_turn e \<longleftrightarrow> cg_settings e \<and> cg_refresh e \<and> cg_set e"

definition cagg_target :: "cagg_env \<Rightarrow> instant" where
  "cagg_target e = trunc_hour (cg_now e - 48 * hour)"

text \<open>A turn from a known start: it stops at its target, changes nothing, or moves the start on by an hour or more.\<close>

lemma cagg_step_cases:
  assumes "cagg_from st = Some f"
  shows "cagg_step e st =
     (if \<not> cg_settings e then (Retry, st)
      else if \<not> f < cagg_target e then (Stop, st)
      else if \<not> cg_refresh e then (Retry, st)
      else (Continue (f, min (f + cagg_range) (cagg_target e)),
            set_if (cg_set e) cagg_key (format_rfc3339 (min (f + cagg_range) (cagg_target e))) st))"
  using assms by (simp add: cagg_step_def cagg_from_def GetSettings_def cagg_target_def Let_def min_def not_le split: if_splits)

definition spans_cover :: "(instant \<times> instant) list \<Rightarrow> instant \<Rightarrow> instant \<Rightarrow> bool" where
  "spans_cover rs lo hi \<longleftrightarrow> (\<forall>t. lo \<le> t \<longrightarrow> t < hi \<longrightarrow> (\<exists>(a, b) \<in> set rs. a \<le> t \<and> t < b))"

lemma spans_cover_cons: "spans_cover rs to hi \<Longrightarrow> spans_cover ((lo, to) # rs) lo hi"
  unfolding spans_cover_def by (metis (mono_tags, lifting) case_prodI list.set_intros(1) list.set_intros(2) not_le)

lemma spans_cover_more: "spans_cover rs lo hi \<Longrightarrow> spans_cover (r # rs) lo hi"
  unfolding spans_cover_def by (meson list.set_intros(2))

lemma target_bounds: "cg_now e \<le> N \<Longrightarrow> cagg_target e \<le> N - 48 * hour" "cagg_target e mod hour = 0"
  using trunc_hour_bounds(1) [of "cg_now e - 48 * hour"] trunc_hour_bounds(2) by (simp_all add: cagg_target_def)

lemma cagg_advance:
  assumes f: "0 \<le> f" "f mod hour = 0" "f < cagg_target e" and N: "cg_now e \<le> N" "N < 2930167 * day_ns"
  defines "to \<equiv> min (f + cagg_range) (cagg_target e)"
  shows "0 \<le> to" "to mod hour = 0" "f + hour \<le> to" "to \<le> N" "cagg_from (SetSetting cagg_key (format_rfc3339 to) st) = Some to"
proof -
  have "(f + cagg_range) mod hour = 0"
    using f(2) by (simp add: cagg_range_def mod_add_eq [symmetric, of f])
  then show m: "to mod hour = 0" using target_bounds(2) unfolding to_def by (simp add: min_def)
  have "f < to" using f(3) unfolding to_def by (simp add: cagg_range_def)
  then show h: "f + hour \<le> to" by (rule hour_step [OF f(2) m])
  then show z: "0 \<le> to" using f(1) by simp
  show n: "to \<le> N" using target_bounds(1) [OF N(1)] unfolding to_def by (simp add: min_le_iff_disj)
  show "cagg_from (SetSetting cagg_key (format_rfc3339 to) st) = Some to"
    by (rule watermark_set [OF z _ m]) (use n N(2) in linarith)
qed

lemma cagg_turns_needed:
  fixes f to N :: int
  assumes "f + hour \<le> to" "nat ((N - f) div hour) < Suc n" "to \<le> N"
  shows "nat ((N - to) div hour) < n"
proof -
  have "(N - to) div hour \<le> (N - f - hour) div hour" by (rule zdiv_mono1) (use assms(1) in simp_all)
  also have "\<dots> = (N - f) div hour - 1" by (simp add: diff_divide_distrib [symmetric])
  finally show ?thesis using assms(2,3) pos_imp_zdiv_nonneg_iff [of hour "N - to"] by simp
qed

lemma cagg_loop_ends:
  assumes "cagg_from st = Some f" "0 \<le> f" "f mod hour = 0" "\<forall>e \<in> set es. cg_now e \<le> N" "N < 2930167 * day_ns"
    "nat ((N - f) div hour) < length (filter good_turn es)"
  shows "\<exists>rs st' e. caggBackfillLoop es st = (rs, True, st') \<and> e \<in> set es \<and> spans_cover rs f (cagg_target e)
    \<and> (\<forall>(a, b) \<in> set rs. a < b \<and> b \<le> a + cagg_range)"
  using assms
proof (induction es arbitrary: st f)
  case (Cons e es)
  note S = cagg_step_cases [OF Cons.prems(1), of e]
  let ?to = "min (f + cagg_range) (cagg_target e)"
  have N: "cg_now e \<le> N" and Ns: "\<forall>e \<in> set es. cg_now e \<le> N" using Cons.prems(4) by simp_all
  show ?case
  proof (cases "cg_settings e \<and> \<not> f < cagg_target e")
    case True
    then have "caggBackfillLoop (e # es) st = ([], True, st)" using S by simp
    moreover have "spans_cover [] f (cagg_target e)" using True by (simp add: spans_cover_def)
    ultimately show ?thesis by (intro exI [of _ "[]"] exI [of _ st] exI [of _ e]) simp
  next
    case running: False
    show ?thesis
    proof (cases "cg_settings e \<and> cg_refresh e")
      case False
      then have "caggBackfillLoop (e # es) st = caggBackfillLoop es st" using S running by auto
      moreover have "\<not> good_turn e" using False by (auto simp: good_turn_def)
      then have "nat ((N - f) div hour) < length (filter good_turn es)" using Cons.prems(6) by simp
      from Cons.IH [OF Cons.prems(1,2,3) Ns Cons.prems(5) this] obtain rs st' e' where
        "caggBackfillLoop es st = (rs, True, st') \<and> e' \<in> set es \<and> spans_cover rs f (cagg_target e')
         \<and> (\<forall>(a, b) \<in> set rs. a < b \<and> b \<le> a + cagg_range)" by blast
      ultimately show ?thesis by (intro exI [of _ rs] exI [of _ st'] exI [of _ e']) simp
    next
      case True
      with running have lt: "f < cagg_target e" by simp
      let ?st = "set_if (cg_set e) cagg_key (format_rfc3339 ?to) st"
      have step: "cagg_step e st = (Continue (f, ?to), ?st)" using S True lt by simp
      have r: "f < ?to \<and> ?to \<le> f + cagg_range" using lt by (simp add: cagg_range_def)
      note A = cagg_advance [OF Cons.prems(2,3) lt N Cons.prems(5)]
      define g where "g = (if cg_set e then ?to else f)"
      have g: "cagg_from ?st = Some g" "0 \<le> g" "g mod hour = 0"
        using A(1,2,5) Cons.prems(1,2,3) by (simp_all add: g_def set_if_def)
      have "nat ((N - g) div hour) < length (filter good_turn es)"
      proof (cases "cg_set e")
        case True
        then have "length (filter good_turn (e # es)) = Suc (length (filter good_turn es))"
          using \<open>cg_settings e \<and> cg_refresh e\<close> by (simp add: good_turn_def)
        with Cons.prems(6) have "nat ((N - f) div hour) < Suc (length (filter good_turn es))" by simp
        from cagg_turns_needed [OF A(3) this A(4)] show ?thesis using True by (simp only: g_def if_True)
      next
        case False
        then have "\<not> good_turn e" by (simp add: good_turn_def)
        then show ?thesis using Cons.prems(6) False by (simp add: g_def)
      qed
      from Cons.IH [OF g Ns Cons.prems(5) this] obtain rs st' e' where
        I: "caggBackfillLoop es ?st = (rs, True, st')" "e' \<in> set es" "spans_cover rs g (cagg_target e')"
        "\<forall>(a, b) \<in> set rs. a < b \<and> b \<le> a + cagg_range" by blast
      have "spans_cover ((f, ?to) # rs) f (cagg_target e')"
        using I(3) spans_cover_cons spans_cover_more by (cases "cg_set e") (simp_all add: g_def)
      moreover have "caggBackfillLoop (e # es) st = ((f, ?to) # rs, True, st')" using step I(1) by simp
      ultimately show ?thesis using I(2,4) r
        by (intro exI [of _ "(f, ?to) # rs"] exI [of _ st'] exI [of _ e']) (simp del: min_less_iff_conj)
    qed
  qed
qed simp



section \<open>Backfilled hours keep their energy\<close>

lemma hour_times_all:
  assumes "lo \<le> start" "start + 55 * minute \<le> hi"
  shows "hour_times lo hi start = map (\<lambda>k. start + int k * (5 * minute)) [0 ..< 12]"
proof -
  have "lo \<le> start + int k * (5 * minute) \<and> start + int k * (5 * minute) \<le> hi" if "k < 12" for k
    using that assms by auto
  then show ?thesis unfolding hour_times_def by (intro filter_True) auto
qed

lemma minute_grid_hour:
  assumes "start mod minute = 0"
  shows "minute_grid start (start + 59 * minute) = map (\<lambda>k. start + int k * minute) [0 ..< 60]"
proof -
  have "minute_of start = start" using assms by (simp add: minute_of_def minus_mod_eq_div_mult [symmetric])
  moreover have "minute_of (start + 59 * minute) = start + 59 * minute"
  proof -
    have "(start + 59 * minute) mod minute = 0" using assms by (simp add: mod_add_eq [symmetric, of start])
    then show ?thesis by (simp add: minute_of_def minus_mod_eq_div_mult [symmetric])
  qed
  ultimately show ?thesis by (simp add: minute_grid_def)
qed

lemma avg_power_const:
  assumes "here \<noteq> []" "\<forall>x \<in> set here. snd x = w"
  shows "avg_power here = w"
proof -
  have "map snd here = replicate (length here) w" using assms(2) by (intro replicate_eqI) auto
  then have "avg_power here = mean (replicate (length here) w)" by (simp only: avg_power_def)
  then show ?thesis using assms(1) by (simp add: mean_def sum_list_replicate)
qed

text \<open>Samples every five minutes carry their value over each minute of the hour.\<close>

lemma on_grid:
  fixes start :: int
  assumes "start mod minute = 0"
  shows "minute_of (start + int j * minute) = start + int j * minute"
proof -
  have "(start + int j * minute) mod minute = 0" using assms by (metis mod_mult_self2 mult.commute)
  then show ?thesis by (simp add: minute_of_def minus_mod_eq_div_mult [symmetric])
qed

definition hour_samples :: "instant \<Rightarrow> real \<Rightarrow> (instant \<times> real) set" where
  "hour_samples start w = (\<lambda>k. (start + int (5 * k) * minute, w)) ` {0 ..< 12}"

lemma carry_hour:
  assumes "set ss = hour_samples start w" "start mod minute = 0" "j < 60"
  shows "carry avg_power ss (start + int j * minute) prev = (if 5 dvd j then Some (w, start + int j * minute) else prev)"
proof -
  let ?mt = "start + int j * minute"
  have inj: "start + int a * minute = start + int b * minute \<longleftrightarrow> a = b" for a b :: nat by simp
  have here: "set (in_minute ?mt ss) = (if 5 dvd j then {(?mt, w)} else {})"
  proof -
    have "set (in_minute ?mt ss) = {x \<in> hour_samples start w. fst x = ?mt}"
    proof -
      have "minute_of (fst x) = fst x" if "x \<in> hour_samples start w" for x
        using that on_grid [OF assms(2)] by (auto simp: hour_samples_def simp del: of_nat_mult)
      then show ?thesis by (auto simp: in_minute_def assms(1))
    qed
    also have "\<dots> = (if 5 dvd j then {(?mt, w)} else {})"
      using assms(3) unfolding hour_samples_def by (auto simp: inj dvd_def image_iff simp del: of_nat_mult)
    finally show ?thesis .
  qed
  show ?thesis
  proof (cases "5 dvd j")
    case True
    then have "in_minute ?mt ss \<noteq> []" "\<forall>x \<in> set (in_minute ?mt ss). snd x = w" using here by auto
    moreover have "set (map fst (in_minute ?mt ss)) = {?mt}" using here True by simp
    ultimately show ?thesis using avg_power_const True by (simp add: carry_def Let_def del: set_map)
  next
    case False
    then have "in_minute ?mt ss = []" using here by simp
    with False show ?thesis by (simp add: carry_def)
  qed
qed

lemma gapfill_hour:
  assumes "set ss = hour_samples start w" "start mod minute = 0" "j \<le> 60"
    "5 dvd j \<or> prev = Some (w, start + int (j - j mod 5) * minute)"
  shows "gapfill avg_power ss prev (map (\<lambda>k. start + int k * minute) [j ..< 60])
       = map (\<lambda>k. (start + int k * minute, Some w)) [j ..< 60]"
  using assms(3,4)
proof (induction j arbitrary: prev rule: inc_induct)
  case (step j)
  let ?cur = "Some (w, start + int (j - j mod 5) * minute)"
  have cur: "carry avg_power ss (start + int j * minute) prev = ?cur"
    using carry_hour [OF assms(1,2) step.hyps(2), of prev] step.prems by (auto simp: mod_eq_0_iff_dvd)
  have m: "int (j - j mod 5) = int j - int (j mod 5)" "int (j mod 5) < 5" by (simp_all add: of_nat_diff)
  have "start + int j * minute \<le> start + int (j - j mod 5) * minute + refCarryLimit"
    using m(2) unfolding m(1) refCarryLimit_def by (simp add: left_diff_distrib)
  then have b: "bounded (start + int j * minute) ?cur = Some w" by (simp only: bounded_def option.case prod.case if_True)
  have "5 dvd Suc j \<or> ?cur = Some (w, start + int (Suc j - Suc j mod 5) * minute)"
  proof (cases "Suc j mod 5 = 0")
    case False
    then have "Suc j - Suc j mod 5 = j - j mod 5" by (simp add: mod_Suc split: if_splits)
    then show ?thesis by simp
  qed (simp add: dvd_eq_mod_eq_0)
  note IH = step.IH [OF this]
  have "[j ..< 60] = j # [Suc j ..< 60]" using step.hyps(2) by (simp only: upt_conv_Cons)
  then show ?case by (simp only: list.map gapfill.simps Let_def cur b IH)
qed simp

lemma hour_times_outside:
  assumes "t \<in> set (hour_times lo hi s)" "start \<le> t" "t \<le> start + 59 * minute" "s + hour \<le> start \<or> start + hour \<le> s"
  shows False
  using assms by (auto simp: hour_times_def)

lemma backfill_rows_hour:
  assumes "point_watts i p = Some w" "mp_Start p = start" "lo \<le> start" "start + 55 * minute \<le> hi"
    "\<forall>q \<in> set (ps @ qs). mp_Start q + hour \<le> start \<or> start + hour \<le> mp_Start q"
  shows "{x \<in> set (backfill_rows i lo hi (ps @ p # qs)). start \<le> fst x \<and> fst x \<le> start + 59 * minute} = hour_samples start w"
proof -
  have out: "{x \<in> set (backfill_rows i lo hi rs). start \<le> fst x \<and> fst x \<le> start + 59 * minute} = {}"
    if "set rs \<subseteq> set (ps @ qs)" for rs
  proof -
    have "\<not> (start \<le> t \<and> t \<le> start + 59 * minute)" if q: "q \<in> set rs" and t: "t \<in> set (hour_times lo hi (mp_Start q))" for q t
      using hour_times_outside [OF t] assms(5) q \<open>set rs \<subseteq> set (ps @ qs)\<close> by blast
    then show ?thesis by (auto simp: backfill_rows_def split: option.splits)
  qed
  have app: "backfill_rows i lo hi (ps @ p # qs) = backfill_rows i lo hi ps @ map (\<lambda>t. (t, w)) (hour_times lo hi start) @ backfill_rows i lo hi qs"
    using assms(1,2) by (simp add: backfill_rows_def)
  have mid: "{x \<in> set (map (\<lambda>t. (t, w)) (hour_times lo hi start)). start \<le> fst x \<and> fst x \<le> start + 59 * minute} = hour_samples start w"
    unfolding hour_times_all [OF assms(3,4)] hour_samples_def by force
  show ?thesis unfolding app set_append using mid out [of ps] out [of qs] by auto
qed

lemma span_of_appended:
  assumes "\<And>r. r \<in> set old \<Longrightarrow> \<not> (rs_entity r = entity \<and> a \<le> rs_ts r \<and> rs_ts r \<le> b)"
  shows "set (span_samples a b (map (\<lambda>r. (rs_ts r, rs_power r)) (filter (\<lambda>r. rs_entity r = entity)
      (old @ map (\<lambda>(t, w). \<lparr>rs_ts = t, rs_entity = entity, rs_power = w, rs_src = LtsBackfill\<rparr>) rows))))
    = {x \<in> set rows. a \<le> fst x \<and> fst x \<le> b}"
proof -
  let ?new = "map (\<lambda>(t, w). \<lparr>rs_ts = t, rs_entity = entity, rs_power = w, rs_src = LtsBackfill\<rparr>) rows"
  have new: "map (\<lambda>r. (rs_ts r, rs_power r)) (filter (\<lambda>r. rs_entity r = entity) ?new) = rows"
    by (induction rows) auto
  have old: "span_samples a b (map (\<lambda>r. (rs_ts r, rs_power r)) (filter (\<lambda>r. rs_entity r = entity) old)) = []"
    using assms by (auto simp: span_samples_def filter_empty_conv)
  have "span_samples a b (xs @ ys) = span_samples a b xs @ span_samples a b ys" for xs ys :: "(instant \<times> real) list"
    by (simp add: span_samples_def)
  then show ?thesis by (simp only: filter_append map_append new old append_Nil) (auto simp: span_samples_def)
qed

lemma backfilled_span:
  assumes "point_watts i p = Some w" "mp_Start p = start" "lo \<le> start" "start + 59 * minute \<le> hi"
    "\<forall>q \<in> set (ps @ qs). mp_Start q + hour \<le> start \<or> start + hour \<le> mp_Start q"
    "info entity = Some i" "oks entity = (True, True)"
    "\<forall>r \<in> set (st_ref st). rs_entity r = entity \<and> start \<le> rs_ts r \<and> rs_ts r \<le> start + 59 * minute \<longrightarrow> rs_src r = LtsBackfill"
  shows "set (span_samples start (start + 59 * minute) (map (\<lambda>r. (rs_ts r, rs_power r))
      (filter (\<lambda>r. rs_entity r = entity) (st_ref (fill_entity oks info lo hi (entity, ps @ p # qs) st))))) = hour_samples start w"
proof -
  let ?rows = "backfill_rows i lo hi (ps @ p # qs)"
  have st': "st_ref (fill_entity oks info lo hi (entity, ps @ p # qs) st)
      = filter (\<lambda>r. \<not> (rs_entity r = entity \<and> rs_src r = LtsBackfill \<and> lo \<le> rs_ts r \<and> rs_ts r \<le> hi)) (st_ref st)
        @ map (\<lambda>(t, w). \<lparr>rs_ts = t, rs_entity = entity, rs_power = w, rs_src = LtsBackfill\<rparr>) ?rows"
    using assms(6,7) by (simp add: fill_entity_def Let_def ReplaceBackfillSamples_ok replace_span_def ref_rows_map zip_map_fst_snd)
  have "\<not> (rs_entity r = entity \<and> start \<le> rs_ts r \<and> rs_ts r \<le> start + 59 * minute)"
    if "r \<in> set (filter (\<lambda>r. \<not> (rs_entity r = entity \<and> rs_src r = LtsBackfill \<and> lo \<le> rs_ts r \<and> rs_ts r \<le> hi)) (st_ref st))" for r
    using that assms(3,4,8) by auto
  from span_of_appended [OF this] have "set (span_samples start (start + 59 * minute) (map (\<lambda>r. (rs_ts r, rs_power r))
      (filter (\<lambda>r. rs_entity r = entity) (st_ref (fill_entity oks info lo hi (entity, ps @ p # qs) st)))))
    = {x \<in> set ?rows. start \<le> fst x \<and> fst x \<le> start + 59 * minute}"
    unfolding st' .
  also have "\<dots> = hour_samples start w"
    by (rule backfill_rows_hour [OF assms(1,2,3) _ assms(5)]) (use assms(4) in simp)
  finally show ?thesis .
qed

text \<open>
  C37. A backfilled hour keeps the energy Home Assistant counted: after the statistics of a
  sensor were written into a gap, an hour that lies inside the gap, starts on a minute and
  holds no live sample integrates over its sixty minutes to its mean power exactly, whatever
  the other hours of the answer are.
\<close>

theorem backfilled_hour_keeps_energy:
  assumes "point_watts i p = Some w" "mp_Start p = start" "start mod minute = 0" "lo \<le> start" "start + 59 * minute \<le> hi"
    "\<forall>q \<in> set (ps @ qs). mp_Start q + hour \<le> start \<or> start + hour \<le> mp_Start q"
    "info entity = Some i" "oks entity = (True, True)" "entity \<noteq> []"
    "\<forall>r \<in> set (st_ref st). rs_entity r = entity \<and> start \<le> rs_ts r \<and> rs_ts r \<le> start + 59 * minute \<longrightarrow> rs_src r = LtsBackfill"
  shows "EntityEnergy entity start (start + 59 * minute) (fill_entity oks info lo hi (entity, ps @ p # qs) st) = round_places (w / 1000) 3"
proof -
  let ?st = "fill_entity oks info lo hi (entity, ps @ p # qs) st"
  let ?ss = "span_samples start (start + 59 * minute) (map (\<lambda>r. (rs_ts r, rs_power r)) (filter (\<lambda>r. rs_entity r = entity) (st_ref ?st)))"
  have ss: "set ?ss = hour_samples start w" by (rule backfilled_span [where i = i and oks = oks]) (fact assms)+
  then have "?ss \<noteq> []" by (auto simp: hour_samples_def)
  then have "entity_minutes start (start + 59 * minute) entity ?st
      = gapfill avg_power ?ss None (map (\<lambda>k. start + int k * minute) [0 ..< 60])"
    by (simp only: entity_minutes_def filled_def Let_def if_False minute_grid_hour [OF assms(3)])
  also have "\<dots> = map (\<lambda>k. (start + int k * minute, Some w)) [0 ..< 60]"
    by (rule gapfill_hour [OF ss assms(3)]) simp_all
  finally have "map (\<lambda>(_, w). deref w) (entity_minutes start (start + 59 * minute) entity ?st) = replicate 60 w"
    by (simp add: comp_def map_replicate_const)
  then show ?thesis using assms(9) by (simp only: EntityEnergy_def kwh_of_def sum_list_replicate if_False) (simp add: mult.commute)
qed

theorem backfilled_hour_keeps_energy_witness:
  "EntityEnergy ''sensor.a'' 0 (0 + 59 * minute)
     (fill_entity (\<lambda>_. (True, True)) [''sensor.a'' \<mapsto> \<lparr>ei_kind = ''power'', ei_factor = 1\<rparr>] (- hour) (4 * hour)
       (''sensor.a'', [] @ \<lparr>mp_Start = 0, mp_Mean = Some 250, mp_Change = None\<rparr> # [\<lparr>mp_Start = hour, mp_Mean = Some 900, mp_Change = None\<rparr>])
       empty_store) = round_places (250 / 1000) 3"
  by (rule backfilled_hour_keeps_energy [where i = "\<lparr>ei_kind = ''power'', ei_factor = 1\<rparr>"])
     (simp_all add: point_watts_def empty_store_def)

section \<open>The plan is carried out\<close>

lemma fill_ranges_total:
  assumes "\<And>a b es. fetch a b = Some es \<Longrightarrow> sorted (map se_TS es)"
  shows "fill_ranges fetch oks entity rs st \<noteq> None"
proof (induction rs arbitrary: st)
  case (Cons r rs)
  obtain lo hi where r: "r = (lo, hi)" by (cases r)
  show ?case
  proof (cases "fetch (lo - hour) hi")
    case (Some es)
    have "0 < 5 * minute" by simp
    then obtain out where "expandHVACHistory es lo hi (5 * minute) = Some out"
      using expand_exact [of "5 * minute" es lo hi] assms [OF Some] by blast
    with Some Cons.IH show ?thesis by (simp add: r)
  qed (simp add: r)
qed simp

lemma fill_entity_live:
  "rs_src r \<noteq> LtsBackfill \<Longrightarrow> r \<in> set (st_ref (fill_entity oks info lo hi ep st)) \<longleftrightarrow> r \<in> set (st_ref st)"
  using ref_table.live_untouched [of r "fst ep" lo hi "backfill_rows i lo hi (snd ep)" "st_ref st" for i]
  by (auto simp: fill_entity_def ReplaceBackfillSamples_def replace_span_def ref_rows_map Let_def split: option.split prod.split)

lemma fill_entities_live:
  "rs_src r \<noteq> LtsBackfill \<Longrightarrow> r \<in> set (st_ref (fold (fill_entity oks info lo hi) eps st)) \<longleftrightarrow> r \<in> set (st_ref st)"
  by (induction eps arbitrary: st) (simp_all add: fill_entity_live)

lemma fill_gaps_live:
  "rs_src r \<noteq> LtsBackfill \<Longrightarrow> r \<in> set (st_ref (fill_gaps fetch oks info capEnd gs st)) \<longleftrightarrow> r \<in> set (st_ref st)"
  by (induction fetch oks info capEnd gs st rule: fill_gaps.induct)
     (auto simp: Let_def fill_entities_live split: option.split)

text \<open>No backfill touches a live sample, whatever the answers and the failures of statements are.\<close>

lemma backfill_keeps_live:
  "rs_src r \<noteq> LtsBackfill \<Longrightarrow> r \<in> set (st_ref (backfillReferenceGaps now cfg cache sensors fetch oks st)) \<longleftrightarrow> r \<in> set (st_ref st)"
  by (simp add: backfillReferenceGaps_def Let_def fill_gaps_live split: prod.split)

section \<open>Billed energy\<close>

text \<open>The answers and the outcome of the statements of one run; \<open>ue_again\<close> is the last question of \<open>ResolvePeriod\<close>.\<close>

record util_env =
  ue_zone :: "string option"
  ue_zone_ok :: bool
  ue_fetch :: "string \<Rightarrow> StatPoint list option"
  ue_again :: "StatPoint list option"
  ue_upsert :: bool
  ue_keep :: bool

definition cache_zone :: "util_env \<Rightarrow> store \<Rightarrow> store" where
  "cache_zone e st = (case ue_zone e of None \<Rightarrow> st | Some tz \<Rightarrow> if tz \<noteq> [] then set_if (ue_zone_ok e) ''ha_time_zone'' tz st else st)"

definition resolve_points :: "util_env \<Rightarrow> Config \<Rightarrow> (string \<times> StatPoint list) option" where
  "resolve_points e cfg =
     (if UtilityPeriod cfg = ''auto'' \<or> UtilityPeriod cfg = [] then ResolvePeriod (ue_fetch e) (ue_again e)
      else map_option (Pair (UtilityPeriod cfg)) (ue_fetch e (UtilityPeriod cfg)))"

text \<open>Whether it succeeded, the billed rows and the store after it.\<close>

definition backfillUtility :: "util_env \<Rightarrow> Config \<Rightarrow> util_row list \<Rightarrow> store \<Rightarrow> bool \<times> util_row list \<times> store" where
  "backfillUtility e cfg t st =
     (let st1 = cache_zone e st; statID = UtilityStatisticID cfg in
      case resolve_points e cfg of None \<Rightarrow> (False, t, st1)
      | Some (period, points) \<Rightarrow>
          (let samples = BucketDeltas points in
           if samples = [] then (True, t, st1)
           else (case (if ue_upsert e then UpsertUtilityEnergy statID period (map us_TS samples) (map us_Kwh samples) t else None) of
                   None \<Rightarrow> (False, t, st1)
                 | Some t1 \<Rightarrow> (True, if ue_keep e then KeepOnlyUtility statID period t1 else t1, st1))))"

text \<open>One round of \<open>utilityLoop\<close> under a configuration; None is a climate expansion that does not end.\<close>

definition utility_round ::
    "(store \<Rightarrow> store) \<Rightarrow> (store \<Rightarrow> store option) \<Rightarrow> util_env \<Rightarrow> Config \<Rightarrow> util_row list \<times> store \<Rightarrow> (util_row list \<times> store) option" where
  "utility_round refGaps hvacGaps e cfg = (\<lambda>(t, st).
     let st1 = (if HAConfigured cfg \<and> ReferenceConfigured cfg then refGaps st else st) in
     map_option (\<lambda>st2. if HAConfigured cfg \<and> UtilityConfigured cfg then snd (backfillUtility e cfg t st2) else (t, st2))
       (if HAConfigured cfg \<and> HVACConfigured cfg then hvacGaps st1 else Some st1))"

text \<open>After a run that stored something, the billed rows are one series.\<close>

lemma backfillUtility_single_series:
  assumes "backfillUtility e cfg t st = (True, t', st')" "t' \<noteq> t" "ue_keep e" "r \<in> set t'"
  shows "ur_stat r = UtilityStatisticID cfg \<and> (UtilityPeriod cfg \<noteq> ''auto'' \<and> UtilityPeriod cfg \<noteq> [] \<longrightarrow> ur_period r = UtilityPeriod cfg)"
  using assms by (auto simp: backfillUtility_def resolve_points_def KeepOnlyUtility_def Let_def split: option.splits if_splits)

text \<open>A failed run never changes the billed rows.\<close>

lemma backfillUtility_failed:
  "backfillUtility e cfg t st = (False, t', st') \<Longrightarrow> t' = t"
  by (auto simp: backfillUtility_def Let_def split: option.splits if_splits prod.splits)

end
