(* ===== verification/Calendar.thy ===== *)
theory Calendar
  imports Clock
begin

text \<open>
  Local calendars as package \<open>time\<close> has them for a location, and the period arithmetic of
  \<open>internal/db/consumption.go\<close>. The zone database is not part of the program: a zone is given by
  the wall clock of every instant (nanoseconds since the epoch as the local calendar counts
  them) and by the instant \<open>time.Date\<close> gives for a wall clock.
\<close>

section \<open>Zones and dates\<close>

record zone =
  z_wall :: "instant \<Rightarrow> int"
  z_abs :: "int \<Rightarrow> instant"

definition utc :: zone where "utc = \<lparr>z_wall = (\<lambda>t. t), z_abs = (\<lambda>w. w)\<rparr>"

definition local_day :: "zone \<Rightarrow> instant \<Rightarrow> int" where "local_day z t = z_wall z t div day_ns"

definition local_date :: "zone \<Rightarrow> instant \<Rightarrow> int \<times> int \<times> int" where "local_date z t = civil_from_days (local_day z t)"

definition local_clock :: "zone \<Rightarrow> instant \<Rightarrow> int" where "local_clock z t = z_wall z t mod day_ns"

text \<open>Months and days outside their range carry over, as in \<open>time.Date\<close>.\<close>

definition date_days :: "int \<Rightarrow> int \<Rightarrow> int \<Rightarrow> int" where
  "date_days y m d = days_from_civil (y + (m - 1) div 12) ((m - 1) mod 12 + 1) 1 + (d - 1)"

definition Date :: "zone \<Rightarrow> int \<Rightarrow> int \<Rightarrow> int \<Rightarrow> int \<Rightarrow> instant" where
  "Date z y m d clock = z_abs z (date_days y m d * day_ns + clock)"

definition AddDate :: "zone \<Rightarrow> instant \<Rightarrow> int \<Rightarrow> int \<Rightarrow> int \<Rightarrow> instant" where
  "AddDate z t dy dm dd = (case local_date z t of (y, m, d) \<Rightarrow> Date z (y + dy) (m + dm) (d + dd) (local_clock z t))"

definition weekday :: "zone \<Rightarrow> instant \<Rightarrow> int" where "weekday z t = (local_day z t + 4) mod 7"

text \<open>The layouts \<open>2006-01-02\<close>, \<open>2006-01\<close>, \<open>01\<close>, \<open>15:04\<close>, and the parser of the first.\<close>

definition day_text :: "int \<Rightarrow> string" where
  "day_text k = (case civil_from_days k of (y, m, d) \<Rightarrow>
     pad_digits 4 (nat y) @ CHR ''-'' # pad_digits 2 (nat m) @ CHR ''-'' # pad_digits 2 (nat d))"

definition month_text :: "int \<Rightarrow> string" where
  "month_text k = (case civil_from_days k of (y, m, d) \<Rightarrow> pad_digits 4 (nat y) @ CHR ''-'' # pad_digits 2 (nat m))"

definition fmt_day :: "zone \<Rightarrow> instant \<Rightarrow> string" where "fmt_day z t = day_text (local_day z t)"
definition fmt_month :: "zone \<Rightarrow> instant \<Rightarrow> string" where "fmt_month z t = month_text (local_day z t)"

definition fmt_hhmm :: "zone \<Rightarrow> instant \<Rightarrow> string" where
  "fmt_hhmm z t = (let s = local_clock z t div 1000000000 in
     pad_digits 2 (nat (s div 3600)) @ CHR '':'' # pad_digits 2 (nat (s div 60 mod 60)))"

definition weekday_names :: "string list" where
  "weekday_names = [''Sun'', ''Mon'', ''Tue'', ''Wed'', ''Thu'', ''Fri'', ''Sat'']"

definition month_names :: "string list" where
  "month_names = [''Jan'', ''Feb'', ''Mar'', ''Apr'', ''May'', ''Jun'', ''Jul'', ''Aug'', ''Sep'', ''Oct'', ''Nov'', ''Dec'']"

text \<open>The layouts \<open>Mon 2\<close>, \<open>Jan 2\<close> and \<open>Jan\<close>.\<close>

definition fmt_label :: "string \<Rightarrow> zone \<Rightarrow> instant \<Rightarrow> string" where
  "fmt_label view z t = (case local_date z t of (y, m, d) \<Rightarrow>
     if view = ''week'' then weekday_names ! nat (weekday z t) @ CHR '' '' # nat_digits (nat d)
     else if view = ''month'' then month_names ! nat (m - 1) @ CHR '' '' # nat_digits (nat d)
     else month_names ! nat (m - 1))"

definition parse_day :: "zone \<Rightarrow> string \<Rightarrow> instant option" where
  "parse_day z s =
     obind (parse_year s) (\<lambda>(y, s1). obind (lit (CHR ''-'') s1) (\<lambda>s2.
     obind (getnum True s2) (\<lambda>(m, s3). obind (lit (CHR ''-'') s3) (\<lambda>s4.
     obind (getnum True s4) (\<lambda>(d, s5).
       if s5 \<noteq> [] \<or> m < 1 \<or> m > 12 \<or> d < 1 \<or> int d > days_in (int m) (int y) then None
       else Some (Date z (int y) (int m) (int d) 0))))))"

section \<open>Periods\<close>

definition periodStartAt :: "string \<Rightarrow> instant \<Rightarrow> zone \<Rightarrow> instant" where
  "periodStartAt view t z =
     (case local_date z t of (y, m, d) \<Rightarrow>
        if view = ''day'' then Date z y m d 0
        else if view = ''week'' then (let day = Date z y m d 0 in AddDate z day 0 0 (- weekday z day))
        else if view = ''month'' then Date z y m 1 0
        else Date z y 1 1 0)"

definition periodNext :: "string \<Rightarrow> instant \<Rightarrow> zone \<Rightarrow> instant" where
  "periodNext view start z =
     (if view = ''day'' then AddDate z start 0 0 1
      else if view = ''week'' then AddDate z start 0 0 7
      else if view = ''month'' then AddDate z start 0 1 0
      else AddDate z start 1 0 0)"

definition periodPrev :: "string \<Rightarrow> instant \<Rightarrow> zone \<Rightarrow> instant" where
  "periodPrev view start z =
     (if view = ''day'' then AddDate z start 0 0 (- 1)
      else if view = ''week'' then AddDate z start 0 0 (- 7)
      else if view = ''month'' then AddDate z start 0 (- 1) 0
      else AddDate z start (- 1) 0 0)"

record consumptionSlot =
  sl_key :: string
  sl_start :: instant
  sl_label :: string

text \<open>
  The loop \<open>for t := start; t.Before(end); t = next t\<close>. Whether it ends depends on the zone, so
  not ending is None.
\<close>

partial_function (option) slot_loop :: "(instant \<Rightarrow> instant) \<Rightarrow> (instant \<Rightarrow> 'a) \<Rightarrow> instant \<Rightarrow> instant \<Rightarrow> 'a list \<Rightarrow> 'a list option" where
  "slot_loop advance mk stop t acc =
     (if t < stop then slot_loop advance mk stop (advance t) (acc @ [mk t]) else Some acc)"

declare slot_loop.simps [code]

definition trunc_to :: "duration \<Rightarrow> instant \<Rightarrow> instant" where "trunc_to w t = t div w * w"

definition consumptionSlots :: "string \<Rightarrow> instant \<Rightarrow> instant \<Rightarrow> zone \<Rightarrow> consumptionSlot list option" where
  "consumptionSlots view start stop z =
     (if view = ''day'' then
        slot_loop (\<lambda>t. t + hour) (\<lambda>t. \<lparr>sl_key = format_rfc3339 t, sl_start = t, sl_label = fmt_hhmm z t\<rparr>) stop (trunc_to hour start) []
      else if view = ''week'' \<or> view = ''month'' then
        slot_loop (\<lambda>t. AddDate z t 0 0 1) (\<lambda>t. \<lparr>sl_key = fmt_day z t, sl_start = t, sl_label = fmt_label view z t\<rparr>) stop start []
      else
        slot_loop (\<lambda>t. AddDate z t 0 1 0) (\<lambda>t. \<lparr>sl_key = fmt_month z t, sl_start = t, sl_label = fmt_label view z t\<rparr>) stop start [])"

text \<open>The SQL group key of an hour, \<open>consumptionGroupExpr\<close>, and the granularity.\<close>

definition consumptionGroupExpr :: "string \<Rightarrow> zone \<Rightarrow> (instant \<Rightarrow> string) \<times> string" where
  "consumptionGroupExpr view z =
     (if view = ''day'' then (format_rfc3339, ''hour'')
      else if view = ''week'' \<or> view = ''month'' then (fmt_day z, ''day'')
      else (fmt_month z, ''month''))"

section \<open>Months follow each other\<close>

text \<open>The days before the March of a year.\<close>

definition year_days :: "int \<Rightarrow> int" where
  "year_days y = 365 * y + y div 4 - y div 100 + y div 400"

lemma days_from_civil_year:
  "days_from_civil y m d = year_days (if m \<le> 2 then y - 1 else y) + (153 * (if m > 2 then m - 3 else m + 9) + 2) div 5 + d - 1 - 719468"
proof -
  have "y' div 400 * 146097 + (y' mod 400 * 365 + y' mod 400 div 4 - y' mod 400 div 100) = year_days y'" for y' :: int
  proof -
    define e r where "e = y' div 400" and "r = y' mod 400"
    have y: "y' = 400 * e + r" and r: "0 \<le> r" "r < 400" unfolding e_def r_def by simp_all
    have "y' div 4 = 100 * e + r div 4" "y' div 100 = 4 * e + r div 100" using y by simp_all
    then show ?thesis unfolding year_days_def e_def [symmetric] r_def [symmetric] using y by simp
  qed
  from this [of "if m \<le> 2 then y - 1 else y"] show ?thesis
    unfolding days_from_civil_def Let_def by linarith
qed

lemma year_days_step: "year_days y - year_days (y - 1) = (if leap_year y then 366 else 365)"
proof -
  have step: "y div k - (y - 1) div k = (if y mod k = 0 then 1 else 0)" if "0 < k" for k :: int
  proof -
    define q r where "q = y div k" and "r = y mod k"
    have y: "y = k * q + r" and r: "0 \<le> r" "r < k" using that by (simp_all add: q_def r_def)
    show ?thesis
    proof (cases "r = 0")
      case True
      have "(y - 1) div k = q - 1"
        by (rule int_div_pos_eq [of _ _ _ "k - 1"]) (use y that True in \<open>simp_all add: algebra_simps\<close>)
      then show ?thesis using True by (simp add: q_def [symmetric] r_def [symmetric])
    next
      case False
      have "(y - 1) div k = q" by (rule int_div_pos_eq [of _ _ _ "r - 1"]) (use y r False in simp_all)
      then show ?thesis using False by (simp add: q_def [symmetric] r_def [symmetric])
    qed
  qed
  have gen: "365 * y + a - b + c - (365 * (y - 1) + a' - b' + c') = (if P \<and> (\<not> Q \<or> R) then 366 else 365)"
    if "a - a' = (if P then 1 else 0)" "b - b' = (if Q then 1 else 0)" "c - c' = (if R then 1 else 0)" "R \<Longrightarrow> Q" "Q \<Longrightarrow> P"
    for a a' b b' c c' :: int and P Q R
    using that by (auto split: if_splits)
  have dvd: "k dvd y \<longleftrightarrow> y mod k = 0" for k by (rule dvd_eq_mod_eq_0)
  have "y mod 400 = 0 \<Longrightarrow> y mod 100 = 0" "y mod 100 = 0 \<Longrightarrow> y mod 4 = 0"
    unfolding dvd [symmetric] by (erule dvd_trans [rotated], simp)+
  from gen [OF step step step this] show ?thesis unfolding year_days_def leap_year_def by simp
qed

text \<open>The first day of the month with the given number, counted from January of year 0.\<close>

definition month_first :: "int \<Rightarrow> int" where
  "month_first j = days_from_civil (j div 12) (j mod 12 + 1) 1"

lemma month_first_step: "month_first (j + 1) = month_first j + days_in (j mod 12 + 1) (j div 12)"
proof -
  define y m where "y = j div 12" and "m = j mod 12"
  have j: "j = 12 * y + m" and m: "0 \<le> m" "m < 12" unfolding y_def m_def by simp_all
  have upd: "(j + 1) div 12 = (if m = 11 then y + 1 else y)" "(j + 1) mod 12 = (if m = 11 then 0 else m + 1)"
    using j m by (auto intro: int_div_pos_eq int_mod_pos_eq)
  have here: "month_first j = days_from_civil y (m + 1) 1" by (simp add: month_first_def y_def m_def)
  consider "m = 0" | "m = 1" | "m = 2" | "m = 3" | "m = 4" | "m = 5" | "m = 6" | "m = 7" | "m = 8" | "m = 9" | "m = 10" | "m = 11"
  proof -
    have "m = 0 \<or> m = 1 \<or> m = 2 \<or> m = 3 \<or> m = 4 \<or> m = 5 \<or> m = 6 \<or> m = 7 \<or> m = 8 \<or> m = 9 \<or> m = 10 \<or> m = 11"
      using m by presburger
    then show thesis using that by blast
  qed
  then show ?thesis using year_days_step [of y] unfolding y_def [symmetric] m_def [symmetric] here
    by cases (simp_all add: month_first_def upd days_from_civil_year days_in_def split: if_splits)
qed

lemma month_first_less: "month_first j < month_first (j + 1)"
  by (simp add: month_first_step days_in_def)

lemma month_first_mono: "i < j \<Longrightarrow> month_first i < month_first j"
proof (induction j rule: int_gr_induct)
  case base
  show ?case by (rule month_first_less)
next
  case (step j)
  then show ?case using month_first_less [of j] by simp
qed

lemma month_first_le_iff [simp]: "month_first i \<le> month_first j \<longleftrightarrow> i \<le> j"
  using month_first_mono [of i j] month_first_mono [of j i] by (cases i j rule: linorder_cases) auto

lemma month_first_less_iff [simp]: "month_first i < month_first j \<longleftrightarrow> i < j"
  using month_first_le_iff [of j i] by (simp add: not_le [symmetric] del: month_first_le_iff)

text \<open>The number of the month of a day.\<close>

definition month_of :: "int \<Rightarrow> int" where
  "month_of k = (case civil_from_days k of (y, m, d) \<Rightarrow> 12 * y + m - 1)"

lemma month_day:
  assumes "1 \<le> m" "m \<le> 12"
  shows "days_from_civil y m d = month_first (12 * y + m - 1) + d - 1"
proof -
  have "(12 * y + m - 1) div 12 = y" by (rule int_div_pos_eq [of _ _ _ "m - 1"]) (use assms in simp_all)
  moreover have "(12 * y + m - 1) mod 12 = m - 1" by (rule int_mod_pos_eq [of _ _ y]) (use assms in simp_all)
  ultimately show ?thesis by (simp add: month_first_def days_from_civil_def Let_def)
qed

lemma month_first_mod:
  assumes "1 \<le> m" "m \<le> 12"
  shows "month_first (12 * y + m) = month_first (12 * y + m - 1) + days_in m y"
proof -
  have "(12 * y + m - 1) div 12 = y" by (rule int_div_pos_eq [of _ _ _ "m - 1"]) (use assms in simp_all)
  moreover have "(12 * y + m - 1) mod 12 = m - 1" by (rule int_mod_pos_eq [of _ _ y]) (use assms in simp_all)
  ultimately show ?thesis using month_first_step [of "12 * y + m - 1"] by simp
qed

lemma month_of_bounds: "month_first (month_of k) \<le> k" "k < month_first (month_of k + 1)"
proof -
  obtain y m d where c: "civil_from_days k = (y, m, d)" by (cases "civil_from_days k")
  note V = civil_from_days_valid [OF c]
  have m: "month_of k = 12 * y + m - 1" by (simp add: month_of_def c)
  have k: "k = month_first (12 * y + m - 1) + d - 1" using month_day [OF V(1,2), of y d] V(5) by simp
  show "month_first (month_of k) \<le> k" using V(3) k m by simp
  show "k < month_first (month_of k + 1)" using V(4) k m month_first_mod [OF V(1,2), of y] by simp
qed

lemma month_of_eq: "month_of k = j \<longleftrightarrow> month_first j \<le> k \<and> k < month_first (j + 1)"
proof -
  have "month_first (month_of k) < month_first (j + 1)" "month_first j < month_first (month_of k + 1)"
    if "month_first j \<le> k" "k < month_first (j + 1)"
    using month_of_bounds [of k] that by linarith+
  then show ?thesis using month_of_bounds [of k] by auto
qed

lemma month_of_first [simp]: "month_of (month_first j) = j"
  by (simp add: month_of_eq)

lemma civil_first: "civil_from_days (month_first j) = (j div 12, j mod 12 + 1, 1)"
proof -
  obtain y m d where c: "civil_from_days (month_first j) = (y, m, d)" by (cases "civil_from_days (month_first j)")
  note V = civil_from_days_valid [OF c]
  have j: "j = 12 * y + m - 1" using c month_of_first [of j] by (simp add: month_of_def)
  then have "d = 1" using month_day [OF V(1,2), of y d] V(5) by simp
  moreover have "j div 12 = y" using V(1,2) j by (intro int_div_pos_eq [of _ _ _ "m - 1"]) simp_all
  moreover have "j mod 12 = m - 1" using V(1,2) j by (intro int_mod_pos_eq [of _ _ y]) simp_all
  ultimately show ?thesis using c by simp
qed

lemma date_days_first: "date_days y m d = month_first (12 * y + m - 1) + d - 1"
proof -
  define q r where "q = (m - 1) div 12" and "r = (m - 1) mod 12"
  have m: "m - 1 = 12 * q + r" and r: "0 \<le> r" "r < 12" unfolding q_def r_def by simp_all
  have e: "12 * y + m - 1 = 12 * (y + q) + (r + 1) - 1" using m by simp
  then show ?thesis using month_day [of "r + 1" "y + q" 1] r
    unfolding date_days_def q_def [symmetric] r_def [symmetric] e by simp
qed

section \<open>Zones with whole days\<close>

lemma div_eq_int:
  fixes c p t :: int
  assumes "0 < c"
  shows "t div c = p \<longleftrightarrow> p * c \<le> t \<and> t < (p + 1) * c"
proof -
  have q: "0 \<le> t - t div c * c" "t - t div c * c < c" using assms by (simp_all add: minus_div_mult_eq_mod)
  have "t div c * c \<le> t" "t < (t div c + 1) * c" using q unfolding distrib_right by linarith+
  moreover have "t div c = p" if "p * c \<le> t" "t < (p + 1) * c"
    by (rule int_div_pos_eq [of _ _ _ "t - c * p"]) (use that in \<open>simp_all add: algebra_simps\<close>)
  ultimately show ?thesis by blast
qed

lemma le_div_int:
  fixes c d t :: int
  assumes "0 < c"
  shows "d \<le> t div c \<longleftrightarrow> d * c \<le> t"
proof -
  have q: "t div c * c \<le> t" "t < (t div c + 1) * c" using div_eq_int [OF assms, of t "t div c"] by simp_all
  have "d \<le> t div c \<Longrightarrow> d * c \<le> t div c * c" "\<not> d \<le> t div c \<Longrightarrow> (t div c + 1) * c \<le> d * c"
    using assms by (auto intro: mult_right_mono)
  with q show ?thesis by linarith
qed

text \<open>
  What the calendar needs of a zone: midnight exists on every day, and the local date is day
  \<open>d\<close> or later exactly from the midnight of \<open>d\<close> on. Clock changes inside a day are allowed, a
  zone that skips or repeats midnight is not.
\<close>

definition whole_days :: "zone \<Rightarrow> bool" where
  "whole_days z \<longleftrightarrow> (\<forall>d. z_wall z (z_abs z (d * day_ns)) = d * day_ns)
     \<and> (\<forall>d t. z_abs z (d * day_ns) \<le> t \<longleftrightarrow> d \<le> local_day z t)"

definition midnight :: "zone \<Rightarrow> int \<Rightarrow> instant" where "midnight z d = z_abs z (d * day_ns)"

lemma midnight_iff: "whole_days z \<Longrightarrow> midnight z d \<le> t \<longleftrightarrow> d \<le> local_day z t"
  by (simp add: whole_days_def midnight_def)

lemma midnight_less_iff: "whole_days z \<Longrightarrow> t < midnight z d \<longleftrightarrow> local_day z t < d"
  using midnight_iff [of z d t] by auto

lemma midnight_local:
  assumes "whole_days z"
  shows "local_day z (midnight z d) = d" "local_clock z (midnight z d) = 0"
  using assms by (simp_all add: whole_days_def midnight_def local_day_def local_clock_def day_ns_def)

lemma Date_midnight: "Date z y m d 0 = midnight z (date_days y m d)"
  by (simp add: Date_def midnight_def)

lemma AddDate_days:
  assumes "whole_days z"
  shows "AddDate z (midnight z k) 0 0 n = midnight z (k + n)"
proof -
  obtain y m d where c: "civil_from_days k = (y, m, d)" by (cases "civil_from_days k")
  note V = civil_from_days_valid [OF c]
  have "date_days y m (d + n) = k + n" using V(5) month_day [OF V(1,2), of y d] by (simp add: date_days_first)
  then show ?thesis by (simp add: AddDate_def local_date_def midnight_local [OF assms] c Date_midnight)
qed

lemma AddDate_months:
  assumes "whole_days z"
  shows "AddDate z (midnight z (month_first j)) dy dm 0 = midnight z (month_first (j + 12 * dy + dm))"
proof -
  have "12 * (j div 12 + dy) + (j mod 12 + 1 + dm) - 1 = j + 12 * dy + dm" by presburger
  then show ?thesis
    by (simp add: AddDate_def local_date_def midnight_local [OF assms] civil_first Date_midnight date_days_first add.assoc)
qed

text \<open>The number of the period of a day, and the first day of a period.\<close>

definition period_of :: "string \<Rightarrow> int \<Rightarrow> int" where
  "period_of view k = (if view = ''day'' then k else if view = ''week'' then (k + 4) div 7
     else if view = ''month'' then month_of k else month_of k div 12)"

definition period_first :: "string \<Rightarrow> int \<Rightarrow> int" where
  "period_first view p = (if view = ''day'' then p else if view = ''week'' then 7 * p - 4
     else if view = ''month'' then month_first p else month_first (12 * p))"

lemma period_of_iff: "period_of view k = p \<longleftrightarrow> period_first view p \<le> k \<and> k < period_first view (p + 1)"
proof -
  have m: "12 * j \<le> month_of k \<longleftrightarrow> month_first (12 * j) \<le> k" "month_of k < 12 * j \<longleftrightarrow> k < month_first (12 * j)" for j
    using month_of_bounds [of k] month_first_le_iff [of "12 * j" "month_of k"] month_first_le_iff [of "month_of k + 1" "12 * j"]
    by linarith+
  have y: "month_of k div 12 = p \<longleftrightarrow> month_first (12 * p) \<le> k \<and> k < month_first (12 * (p + 1))"
    by (simp only: div_eq_int zero_less_numeral m [symmetric] mult.commute [of _ 12])
  have w: "(k + 4) div 7 = p \<longleftrightarrow> 7 * p - 4 \<le> k \<and> k < 7 * (p + 1) - 4"
    by (simp only: div_eq_int zero_less_numeral mult.commute [of _ 7]) linarith
  have d: "k = p \<longleftrightarrow> p \<le> k \<and> k < p + 1" by linarith
  consider (day) "view = ''day''" | (week) "view \<noteq> ''day''" "view = ''week''" | (month) "view \<noteq> ''day''" "view \<noteq> ''week''" "view = ''month''"
    | (year) "view \<noteq> ''day''" "view \<noteq> ''week''" "view \<noteq> ''month''" by blast
  then show ?thesis
  proof cases
    case day
    show ?thesis unfolding period_of_def period_first_def if_P [OF day] by (rule d)
  next
    case week
    show ?thesis unfolding period_of_def period_first_def if_not_P [OF week(1)] if_P [OF week(2)] by (rule w)
  next
    case month
    show ?thesis unfolding period_of_def period_first_def if_not_P [OF month(1)] if_not_P [OF month(2)] if_P [OF month(3)] by (rule month_of_eq)
  next
    case year
    show ?thesis unfolding period_of_def period_first_def if_not_P [OF year(1)] if_not_P [OF year(2)] if_not_P [OF year(3)] by (rule y)
  qed
qed

lemma period_first_of: "period_of view (period_first view p) = p"
proof -
  have "period_first view p < period_first view (p + 1)" by (simp add: period_first_def)
  then show ?thesis by (simp add: period_of_iff)
qed

lemma periodStartAt_first:
  assumes "whole_days z"
  shows "periodStartAt view t z = midnight z (period_first view (period_of view (local_day z t)))"
proof -
  define k where "k = local_day z t"
  obtain y m d where c: "civil_from_days k = (y, m, d)" by (cases "civil_from_days k")
  note V = civil_from_days_valid [OF c]
  have k: "date_days y m d = k" using V(5) month_day [OF V(1,2), of y d] by (simp add: date_days_first)
  have mo: "month_of k = 12 * y + m - 1" by (simp add: month_of_def c)
  have "(12 * y + m - 1) div 12 = y" by (rule int_div_pos_eq [of _ _ _ "m - 1"]) (use V in simp_all)
  moreover have "k + - ((k + 4) mod 7) = 7 * ((k + 4) div 7) - 4" using mult_div_mod_eq [of 7 "k + 4"] by (simp only: algebra_simps)
  ultimately show ?thesis
    using AddDate_days [OF assms, of k "- ((k + 4) mod 7)"]
    by (simp add: periodStartAt_def local_date_def k_def [symmetric] c Date_midnight k date_days_first [of y m 1] date_days_first [of y 1 1]
        weekday_def midnight_local [OF assms] period_of_def period_first_def mo Let_def)
qed

lemma periodNext_first:
  "whole_days z \<Longrightarrow> periodNext view (midnight z (period_first view p)) z = midnight z (period_first view (p + 1))"
  by (simp add: periodNext_def period_first_def AddDate_days AddDate_months algebra_simps)

lemma periodPrev_first:
  "whole_days z \<Longrightarrow> periodPrev view (midnight z (period_first view p)) z = midnight z (period_first view (p - 1))"
  using AddDate_months [of z "12 * p" "- 1" 0]
  by (simp add: periodPrev_def period_first_def AddDate_days AddDate_months algebra_simps)

text \<open>The page of an instant contains it, and paging forward and back returns to it.\<close>

lemma page_cursors:
  assumes "whole_days z" "s = periodStartAt view t z"
  shows "s \<le> t \<and> t < periodNext view s z \<and> periodPrev view (periodNext view s z) z = s \<and> periodNext view (periodPrev view s z) z = s
    \<and> (\<forall>u. s \<le> u \<and> u < periodNext view s z \<longrightarrow> periodStartAt view u z = s)
    \<and> periodStartAt view (periodNext view s z) z = periodNext view s z"
proof -
  define p where "p = period_of view (local_day z t)"
  have s: "s = midnight z (period_first view p)" unfolding assms(2) p_def by (rule periodStartAt_first [OF assms(1)])
  have n: "periodNext view s z = midnight z (period_first view (p + 1))" unfolding s by (rule periodNext_first [OF assms(1)])
  have inside: "s \<le> u \<and> u < periodNext view s z \<longleftrightarrow> period_of view (local_day z u) = p" for u
    unfolding n unfolding s by (simp add: midnight_iff [OF assms(1)] midnight_less_iff [OF assms(1)] period_of_iff)
  have "periodStartAt view u z = s" if "period_of view (local_day z u) = p" for u
    using that by (simp add: periodStartAt_first [OF assms(1)] s)
  moreover have "s \<le> t \<and> t < periodNext view s z" using inside [of t] by (simp add: p_def)
  moreover have "periodStartAt view (periodNext view s z) z = periodNext view s z"
    unfolding n by (simp add: periodStartAt_first [OF assms(1)] midnight_local [OF assms(1)] period_first_of)
  ultimately show ?thesis using inside
    by (simp add: n periodPrev_first [OF assms(1)] periodNext_first [OF assms(1)] s)
qed

lemma whole_days_utc: "whole_days utc"
  by (simp add: whole_days_def utc_def local_day_def day_ns_def le_div_int)

section \<open>Dates as texts\<close>

definition printable_day :: "int \<Rightarrow> bool" where
  "printable_day k \<longleftrightarrow> (case civil_from_days k of (y, _, _) \<Rightarrow> 0 \<le> y \<and> y < 10000)"

lemma parse_day_text:
  assumes "printable_day k"
  shows "parse_day z (day_text k) = Some (midnight z k)"
proof -
  obtain y m d where c: "civil_from_days k = (y, m, d)" by (cases "civil_from_days k")
  note V = civil_from_days_valid [OF c]
  have y: "0 \<le> y" "y < 10000" using assms c by (simp_all add: printable_day_def)
  have d31: "d \<le> 31" using V(4) by (auto simp: days_in_def split: if_splits)
  have n: "nat m < 100" "nat d < 100" "nat y < 10000" using V(2) d31 y by (simp_all add: nat_less_iff)
  have i: "int (nat m) = m" "int (nat d) = d" "int (nat y) = y" using V(1,3) y by simp_all
  have g: "getnum True (pad_digits 2 (nat d)) = Some (nat d, [])" using getnum_pad [OF n(2), of True "[]"] by simp
  have ok: "\<not> (([] :: string) \<noteq> [] \<or> nat m < 1 \<or> nat m > 12 \<or> nat d < 1 \<or> d > days_in m y)"
  proof -
    have "\<not> nat m < 1" "\<not> nat d < 1" "\<not> nat m > 12" using V(1,2,3) by simp_all
    moreover have "\<not> d > days_in m y" using V(4) by simp
    ultimately show ?thesis by (simp only: simp_thms)
  qed
  have day: "date_days y m d = k" using V(5) month_day [OF V(1,2), of y d] by (simp add: date_days_first)
  show ?thesis
    unfolding parse_day_def day_text_def c prod.case
    by (simp only: parse_year_pad [OF n(3)] getnum_pad [OF n(1)] g lit_same obind_simps prod.case i ok if_False Date_midnight day)
qed

lemma day_text_inj:
  assumes "printable_day k" "printable_day k'" "day_text k = day_text k'"
  shows "k = k'"
proof -
  have "parse_day utc (day_text k) = Some (k * day_ns)" if "printable_day k" for k
    using parse_day_text [OF that, of utc] by (simp add: midnight_def utc_def)
  with assms show ?thesis by (metis day_ns_def mult_right_cancel option.inject zero_neq_numeral)
qed

lemma month_text_take: "month_text k = take 7 (day_text k)" if "printable_day k"
proof -
  obtain y m d where c: "civil_from_days k = (y, m, d)" by (cases "civil_from_days k")
  have "0 \<le> y" "y < 10000" using that c by (simp_all add: printable_day_def)
  moreover have "m \<le> 12" using civil_from_days_valid [OF c] by simp
  ultimately have "length (pad_digits 4 (nat y)) = 4" "length (pad_digits 2 (nat m)) = 2"
    using pad_digits_length [of "nat y" 3] pad_digits_length [of "nat m" 1] by (simp_all add: nat_less_iff numeral_2_eq_2)
  then show ?thesis by (simp add: month_text_def day_text_def c)
qed

lemma month_text_inj:
  assumes "printable_day k" "printable_day k'" "month_text k = month_text k'"
  shows "month_of k = month_of k'"
proof -
  obtain y m d where c: "civil_from_days k = (y, m, d)" by (cases "civil_from_days k")
  obtain y' m' d' where c': "civil_from_days k' = (y', m', d')" by (cases "civil_from_days k'")
  note V = civil_from_days_valid [OF c] and V' = civil_from_days_valid [OF c']
  have y: "0 \<le> y" "y < 10000" "0 \<le> y'" "y' < 10000" using assms(1,2) c c' by (simp_all add: printable_day_def)
  then have n: "nat y < 10000" "nat y' < 10000" "nat m < 100" "nat m' < 100" using V(2) V'(2) by (simp_all add: nat_less_iff)
  have e: "pad_digits 4 (nat y) @ CHR ''-'' # pad_digits 2 (nat m) = pad_digits 4 (nat y') @ CHR ''-'' # pad_digits 2 (nat m')"
    using assms(3) unfolding month_text_def c c' prod.case .
  from arg_cong [OF e, of parse_year] have "nat y = nat y'" and t: "CHR ''-'' # pad_digits 2 (nat m) = CHR ''-'' # pad_digits 2 (nat m')"
    unfolding parse_year_pad [OF n(1)] parse_year_pad [OF n(2)] by (simp_all only: option.inject prod.inject)
  moreover from t have "pad_digits 2 (nat m) @ [] = pad_digits 2 (nat m') @ []" by (simp only: list.inject)
  from arg_cong [OF this, of "getnum True"] have "nat m = nat m'"
    unfolding getnum_pad [OF n(3)] getnum_pad [OF n(4)] by (simp only: option.inject prod.inject)
  ultimately have "y = y'" "m = m'" using y V(1) V'(1) by (simp_all add: eq_nat_nat_iff)
  then show ?thesis by (simp add: month_of_def c c')
qed

section \<open>The slots of a page\<close>

lemma slot_loop_map:
  assumes "\<And>i. i < n \<Longrightarrow> f i < stop" "\<not> f n < stop" "\<And>i. i < n \<Longrightarrow> advance (f i) = f (Suc i)" "j \<le> n"
  shows "slot_loop advance mk stop (f j) acc = Some (acc @ map (\<lambda>i. mk (f i)) [j ..< n])"
  using assms(4)
proof (induction j arbitrary: acc rule: inc_induct)
  case base
  show ?case using assms(2) by (subst slot_loop.simps) simp
next
  case (step j)
  then show ?case using assms(1) [of j] assms(3) [of j] by (subst slot_loop.simps) (simp add: upt_conv_Cons)
qed

lemma map_upto: "map (\<lambda>i. g (a + int i)) [0 ..< nat (b - a)] = map g [a..b - 1]"
  by (rule nth_equalityI) (simp_all add: nth_upto)

text \<open>A loop that visits the days or months \<open>a\<close> to \<open>b - 1\<close> by their first instants.\<close>

lemma slot_loop_upto:
  assumes "\<And>k. k < b \<Longrightarrow> f k < f b" "\<And>k. advance (f k) = f (k + 1)" "a \<le> b"
  shows "slot_loop advance mk (f b) (f a) [] = Some (map (\<lambda>k. mk (f k)) [a..b - 1])"
proof -
  have "slot_loop advance mk (f b) (f (a + int 0)) [] = Some ([] @ map (\<lambda>i. mk (f (a + int i))) [0 ..< nat (b - a)])"
  proof (rule slot_loop_map [where f = "\<lambda>i. f (a + int i)"])
    show "f (a + int i) < f b" if "i < nat (b - a)" for i using assms(1) [of "a + int i"] that by linarith
    show "\<not> f (a + int (nat (b - a))) < f b" using assms(3) by simp
    show "advance (f (a + int i)) = f (a + int (Suc i))" for i using assms(2) [of "a + int i"] by (simp add: add.assoc add.commute [of 1])
  qed simp
  then show ?thesis using map_upto [of "\<lambda>k. mk (f k)" a b] by simp
qed

lemma day_slots:
  assumes "whole_days z" "a \<le> b"
  shows "slot_loop (\<lambda>t. AddDate z t 0 0 1) mk (midnight z b) (midnight z a) [] = Some (map (\<lambda>k. mk (midnight z k)) [a..b - 1])"
  by (rule slot_loop_upto [where f = "midnight z"])
    (simp_all add: assms midnight_less_iff midnight_local AddDate_days)

lemma month_slots:
  assumes "whole_days z" "a \<le> b"
  shows "slot_loop (\<lambda>t. AddDate z t 0 1 0) mk (midnight z (month_first b)) (midnight z (month_first a)) []
       = Some (map (\<lambda>j. mk (midnight z (month_first j))) [a..b - 1])"
  by (rule slot_loop_upto [where f = "\<lambda>j. midnight z (month_first j)"])
    (simp_all add: assms midnight_less_iff midnight_local AddDate_months)

lemma printable_day_range: "0 \<le> k \<Longrightarrow> k < 2930167 \<Longrightarrow> printable_day k"
  using civil_year_range [of k] by (cases "civil_from_days k") (simp add: printable_day_def)

lemma hour_slots_until:
  assumes "a * hour < stop"
  shows "slot_loop (\<lambda>t. t + hour) mk stop (a * hour) [] = Some (map (\<lambda>h. mk (h * hour)) [a..(stop - 1) div hour])"
proof -
  define b where "b = (stop - 1) div hour + 1"
  have le: "h * hour < stop \<longleftrightarrow> h < b" for h using le_div_int [of hour h "stop - 1"] by (auto simp: b_def)
  have ab: "a < b" using assms le [of a] by simp
  have "slot_loop (\<lambda>t. t + hour) mk stop ((a + int 0) * hour) [] = Some ([] @ map (\<lambda>i. mk ((a + int i) * hour)) [0 ..< nat (b - a)])"
  proof (rule slot_loop_map [where f = "\<lambda>i. (a + int i) * hour"])
    show "(a + int i) * hour < stop" if "i < nat (b - a)" for i using le [of "a + int i"] that by simp
    show "\<not> (a + int (nat (b - a))) * hour < stop" using le [of b] ab by simp
    show "(a + int i) * hour + hour = (a + int (Suc i)) * hour" for i by (simp add: distrib_right)
  qed simp
  then show ?thesis using map_upto [of "\<lambda>h. mk (h * hour)" a b] by (simp add: b_def)
qed

end
