(* ===== verification/Usage.thy ===== *)
theory Usage
  imports Calendar Queries Counter Reference Utility "HOL-Library.List_Lexorder" "HOL-Library.Char_ord" "HOL-Library.Product_Lexorder"
begin

text \<open>
  What the dashboards read: the continuous aggregates of \<open>schema.go\<close>, \<open>series.go\<close>,
  \<open>analytics.go\<close> and the leaderboard of \<open>meters.go\<close>. The aggregates are real-time views, so a read
  is the grouping of the stored readings. \<open>GROUP BY\<close> without an order lists its groups
  ascending; times that are rendered as text are kept as instants; \<open>ids\<close> and \<open>sources\<close> list the
  keys of the registries.
\<close>

section \<open>The aggregates\<close>

record bucket_row =
  bk_start :: instant
  bk_min :: real
  bk_max :: real
  bk_n :: nat

definition in_bucket :: "duration \<Rightarrow> instant \<Rightarrow> (instant \<times> 'a) list \<Rightarrow> 'a list" where
  "in_bucket w b rows = map snd (filter (\<lambda>(t, _). trunc_to w t = b) rows)"

definition bucket_starts :: "duration \<Rightarrow> (instant \<times> 'a) list \<Rightarrow> instant list" where
  "bucket_starts w rows = sort (remdups (map (\<lambda>(t, _). trunc_to w t) rows))"

definition aggregate :: "duration \<Rightarrow> (instant \<times> real) list \<Rightarrow> bucket_row list" where
  "aggregate w rows =
     map (\<lambda>b. let cs = in_bucket w b rows in \<lparr>bk_start = b, bk_min = Min (set cs), bk_max = Max (set cs), bk_n = length cs\<rparr>)
       (bucket_starts w rows)"

definition readings_1m :: "int \<Rightarrow> store \<Rightarrow> bucket_row list" where "readings_1m i st = aggregate minute (counter_rows i st)"
definition readings_1h :: "int \<Rightarrow> store \<Rightarrow> bucket_row list" where "readings_1h i st = aggregate hour (counter_rows i st)"

definition to_hour_row :: "bucket_row \<Rightarrow> hour_row" where
  "to_hour_row a = \<lparr>h_bucket = bk_start a, h_max = bk_max a, h_n = int (bk_n a)\<rparr>"

text \<open>The modulus the queries take from \<open>meter_index\<close>; a meter without a registry row drops out of the join.\<close>

definition modulus_of :: "int \<Rightarrow> store \<Rightarrow> real option" where
  "modulus_of i st = map_option (\<lambda>x. if ix_msg_type x = Some ''SCM'' then 16777216 else 4294967296) (st_index st i)"

text \<open>\<open>glitch_clean\<close> of one meter over the hours selected by the condition.\<close>

definition meter_deltas :: "(instant \<Rightarrow> bool) \<Rightarrow> int \<Rightarrow> store \<Rightarrow> (hour_row \<times> real) list" where
  "meter_deltas window i st =
     (case modulus_of i st of None \<Rightarrow> []
      | Some m \<Rightarrow> hourlyDelta m (filter (\<lambda>r. window (h_bucket r)) (map to_hour_row (readings_1h i st))))"

definition sum_deltas :: "(hour_row \<times> real) list \<Rightarrow> real option" where
  "sum_deltas ds = (if ds = [] then None else Some (sum_list (map snd ds)))"

section \<open>Series\<close>

definition bucket_width :: "string \<Rightarrow> duration" where
  "bucket_width bucket = (if bucket = ''1d'' then day_ns else if bucket = ''5m'' then 5 * minute else hour)"

definition in_span :: "instant option \<Rightarrow> instant option \<Rightarrow> instant \<Rightarrow> bool" where
  "in_span since until t \<longleftrightarrow> (case since of None \<Rightarrow> True | Some s \<Rightarrow> s \<le> t) \<and> (case until of None \<Rightarrow> True | Some u \<Rightarrow> t \<le> u)"

record Series =
  se_EndpointID :: int
  se_Bucket :: string
  se_Points :: "(instant \<times> real) list"
  se_Deltas :: "(instant \<times> real option \<times> int) list"

definition series_rows :: "int \<Rightarrow> instant option \<Rightarrow> instant option \<Rightarrow> string \<Rightarrow> store \<Rightarrow> hour_row list" where
  "series_rows i since until bucket st =
     map to_hour_row (aggregate (bucket_width bucket) (filter (\<lambda>(t, _). in_span since until t) (counter_rows i st)))"

text \<open>Both queries succeed; a failing one is the error of the function.\<close>

definition MeterSeries :: "bool \<Rightarrow> bool \<Rightarrow> int \<Rightarrow> instant option \<Rightarrow> instant option \<Rightarrow> string \<Rightarrow> store \<Rightarrow> Series option" where
  "MeterSeries ok1 ok2 i since until bucket st =
     (if \<not> ok1 \<or> \<not> ok2 then None
      else (let m = counterModulus (case LatestMsgType i st of None \<Rightarrow> [] | Some t \<Rightarrow> t) in
        Some \<lparr>se_EndpointID = i, se_Bucket = bucket,
              se_Points = sort_key fst (filter (\<lambda>(t, _). in_span since until t) (counter_rows i st)),
              se_Deltas = map (\<lambda>(r, d). (h_bucket r, d, h_n r)) (hourly_deltas m (series_rows i since until bucket st))\<rparr>))"

definition multi_values :: "int \<Rightarrow> instant option \<Rightarrow> instant option \<Rightarrow> string \<Rightarrow> string \<Rightarrow> store \<Rightarrow> (instant \<times> real option) list" where
  "multi_values i since until bucket mode st =
     (let rows = series_rows i since until bucket st in
      if mode = ''cumulative'' then map (\<lambda>r. (h_bucket r, Some (h_max r))) rows
      else (case modulus_of i st of None \<Rightarrow> [] | Some m \<Rightarrow> map (\<lambda>(r, d). (h_bucket r, d)) (hourly_deltas m rows)))"

text \<open>The points of a meter; those without movement are omitted, and a meter without points has no key.\<close>

definition MultiSeries :: "int list \<Rightarrow> instant option \<Rightarrow> instant option \<Rightarrow> string \<Rightarrow> string \<Rightarrow> store \<Rightarrow> int \<Rightarrow> (instant \<times> real) list" where
  "MultiSeries ids since until bucket mode st i =
     (if i \<notin> set ids then []
      else List.map_filter (\<lambda>(b, v). case v of None \<Rightarrow> None | Some x \<Rightarrow> if x \<le> 0 then None else Some (b, x))
             (multi_values i since until bucket mode st))"

definition sum_present :: "real option list \<Rightarrow> real option" where
  "sum_present ws = (let xs = List.map_filter (\<lambda>w. w) ws in if xs = [] then None else Some (sum_list xs))"

text \<open>A minute counts when a monitored sensor has a value in it; the estimate alone does not make one.\<close>

definition chart_minutes :: "string list \<Rightarrow> instant \<Rightarrow> instant \<Rightarrow> store \<Rightarrow> (instant \<times> real option) list option" where
  "chart_minutes entities lo hi st =
     map_option (\<lambda>hv.
       let real_rows = filter (\<lambda>t. t \<noteq> []) (map (\<lambda>e. entity_minutes lo hi e st) (remdups entities));
           present = (\<lambda>mt. List.map_filter (\<lambda>t. map_of t mt) real_rows);
           tables = filter (\<lambda>t. t \<noteq> []) (hv # real_rows)
       in if tables = [] then []
          else map (\<lambda>mt. (mt, if (\<exists>w \<in> set (present mt). w \<noteq> None)
                              then Some (deref (sum_present (List.map_filter (\<lambda>t. map_of t mt) tables))) else None)) (minute_grid lo hi))
     (hvac_minutes lo hi st)"

definition AggregateSeries :: "string list \<Rightarrow> instant \<Rightarrow> instant \<Rightarrow> string \<Rightarrow> store \<Rightarrow> (instant \<times> real) list option" where
  "AggregateSeries entities lo hi bucket st =
     (if entities = [] then Some []
      else map_option (\<lambda>ms.
        let w = bucket_width bucket in
        List.map_filter (\<lambda>b. let xs = List.map_filter (\<lambda>x. x) (in_bucket w b ms) in
            if xs = [] then None else Some (b, round_places (mean xs) 1)) (bucket_starts w ms))
      (chart_minutes entities lo hi st))"

section \<open>Profiles\<close>

definition days_or :: "int \<Rightarrow> int \<Rightarrow> int" where "days_or d days = (if days \<le> 0 then d else days)"

definition since_days :: "instant \<Rightarrow> int \<Rightarrow> instant \<Rightarrow> bool" where "since_days now days b \<longleftrightarrow> now - days * day_ns \<le> b"

text \<open>\<open>avg\<close> and \<open>sum\<close> of the deltas by a key of the hour, ascending.\<close>

definition group_deltas :: "(instant \<Rightarrow> 'k :: linorder) \<Rightarrow> (real list \<Rightarrow> 'v) \<Rightarrow> (hour_row \<times> real) list \<Rightarrow> ('k \<times> 'v) list" where
  "group_deltas key agg ds =
     map (\<lambda>k. (k, agg (map snd (filter (\<lambda>(r, _). key (h_bucket r) = k) ds)))) (sort (remdups (map (\<lambda>(r, _). key (h_bucket r)) ds)))"

definition local_hour :: "zone \<Rightarrow> instant \<Rightarrow> int" where "local_hour z t = local_clock z t div hour"

definition profile :: "(instant \<Rightarrow> int) \<Rightarrow> instant \<Rightarrow> int \<Rightarrow> int \<Rightarrow> store \<Rightarrow> (int \<times> real) list" where
  "profile key now i days st =
     group_deltas key (\<lambda>vs. round_places (mean vs) 3) (meter_deltas (since_days now (days_or 7 days)) i st)"

definition HourlyProfile :: "zone \<Rightarrow> instant \<Rightarrow> int \<Rightarrow> int \<Rightarrow> store \<Rightarrow> (int \<times> real) list" where
  "HourlyProfile z = profile (local_hour z)"

definition DowProfile :: "zone \<Rightarrow> instant \<Rightarrow> int \<Rightarrow> int \<Rightarrow> store \<Rightarrow> (int \<times> real) list" where
  "DowProfile z = profile (weekday z)"

definition Heatmap :: "zone \<Rightarrow> instant \<Rightarrow> int \<Rightarrow> int \<Rightarrow> store \<Rightarrow> ((int \<times> int) \<times> real) list" where
  "Heatmap z now i days st =
     group_deltas (\<lambda>t. (weekday z t, local_hour z t)) (\<lambda>vs. round_places (mean vs) 3)
       (meter_deltas (since_days now (days_or 14 days)) i st)"

definition DailyRollup :: "zone \<Rightarrow> instant \<Rightarrow> int \<Rightarrow> int \<Rightarrow> store \<Rightarrow> (string \<times> real) list" where
  "DailyRollup z now i days st =
     group_deltas (fmt_day z) (\<lambda>vs. round_places (sum_list vs) 2) (meter_deltas (since_days now (days_or 30 days)) i st)"

definition meter_movement :: "int \<Rightarrow> instant \<Rightarrow> instant \<Rightarrow> store \<Rightarrow> real option" where
  "meter_movement i start stop st =
     (case modulus_of i st of None \<Rightarrow> None | Some m \<Rightarrow> MovementBetween m (map to_hour_row (readings_1h i st)) start stop)"

definition MovementSince :: "instant \<Rightarrow> int \<Rightarrow> instant \<Rightarrow> store \<Rightarrow> real" where
  "MovementSince now i since st = deref (meter_movement i since now st)"

section \<open>Neighbours\<close>

text \<open>
  \<open>medianOf\<close> sorts by insertion: the inner loop moves a value down past the larger ones. The
  sorted prefix is kept in reverse, so the loop runs over its head.
\<close>

fun bubble_down :: "real \<Rightarrow> real list \<Rightarrow> real list" where
  "bubble_down x [] = [x]"
| "bubble_down x (y # ys) = (if y > x then y # bubble_down x ys else x # y # ys)"

definition insertion_sorted :: "real list \<Rightarrow> real list" where
  "insertion_sorted xs = rev (foldl (\<lambda>pre x. bubble_down x pre) [] xs)"

definition medianOf :: "real list \<Rightarrow> real" where
  "medianOf xs =
     (let n = length xs; cp = insertion_sorted xs in
      if n = 0 then 0
      else if n mod 2 = 1 then cp ! (n div 2) else (cp ! (n div 2 - 1) + cp ! (n div 2)) / 2)"

record Benchmark =
  be_EndpointID :: int
  be_Commodity :: string
  be_Days :: int
  be_Yours :: real
  be_Median :: real
  be_Percentile :: real
  be_Peers :: nat

text \<open>All registered meters with their total movement over the window.\<close>

definition benchmark_rows :: "instant \<Rightarrow> int \<Rightarrow> int list \<Rightarrow> store \<Rightarrow> (int \<times> int option \<times> real) list" where
  "benchmark_rows now days ids st =
     List.map_filter (\<lambda>i. map_option (\<lambda>x. (i, ix_endpoint_type x, deref (sum_deltas (meter_deltas (since_days now days) i st)))) (st_index st i)) ids"

definition BenchmarkMeter :: "instant \<Rightarrow> int \<Rightarrow> int \<Rightarrow> int list \<Rightarrow> store \<Rightarrow> Benchmark" where
  "BenchmarkMeter now i days0 ids st =
     (let days = days_or 7 days0; all = benchmark_rows now days ids st;
          b = \<lparr>be_EndpointID = i, be_Commodity = [], be_Days = days, be_Yours = 0, be_Median = 0, be_Percentile = 0, be_Peers = 0\<rparr>
      in case List.find (\<lambda>(j, _, _). j = i) all of None \<Rightarrow> b
         | Some (_, et, mine) \<Rightarrow>
             (let peers = map (\<lambda>(_, _, mv). mv) (filter (\<lambda>(_, t, mv). Commodity t = Commodity et \<and> mv > 0) all);
                  below = length (filter (\<lambda>mv. mv < mine) peers);
                  b1 = b\<lparr>be_Commodity := Commodity et, be_Yours := round_places mine 2, be_Peers := length peers\<rparr>
              in if peers = [] then b1
                 else b1\<lparr>be_Percentile := round_places (100 * real below / real (length peers)) 1,
                         be_Median := round_places (medianOf peers) 2\<rparr>))"

section \<open>Coverage and signal\<close>

definition CoverageMatrix :: "(int \<times> string) list \<Rightarrow> store \<Rightarrow> (string \<times> int \<times> int \<times> instant) list" where
  "CoverageMatrix sources st =
     sort_key (\<lambda>(s, _, n, _). (s, - n))
       (List.map_filter (\<lambda>(i, s). map_option (\<lambda>x. (s, i, so_packets x, so_last_seen x)) (st_source st (i, s))) sources)"

definition SourceTimeline :: "instant \<Rightarrow> string \<Rightarrow> string \<Rightarrow> store \<Rightarrow> (instant \<times> nat) list" where
  "SourceTimeline since bucket src st =
     (let w = bucket_width bucket;
          rows = map (\<lambda>(r, _). (TS r, ())) (filter (\<lambda>(r, _). since \<le> TS r \<and> Source r = src) (st_readings st))
      in map (\<lambda>b. (b, length (in_bucket w b rows))) (bucket_starts w rows))"

section \<open>Anomalies\<close>

datatype Anomaly = Dropout int instant | Stuck int | SourceDown string

definition tracked :: "int \<Rightarrow> store \<Rightarrow> bool" where
  "tracked i st \<longleftrightarrow> (case st_meters st i of None \<Rightarrow> False | Some m \<Rightarrow> mt_is_mine m \<or> mt_publish m)"

definition dropouts :: "instant \<Rightarrow> int list \<Rightarrow> store \<Rightarrow> Anomaly list" where
  "dropouts now ids st =
     List.map_filter (\<lambda>i. case st_index st i of None \<Rightarrow> None
        | Some x \<Rightarrow> if tracked i st \<and> ix_last_seen x < now - 15 * minute then Some (Dropout i (ix_last_seen x)) else None) ids"

definition minute_move :: "(instant \<Rightarrow> bool) \<Rightarrow> int \<Rightarrow> store \<Rightarrow> real option" where
  "minute_move window i st =
     (let bs = filter (\<lambda>b. window (bk_start b)) (readings_1m i st) in
      if bs = [] then None else Some (Max (bk_max ` set bs) - Min (bk_min ` set bs)))"

definition stuck_meters :: "instant \<Rightarrow> int list \<Rightarrow> store \<Rightarrow> Anomaly list" where
  "stuck_meters now ids st =
     List.map_filter (\<lambda>i.
       case minute_move (\<lambda>b. now - 25 * hour \<le> b \<and> b < now - hour) i st of None \<Rightarrow> None
       | Some mv \<Rightarrow> if tracked i st \<and> mv > 0 \<and> deref (minute_move (\<lambda>b. now - hour \<le> b) i st) = 0 then Some (Stuck i) else None) ids"

definition dead_sources :: "instant \<Rightarrow> string list \<Rightarrow> store \<Rightarrow> Anomaly list" where
  "dead_sources now live st =
     List.map_filter (\<lambda>s. case st_heartbeat st s of None \<Rightarrow> None
        | Some h \<Rightarrow> if hb_updated h < now - 10 * minute then Some (SourceDown s) else None) (remdups live)"

text \<open>A scan whose query fails contributes nothing; the function itself never fails.\<close>

definition Anomalies :: "bool \<times> bool \<times> bool \<Rightarrow> instant \<Rightarrow> int list \<Rightarrow> string list \<Rightarrow> store \<Rightarrow> Anomaly list" where
  "Anomalies oks now ids live st =
     (case oks of (ok1, ok2, ok3) \<Rightarrow>
        (if ok1 then dropouts now ids st else []) @ (if ok2 then stuck_meters now ids st else [])
        @ (if ok3 then dead_sources now live st else []))"

section \<open>The leaderboard\<close>

record LeaderboardOpts =
  lo_Since :: "instant option"
  lo_Until :: "instant option"
  lo_MsgType :: string
  lo_ElectricOnly :: bool
  lo_IncludeIgnored :: bool
  lo_TrackedOnly :: bool
  lo_PublishedOnly :: bool

record lb_meter =
  lb_EndpointID :: int
  lb_MsgType :: string
  lb_Commodity :: string
  lb_Packets :: int
  lb_PacketsPerHour :: real
  lb_Sources :: nat
  lb_FirstSeen :: instant
  lb_LastSeen :: instant
  lb_LatestConsumption :: "real option"
  lb_TotalMovement :: "real option"
  lb_annot :: meter_row

definition lb_hours :: "instant \<Rightarrow> instant \<Rightarrow> real" where
  "lb_hours first lst = (let h = of_int (time_sub lst first) / 3600000000000 in if h \<le> 0 then 1 / 3600 else h)"

text \<open>A row of the query: None when the meter is not in the window or not registered.\<close>

definition lb_row :: "LeaderboardOpts \<Rightarrow> string list \<Rightarrow> store \<Rightarrow> int \<Rightarrow> lb_meter option" where
  "lb_row o' sources st i =
     (let win = filter (\<lambda>b. in_span (lo_Since o') (lo_Until o') (bk_start b)) (readings_1m i st) in
      case st_index st i of None \<Rightarrow> None
      | Some x \<Rightarrow>
          if win = [] then None
          else (let first = bk_start (hd win); lst = bk_start (last win); packets = sum_list (map (int \<circ> bk_n) win) in
            Some \<lparr>lb_EndpointID = i, lb_MsgType = (case ix_msg_type x of None \<Rightarrow> [] | Some t \<Rightarrow> t), lb_Commodity = Commodity (ix_endpoint_type x),
                  lb_Packets = packets, lb_PacketsPerHour = round_places (of_int packets / lb_hours first lst) 2,
                  lb_Sources = length (filter (\<lambda>s. st_source st (i, s) \<noteq> None) sources),
                  lb_FirstSeen = first, lb_LastSeen = lst, lb_LatestConsumption = ix_last x,
                  lb_TotalMovement = sum_deltas (meter_deltas (in_span (lo_Since o') (lo_Until o')) i st),
                  lb_annot = GetMeter i st\<rparr>))"

definition lb_keep :: "LeaderboardOpts \<Rightarrow> lb_meter \<Rightarrow> bool" where
  "lb_keep o' m \<longleftrightarrow> \<not> (\<not> lo_IncludeIgnored o' \<and> mt_ignored (lb_annot m)) \<and> \<not> (lo_TrackedOnly o' \<and> \<not> mt_is_mine (lb_annot m))
     \<and> \<not> (lo_PublishedOnly o' \<and> \<not> mt_publish (lb_annot m)) \<and> \<not> (lo_ElectricOnly o' \<and> lb_Commodity m \<noteq> ''electric'')"

text \<open>None when a row carries no message type, which does not scan into a string.\<close>

definition Leaderboard :: "bool \<Rightarrow> LeaderboardOpts \<Rightarrow> int list \<Rightarrow> string list \<Rightarrow> store \<Rightarrow> lb_meter list option" where
  "Leaderboard ok o' ids sources st =
     (let typed = (\<lambda>i. Option.bind (st_index st i) ix_msg_type);
          rows = List.map_filter (lb_row o' sources st) (filter (\<lambda>i. lo_MsgType o' = [] \<or> typed i = Some (lo_MsgType o')) ids)
      in if \<not> ok \<or> (\<exists>r \<in> set rows. typed (lb_EndpointID r) = None) then None
         else Some (sort_key (\<lambda>m. - deref (lb_TotalMovement m)) (filter (lb_keep o') rows)))"

section \<open>The insertion sort is the median of the database\<close>

lemma bubble_down_props:
  "sorted_wrt (\<ge>) ys \<Longrightarrow> sorted_wrt (\<ge>) (bubble_down x ys) \<and> mset (bubble_down x ys) = add_mset x (mset ys)"
proof (induction ys)
  case (Cons y ys)
  moreover have "set (bubble_down x ys) = insert x (set ys)" by (metis Cons.IH Cons.prems set_mset_add_mset_insert set_mset_mset sorted_wrt.simps(2))
  ultimately show ?case by (fastforce simp: not_less)
qed simp

lemma insertion_sorted_sort: "insertion_sorted xs = sort xs"
proof -
  have "sorted_wrt (\<ge>) pre \<Longrightarrow> sorted_wrt (\<ge>) (foldl (\<lambda>pre x. bubble_down x pre) pre xs)
      \<and> mset (foldl (\<lambda>pre x. bubble_down x pre) pre xs) = mset pre + mset xs" for pre
    by (induction xs arbitrary: pre) (simp_all add: bubble_down_props)
  from this [of "[]"] show ?thesis unfolding insertion_sorted_def
    by (intro properties_for_sort [symmetric]) (simp_all add: sorted_wrt_rev)
qed

lemma medianOf_percentile: "xs \<noteq> [] \<Longrightarrow> percentile_cont (1 / 2) xs = Some (medianOf xs)"
proof -
  assume ne: "xs \<noteq> []"
  define n where "n = length xs"
  have n: "0 < n" using ne by (simp add: n_def)
  show ?thesis
  proof (cases "n mod 2 = 1")
    case True
    then obtain q where q: "n = 2 * q + 1" by (metis mult_div_mod_eq)
    then have k: "1 / 2 * real (n - 1) = of_int (int q)" by simp
    have "\<lceil>1 / 2 * real (n - 1)\<rceil> = int q" "\<lfloor>1 / 2 * real (n - 1)\<rfloor> = int q" unfolding k by (rule ceiling_of_int, rule floor_of_int)
    then show ?thesis using ne q
      by (simp add: percentile_cont_def medianOf_def insertion_sorted_sort n_def [symmetric] k)
  next
    case False
    then obtain q where q: "n = 2 * q" by (metis mult_div_mod_eq add.right_neutral not_mod_2_eq_1_eq_0)
    with n have q0: "0 < q" by simp
    have k: "1 / 2 * real (n - 1) = real q - 1 / 2" using q q0 by (simp add: of_nat_diff)
    have f: "\<lfloor>real q - 1 / 2\<rfloor> = int q - 1" and c: "\<lceil>real q - 1 / 2\<rceil> = int q" by linarith+
    have "nat (int q - 1) = q - 1" using q0 by simp
    moreover have "percentile_cont (1 / 2) xs = Some (sort xs ! nat (int q - 1)
        + (real q - 1 / 2 - of_int (int q - 1)) * (sort xs ! nat (int q) - sort xs ! nat (int q - 1)))"
      using ne by (simp only: percentile_cont_def Let_def n_def [symmetric] k f c if_False)
    moreover have "medianOf xs = (sort xs ! (q - 1) + sort xs ! q) / 2"
      using q q0 by (simp add: medianOf_def insertion_sorted_sort n_def [symmetric] Let_def)
    ultimately show ?thesis by (simp add: field_simps)
  qed
qed

section \<open>The chart shows outages\<close>

lemma chart_minute_real:
  assumes "chart_minutes entities lo hi st = Some ms" "(mt, Some x) \<in> set ms"
  shows "mt \<in> set (minute_grid lo hi) \<and> (\<exists>e \<in> set entities. \<exists>w. (mt, Some w) \<in> set (entity_minutes lo hi e st))"
proof -
  define real_rows where "real_rows = filter (\<lambda>t. t \<noteq> []) (map (\<lambda>e. entity_minutes lo hi e st) (remdups entities))"
  from assms have mt: "mt \<in> set (minute_grid lo hi)" and w: "\<exists>w \<in> set (List.map_filter (\<lambda>t. map_of t mt) real_rows). w \<noteq> None"
    by (auto simp: chart_minutes_def Let_def real_rows_def split: if_splits)
  from w obtain t w where "t \<in> set real_rows" "map_of t mt = Some (Some w)" by (auto simp: List.map_filter_def)
  then have "(mt, Some w) \<in> set t" "t \<in> (\<lambda>e. entity_minutes lo hi e st) ` set entities"
    by (auto simp: real_rows_def dest: map_of_SomeD)
  with mt show ?thesis by blast
qed

lemma bucket_end:
  assumes "w = minute * n" "mt = minute * k" "trunc_to w mt = b" "0 < w"
  shows "b \<le> mt" "mt + minute \<le> b + w"
proof -
  have b: "b = mt div w * w" using assms(3) by (simp add: trunc_to_def)
  then show "b \<le> mt" using div_eq_int [OF assms(4), of mt "mt div w"] by simp
  have "mt < b + w" using div_eq_int [OF assms(4), of mt "mt div w"] b by (simp add: distrib_right)
  then have "minute * k < minute * (n * (mt div w + 1))" using b assms(1,2) by (simp add: algebra_simps)
  then have "k + 1 \<le> n * (mt div w + 1)" by (simp add: mult_less_cancel_left_pos)
  then have "minute * (k + 1) \<le> minute * (n * (mt div w + 1))" by (rule mult_left_mono) simp
  then show "mt + minute \<le> b + w" using b assms(1,2) by (simp add: algebra_simps)
qed

lemma minute_grid_aligned: "mt \<in> set (minute_grid lo hi) \<Longrightarrow> \<exists>k. mt = minute * k"
proof -
  assume "mt \<in> set (minute_grid lo hi)"
  then obtain i where "mt = minute_of lo + int i * minute" by (auto simp: minute_grid_def)
  then have "mt = minute * (lo div minute + int i)" by (simp only: minute_of_def distrib_left mult.commute [of minute])
  then show ?thesis ..
qed

lemma bucket_width_minutes: "\<exists>n. bucket_width bucket = minute * n" "0 < bucket_width bucket"
proof -
  have "bucket_width bucket = minute * (if bucket = ''1d'' then 1440 else if bucket = ''5m'' then 5 else 60)"
    by (simp add: bucket_width_def day_ns_def)
  then show "\<exists>n. bucket_width bucket = minute * n" ..
qed (simp add: bucket_width_def day_ns_def)



text \<open>The percentile of a meter among its peers.\<close>

lemma benchmark_bounds: "0 \<le> be_Percentile (BenchmarkMeter now i days ids st) \<and> be_Percentile (BenchmarkMeter now i days ids st) \<le> 100"
proof -
  have b: "0 \<le> round_places (100 * real (length (filter P xs)) / real (length xs)) 1
      \<and> round_places (100 * real (length (filter P xs)) / real (length xs)) 1 \<le> 100" if "xs \<noteq> []" for P and xs :: "real list"
  proof -
    have t: "round_places 100 1 = (100 :: real)" using round_places_of_int [of 100 1] by (simp only: of_int_numeral)
    have l: "real (length (filter P xs)) \<le> real (length xs)" "0 < real (length xs)" using that by simp_all
    then have "100 * real (length (filter P xs)) / real (length xs) \<le> 100" by (simp add: divide_le_eq)
    then have "round_places (100 * real (length (filter P xs)) / real (length xs)) 1 \<le> round_places 100 1"
      by (rule round_places_mono)
    then have "round_places (100 * real (length (filter P xs)) / real (length xs)) 1 \<le> 100"
      unfolding t .
    then show ?thesis using round_places_nonneg [of "100 * real (length (filter P xs)) / real (length xs)" 1] by simp
  qed
  show ?thesis
  proof (cases "List.find (\<lambda>(j, _, _). j = i) (benchmark_rows now (days_or 7 days) ids st)")
    case (Some y)
    obtain j et mine where y: "y = (j, et, mine)" by (cases y)
    define peers where "peers = map (\<lambda>(_, _, mv). mv) (filter (\<lambda>(_, t, mv). Commodity t = Commodity et \<and> mv > 0) (benchmark_rows now (days_or 7 days) ids st))"
    have "be_Percentile (BenchmarkMeter now i days ids st)
        = (if peers = [] then 0 else round_places (100 * real (length (filter (\<lambda>mv. mv < mine) peers)) / real (length peers)) 1)"
      by (simp add: BenchmarkMeter_def Let_def Some y peers_def del: filter_map filter_filter length_map)
    then show ?thesis using b [of peers "\<lambda>mv. mv < mine"] by simp
  qed (simp add: BenchmarkMeter_def Let_def)
qed

end
