(* ===== verification/Energy.thy ===== *)
theory Energy
  imports Usage Daily
begin

text \<open>
  The queries behind the daily screen and the bill views, on the tables: monitored energy per
  local day and per hour, the coverage of the reference feed, counter units per day
  (\<open>daily.go\<close>), the rates of the bills, the reconciliation with the published meters and the
  composed results (\<open>utility.go\<close>, \<open>consumption.go\<close>). The bill table is the list \<open>t\<close>.
\<close>

section \<open>Monitored energy\<close>

definition ref_span :: "string list \<Rightarrow> store \<Rightarrow> (instant \<times> instant) option" where
  "ref_span entities st =
     (let ts = map rs_ts (filter (\<lambda>r. rs_entity r \<in> set entities) (st_ref st)) in
      if ts = [] then None else Some (Min (set ts), Max (set ts)))"

definition clamp_span :: "string list \<Rightarrow> instant \<Rightarrow> instant \<Rightarrow> store \<Rightarrow> (instant \<times> instant) option" where
  "clamp_span entities lo hi st =
     (case ref_span entities st of None \<Rightarrow> None
      | Some (rlo, rhi) \<Rightarrow>
          (let start = (if rlo > lo then rlo else lo); stop = (if rhi < hi then rhi else hi) in
           if start < stop then Some (start, stop) else None))"

definition kwh_groups :: "(instant \<Rightarrow> 'k) \<Rightarrow> (instant \<times> real) list \<Rightarrow> ('k \<times> real) list" where
  "kwh_groups key ms = map (\<lambda>k. (k, kwh_of (map snd (filter (\<lambda>(mt, _). key mt = k) ms)))) (remdups (map (\<lambda>(mt, _). key mt) ms))"

text \<open>The map a query fills, as the list of its entries; a failing query leaves it empty.\<close>

definition monitored_kwh :: "(instant \<Rightarrow> 'k) \<Rightarrow> string list \<Rightarrow> instant \<Rightarrow> instant \<Rightarrow> store \<Rightarrow> ('k \<times> real) list" where
  "monitored_kwh key entities lo hi st =
     (if entities = [] then []
      else case clamp_span entities lo hi st of None \<Rightarrow> []
        | Some (start, stop) \<Rightarrow>
            (case monitored_minutes entities start stop st of None \<Rightarrow> [] | Some ms \<Rightarrow> kwh_groups key ms))"

definition monitoredDailyKwh :: "zone \<Rightarrow> string list \<Rightarrow> instant \<Rightarrow> instant \<Rightarrow> store \<Rightarrow> (string \<times> real) list" where
  "monitoredDailyKwh z = monitored_kwh (fmt_day z)"

definition monitoredHourlyKwh :: "string list \<Rightarrow> instant \<Rightarrow> instant \<Rightarrow> store \<Rightarrow> (string \<times> real) list" where
  "monitoredHourlyKwh = monitored_kwh (\<lambda>mt. format_rfc3339 (trunc_to hour mt))"

text \<open>\<open>m[day[:7]] += kwh\<close> over the days.\<close>

definition month_fold :: "(string \<times> real) list \<Rightarrow> string \<rightharpoonup> real" where
  "month_fold days m =
     (let ks = filter (\<lambda>(d, _). 7 \<le> length d \<and> take 7 d = m) days in
      if ks = [] then None else Some (sum_list (map snd ks)))"

section \<open>The daily screen on the tables\<close>

definition dataSpan :: "int list \<Rightarrow> store \<Rightarrow> (instant \<times> instant) option" where
  "dataSpan ids st =
     (let xs = List.map_filter (st_index st) ids in
      if xs = [] then None else Some (Min (ix_first_seen ` set xs), Max (ix_last_seen ` set xs)))"

definition referenceCoverage :: "zone \<Rightarrow> string list \<Rightarrow> instant \<Rightarrow> instant \<Rightarrow> store \<Rightarrow> string \<rightharpoonup> real" where
  "referenceCoverage z entities lo hi st =
     (let ms = filled (\<lambda>_. ()) lo hi (map (\<lambda>r. (rs_ts r, ())) (filter (\<lambda>r. rs_entity r \<in> set entities) (st_ref st))) in
      (\<lambda>day. if entities = [] \<or> day \<notin> (\<lambda>(mt, _). fmt_day z mt) ` set ms then None
            else Some (real (length (filter (\<lambda>(mt, c). fmt_day z mt = day \<and> c \<noteq> None) ms)) / 1440)))"

definition meterDailyUnits :: "zone \<Rightarrow> instant \<Rightarrow> instant \<Rightarrow> int list \<Rightarrow> store \<Rightarrow> (int \<times> (string \<rightharpoonup> real)) list" where
  "meterDailyUnits z lo hi ids st =
     List.map_filter (\<lambda>i. let ds = meter_deltas (\<lambda>b. lo \<le> b \<and> b \<le> hi) i st in
        if ds = [] then None else Some (i, map_of (group_deltas (fmt_day z) sum_list ds))) ids"

definition meterScreenMeta :: "string list \<Rightarrow> store \<Rightarrow> int \<rightharpoonup> screenMeta" where
  "meterScreenMeta sources st i =
     map_option (\<lambda>x. \<lparr>sm_msgType = (case ix_msg_type x of None \<Rightarrow> [] | Some t \<Rightarrow> t), sm_endpointType = ix_endpoint_type x,
        sm_packets = ix_packets x, sm_sources = int (length (filter (\<lambda>s. st_source st (i, s) \<noteq> None) sources)),
        sm_ignored = mt_ignored (GetMeter i st), sm_label = mt_label (GetMeter i st)\<rparr>) (st_index st i)"

text \<open>The rates of the monthly bills by calendar month, when there is a bill.\<close>

definition month_number :: "int \<Rightarrow> string" where
  "month_number k = (case civil_from_days k of (y, m, d) \<Rightarrow> pad_digits 2 (nat m))"

definition bill_rate :: "zone \<Rightarrow> real \<Rightarrow> util_row \<Rightarrow> string \<times> real" where
  "bill_rate z factor r =
     (case local_date z (ur_ts r) of (y, m, d) \<Rightarrow>
        (month_number (local_day z (ur_ts r)), ur_kwh r / max (of_int (days_in m y)) 1 * factor))"

definition billMonthlyRates :: "zone \<Rightarrow> Config \<Rightarrow> util_row list \<Rightarrow> (string \<times> real list) list option" where
  "billMonthlyRates z cfg t =
     (if \<not> UtilityConfigured cfg then None
      else let rs = map (bill_rate z (kwhFactor (UtilityUnit cfg)))
                      (filter (\<lambda>r. ur_stat r = UtilityStatisticID cfg \<and> ur_period r = ''month'' \<and> ur_kwh r > 0) t)
           in if rs = [] then None
              else Some (map (\<lambda>m. (m, map snd (filter (\<lambda>(k, _). k = m) rs))) (remdups (map fst rs))))"

definition screen_of_store :: "zone \<Rightarrow> Config \<Rightarrow> string list \<Rightarrow> util_row list \<Rightarrow> int list \<Rightarrow> string list \<Rightarrow> store \<Rightarrow> screen_input" where
  "screen_of_store z cfg entities t ids sources st =
     (let (lo, hi) = (case dataSpan ids st of None \<Rightarrow> (0, 0) | Some (a, b) \<Rightarrow> screen_window a b) in
      \<lparr>si_span = dataSpan ids st, si_monitored = monitoredDailyKwh z entities lo hi st,
       si_coverage = referenceCoverage z entities lo hi st, si_bill = billDailyBand (billMonthlyRates z cfg t),
       si_perDay = Some (meterDailyUnits z lo hi ids st), si_meta = Some (meterScreenMeta sources st)\<rparr>)"

definition daily_screen :: "zone \<Rightarrow> Config \<Rightarrow> string list \<Rightarrow> util_row list \<Rightarrow> int list \<Rightarrow> string list \<Rightarrow> int list \<Rightarrow> store \<Rightarrow> DailyScreen option" where
  "daily_screen z cfg entities t ids sources extraIDs st =
 dailyReconciliation (fmt_day z) (screen_of_store z cfg entities t ids sources st) extraIDs"

section \<open>Bills on the tables\<close>

definition published_meters :: "int list \<Rightarrow> store \<Rightarrow> int list" where
  "published_meters ids st =
     filter (\<lambda>i. tracked i st \<and> (case Option.bind (st_index st i) ix_endpoint_type of None \<Rightarrow> False | Some e \<Rightarrow> e \<in> {4, 5, 7, 8, 12, 13})) ids"

definition meter_hours :: "int \<Rightarrow> store \<Rightarrow> hour_row list" where
  "meter_hours i st = map to_hour_row (readings_1h i st)"

definition meter_mult :: "int \<Rightarrow> store \<Rightarrow> real" where
  "meter_mult i st = mt_pub_multiplier (GetMeter i st)"

text \<open>The joined hours of all published meters with their energy.\<close>

definition recon_hours :: "(instant \<times> real) list \<Rightarrow> int list \<Rightarrow> store \<Rightarrow> (instant \<times> real) list" where
  "recon_hours ub meters st =
     concat (map (\<lambda>i. case modulus_of i st of None \<Rightarrow> []
        | Some m \<Rightarrow> map (\<lambda>(h, d). (h, d * meter_mult i st)) (bill_deltas ub m (meter_hours i st))) meters)"

definition recon_bucket :: "(instant \<times> real) list \<Rightarrow> instant \<times> instant \<times> real \<Rightarrow> (int \<times> real \<times> real) option" where
  "recon_bucket hrs = (\<lambda>(a, b, kwh).
     let hs = filter (\<lambda>(h, _). a \<le> h \<and> h < b) hrs; bucketHours = of_int (b - a) / 3600000000000 :: real in
     if hs = [] then None
     else Some (a div 1000000000, sum_list (map snd hs),
                if bucketHours > 0 then clamp01 (real (length (remdups (map fst hs))) / bucketHours) else 1))"

definition utilityReconciliation :: "string \<Rightarrow> string \<Rightarrow> util_row list \<Rightarrow> int list \<Rightarrow> store \<Rightarrow> (int \<times> real \<times> real) list \<times> int list" where
  "utilityReconciliation statID period t ids st =
     (let meters = published_meters ids st; ub = billed statID period t in
      if meters = [] \<or> ub = [] then ([], meters)
      else (List.map_filter (recon_bucket (recon_hours ub meters st)) (with_lead ub), meters))"

text \<open>The energy the given meters recorded on a local day, steps of the day's maxima times the multiplier.\<close>

definition meters_day_kwh :: "zone \<Rightarrow> int list \<Rightarrow> store \<Rightarrow> int \<rightharpoonup> real" where
  "meters_day_kwh z meters st day =
     (let ks = List.map_filter (\<lambda>i. if st_meters st i = None then None else Option.bind (modulus_of i st) (\<lambda>m.
                 map_option (\<lambda>d. d * meter_mult i st) (meter_day_deltas (local_day z) m (meter_hours i st) day))) meters
      in if ks = [] then None else Some (sum_list ks))"

definition estimate_days :: "zone \<Rightarrow> string \<Rightarrow> util_row list \<Rightarrow> int list" where
  "estimate_days z statID t =
     map fst (sort_key fst (concat (map (bill_days (local_day z)) (with_lead (billed statID ''month'' t)))))"

text \<open>Monitored energy of a day and of its month, fetched once over the span of the days.\<close>

definition estimate_monitored :: "zone \<Rightarrow> string list \<Rightarrow> int list \<Rightarrow> store \<Rightarrow> (int \<Rightarrow> real \<times> real) option" where
  "estimate_monitored z entities days st =
     (if entities = [] \<or> days = [] then None
      else let dayMon = monitoredDailyKwh z entities (midnight z (hd days)) (AddDate z (midnight z (last days)) 0 0 1) st
           in Some (\<lambda>day. (deref (map_of dayMon (day_text day)), deref (month_fold dayMon (take 7 (day_text day))))))"

definition daily_estimate :: "zone \<Rightarrow> Config \<Rightarrow> util_row list \<Rightarrow> int list \<Rightarrow> store \<Rightarrow> UtilityDayEstimate list" where
  "daily_estimate z cfg t meters st =
     utilityDailyEstimateSeries (local_day z) t (UtilityStatisticID cfg) (kwhFactor (UtilityUnit cfg)) (meters_day_kwh z meters st)
       (estimate_monitored z (MonitoredEntities cfg) (estimate_days z (UtilityStatisticID cfg) t) st)"

definition UtilityDailyEstimateRange :: "zone \<Rightarrow> Config \<Rightarrow> int \<Rightarrow> int \<Rightarrow> util_row list \<Rightarrow> store \<Rightarrow> UtilityDayEstimate list" where
  "UtilityDailyEstimateRange z cfg fromDay toDay t st =
     (if \<not> UtilityConfigured cfg then []
      else estimate_range (daily_estimate z cfg t [] st) fromDay toDay
             (map_option (\<lambda>rs day. billDailyMonthMean rs (month_number day)) (billMonthlyRates z cfg t)))"

record UtilitySeriesResult =
  us_StatisticID :: string
  us_Period :: string
  us_CostPerKwh :: real
  us_Currency :: string
  us_TotalKwh :: real
  us_BucketCount :: nat
  us_ReconcileMeters :: "int list"
  us_Points :: "UtilitySeriesPoint list"
  us_DailyEstimate :: "UtilityDayEstimate list"

text \<open>A reconciliation whose queries fail leaves its columns out and the bill renders without them.\<close>

definition UtilitySeries :: "bool \<Rightarrow> zone \<Rightarrow> Config \<Rightarrow> util_row list \<Rightarrow> int list \<Rightarrow> store \<Rightarrow> UtilitySeriesResult" where
  "UtilitySeries recon_ok z cfg t ids st =
     (let statID = UtilityStatisticID cfg;
          res = \<lparr>us_StatisticID = statID, us_Period = [], us_CostPerKwh = CostPerKwh cfg, us_Currency = Currency cfg, us_TotalKwh = 0,
                 us_BucketCount = 0, us_ReconcileMeters = [], us_Points = [], us_DailyEstimate = []\<rparr>
      in if statID = [] then res
         else (let period = resolvedPeriod statID t; (rs, meters) = utilityReconciliation statID period t ids st;
                   recon = (if recon_ok then Some (map_of rs) else None);
                   (points, total, n) = UtilitySeries_points statID period (kwhFactor (UtilityUnit cfg)) (CostPerKwh cfg) recon t
               in res\<lparr>us_Period := period, us_ReconcileMeters := (if recon_ok then meters else []), us_Points := points,
                      us_TotalKwh := total, us_BucketCount := n,
                      us_DailyEstimate := (if period = ''month'' then daily_estimate z cfg t meters st else [])\<rparr>))"

text \<open>The bills per local month, the overlay of the year view.\<close>

definition utilityMonthlyKwh :: "zone \<Rightarrow> string \<Rightarrow> real \<Rightarrow> util_row list \<Rightarrow> string \<rightharpoonup> real" where
  "utilityMonthlyKwh z statID factor t mon =
     (let rs = filter (\<lambda>r. ur_stat r = statID \<and> ur_period r = ''month'' \<and> fmt_month z (ur_ts r) = mon) t in
      if rs = [] then None else Some (sum_list (map ur_kwh rs) * factor))"

end
