(* ===== verification/Consumption.thy ===== *)
theory Consumption
  imports Energy
begin

text \<open>
  The consumption page, \<open>Consumption\<close> of \<open>internal/db/consumption.go\<close>: one calendar period of a
  meter in the user's zone, its slots, overlays, totals and the cursors to the neighbouring pages.
  \<open>zones\<close> is the zone database; the database server is assumed to use the same one.
\<close>

section \<open>Pages\<close>

record ConsumptionBucket =
  cb_Start :: instant
  cb_Label :: string
  cb_Value :: "real option"
  cb_Packets :: int
  cb_Monitored :: "real option"
  cb_UtilityEst :: "real option"

record ConsumptionResult =
  cr_EndpointID :: int
  cr_View :: string
  cr_TZ :: string
  cr_Anchor :: string
  cr_PeriodStart :: instant
  cr_PeriodEnd :: instant
  cr_PrevAnchor :: "string option"
  cr_NextAnchor :: "string option"
  cr_Granularity :: string
  cr_Unit :: string
  cr_Multiplier :: real
  cr_Calibrated :: bool
  cr_Buckets :: "ConsumptionBucket list"
  cr_Total :: "real option"
  cr_AvgPerDay :: "real option"
  cr_PrevTotal :: "real option"
  cr_Coverage :: real

text \<open>The errors; \<open>Endless\<close> is no error of the code but a slot loop that does not end.\<close>

datatype page_error = BadView string | ConfigFailed | BadAnchor string | QueryFailed | Endless

definition resolve_zone :: "(string \<Rightarrow> zone option) \<Rightarrow> string \<Rightarrow> zone \<times> string" where
  "resolve_zone zones tz0 =
     (let tz = (if tz0 = [] then ''UTC'' else tz0) in
      case zones tz of Some z \<Rightarrow> (z, tz) | None \<Rightarrow> (utc, ''UTC''))"

text \<open>The cells of the query: units and packets per group key.\<close>

definition page_deltas :: "int \<Rightarrow> instant \<Rightarrow> instant \<Rightarrow> store \<Rightarrow> (hour_row \<times> real) list" where
  "page_deltas i start stop st =
     filter (\<lambda>(r, _). start \<le> h_bucket r) (meter_deltas (\<lambda>b. start - consumptionLookback \<le> b \<and> b < stop) i st)"

definition page_cells :: "(instant \<Rightarrow> string) \<Rightarrow> (hour_row \<times> real) list \<Rightarrow> string \<rightharpoonup> real \<times> int" where
  "page_cells key ds g =
     (let xs = filter (\<lambda>(r, _). key (h_bucket r) = g) ds in
      if xs = [] then None else Some (sum_list (map snd xs), sum_list (map (h_n \<circ> fst) xs)))"

section \<open>Overlays\<close>

definition overlay_monitored :: "string \<Rightarrow> zone \<Rightarrow> string list \<Rightarrow> instant \<Rightarrow> instant \<Rightarrow> store \<Rightarrow> string \<rightharpoonup> real" where
  "overlay_monitored view z entities start stop st =
     (if view = ''day'' then map_of (monitoredHourlyKwh entities start stop st)
      else if view = ''week'' \<or> view = ''month'' then map_of (monitoredDailyKwh z entities start stop st)
      else month_fold (monitoredDailyKwh z entities start stop st))"

definition overlay_utility :: "string \<Rightarrow> zone \<Rightarrow> Config \<Rightarrow> instant \<Rightarrow> instant \<Rightarrow> util_row list \<Rightarrow> store \<Rightarrow> string \<rightharpoonup> real" where
  "overlay_utility view z cfg start stop t st =
     (if view = ''week'' \<or> view = ''month'' then
        map_of (rev (map (\<lambda>e. (de_Day e, de_FlatKwh e))
          (UtilityDailyEstimateRange z cfg (local_day z start) (local_day z (AddDate z stop 0 0 (- 1))) t st)))
      else if view = ''year'' then utilityMonthlyKwh z (UtilityStatisticID cfg) (kwhFactor (UtilityUnit cfg)) t
      else Map.empty)"

definition consumptionOverlays ::
    "string \<Rightarrow> zone \<Rightarrow> Config \<Rightarrow> instant \<Rightarrow> instant \<Rightarrow> (string \<Rightarrow> bool) \<Rightarrow> util_row list \<Rightarrow> store \<Rightarrow> (string \<rightharpoonup> real) \<times> (string \<rightharpoonup> real)" where
  "consumptionOverlays view z cfg start stop compare t st =
     (if compare ''monitored'' \<and> MonitoredEntities cfg \<noteq> [] then overlay_monitored view z (MonitoredEntities cfg) start stop st else Map.empty,
      if compare ''utility'' \<and> UtilityConfigured cfg then overlay_utility view z cfg start stop t st else Map.empty)"

section \<open>The page\<close>

definition page_bucket ::
    "real \<Rightarrow> (string \<rightharpoonup> real \<times> int) \<Rightarrow> (string \<rightharpoonup> real) \<Rightarrow> (string \<rightharpoonup> real) \<Rightarrow> consumptionSlot \<Rightarrow> ConsumptionBucket" where
  "page_bucket mu got mon utl s =
     \<lparr>cb_Start = sl_start s, cb_Label = sl_label s,
      cb_Value = map_option (\<lambda>(u, _). round_places (u * mu) 3) (got (sl_key s)),
      cb_Packets = (case got (sl_key s) of None \<Rightarrow> 0 | Some (_, n) \<Rightarrow> n),
      cb_Monitored = map_option (\<lambda>v. round_places v 3) (mon (sl_key s)),
      cb_UtilityEst = map_option (\<lambda>v. round_places v 3) (utl (sl_key s))\<rparr>"

text \<open>The days the average divides by: the elapsed part of a running period, an hour at least.\<close>

definition elapsed_days :: "instant \<Rightarrow> instant \<Rightarrow> instant \<Rightarrow> real" where
  "elapsed_days now start stop =
     (let e = (if now < stop then now else stop); e' = (if \<not> start < e then stop else e);
          days = of_int (time_sub e' start) / 3600000000000 / 24
      in if days < 1 / 24 then 1 / 24 else days)"

definition page_values :: "ConsumptionBucket list \<Rightarrow> real list" where
  "page_values bs = List.map_filter cb_Value bs"

record page_env =
  pe_now :: instant
  pe_settings :: bool
  pe_first :: bool
  pe_query :: bool
  pe_prev :: bool

definition fill_page :: "instant \<Rightarrow> zone \<Rightarrow> ConsumptionBucket list \<Rightarrow> ConsumptionResult \<Rightarrow> ConsumptionResult" where
  "fill_page now z bs res =
     (let vs = page_values bs; total = sum_list vs;
          res1 = res\<lparr>cr_Buckets := bs,
                    cr_Coverage := (if bs = [] then cr_Coverage res else round_places (real (length vs) / real (length bs)) 3)\<rparr>
      in if vs = [] then res1
         else res1\<lparr>cr_Total := Some (round_places total 3),
                   cr_AvgPerDay := Some (round_places (total / elapsed_days now (cr_PeriodStart res) (cr_PeriodEnd res)) 3)\<rparr>)"

definition page_header :: "page_env \<Rightarrow> zone \<Rightarrow> string \<Rightarrow> int \<Rightarrow> string \<Rightarrow> instant \<Rightarrow> instant \<Rightarrow> store \<Rightarrow> ConsumptionResult" where
  "page_header e z tz i view start stop st =
     (let unit = mt_pub_unit (GetMeter i st); calibrated = (unit \<noteq> None \<and> unit \<noteq> Some []);
          firstSeen = (if pe_first e then map_option ix_first_seen (st_index st i) else None)
      in \<lparr>cr_EndpointID = i, cr_View = view, cr_TZ = tz, cr_Anchor = fmt_day z start, cr_PeriodStart = start, cr_PeriodEnd = stop,
          cr_PrevAnchor = (if (case firstSeen of None \<Rightarrow> True | Some f \<Rightarrow> start > f) then Some (fmt_day z (periodPrev view start z)) else None),
          cr_NextAnchor = (if \<not> stop > pe_now e then Some (fmt_day z stop) else None),
          cr_Granularity = snd (consumptionGroupExpr view z),
          cr_Unit = (if calibrated then the unit else ''counts''),
          cr_Multiplier = (if calibrated then mt_pub_multiplier (GetMeter i st) else 1), cr_Calibrated = calibrated,
          cr_Buckets = [], cr_Total = None, cr_AvgPerDay = None, cr_PrevTotal = None, cr_Coverage = 0\<rparr>)"

definition page_at ::
    "page_env \<Rightarrow> zone \<Rightarrow> string \<Rightarrow> Config \<Rightarrow> int \<Rightarrow> string \<Rightarrow> instant \<Rightarrow> (string \<Rightarrow> bool) \<Rightarrow> util_row list \<Rightarrow> store \<Rightarrow> page_error + ConsumptionResult" where
  "page_at e z tz cfg i view t0 compare t st =
     (let start = periodStartAt view t0 z; stop = periodNext view start z;
          res = page_header e z tz i view start stop st;
          (mon, utl) = consumptionOverlays view z cfg start stop compare t st;
          got = page_cells (fst (consumptionGroupExpr view z)) (page_deltas i start stop st)
      in if \<not> pe_query e then Inl QueryFailed
         else (case consumptionSlots view start stop z of None \<Rightarrow> Inl Endless
           | Some slots \<Rightarrow>
               (let page = fill_page (pe_now e) z (map (page_bucket (cr_Multiplier res) got mon utl) slots) res;
                    prev = (if pe_prev e then meter_movement i (periodPrev view start z) start st else None)
                in Inr (page\<lparr>cr_PrevTotal := map_option (\<lambda>u. round_places (u * cr_Multiplier res) 3) prev\<rparr>))))"

definition Consumption ::
    "(string \<Rightarrow> string) \<Rightarrow> (string \<Rightarrow> zone option) \<Rightarrow> page_env \<Rightarrow> int \<Rightarrow> string \<Rightarrow> string \<Rightarrow> (string \<Rightarrow> bool) \<Rightarrow> util_row list \<Rightarrow> store
     \<Rightarrow> page_error + ConsumptionResult" where
  "Consumption envs zones e i view anchor compare t st =
     (if view \<notin> {''day'', ''week'', ''month'', ''year''} then Inl (BadView view)
      else (case LoadConfig envs (pe_settings e) st of None \<Rightarrow> Inl ConfigFailed
        | Some cfg \<Rightarrow>
            (let (z, tz) = resolve_zone zones (HATimeZone cfg) in
             if anchor = [] then page_at e z tz cfg i view (pe_now e) compare t st
             else (case parse_day z anchor of None \<Rightarrow> Inl (BadAnchor anchor)
               | Some t0 \<Rightarrow> page_at e z tz cfg i view t0 compare t st))))"

section \<open>Paging\<close>

lemma fill_page_header:
  "cr_PeriodStart (fill_page now z bs res) = cr_PeriodStart res" "cr_PeriodEnd (fill_page now z bs res) = cr_PeriodEnd res"
  "cr_Anchor (fill_page now z bs res) = cr_Anchor res" "cr_PrevAnchor (fill_page now z bs res) = cr_PrevAnchor res"
  "cr_NextAnchor (fill_page now z bs res) = cr_NextAnchor res" "cr_Multiplier (fill_page now z bs res) = cr_Multiplier res"
  "cr_View (fill_page now z bs res) = cr_View res"
  by (simp_all add: fill_page_def Let_def)

lemma page_at_header:
  assumes "page_at e z tz cfg i view t0 compare t st = Inr page"
  shows "cr_PeriodStart page = periodStartAt view t0 z" "cr_PeriodEnd page = periodNext view (cr_PeriodStart page) z"
    "cr_Anchor page = fmt_day z (cr_PeriodStart page)"
    "cr_PrevAnchor page = Some b \<Longrightarrow> b = fmt_day z (periodPrev view (cr_PeriodStart page) z)"
    "cr_NextAnchor page = Some b \<Longrightarrow> b = fmt_day z (cr_PeriodEnd page)"
  using assms by (auto simp: page_at_def Let_def fill_page_header page_header_def split: prod.splits option.splits if_splits)

lemma Consumption_page:
  assumes "Consumption envs zones e i view anchor compare t st = Inr page" "LoadConfig envs (pe_settings e) st = Some cfg"
    "resolve_zone zones (HATimeZone cfg) = (z, tz)"
  shows "anchor \<noteq> [] \<Longrightarrow> \<exists>t0. parse_day z anchor = Some t0 \<and> page_at e z tz cfg i view t0 compare t st = Inr page"
    "\<exists>t0. page_at e z tz cfg i view t0 compare t st = Inr page"
  using assms by (auto simp: Consumption_def split: if_splits option.splits)

lemma fmt_day_midnight: "whole_days z \<Longrightarrow> fmt_day z (midnight z k) = day_text k"
  by (simp add: fmt_day_def midnight_local)

lemma day_text_nonempty: "day_text k \<noteq> []"
  by (simp add: day_text_def split: prod.split)

text \<open>A page opened at the anchor of a period starts at that period.\<close>

lemma page_of_anchor:
  assumes "Consumption envs zones e i view (day_text k) compare t st = Inr page" "LoadConfig envs (pe_settings e) st = Some cfg"
    "resolve_zone zones (HATimeZone cfg) = (z, tz)" "whole_days z" "printable_day k"
  shows "cr_PeriodStart page = periodStartAt view (midnight z k) z \<and> cr_PeriodEnd page = periodNext view (cr_PeriodStart page) z
    \<and> (\<forall>b. cr_PrevAnchor page = Some b \<longrightarrow> b = fmt_day z (periodPrev view (cr_PeriodStart page) z))"
proof -
  obtain t0 where t0: "parse_day z (day_text k) = Some t0" "page_at e z tz cfg i view t0 compare t st = Inr page"
    using Consumption_page(1) [OF assms(1,2,3) day_text_nonempty] by blast
  then have "t0 = midnight z k" using parse_day_text [OF assms(5)] by simp
  with page_at_header [OF t0(2)] show ?thesis by blast
qed

text \<open>
  C7. Paging returns: in a zone whose days begin at midnight, the page that the next-cursor of a
  page opens begins where that page ends, and the previous-cursor of it opens the first page
  again; no hour is skipped or shown twice between neighbouring pages, across changes of the
  clock, months of any length and leap years.
\<close>

theorem paging_returns:
  assumes "Consumption envs zones e i view anchor compare t st = Inr page" "LoadConfig envs (pe_settings e) st = Some cfg"
    "resolve_zone zones (HATimeZone cfg) = (z, tz)" "whole_days z"
    "0 \<le> local_day z (cr_PeriodStart page)" "local_day z (cr_PeriodEnd page) < 2930167"
    "cr_NextAnchor page = Some a" "pe_settings e' = pe_settings e" "Consumption envs zones e' i view a compare' t' st = Inr following"
  shows "cr_PeriodStart following = cr_PeriodEnd page
    \<and> (\<forall>b. cr_PrevAnchor following = Some b \<longrightarrow> b = cr_Anchor page
        \<and> (\<forall>prevpage. Consumption envs zones e' i view b compare' t' st = Inr prevpage
             \<longrightarrow> cr_PeriodStart prevpage = cr_PeriodStart page \<and> cr_PeriodEnd prevpage = cr_PeriodEnd page))"
proof -
  obtain t0 where p: "page_at e z tz cfg i view t0 compare t st = Inr page" using Consumption_page(2) [OF assms(1,2,3)] by blast
  define k where "k = period_of view (local_day z t0)"
  let ?m = "\<lambda>j. midnight z (period_first view (k + j))"
  have s: "cr_PeriodStart page = ?m 0" using page_at_header(1) [OF p] periodStartAt_first [OF assms(4)] by (simp add: k_def)
  have n: "cr_PeriodEnd page = ?m 1" using page_at_header(2) [OF p] periodNext_first [OF assms(4)] by (simp add: s)
  have start: "periodStartAt view (?m j) z = ?m j" for j
    by (simp add: periodStartAt_first [OF assms(4)] midnight_local [OF assms(4)] period_first_of)
  have "period_first view (k + 0) < period_first view (k + 1)" by (simp add: period_first_def)
  with assms(5,6) have pr: "printable_day (period_first view (k + 0))" "printable_day (period_first view (k + 1))"
    unfolding s n by (simp_all add: midnight_local [OF assms(4)] printable_day_range)
  have cfg': "LoadConfig envs (pe_settings e') st = Some cfg" using assms(2,8) by simp
  have a: "a = day_text (period_first view (k + 1))" using page_at_header(5) [OF p assms(7)] n by (simp add: fmt_day_midnight [OF assms(4)])
  note F = page_of_anchor [OF assms(9) [unfolded a] cfg' assms(3,4) pr(2), unfolded start]
  then have f: "cr_PeriodStart following = ?m 1" "\<And>b. cr_PrevAnchor following = Some b \<Longrightarrow> b = fmt_day z (periodPrev view (?m 1) z)"
    by simp_all
  have prev: "fmt_day z (periodPrev view (?m 1) z) = day_text (period_first view (k + 0))"
    by (simp add: periodPrev_first [OF assms(4)] fmt_day_midnight [OF assms(4)])
  have "cr_Anchor page = day_text (period_first view (k + 0))" using page_at_header(3) [OF p] s by (simp add: fmt_day_midnight [OF assms(4)])
  moreover have "cr_PeriodStart prevpage = ?m 0 \<and> cr_PeriodEnd prevpage = ?m 1"
    if "Consumption envs zones e' i view (day_text (period_first view (k + 0))) compare' t' st = Inr prevpage" for prevpage
    using page_of_anchor [OF that cfg' assms(3,4) pr(1)] start [of 0] periodNext_first [OF assms(4), of view "k + 0"] by auto
  ultimately show ?thesis using f prev s n by simp
qed

text \<open>The loop over the slots ends in such a zone, so a page is always produced.\<close>

lemma consumptionSlots_total:
  assumes "whole_days z"
  shows "\<exists>slots. consumptionSlots view (midnight z (period_first view p)) (midnight z (period_first view (p + 1))) z = Some slots"
proof -
  let ?a = "midnight z (period_first view p)" and ?b = "midnight z (period_first view (p + 1))"
  have lt: "period_first view p < period_first view (p + 1)" by (simp add: period_first_def)
  then have "?a < ?b" using assms by (simp add: midnight_less_iff midnight_local)
  moreover have "trunc_to hour ?a \<le> ?a" using trunc_to_def [of hour ?a] le_div_int [of hour "?a div hour" ?a] by simp
  ultimately have h: "?a div hour * hour < ?b" by (simp add: trunc_to_def)
  show ?thesis
  proof (cases "view = ''day''")
    case True
    show ?thesis unfolding consumptionSlots_def if_P [OF True] trunc_to_def using hour_slots_until [OF h] by blast
  next
    case day: False
    show ?thesis
    proof (cases "view = ''week'' \<or> view = ''month''")
      case True
      then show ?thesis using day day_slots [OF assms less_imp_le [OF lt]] by (simp only: consumptionSlots_def if_False if_True) blast
    next
      case False
      have le: "12 * p \<le> 12 * (p + 1)" by simp
      have v: "view \<noteq> ''week''" "view \<noteq> ''month''" using False by simp_all
      show ?thesis
        unfolding consumptionSlots_def period_first_def if_not_P [OF day] if_not_P [OF False] if_not_P [OF v(1)] if_not_P [OF v(2)]
        using month_slots [OF assms le] by blast
    qed
  qed
qed

lemma page_at_total:
  assumes "whole_days z" "pe_query e"
  shows "\<exists>page. page_at e z tz cfg i view t0 compare t st = Inr page"
proof -
  define p where "p = period_of view (local_day z t0)"
  have s: "periodStartAt view t0 z = midnight z (period_first view p)" unfolding p_def by (rule periodStartAt_first [OF assms(1)])
  obtain slots where "consumptionSlots view (midnight z (period_first view p)) (midnight z (period_first view (p + 1))) z = Some slots"
    using consumptionSlots_total [OF assms(1)] by blast
  then show ?thesis using assms(2) by (simp add: page_at_def Let_def s periodNext_first [OF assms(1)] split: prod.split)
qed

definition example_env :: "int \<Rightarrow> page_env" where
  "example_env days = \<lparr>pe_now = days * day_ns, pe_settings = True, pe_first = True, pe_query = True, pe_prev = True\<rparr>"

definition no_env :: "string \<Rightarrow> string" where "no_env = (\<lambda>_. [])"

lemma example_pages:
  "\<exists>page. Consumption no_env (\<lambda>_. Some utc) (example_env now) 7 ''month'' (day_text k) compare [] empty_store = Inr page" if "printable_day k"
proof -
  have c: "LoadConfig no_env (pe_settings (example_env now)) empty_store = Some (FromMap no_env Map.empty)"
    by (simp add: LoadConfig_def GetSettings_def example_env_def empty_store_def)
  obtain tz where z: "resolve_zone (\<lambda>_. Some utc) (HATimeZone (FromMap no_env Map.empty)) = (utc, tz)" by (simp add: resolve_zone_def Let_def)
  have q: "pe_query (example_env now)" by (simp add: example_env_def)
  show ?thesis using page_at_total [OF whole_days_utc q] day_text_nonempty [of k] parse_day_text [OF that, of utc]
    by (simp add: Consumption_def c z)
qed

lemma page_at_next:
  assumes "page_at e z tz cfg i view t0 compare t st = Inr page" "\<not> cr_PeriodEnd page > pe_now e"
  shows "cr_NextAnchor page = Some (fmt_day z (cr_PeriodEnd page))"
  using assms by (auto simp: page_at_def Let_def fill_page_header page_header_def split: prod.splits option.splits if_splits)

theorem paging_returns_witness:
  "\<exists>page a following. Consumption no_env (\<lambda>_. Some utc) (example_env 100) 7 ''month'' (day_text 31) (\<lambda>_. False) [] empty_store = Inr page
     \<and> cr_NextAnchor page = Some a
     \<and> Consumption no_env (\<lambda>_. Some utc) (example_env 100) 7 ''month'' a (\<lambda>_. False) [] empty_store = Inr following
     \<and> cr_PeriodStart following = cr_PeriodEnd page"
proof -
  let ?C = "\<lambda>a. Consumption no_env (\<lambda>_. Some utc) (example_env 100) 7 ''month'' a (\<lambda>_. False) [] empty_store"
  have c: "LoadConfig no_env (pe_settings (example_env 100)) empty_store = Some (FromMap no_env Map.empty)"
    by (simp add: LoadConfig_def GetSettings_def example_env_def empty_store_def)
  obtain tz where z: "resolve_zone (\<lambda>_. Some utc) (HATimeZone (FromMap no_env Map.empty)) = (utc, tz)" by (simp add: resolve_zone_def Let_def)
  have pr: "printable_day 31" "printable_day 59" by (rule printable_day_range; simp)+
  have m: "month_first 23641 = 31" "month_first 23642 = 59" by (simp_all add: month_first_def days_from_civil_year year_days_def)
  then have of: "month_of 31 = 23641" by (simp add: month_of_eq)
  obtain page where p: "?C (day_text 31) = Inr page" using example_pages [OF pr(1)] by blast
  have ps: "cr_PeriodStart page = midnight utc 31" "cr_PeriodEnd page = midnight utc 59"
    using page_of_anchor [OF p c z whole_days_utc pr(1)] periodStartAt_first [OF whole_days_utc, of "''month''" "midnight utc 31"]
      periodNext_first [OF whole_days_utc, of "''month''" 23641]
    by (simp_all add: midnight_local [OF whole_days_utc] period_of_def period_first_def of m)
  obtain t0 where t0: "page_at (example_env 100) utc tz (FromMap no_env Map.empty) 7 ''month'' t0 (\<lambda>_. False) [] empty_store = Inr page"
    using Consumption_page(2) [OF p c z] by blast
  have "\<not> cr_PeriodEnd page > pe_now (example_env 100)" unfolding ps by (simp add: example_env_def midnight_def utc_def day_ns_def)
  then have "cr_NextAnchor page = Some (fmt_day utc (cr_PeriodEnd page))" by (rule page_at_next [OF t0])
  then have a: "cr_NextAnchor page = Some (day_text 59)" unfolding ps fmt_day_midnight [OF whole_days_utc] .
  obtain following where f: "?C (day_text 59) = Inr following" using example_pages [OF pr(2)] by blast
  have "0 \<le> local_day utc (cr_PeriodStart page)" "local_day utc (cr_PeriodEnd page) < 2930167"
    unfolding ps midnight_local [OF whole_days_utc] by simp_all
  from paging_returns [OF p c z whole_days_utc this a refl f] have "cr_PeriodStart following = cr_PeriodEnd page" by (rule conjunct1)
  with p a f show ?thesis by blast
qed

section \<open>A page accounts for every hour once\<close>

lemma month_text_first: "month_text (month_first (month_of k)) = month_text k"
proof -
  obtain y m d where c: "civil_from_days k = (y, m, d)" by (cases "civil_from_days k")
  note V = civil_from_days_valid [OF c]
  have "(12 * y + m - 1) div 12 = y" by (rule int_div_pos_eq [of _ _ _ "m - 1"]) (use V in simp_all)
  moreover have "(12 * y + m - 1) mod 12 = m - 1" by (rule int_mod_pos_eq [of _ _ y]) (use V in simp_all)
  ultimately show ?thesis by (simp add: month_text_def civil_first month_of_def c)
qed

text \<open>Both clocks of the page lie in the years the texts have four digits for.\<close>

definition page_range :: "zone \<Rightarrow> instant \<Rightarrow> instant \<Rightarrow> bool" where
  "page_range z start stop \<longleftrightarrow> 0 \<le> start \<and> stop < 2930167 * day_ns \<and> 0 \<le> local_day z start \<and> local_day z stop < 2930167"

lemma hour_seconds: "h * hour div 1000000000 * 1000000000 = h * hour" for h :: int
proof -
  have e: "h * hour = h * 3600 * 1000000000" by simp
  show ?thesis unfolding e by (subst nonzero_mult_div_cancel_right) simp_all
qed

lemma hour_keys:
  assumes "0 \<le> a" "b * hour < 2930167 * day_ns"
  shows "inj_on (\<lambda>h. format_rfc3339 (h * hour)) {a..b}"
proof (rule inj_onI)
  have p: "parse_rfc3339 (format_rfc3339 (h * hour)) = Some (h * hour)" if "h \<in> {a..b}" for h
  proof -
    have "0 \<le> h * hour" "h * hour \<le> b * hour" using that assms(1) by simp_all
    with assms(2) have "printable (h * hour)" by (intro printable_range) linarith+
    from parse_format_rfc3339 [OF this] show ?thesis unfolding hour_seconds .
  qed
  show "h = h'" if "h \<in> {a..b}" "h' \<in> {a..b}" "format_rfc3339 (h * hour) = format_rfc3339 (h' * hour)" for h h'
  proof -
    from arg_cong [OF that(3), of parse_rfc3339] have "h * hour = h' * hour" unfolding p [OF that(1)] p [OF that(2)] by (simp only: option.inject)
    then show ?thesis by simp
  qed
qed

lemma day_keys: "0 \<le> a \<Longrightarrow> b < 2930167 \<Longrightarrow> inj_on day_text {a..b}"
  by (rule inj_onI, rule day_text_inj) (auto intro: printable_day_range)

lemma month_keys:
  assumes "0 \<le> month_first a" "month_first b < 2930167"
  shows "inj_on (\<lambda>j. month_text (month_first j)) {a..b}"
proof (rule inj_onI)
  fix i j assume ij: "i \<in> {a..b}" "j \<in> {a..b}" "month_text (month_first i) = month_text (month_first j)"
  have "printable_day (month_first h)" if "h \<in> {a..b}" for h
  proof -
    have "month_first a \<le> month_first h" "month_first h \<le> month_first b" using that by simp_all
    then show ?thesis using assms by (intro printable_day_range) linarith+
  qed
  with ij month_text_inj [of "month_first i" "month_first j"] show "i = j" by simp
qed

lemma slots_partition:
  assumes "whole_days z" "start = midnight z (period_first view p)" "stop = midnight z (period_first view (p + 1))"
    "page_range z start stop" "view = ''day'' \<Longrightarrow> start mod hour = 0" "consumptionSlots view start stop z = Some slots"
  shows "distinct (map sl_key slots) \<and> (start \<le> h \<and> h < stop \<and> h mod hour = 0 \<longrightarrow> fst (consumptionGroupExpr view z) h \<in> set (map sl_key slots))"
proof -
  have lt: "period_first view p < period_first view (p + 1)" by (simp add: period_first_def)
  then have ss: "start < stop" unfolding assms(2,3) using assms(1) by (simp add: midnight_less_iff midnight_local)
  have days: "0 \<le> period_first view p" "period_first view (p + 1) < 2930167"
    using assms(4) unfolding page_range_def assms(2,3) midnight_local(1) [OF assms(1)] by simp_all
  have in_days: "start \<le> h \<and> h < stop \<longleftrightarrow> period_first view p \<le> local_day z h \<and> local_day z h < period_first view (p + 1)" for h
    unfolding assms(2,3) by (simp add: midnight_iff [OF assms(1)] midnight_less_iff [OF assms(1)])
    consider (day) "view = ''day''" | (mid) "view \<noteq> ''day''" "view = ''week'' \<or> view = ''month''"
      | (year) "view \<noteq> ''day''" "\<not> (view = ''week'' \<or> view = ''month'')" by blast
    then show ?thesis
    proof cases
      case day
      define a where "a = start div hour"
      have a: "start = a * hour" using assms(5) [OF day] div_mult_mod_eq [of start hour] by (simp add: a_def)
      have "slots = map (\<lambda>h. \<lparr>sl_key = format_rfc3339 (h * hour), sl_start = h * hour, sl_label = fmt_hhmm z (h * hour)\<rparr>) [a..(stop - 1) div hour]"
        using assms(6) unfolding consumptionSlots_def if_P [OF day] trunc_to_def a_def [symmetric] hour_slots_until [OF ss [unfolded a]]
        by (simp only: option.inject)
      then have k: "map sl_key slots = map (\<lambda>h. format_rfc3339 (h * hour)) [a..(stop - 1) div hour]" by (simp add: comp_def)
      have z0: "0 \<le> a" using assms(4) a by (simp add: page_range_def)
      have b: "(stop - 1) div hour * hour \<le> stop - 1" using le_div_int [of hour "(stop - 1) div hour" "stop - 1"] by simp
      have "distinct (map sl_key slots)" unfolding k
        using hour_keys [OF z0, of "(stop - 1) div hour"] b assms(4) by (simp add: distinct_map page_range_def)
      moreover have "start \<le> h \<and> h < stop \<and> h mod hour = 0 \<longrightarrow> format_rfc3339 h \<in> set (map sl_key slots)"
      proof (intro impI, elim conjE)
        assume that: "start \<le> h" "h < stop" "h mod hour = 0"
        have h: "h = h div hour * hour" using that(3) div_mult_mod_eq [of h hour] by simp
        have "a \<le> h div hour" using that(1) by (simp add: a_def zdiv_mono1)
        moreover have "h div hour \<le> (stop - 1) div hour" using that(2) by (intro zdiv_mono1) simp_all
        ultimately show "format_rfc3339 h \<in> set (map sl_key slots)" unfolding k set_map by (intro image_eqI [where x = "h div hour"]) (use h in simp_all)
      qed
      ultimately show ?thesis unfolding consumptionGroupExpr_def if_P [OF day] fst_conv by (rule conjI)
    next
      case mid
      have "slots = map (\<lambda>k. \<lparr>sl_key = day_text k, sl_start = midnight z k, sl_label = fmt_label view z (midnight z k)\<rparr>)
          [period_first view p..period_first view (p + 1) - 1]"
        using assms(6) unfolding consumptionSlots_def if_not_P [OF mid(1)] if_P [OF mid(2)] assms(2,3) day_slots [OF assms(1) less_imp_le [OF lt]]
        by (simp add: fmt_day_midnight [OF assms(1)])
      then have k: "map sl_key slots = map day_text [period_first view p..period_first view (p + 1) - 1]" by (simp add: comp_def)
      have "distinct (map sl_key slots)" unfolding k using day_keys [OF days(1), of "period_first view (p + 1) - 1"] days(2) by (simp add: distinct_map)
      moreover have "start \<le> h \<and> h < stop \<and> h mod hour = 0 \<longrightarrow> fmt_day z h \<in> set (map sl_key slots)"
        using in_days [of h] unfolding k fmt_day_def by (intro impI) auto
      ultimately show ?thesis unfolding consumptionGroupExpr_def if_not_P [OF mid(1)] if_P [OF mid(2)] fst_conv by (rule conjI)
    next
      case year
      have v: "view \<noteq> ''week''" "view \<noteq> ''month''" using year(2) by simp_all
      have pf: "period_first view q = month_first (12 * q)" for q
        unfolding period_first_def if_not_P [OF year(1)] if_not_P [OF v(1)] if_not_P [OF v(2)] ..
      have le: "12 * p \<le> 12 * (p + 1)" by simp
      have "slots = map (\<lambda>j. \<lparr>sl_key = month_text (month_first j), sl_start = midnight z (month_first j),
          sl_label = fmt_label view z (midnight z (month_first j))\<rparr>) [12 * p..12 * (p + 1) - 1]"
        using assms(6) unfolding consumptionSlots_def if_not_P [OF year(1)] if_not_P [OF year(2)] assms(2,3) pf month_slots [OF assms(1) le]
        by (simp add: fmt_month_def midnight_local [OF assms(1)])
      then have k: "map sl_key slots = map (\<lambda>j. month_text (month_first j)) [12 * p..12 * (p + 1) - 1]" by (simp add: comp_def)
      have "month_first (12 * (p + 1) - 1) < month_first (12 * (p + 1))" by simp
      from less_trans [OF this days(2) [unfolded pf]] have e: "month_first (12 * (p + 1) - 1) < 2930167" .
      have "distinct (map sl_key slots)" unfolding k
        distinct_map using month_keys [OF days(1) [unfolded pf] e]
        by (simp only: set_upto distinct_upto simp_thms)
      moreover have "start \<le> h \<and> h < stop \<and> h mod hour = 0 \<longrightarrow> fmt_month z h \<in> set (map sl_key slots)"
      proof (intro impI, elim conjE)
        assume that: "start \<le> h" "h < stop"
        then have d: "month_first (12 * p) \<le> local_day z h" "local_day z h < month_first (12 * (p + 1))"
          using in_days [of h] unfolding pf by blast+
        have "12 * p < month_of (local_day z h) + 1"
          using le_less_trans [OF d(1) month_of_bounds(2)] by (simp only: month_first_less_iff)
        moreover have "month_of (local_day z h) < 12 * (p + 1)"
          using le_less_trans [OF month_of_bounds(1) d(2)] by (simp only: month_first_less_iff)
        ultimately have "month_of (local_day z h) \<in> {12 * p..12 * (p + 1) - 1}" by (simp only: atLeastAtMost_iff) linarith
        then show "fmt_month z h \<in> set (map sl_key slots)" unfolding k fmt_month_def set_map
          by (intro image_eqI [where x = "month_of (local_day z h)"]) (simp_all add: month_text_first)
      qed
      ultimately show ?thesis unfolding consumptionGroupExpr_def if_not_P [OF year(1)] if_not_P [OF year(2)] fst_conv by (rule conjI)
    qed
qed

text \<open>Whole counters give whole deltas.\<close>

lemma lag_steps_rows: "(r, raw) \<in> set (lag_steps prev rows) \<Longrightarrow> r \<in> set rows"
  by (induction rows arbitrary: prev) auto

lemma lag_steps_Ints:
  assumes "\<forall>r \<in> set rows. h_max r \<in> \<int>" "\<forall>p. prev = Some p \<longrightarrow> p \<in> \<int>" "(r, Some d) \<in> set (lag_steps prev rows)"
  shows "d \<in> \<int>"
  using assms by (induction rows arbitrary: prev) (auto intro: Ints_diff simp: map_option_case split: option.splits)

lemma hourlyDelta_rows:
  assumes "(r, d) \<in> set (hourlyDelta m rows)"
  shows "r \<in> set rows" "\<exists>raw. (r, raw) \<in> set (lag_steps None rows) \<and> rolloverDelta raw m = Some d"
proof -
  from assms obtain raw where "(r, raw) \<in> set (lag_steps None rows)" "rolloverDelta raw m = Some d"
    by (auto simp: hourlyDelta_def hourly_deltas_def Let_def List.map_filter_def split: option.splits if_splits)
  then show "r \<in> set rows" "\<exists>raw. (r, raw) \<in> set (lag_steps None rows) \<and> rolloverDelta raw m = Some d"
    using lag_steps_rows by blast+
qed

lemma hourlyDelta_Ints:
  assumes "\<forall>r \<in> set rows. h_max r \<in> \<int>" "m \<in> \<int>" "(r, d) \<in> set (hourlyDelta m rows)"
  shows "d \<in> \<int>"
proof -
  obtain raw where r: "(r, raw) \<in> set (lag_steps None rows)" "rolloverDelta raw m = Some d" using hourlyDelta_rows(2) [OF assms(3)] by blast
  then obtain x where x: "raw = Some x" by (cases raw) (simp_all add: rolloverDelta_def)
  have "x \<in> \<int>" using lag_steps_Ints [OF assms(1), of None] r(1) x by simp
  with r(2) x assms(2) show ?thesis by (auto simp: rolloverDelta_def split: if_splits)
qed

definition whole_counters :: "int \<Rightarrow> store \<Rightarrow> bool" where
  "whole_counters i st \<longleftrightarrow> (\<forall>(t, c) \<in> set (counter_rows i st). c \<in> \<int>)"

lemma meter_rows:
  assumes "r \<in> set (map to_hour_row (readings_1h i st))"
  shows "h_bucket r mod hour = 0" "whole_counters i st \<Longrightarrow> h_max r \<in> \<int>"
proof -
  from assms obtain t c where r: "(t, c) \<in> set (counter_rows i st)" "h_bucket r = trunc_to hour t"
    "h_max r = Max (set (in_bucket hour (trunc_to hour t) (counter_rows i st)))"
    by (auto simp: readings_1h_def aggregate_def bucket_starts_def to_hour_row_def Let_def)
  then show "h_bucket r mod hour = 0" by (simp add: trunc_to_def)
  have "c \<in> set (in_bucket hour (trunc_to hour t) (counter_rows i st))" using r(1) by (force simp: in_bucket_def)
  then have "h_max r \<in> set (in_bucket hour (trunc_to hour t) (counter_rows i st))" unfolding r(3) by (intro Max_in) auto
  then show "whole_counters i st \<Longrightarrow> h_max r \<in> \<int>" by (auto simp: in_bucket_def whole_counters_def)
qed

lemma page_deltas_props:
  assumes "(r, d) \<in> set (page_deltas i start stop st)"
  shows "start \<le> h_bucket r" "h_bucket r < stop" "h_bucket r mod hour = 0" "whole_counters i st \<Longrightarrow> d \<in> \<int>"
proof -
  from assms obtain m where m: "modulus_of i st = Some m" "start \<le> h_bucket r"
    "(r, d) \<in> set (hourlyDelta m (filter (\<lambda>r. start - consumptionLookback \<le> h_bucket r \<and> h_bucket r < stop) (map to_hour_row (readings_1h i st))))"
    by (cases "modulus_of i st") (auto simp: page_deltas_def meter_deltas_def)
  note rows = hourlyDelta_rows(1) [OF m(3)]
  show "start \<le> h_bucket r" "h_bucket r < stop" using m(2) rows by auto
  show "h_bucket r mod hour = 0" using rows meter_rows(1) [of r i st] by auto
  have "m \<in> \<int>" using m(1) by (auto simp: modulus_of_def split: if_splits)
  then show "whole_counters i st \<Longrightarrow> d \<in> \<int>"
    using hourlyDelta_Ints [OF _ _ m(3)] meter_rows(2) [of _ i st] by auto
qed

lemma meter_movement_page: "meter_movement i start stop st = sum_deltas (page_deltas i start stop st)"
  by (simp add: meter_movement_def MovementBetween_def page_deltas_def meter_deltas_def sum_deltas_def Let_def split: option.split)

text \<open>Summing over distinct keys that meet every row is summing over the rows.\<close>

lemma sum_list_delta: "distinct ks \<Longrightarrow> a \<in> set ks \<Longrightarrow> sum_list (map (\<lambda>k. if a = k then d else 0) ks) = d" for d :: real
proof (induction ks)
  case (Cons x ks)
  moreover have "sum_list (map (\<lambda>k. if a = k then d else 0) ks) = 0" if "a \<notin> set ks" using that by (induction ks) auto
  ultimately show ?case by auto
qed simp

lemma sum_by_keys:
  fixes ds :: "('r \<times> real) list"
  assumes "distinct ks" "\<forall>(r, d) \<in> set ds. key r \<in> set ks"
  shows "sum_list (map (\<lambda>k. sum_list (map snd (filter (\<lambda>(r, _). key r = k) ds))) ks) = sum_list (map snd ds)"
  using assms(2)
proof (induction ds)
  case (Cons x ds)
  obtain r d where x: "x = (r, d)" by (cases x)
  have "sum_list (map (\<lambda>k. sum_list (map snd (filter (\<lambda>(r, _). key r = k) (x # ds)))) ks)
      = sum_list (map (\<lambda>k. (if key r = k then d else 0) + sum_list (map snd (filter (\<lambda>(r, _). key r = k) ds))) ks)"
    by (intro arg_cong [where f = sum_list] map_cong) (auto simp: x)
  also have "\<dots> = d + sum_list (map (\<lambda>k. sum_list (map snd (filter (\<lambda>(r, _). key r = k) ds))) ks)"
    using sum_list_delta [OF assms(1), of "key r" d] Cons.prems by (simp add: sum_list_addf x)
  finally show ?case using Cons by (simp add: x)
qed simp

lemma sum_list_Ints: "(\<forall>x \<in> set xs. x \<in> \<int>) \<Longrightarrow> sum_list xs \<in> \<int>" for xs :: "real list"
  by (induction xs) (auto intro: Ints_add)

lemma round_places_Ints: "x \<in> \<int> \<Longrightarrow> round_places x p = x"
  by (auto elim: Ints_cases)

text \<open>The values of a page are those of the cells its slots hit.\<close>

definition slot_values :: "real \<Rightarrow> (string \<rightharpoonup> real \<times> int) \<Rightarrow> consumptionSlot list \<Rightarrow> real list" where
  "slot_values rate got slots = List.map_filter (\<lambda>s. map_option (\<lambda>(u, _). round_places (u * rate) 3) (got (sl_key s))) slots"

lemma page_values_slots: "page_values (map (page_bucket rate got mon utl) slots) = slot_values rate got slots"
  by (simp add: page_values_def slot_values_def List.map_filter_def page_bucket_def filter_map comp_def)

lemma page_header_empty: "cr_Total (page_header e z tz i view start stop st) = None"
  by (simp add: page_header_def Let_def)

lemma page_header_fields:
  "cr_PeriodStart (page_header e z tz i view start stop st) = start" "cr_PeriodEnd (page_header e z tz i view start stop st) = stop"
  by (simp_all add: page_header_def Let_def)

lemma fill_page_Total:
  "cr_Total res = None \<Longrightarrow> cr_Total (fill_page now z bs res) = (if page_values bs = [] then None else Some (round_places (sum_list (page_values bs)) 3))"
  by (simp add: fill_page_def Let_def)

lemma page_at_values:
  assumes "page_at e z tz cfg i view t0 compare t st = Inr page"
  shows "\<exists>slots. consumptionSlots view (cr_PeriodStart page) (cr_PeriodEnd page) z = Some slots
    \<and> cr_Total page = (let vs = slot_values (cr_Multiplier page)
           (page_cells (fst (consumptionGroupExpr view z)) (page_deltas i (cr_PeriodStart page) (cr_PeriodEnd page) st)) slots
         in if vs = [] then None else Some (round_places (sum_list vs) 3))"
    "cr_PrevTotal page = map_option (\<lambda>u. round_places (u * cr_Multiplier page) 3)
        (if pe_prev e then meter_movement i (periodPrev view (cr_PeriodStart page) z) (cr_PeriodStart page) st else None)"
  using assms
  by (auto simp: page_at_def Let_def fill_page_header page_header_fields page_values_slots fill_page_Total page_header_empty
 split: prod.splits option.splits if_splits)

text \<open>Cells over distinct slots that meet every delta add up to the deltas.\<close>

lemma cells_sum:
  assumes "distinct (map sl_key slots)" "\<And>r d. (r, d) \<in> set ds \<Longrightarrow> key (h_bucket r) \<in> set (map sl_key slots)" "\<And>r d. (r, d) \<in> set ds \<Longrightarrow> d \<in> \<int>"
  shows "(let vs = slot_values 1 (page_cells key ds) slots in if vs = [] then None else Some (round_places (sum_list vs) 3)) = sum_deltas ds"
proof -
  let ?cell = "\<lambda>k. filter (\<lambda>(r, _). key (h_bucket r) = k) ds"
  let ?vs = "slot_values 1 (page_cells key ds) slots"
  have int: "sum_list (map snd (?cell k)) \<in> \<int>" for k using assms(3) by (intro sum_list_Ints) auto
  have v: "map_option (\<lambda>(u, _). round_places (u * 1) 3) (page_cells key ds k) = (if ?cell k = [] then None else Some (sum_list (map snd (?cell k))))" for k
    using round_places_Ints [OF int [of k], of 3] by (simp add: page_cells_def Let_def)
  have sum: "sum_list ?vs = sum_list (map (\<lambda>k. sum_list (map snd (?cell k))) (map sl_key slots))"
    unfolding slot_values_def v by (induction slots) (simp_all add: List.map_filter_simps)
  also have "\<dots> = sum_list (map snd ds)"
    using sum_by_keys [where key = "\<lambda>r. key (h_bucket r)", OF assms(1)] assms(2) by auto
  finally have s: "sum_list ?vs = sum_list (map snd ds)" .
  have "?vs = [] \<longleftrightarrow> ds = []"
  proof
    assume "?vs = []"
    then have "\<forall>s \<in> set slots. ?cell (sl_key s) = []" unfolding slot_values_def v by (auto simp: List.map_filter_def filter_empty_conv split: if_splits)
    then show "ds = []" using assms(2) by (cases ds) (auto split: if_splits)
  qed (simp add: slot_values_def v List.map_filter_def page_cells_def)
  moreover have "sum_list (map snd ds) \<in> \<int>" using assms(3) by (intro sum_list_Ints) auto
  ultimately show ?thesis by (simp add: s sum_deltas_def round_places_Ints)
qed

lemma integral_total: "whole_counters i st \<Longrightarrow> map_option (\<lambda>u. round_places (u * 1) 3) (meter_movement i start stop st) = meter_movement i start stop st"
  using sum_list_Ints [of "map snd (page_deltas i start stop st)"] page_deltas_props(4) [of _ _ i start stop st]
  by (force simp: meter_movement_page sum_deltas_def round_places_Ints)

lemma page_at_Multiplier:
  "page_at e z tz cfg i view t0 compare t st = Inr page \<Longrightarrow> cr_Multiplier page = cr_Multiplier (page_header e z tz i view start stop st)"
  by (auto simp: page_at_def Let_def fill_page_header page_header_def split: prod.splits option.splits if_splits)

text \<open>
  C5. The bars of a page are the consumption of its period: for an uncalibrated meter with whole
  counters the total over the slots of a day, week, month or year is exactly the movement
  between the bounds of the page, computed in one piece, and no page has a total without
  data; the next page shows the same number as its previous total.
\<close>

theorem page_total_is_movement:
  assumes "Consumption envs zones e i view anchor compare t st = Inr page" "LoadConfig envs (pe_settings e) st = Some cfg"
    "resolve_zone zones (HATimeZone cfg) = (z, tz)" "whole_days z" "page_range z (cr_PeriodStart page) (cr_PeriodEnd page)"
    "view = ''day'' \<Longrightarrow> cr_PeriodStart page mod hour = 0" "whole_counters i st" "cr_Multiplier page = 1"
  shows "cr_Total page = meter_movement i (cr_PeriodStart page) (cr_PeriodEnd page) st
    \<and> (\<forall>following e' compare' t'. page_at e' z tz cfg i view (cr_PeriodEnd page) compare' t' st = Inr following \<longrightarrow> pe_prev e'
         \<longrightarrow> cr_PrevTotal following = cr_Total page)"
proof -
  obtain t0 where p: "page_at e z tz cfg i view t0 compare t st = Inr page" using Consumption_page(2) [OF assms(1,2,3)] by blast
  let ?start = "cr_PeriodStart page" and ?stop = "cr_PeriodEnd page"
  note h = page_at_header(1,2) [OF p]
  define k where "k = period_of view (local_day z t0)"
  have s: "?start = midnight z (period_first view k)" unfolding h(1) k_def by (rule periodStartAt_first [OF assms(4)])
  have n: "?stop = midnight z (period_first view (k + 1))" unfolding h(2) s by (rule periodNext_first [OF assms(4)])
  obtain slots where V: "consumptionSlots view ?start ?stop z = Some slots"
    "cr_Total page = (let vs = slot_values 1 (page_cells (fst (consumptionGroupExpr view z)) (page_deltas i ?start ?stop st)) slots
       in if vs = [] then None else Some (round_places (sum_list vs) 3))"
    using page_at_values(1) [OF p] unfolding assms(8) by blast
  have P: "distinct (map sl_key slots)
      \<and> (?start \<le> h \<and> h < ?stop \<and> h mod hour = 0 \<longrightarrow> fst (consumptionGroupExpr view z) h \<in> set (map sl_key slots))" for h
    by (rule slots_partition [OF assms(4) s n assms(5) _ V(1)]) (rule assms(6))
  have total: "cr_Total page = meter_movement i ?start ?stop st"
    unfolding V(2) meter_movement_page
  proof (rule cells_sum [OF conjunct1 [OF P]])
    fix r d assume rd: "(r, d) \<in> set (page_deltas i ?start ?stop st)"
    show "fst (consumptionGroupExpr view z) (h_bucket r) \<in> set (map sl_key slots)"
      by (rule mp [OF conjunct2 [OF P]]) (intro conjI page_deltas_props [OF rd])
    show "d \<in> \<int>" by (rule page_deltas_props(4) [OF rd assms(7)])
  qed
  have "cr_PrevTotal following = cr_Total page"
    if f: "page_at e' z tz cfg i view ?stop compare' t' st = Inr following" "pe_prev e'" for following e' compare' t'
  proof -
    note c = page_cursors [OF assms(4) h(1), folded h(2)]
    have fs: "cr_PeriodStart following = ?stop" unfolding page_at_header(1) [OF f(1)] using c by blast
    have pv: "periodPrev view ?stop z = ?start" using c by blast
    have m: "cr_Multiplier following = 1"
      using page_at_Multiplier [OF p] page_at_Multiplier [OF f(1)] unfolding assms(8) by (simp add: page_header_def Let_def)
    show ?thesis
      unfolding page_at_values(2) [OF f(1)] fs m if_P [OF f(2)] pv integral_total [OF assms(7)] total ..
  qed
  with total show ?thesis by blast
qed

definition two_reads :: store where
  "two_reads = empty_store\<lparr>st_readings := [(sample_reading 0 5, []), (sample_reading hour 8, [])],
     st_index := Map.empty(7 \<mapsto> new_index (sample_reading 0 5))\<rparr>"

lemma two_reads_rows: "map to_hour_row (readings_1h 7 two_reads) = [\<lparr>h_bucket = 0, h_max = 5, h_n = 1\<rparr>, \<lparr>h_bucket = hour, h_max = 8, h_n = 1\<rparr>]"
proof -
  have c: "counter_rows 7 two_reads = [(0, 5), (hour, 8)]"
    by (simp add: counter_rows_def two_reads_def sample_reading_def List.map_filter_def)
  have t: "trunc_to hour 0 = 0" "trunc_to hour hour = hour" by (simp_all add: trunc_to_def)
  show ?thesis by (simp add: readings_1h_def aggregate_def c bucket_starts_def in_bucket_def t to_hour_row_def)
qed

lemma two_reads_movement: "meter_movement 7 0 day_ns two_reads = Some 3"
proof -
  have m: "modulus_of 7 two_reads = Some 16777216" by (simp add: modulus_of_def two_reads_def new_index_def sample_reading_def)
  show ?thesis
    by (simp add: meter_movement_def m two_reads_rows MovementBetween_def hourlyDelta_def hourly_deltas_def rolloverDelta_def hourly_limit_def
        consumptionLookback_def day_ns_def List.map_filter_def)
qed

lemma page_total_is_movement_witness:
  "\<exists>page. Consumption no_env (\<lambda>_. Some utc) (example_env 100) 7 ''day'' (day_text 0) (\<lambda>_. False) [] two_reads = Inr page
     \<and> cr_PeriodStart page = 0 \<and> cr_PeriodEnd page = day_ns \<and> cr_Total page = Some 3"
proof -
  let ?C = "Consumption no_env (\<lambda>_. Some utc) (example_env 100) 7 ''day'' (day_text 0) (\<lambda>_. False) [] two_reads"
  let ?cfg = "FromMap no_env Map.empty"
  have c: "LoadConfig no_env (pe_settings (example_env 100)) two_reads = Some ?cfg"
    by (simp add: LoadConfig_def GetSettings_def example_env_def empty_store_def two_reads_def)
  obtain tz where z: "resolve_zone (\<lambda>_. Some utc) (HATimeZone ?cfg) = (utc, tz)" by (simp add: resolve_zone_def Let_def)
  have q: "pe_query (example_env 100)" by (simp add: example_env_def)
  have pr: "printable_day 0" by (rule printable_day_range; simp)
  obtain page where p: "?C = Inr page"
    using page_at_total [OF whole_days_utc q] day_text_nonempty [of 0] parse_day_text [OF pr, of utc] by (simp add: Consumption_def c z) blast
  have ps: "cr_PeriodStart page = 0" "cr_PeriodEnd page = day_ns"
    using page_of_anchor [OF p c z whole_days_utc pr] periodStartAt_first [OF whole_days_utc, of "''day''" "midnight utc 0"]
      periodNext_first [OF whole_days_utc, of "''day''" 0]
    by (simp_all add: midnight_local [OF whole_days_utc] period_of_def period_first_def) (simp_all add: midnight_def utc_def)
  obtain t0 where t0: "page_at (example_env 100) utc tz ?cfg 7 ''day'' t0 (\<lambda>_. False) [] two_reads = Inr page"
    using Consumption_page(2) [OF p c z] by blast
  have m: "cr_Multiplier page = 1"
    using page_at_Multiplier [OF t0] by (simp add: page_header_def Let_def GetMeter_def two_reads_def empty_store_def default_meter_def)
  have r: "page_range utc (cr_PeriodStart page) (cr_PeriodEnd page)"
    unfolding ps by (simp add: page_range_def local_day_def utc_def day_ns_def)
  have w: "whole_counters 7 two_reads"
    by (simp add: whole_counters_def counter_rows_def two_reads_def sample_reading_def List.map_filter_def)
  have a: "cr_PeriodStart page mod hour = 0" by (simp add: ps)
  from page_total_is_movement [OF p c z whole_days_utc r a w m] have "cr_Total page = Some 3" unfolding ps two_reads_movement by (rule conjunct1)
  with p ps show ?thesis by blast
qed

end
