(* ===== verification/Identify.thy ===== *)
theory Identify
  imports Energy Correlate
begin

text \<open>
  The ranking of \<open>correlate.go\<close> on the tables: the window query, the regression of a meter's
  deltas on the monitored energy, the aligned series, and the standing across the closed
  windows. The aggregates \<open>corr\<close> and \<open>regr_*\<close> follow the PostgreSQL documentation; \<open>ids\<close> lists the
  registered meters.
\<close>

section \<open>The window query\<close>

definition window_row_of :: "instant \<Rightarrow> instant \<Rightarrow> store \<Rightarrow> int \<Rightarrow> window_row option" where
  "window_row_of start stop st i =
     (let inside = (\<lambda>b. start \<le> b \<and> b \<le> stop);
          bs = filter (\<lambda>b. inside (bk_start b)) (readings_1m i st); m = GetMeter i st in
      map_option (\<lambda>x.
        \<lparr>wr_EndpointID = i, wr_MsgType = ix_msg_type x, wr_EndpointType = ix_endpoint_type x,
         wr_TotalDelta = (case (ix_max x, ix_min x) of (Some hi, Some lo) \<Rightarrow> Some (hi - lo) | _ \<Rightarrow> None),
         wr_WindowDelta = minute_move inside i st,
         wr_WindowPackets = (if bs = [] then None else Some (sum_list (map (int \<circ> bk_n) bs))),
         wr_IsMine = mt_is_mine m, wr_Publish = mt_publish m, wr_PubMultiplier = mt_pub_multiplier m, wr_PubUnit = mt_pub_unit m\<rparr>)
      (st_index st i))"

definition window_correlation :: "bool \<Rightarrow> int list \<Rightarrow> instant \<Rightarrow> instant \<Rightarrow> store \<Rightarrow> CorrRow list option" where
  "window_correlation ok ids start stop st =
     Correlation (dataSpan ids st) (if ok then Some (List.map_filter (window_row_of start stop st) ids) else None) start stop"

section \<open>Deltas per bucket\<close>

text \<open>\<open>time_bucket\<close> counts from Monday, 3 January 2000.\<close>

definition bucket_origin :: instant where "bucket_origin = 10959 * day_ns"

definition time_bucket :: "duration \<Rightarrow> instant \<Rightarrow> instant" where
  "time_bucket w t = bucket_origin + (t - bucket_origin) div w * w"

definition delta_source :: "int \<Rightarrow> int \<Rightarrow> store \<Rightarrow> bucket_row list" where
  "delta_source bucketMin i st = (if bucketMin \<ge> 60 then readings_1h i st else readings_1m i st)"

definition bucket_maxima :: "int \<Rightarrow> instant \<Rightarrow> instant \<Rightarrow> int \<Rightarrow> store \<Rightarrow> hour_row list" where
  "bucket_maxima bucketMin start stop i st =
     (let xs = map (\<lambda>b. (time_bucket (bucketMin * minute) (bk_start b), bk_max b))
                 (filter (\<lambda>b. start \<le> bk_start b \<and> bk_start b \<le> stop) (delta_source bucketMin i st))
      in map (\<lambda>b. let cs = map snd (filter (\<lambda>(b', _). b' = b) xs) in \<lparr>h_bucket = b, h_max = Max (set cs), h_n = int (length cs)\<rparr>)
           (sort (remdups (map fst xs))))"

text \<open>The deltas that respect the limit of the meter, \<open>glitchCleanCTEs\<close>.\<close>

definition clean_deltas :: "int \<Rightarrow> instant \<Rightarrow> instant \<Rightarrow> store \<Rightarrow> int \<Rightarrow> (instant \<times> real) list" where
  "clean_deltas bucketMin start stop st i =
     (case modulus_of i st of None \<Rightarrow> [] | Some m \<Rightarrow> glitchClean (map (\<lambda>(r, d). (h_bucket r, d)) (hourly_deltas m (bucket_maxima bucketMin start stop i st))))"

text \<open>The monitored energy per bucket in Wh; None when the query fails.\<close>

definition ref_energy :: "int \<Rightarrow> string list \<Rightarrow> instant \<Rightarrow> instant \<Rightarrow> store \<Rightarrow> (instant \<rightharpoonup> real) option" where
  "ref_energy bucketMin entities start stop st =
     map_option (\<lambda>ms b. let xs = filter (\<lambda>(mt, _). time_bucket (bucketMin * minute) mt = b) ms in
                        if xs = [] then None else Some (sum_list (map snd xs) / 60))
       (monitored_minutes entities start stop st)"

text \<open>The pairs of a meter, delta first, in the order of the buckets.\<close>

definition joined_pairs :: "(instant \<rightharpoonup> real) \<Rightarrow> (instant \<times> real) list \<Rightarrow> (real \<times> real) list" where
  "joined_pairs ref ds = List.map_filter (\<lambda>(b, d). map_option (Pair d) (ref b)) ds"

section \<open>Regression\<close>

definition dev_sum :: "(real \<times> real \<Rightarrow> real) \<Rightarrow> (real \<times> real \<Rightarrow> real) \<Rightarrow> (real \<times> real) list \<Rightarrow> real" where
  "dev_sum f g ps = sum_list (map (\<lambda>p. (f p - mean (map f ps)) * (g p - mean (map g ps))) ps)"

definition regression :: "(real \<times> real) list \<Rightarrow> regrRow option" where
  "regression ps =
     (let sxx = dev_sum snd snd ps; syy = dev_sum fst fst ps; sxy = dev_sum snd fst ps; xbar = mean (map snd ps); ybar = mean (map fst ps) in
      if length ps < 5 then None
      else Some \<lparr>rg_r = (if sxx = 0 \<or> syy = 0 then None else Some (sxy / sqrt (sxx * syy))),
                 rg_slope = (if sxx = 0 then None else Some (sxy / sxx)),
                 rg_intercept = (if sxx = 0 then None else Some (ybar - sxy / sxx * xbar)),
                 rg_r2 = (if sxx = 0 then None else if syy = 0 then Some 1 else Some (sxy * sxy / (sxx * syy))),
                 rg_p10 = percentile_cont (1 / 10) (map fst ps),
                 rg_sxx = Some sxx, rg_syy = Some syy, rg_sxy = Some sxy, rg_xbar = Some xbar, rg_ybar = Some ybar,
                 rg_nbuckets = Some (int (length ps))\<rparr>)"

definition meter_pairs :: "int \<Rightarrow> string list \<Rightarrow> instant \<Rightarrow> instant \<Rightarrow> store \<Rightarrow> int \<Rightarrow> (real \<times> real) list" where
  "meter_pairs bucketMin entities start stop st i =
     (case ref_energy bucketMin entities start stop st of None \<Rightarrow> []
      | Some ref \<Rightarrow> joined_pairs ref (clean_deltas bucketMin start stop st i))"

text \<open>A failing query leaves the regressions empty; the same query fails for the aligned series.\<close>

definition alignedSeries :: "int \<Rightarrow> string list \<Rightarrow> instant \<Rightarrow> instant \<Rightarrow> store \<Rightarrow> (int \<rightharpoonup> real list \<times> real list) option" where
  "alignedSeries bucketMin entities start stop st =
     (case ref_energy bucketMin entities start stop st of None \<Rightarrow> None
      | Some ref \<Rightarrow> Some (\<lambda>i. let ps = joined_pairs ref (clean_deltas bucketMin start stop st i) in
            if ps = [] then None else Some (map fst ps, map snd ps)))"

definition ranking_input :: "int \<Rightarrow> string list \<Rightarrow> instant \<Rightarrow> instant \<Rightarrow> store \<Rightarrow> ref_input" where
  "ranking_input bucketMin entities start stop st =
     (let bm = (if bucketMin \<le> 0 then 1 else bucketMin) in
      \<lparr>ri_floor = MonitoredFloor entities start stop st, ri_monitoredKwh = MonitoredEnergy entities start stop st,
       ri_reg = (\<lambda>i. regression (meter_pairs bm entities start stop st i)),
       ri_refCV = MonitoredCV entities start stop st, ri_series = alignedSeries bm entities start stop st\<rparr>)"

definition identify_window ::
    "(real \<Rightarrow> real) \<Rightarrow> bool \<Rightarrow> int list \<Rightarrow> string list \<Rightarrow> instant \<Rightarrow> instant \<Rightarrow> int \<Rightarrow> bool \<Rightarrow> IdentifyAux option \<Rightarrow> store
     \<Rightarrow> (CorrRow list \<times> real) option option" where
  "identify_window erfinv ok ids entities start stop bucketMin electricOnly aux st =
     CorrelationVsReferenceAux erfinv (window_correlation ok ids start stop st) entities bucketMin electricOnly aux
       (ranking_input bucketMin entities start stop st)"

section \<open>The order of the standings\<close>

text \<open>
  \<open>sort.SliceStable\<close> moves every row forward past the rows it comes before. That is what Go does
  for up to twenty rows, and the only stable order for a comparison that is consistent.
\<close>

fun settle :: "('a \<Rightarrow> 'a \<Rightarrow> bool) \<Rightarrow> 'a \<Rightarrow> 'a list \<Rightarrow> 'a list" where
  "settle lt x [] = [x]"
| "settle lt x (y # ys) = (if lt x y then y # settle lt x ys else x # y # ys)"

definition slice_stable :: "('a \<Rightarrow> 'a \<Rightarrow> bool) \<Rightarrow> 'a list \<Rightarrow> 'a list" where
  "slice_stable lt xs = rev (foldl (\<lambda>acc x. settle lt x acc) [] xs)"

lemma mset_settle [simp]: "mset (settle lt x ys) = add_mset x (mset ys)"
  by (induction ys) auto

lemma mset_slice_stable: "mset (slice_stable lt xs) = mset xs"
proof -
  have "mset (foldl (\<lambda>acc x. settle lt x acc) acc xs) = mset acc + mset xs" for acc by (induction xs arbitrary: acc) auto
  then show ?thesis by (simp add: slice_stable_def)
qed

text \<open>A comparison that refines a preorder sorts by it, even when its ties are inconsistent.\<close>

lemma slice_stable_sorted:
  assumes "\<And>x y. lt x y \<Longrightarrow> ge x y" "\<And>x y. \<not> lt x y \<Longrightarrow> ge y x" "transp ge"
  shows "sorted_wrt ge (slice_stable lt xs)"
proof -
  have s: "sorted_wrt (\<lambda>a b. ge b a) (settle lt x ys)" if "sorted_wrt (\<lambda>a b. ge b a) ys" for x ys
    using that
  proof (induction ys)
    case (Cons y ys)
    have m: "set (settle lt x ys) = insert x (set ys)" by (metis mset_settle set_mset_mset set_mset_add_mset_insert)
    show ?case
    proof (cases "lt x y")
      case True
      with Cons m assms(1) show ?thesis by auto
    next
      case False
      have "ge a x" if "a \<in> set (y # ys)" for a
        using that assms(2) [OF False] Cons.prems assms(3) by (auto dest: transpD)
      with False Cons.prems show ?thesis by simp
    qed
  qed simp
  have "sorted_wrt (\<lambda>a b. ge b a) (foldl (\<lambda>acc x. settle lt x acc) acc xs)" if "sorted_wrt (\<lambda>a b. ge b a) acc" for acc
    using that by (induction xs arbitrary: acc) (auto intro: s)
  then show ?thesis by (simp add: slice_stable_def sorted_wrt_rev)
qed

section \<open>Standing across windows\<close>

text \<open>\<open>int(d.Minutes())\<close> drops the fraction towards zero.\<close>

definition whole_minutes :: "duration \<Rightarrow> int" where
  "whole_minutes d = (if d < 0 then - ((- d) div minute) else d div minute)"

text \<open>The ranking of a closed window: None when its queries fail, Some None for the panic.\<close>

definition rank_window ::
    "(real \<Rightarrow> real) \<Rightarrow> (int \<Rightarrow> bool) \<Rightarrow> int list \<Rightarrow> bool \<Rightarrow> string list \<Rightarrow> IdentifyAux option \<Rightarrow> store \<Rightarrow> test_row \<Rightarrow> CorrRow list option option" where
  "rank_window erfinv ok ids useRef entities aux st w =
     (let stop = (case tw_end w of None \<Rightarrow> tw_start w | Some t \<Rightarrow> t) in
      if useRef then
        map_option (map_option fst)
          (identify_window erfinv (ok (tw_id w)) ids entities (tw_start w) stop (PickBucketMin (whole_minutes (time_sub stop (tw_start w)))) True
             (window_aux aux (tw_snoop_k w)) st)
      else map_option Some (window_correlation (ok (tw_id w)) ids (tw_start w) stop st))"

definition window_expected :: "store \<Rightarrow> test_row \<Rightarrow> real" where
  "window_expected st w =
     (let stop = (case tw_end w of None \<Rightarrow> tw_start w | Some t \<Rightarrow> t) in
      expected_kwh (tw_known_load w) (map_option (\<lambda>e. EntityEnergy e (tw_start w) stop st) (tw_known_entity w)) (time_sub stop (tw_start w)))"

definition bill_evidence :: "Config \<Rightarrow> util_row list \<Rightarrow> int list \<Rightarrow> store \<Rightarrow> (int \<times> utilEvidence) list" where
  "bill_evidence cfg t ids st =
     (if \<not> UtilityConfigured cfg then []
      else let statID = UtilityStatisticID cfg;
               ev = utilityMeterEvidence statID (resolvedPeriod statID t) t
                      (List.map_filter (\<lambda>i. map_option (\<lambda>m. (i, m, meter_hours i st)) (modulus_of i st)) ids)
           in List.map_filter (\<lambda>i. map_option (Pair i) (ev i)) ids)"

definition meterCommodities :: "store \<Rightarrow> int \<rightharpoonup> string" where
  "meterCommodities st i = map_option (\<lambda>x. Commodity (ix_endpoint_type x)) (st_index st i)"

text \<open>None is the panic of a window.\<close>

definition window_standing ::
    "(real \<Rightarrow> real) \<Rightarrow> (int \<Rightarrow> bool) \<Rightarrow> Config option \<Rightarrow> util_row list \<Rightarrow> int list \<Rightarrow> bool \<Rightarrow> string \<Rightarrow> string list \<Rightarrow> DailyScreen option \<Rightarrow> store
     \<Rightarrow> AggRow list option" where
  "window_standing erfinv ok cfg t ids useRef src entities screen st =
     (let wins = recent_windows (closedWindows src st);
          aux = (if useRef \<and> cfg \<noteq> None then AuxFromScreen screen else None);
          ranked = map (\<lambda>w. (window_expected st w, rank_window erfinv ok ids useRef entities aux st w)) wins;
          ev = (case cfg of None \<Rightarrow> [] | Some c \<Rightarrow> bill_evidence c t ids st)
      in if (\<exists>x \<in> set ranked. snd x = Some None) then None
         else Some (slice_stable (agg_before useRef)
                (aggregateWindows useRef (map (\<lambda>(k, r). (k, Option.bind r (\<lambda>x. x))) ranked) ids ev (meterCommodities st))))"

definition CombinedRanking where
  "CombinedRanking erfinv ok cfg t ids entities screen st = window_standing erfinv ok cfg t ids (entities \<noteq> []) [] entities screen st"

definition IdentifyAuto where
  "IdentifyAuto erfinv ok cfg t ids entities screen st = window_standing erfinv ok cfg t ids True ''auto'' entities screen st"

section \<open>The standings are ordered by confidence\<close>

definition standing_ge :: "AggRow \<Rightarrow> AggRow \<Rightarrow> bool" where
  "standing_ge x y = (case (ar_Confidence x, ar_Confidence y) of (_, None) \<Rightarrow> True | (None, Some _) \<Rightarrow> False | (Some a, Some b) \<Rightarrow> b \<le> a)"

lemma standing_ge_trans: "transp standing_ge"
  by (auto simp: transp_def standing_ge_def split: option.splits)

lemma agg_before_ge: "agg_before u x y \<Longrightarrow> standing_ge x y" and agg_before_le: "\<not> agg_before u x y \<Longrightarrow> standing_ge y x"
  by (auto simp: agg_before_def standing_ge_def split: option.splits if_splits)

text \<open>
  C11. The standings name the most trusted meter first: whatever the windows, the failing queries
  and the order in which the maps are walked, the rows of the answer are in descending order of
  their confidence, and a meter without one comes after all that have one - although the
  comparison of the sort is not transitive among equal confidences.
\<close>

theorem standing_by_confidence:
  assumes "window_standing erfinv ok cfg t ids useRef src entities screen st = Some rows" "i < j" "j < length rows"
  shows "case ar_Confidence (rows ! j) of None \<Rightarrow> True | Some c \<Rightarrow> \<exists>c'. ar_Confidence (rows ! i) = Some c' \<and> c \<le> c'"
proof -
  obtain xs where "rows = slice_stable (agg_before useRef) xs" using assms(1) by (auto simp: window_standing_def Let_def split: if_splits)
  then have "sorted_wrt standing_ge rows"
    using slice_stable_sorted [of "agg_before useRef" standing_ge xs, OF agg_before_ge agg_before_le standing_ge_trans] by simp
  with assms(2,3) have "standing_ge (rows ! i) (rows ! j)" by (simp add: sorted_wrt_iff_nth_less)
  then show ?thesis by (auto simp: standing_ge_def split: option.splits)
qed

lemma slice_stable_length: "length (slice_stable lt xs) = length xs"
  using arg_cong [OF mset_slice_stable [of lt xs], of size] by simp

lemma standing_by_confidence_witness:
  "let st = empty_store\<lparr>st_index := Map.empty(7 \<mapsto> new_index (sample_reading 0 0), 8 \<mapsto> new_index (sample_reading 0 0)),
       st_windows := [\<lparr>tw_id = 1, tw_label = ''kettle'', tw_start = 0, tw_end = Some minute, tw_source = ''manual'', tw_known_load = None,
         tw_known_entity = None, tw_snoop_k = None\<rparr>]\<rparr>
   in \<exists>rows. window_standing (\<lambda>x. x) (\<lambda>_. True) None [] [7, 8] False [] [] None st = Some rows \<and> length rows = 2
     \<and> (case ar_Confidence (rows ! 1) of None \<Rightarrow> True | Some c \<Rightarrow> \<exists>c'. ar_Confidence (rows ! 0) = Some c' \<and> c \<le> c')"
proof -
  let ?w = "\<lparr>tw_id = 1, tw_label = ''kettle'', tw_start = 0, tw_end = Some minute, tw_source = ''manual'', tw_known_load = None,
         tw_known_entity = None, tw_snoop_k = None\<rparr> :: test_row"
  let ?st = "empty_store\<lparr>st_index := Map.empty(7 \<mapsto> new_index (sample_reading 0 0), 8 \<mapsto> new_index (sample_reading 0 0)),
       st_windows := [?w]\<rparr>"
  have w: "recent_windows (closedWindows [] ?st) = [?w]" by (simp add: recent_windows_def closedWindows_def maxWindows_def)
  have "\<exists>xs. window_correlation True [7, 8] 0 minute ?st = Some xs \<and> mset (map cr_EndpointID xs) = {#7, 8#}"
    by (simp add: window_correlation_def Correlation_def dataSpan_def window_row_of_def corr_row_def List.map_filter_def Let_def)
  then obtain xs where xs: "window_correlation True [7, 8] 0 minute ?st = Some xs" "mset (map cr_EndpointID xs) = {#7, 8#}" by blast
  have "length xs = 2" using arg_cong [OF xs(2), of size] by simp
  then obtain r s where rs: "xs = [r, s]" by (auto simp: numeral_2_eq_2 length_Suc_conv)
  note c = xs(1) [unfolded rs]
  have e: "cr_EndpointID r = 7 \<and> cr_EndpointID s = 8 \<or> cr_EndpointID r = 8 \<and> cr_EndpointID s = 7"
    using xs(2) by (auto simp: rs add_eq_conv_ex)
  obtain rows where rows: "window_standing (\<lambda>x. x) (\<lambda>_. True) None [] [7, 8] False [] [] None ?st = Some rows"
    by (simp add: window_standing_def rank_window_def Let_def w c)
  have n: "length rows = 2"
    using rows e by (auto simp: window_standing_def rank_window_def Let_def w c slice_stable_length aggregateWindows_def agg_windows_def
        agg_window_def agg_add_def util_only_rows_def List.map_filter_def)
  from n standing_by_confidence [OF rows, of 0 1] rows show ?thesis unfolding Let_def by auto
qed

section \<open>A meter that follows the reference is calibrated exactly\<close>

text \<open>What the confidence passes do not touch.\<close>

definition calibration :: "CorrRow \<Rightarrow> int \<times> real option \<times> real option \<times> real option" where
  "calibration r = (cr_EndpointID r, cr_R r, cr_SuggestedMultiplier r, cr_BaselineW r)"

lemma first_pass_calibration: "calibration (first_pass erfinv k n cv aux reg row) = calibration row"
  by (simp add: calibration_def first_pass_def physics_only_def with_confidence_def Let_def split: option.split prod.split)

lemma enrich_row_calibration: "enrich_row erfinv k n cv aux ser row = Some r \<Longrightarrow> calibration r = calibration row"
  by (auto simp: calibration_def enrich_row_def with_confidence_def Let_def split: option.splits if_splits prod.splits)

lemma enrich_at_calibration:
  assumes "\<And>row r. f row = Some r \<Longrightarrow> calibration r = calibration row"
  shows "enrich_at f idxs base = Some out \<Longrightarrow> \<forall>i \<in> set idxs. i < length base \<Longrightarrow> map calibration out = map calibration base"
proof (induction idxs arbitrary: base)
  case (Cons i idxs)
  obtain r where r: "f (base ! i) = Some r" "enrich_at f idxs (base[i := r]) = Some out" using Cons.prems(1) by (auto split: option.splits)
  have "map calibration out = map calibration (base[i := r])" using Cons.IH [OF r(2)] Cons.prems(2) by simp
  also have "\<dots> = map calibration base"
    using assms [OF r(1)] Cons.prems(2) by (simp add: map_update list_update_same_conv)
  finally show ?case .
qed simp

lemma enrichLag_calibration:
  "enrichLag erfinv k n cv aux ser base = Some out \<Longrightarrow> map calibration out = map calibration base"
  using enrich_at_calibration [where f = "enrich_row erfinv k n cv aux (the ser)" and base = base and out = out and idxs = "top_indices base", OF enrich_row_calibration]
    top_indices_bound [of _ base]
  by (cases ser) (auto simp: enrichLag_def)

text \<open>A ranked row comes from a row of the window query, calibrated when it has a regression.\<close>

lemma ranked_row_source:
  assumes "CorrelationVsReferenceAux erfinv correlation entities bm eo aux q = Some (Some (rows, fl))" "entities \<noteq> []" "row \<in> set rows"
    "ri_reg q (cr_EndpointID row) = Some rr"
  shows "\<exists>r0. calibration row = calibration (calibrate (ri_floor q) (of_int (if bm \<le> 0 then 1 else bm) / 60) rr r0)"
proof -
  obtain ws where ws: "correlation = Some ws" using assms(1) by (cases correlation) (simp_all add: CorrelationVsReferenceAux_def)
  define h where "h = of_int (if bm \<le> 0 then 1 else bm) / (60 :: real)"
  define base where "base = (if eo then filter (\<lambda>r. cr_Commodity r = ''electric'') ws else ws)"
  define cal where "cal = (\<lambda>r. case ri_reg q (cr_EndpointID r) of None \<Rightarrow> r | Some rr \<Rightarrow> calibrate (ri_floor q) h rr r)"
  define nc where "nc = candidate_count aux (map cal base)"
  let ?base2 = "map (first_pass erfinv (ri_monitoredKwh q) nc (ri_refCV q) aux (ri_reg q)) (map cal base)"
  have e: "CorrelationVsReferenceAux erfinv correlation entities bm eo aux q
      = Some (case enrichLag erfinv (ri_monitoredKwh q) nc (ri_refCV q) aux (ri_series q) ?base2 of None \<Rightarrow> None
              | Some base3 \<Rightarrow> Some (sort_key (\<lambda>r. (- deref (cr_Confidence r), - cr_Score r)) base3, ri_floor q))"
    using assms(2) unfolding CorrelationVsReferenceAux_def ws option.case Let_def
    by (simp only: if_False base_def [symmetric] h_def [symmetric] cal_def [symmetric] nc_def [symmetric])
  obtain base3 where b3: "enrichLag erfinv (ri_monitoredKwh q) nc (ri_refCV q) aux (ri_series q) ?base2 = Some base3" "set rows = set base3"
    using assms(1) unfolding e by (auto split: option.splits)
  have "calibration row \<in> set (map calibration ?base2)" using enrichLag_calibration [OF b3(1)] assms(3) b3(2) by (metis image_eqI set_map)
  then obtain r0 where r0: "calibration row = calibration (cal r0)" by (auto simp: first_pass_calibration)
  have i: "cr_EndpointID (cal r) = cr_EndpointID r" for r by (simp add: cal_def calibrate_def Let_def split: option.split)
  have "cr_EndpointID r0 = cr_EndpointID row" using r0 i [of r0] by (simp add: calibration_def)
  then have "cal r0 = calibrate (ri_floor q) h rr r0" using assms(4) by (simp add: cal_def)
  with r0 show ?thesis unfolding h_def by metis
qed

text \<open>Sums of deviations of an exact multiple.\<close>

lemma mean_scaled: "mean (map (\<lambda>p. k * f p) ps) = k * mean (map f ps)"
  by (simp add: mean_def sum_list_const_mult)

lemma dev_sum_scaled:
  assumes "\<And>p. p \<in> set ps \<Longrightarrow> fst p = k * snd p"
  shows "dev_sum snd fst ps = k * dev_sum snd snd ps" "dev_sum fst fst ps = k * k * dev_sum snd snd ps" "mean (map fst ps) = k * mean (map snd ps)"
proof -
  have m: "map fst ps = map (\<lambda>p. k * snd p) ps" using assms by simp
  show mm: "mean (map fst ps) = k * mean (map snd ps)" unfolding m by (rule mean_scaled)
  have "map (\<lambda>p. (snd p - mean (map snd ps)) * (fst p - mean (map fst ps))) ps
      = map (\<lambda>p. k * ((snd p - mean (map snd ps)) * (snd p - mean (map snd ps)))) ps"
    unfolding mm by (intro map_cong refl) (simp add: assms algebra_simps)
  then show "dev_sum snd fst ps = k * dev_sum snd snd ps" unfolding dev_sum_def by (simp only: sum_list_const_mult)
  have "map (\<lambda>p. (fst p - mean (map fst ps)) * (fst p - mean (map fst ps))) ps
      = map (\<lambda>p. k * k * ((snd p - mean (map snd ps)) * (snd p - mean (map snd ps)))) ps"
    unfolding mm by (intro map_cong refl) (simp add: assms algebra_simps)
  then show "dev_sum fst fst ps = k * k * dev_sum snd snd ps" unfolding dev_sum_def by (simp only: sum_list_const_mult)
qed

lemma dev_sum_pos:
  assumes "p \<in> set ps" "q \<in> set ps" "f p \<noteq> f q"
  shows "0 < dev_sum f f ps"
proof -
  let ?m = "mean (map f ps)" and ?xs = "map (\<lambda>p. (f p - mean (map f ps)) * (f p - mean (map f ps))) ps"
  have "f p \<noteq> ?m \<or> f q \<noteq> ?m" using assms(3) by auto
  then obtain x where x: "x \<in> set ps" "f x \<noteq> ?m" using assms(1,2) by blast
  have nn: "0 \<le> y" if "y \<in> set ?xs" for y using that by auto
  have "(f x - ?m) * (f x - ?m) \<noteq> 0" using x(2) by simp
  then have "sum_list ?xs \<noteq> 0" using sum_list_nonneg_eq_0_iff [of ?xs] nn x(1) by (metis (no_types, lifting) image_eqI set_map)
  moreover have "0 \<le> sum_list ?xs" using nn by (rule sum_list_nonneg)
  ultimately show ?thesis unfolding dev_sum_def by linarith
qed

lemma demingSlope_scaled: "0 < k \<Longrightarrow> 0 < s \<Longrightarrow> demingSlope s (k * k * s) (k * s) = k"
proof (cases "\<bar>k * s\<bar> < 1 / 10 ^ 12")
  case False
  assume k: "0 < k" "0 < s"
  have "(k * k * s - s) * (k * k * s - s) + 4 * (k * s) * (k * s) = ((k * k + 1) * s) ^ 2" by (simp add: power2_eq_square algebra_simps)
  then have "sqrt ((k * k * s - s) * (k * k * s - s) + 4 * (k * s) * (k * s)) = (k * k + 1) * s"
    using k by (simp add: real_sqrt_abs)
  with False k show ?thesis by (simp add: demingSlope_def field_simps)
qed (simp add: demingSlope_def)

lemma regression_scaled:
  assumes "5 \<le> length ps" "\<And>p. p \<in> set ps \<Longrightarrow> fst p = k * snd p" "0 < k" "a \<in> set ps" "b \<in> set ps" "snd a \<noteq> snd b"
  shows "\<exists>rr. regression ps = Some rr \<and> rg_r rr = Some 1 \<and> regr_slope rr = k \<and> regr_icept rr k = 0"
proof -
  let ?s = "dev_sum snd snd ps"
  have s: "0 < ?s" by (rule dev_sum_pos [OF assms(4,5,6)])
  note D = dev_sum_scaled [OF assms(2)]
  have "sqrt (?s * (k * k * ?s)) = k * ?s" using s assms(3) by (subst real_sqrt_unique [of "k * ?s"]) (simp_all add: power2_eq_square algebra_simps)
  then show ?thesis
    using assms(1,3) s by (auto simp: regression_def Let_def D regr_slope_def regr_icept_def demingSlope_scaled)
qed

text \<open>
  C10. A meter that follows the monitored energy is found and calibrated: whenever its cleaned
  deltas are k counts per watt-hour in every bucket of a window, over at least five buckets that
  are not all alike, its row of the ranking has the correlation 1, the suggested multiplier is
  1/(1000 k) kWh per count to eight places, and no unmonitored baseline is reported.
\<close>

theorem true_meter_is_calibrated:
  assumes "identify_window erfinv ok ids entities start stop bm eo aux st = Some (Some (rows, fl))" "entities \<noteq> []" "row \<in> set rows"
    "ps = meter_pairs (if bm \<le> 0 then 1 else bm) entities start stop st (cr_EndpointID row)"
    "5 \<le> length ps" "\<And>p. p \<in> set ps \<Longrightarrow> fst p = k * snd p" "0 < k" "a \<in> set ps" "b \<in> set ps" "snd a \<noteq> snd b"
  shows "cr_R row = Some 1 \<and> cr_SuggestedMultiplier row = Some (round_places (1 / (1000 * k)) 8) \<and> cr_BaselineW row = Some 0"
proof -
  obtain rr where rr: "regression ps = Some rr" "rg_r rr = Some 1" "regr_slope rr = k" "regr_icept rr k = 0"
    using regression_scaled [OF assms(5-10)] by blast
  have "ri_reg (ranking_input bm entities start stop st) (cr_EndpointID row) = Some rr"
    using rr(1) assms(4) by (simp add: ranking_input_def Let_def)
  from ranked_row_source [OF assms(1) [unfolded identify_window_def] assms(2,3) this]
  obtain r0 where r0: "calibration row = calibration (calibrate (ri_floor (ranking_input bm entities start stop st))
      (of_int (if bm \<le> 0 then 1 else bm) / 60) rr r0)" by blast
  have "round_places 1 3 = (1 :: real)" "round_places 0 1 = (0 :: real)"
    using round_places_of_int [of 1 3] round_places_of_int [of 0 1] by (simp_all only: of_int_1 of_int_0)
  then show ?thesis using r0 assms(7) by (simp add: calibration_def calibrate_def rr Let_def del: One_nat_def)
qed

definition kitchen_store :: store where
  "kitchen_store = empty_store\<lparr>
     st_readings := map (\<lambda>(n, c). (sample_reading (n * minute) c, [])) [(0, 0), (1, 2), (2, 3), (3, 5), (4, 6), (5, 8)],
     st_index := Map.empty(7 \<mapsto> new_index (sample_reading 0 0)),
     st_ref := map (\<lambda>(n, w). \<lparr>rs_ts = n * minute, rs_entity = ''sensor.a'', rs_power = w, rs_src = Live\<rparr>)
       [(0, 60), (1, 120), (2, 60), (3, 120), (4, 60), (5, 120)]\<rparr>"

lemma kitchen_upt: "[0 ..< 6] = [0, 1, 2, 3, 4, 5 :: nat]" by (simp add: upt_rec)

lemma time_bucket_minutes: "time_bucket minute (n * minute) = n * minute"
proof -
  have "bucket_origin = 15780960 * minute" by (simp add: bucket_origin_def day_ns_def)
  then have "n * minute - bucket_origin = (n - 15780960) * minute" by (simp only: left_diff_distrib)
  moreover have "(n - 15780960) * minute div minute * minute = (n - 15780960) * minute" by (subst nonzero_mult_div_cancel_right) simp_all
  ultimately have "(n * minute - bucket_origin) div minute * minute = n * minute - bucket_origin" by (simp only:)
  then show ?thesis by (simp only: time_bucket_def)
qed

lemma kitchen_minutes: "monitored_minutes [''sensor.a''] 0 (5 * minute) kitchen_store
   = Some [(0, 60), (minute, 120), (2 * minute, 60), (3 * minute, 120), (4 * minute, 60), (5 * minute, 120)]"
proof -
  have g: "minute_grid 0 (5 * minute) = [0, minute, 2 * minute, 3 * minute, 4 * minute, 5 * minute]"
    by (simp add: minute_grid_def minute_of_def kitchen_upt)
  have h: "hvac_minutes 0 (5 * minute) kitchen_store = Some []"
    by (simp add: hvac_minutes_def action_minutes_def kitchen_store_def empty_store_def)
  have m: "entity_minutes 0 (5 * minute) ''sensor.a'' kitchen_store
    = [(0, Some 60), (minute, Some 120), (2 * minute, Some 60), (3 * minute, Some 120), (4 * minute, Some 60), (5 * minute, Some 120)]"
    unfolding entity_minutes_def filled_def
    by (simp add: g [simplified] span_samples_def kitchen_store_def empty_store_def minute_of_def carry_def in_minute_def bounded_def refCarryLimit_def avg_power_def mean_def Let_def)
  show ?thesis by (simp add: monitored_minutes_def h [simplified] m [simplified] g [simplified] row_watts_def)
qed

lemma kitchen_counters: "counter_rows 7 kitchen_store = [(0, 0), (minute, 2), (2 * minute, 3), (3 * minute, 5), (4 * minute, 6), (5 * minute, 8)]"
  by (simp add: counter_rows_def kitchen_store_def sample_reading_def List.map_filter_def)

lemma kitchen_readings: "readings_1m 7 kitchen_store = map (\<lambda>(n, c). \<lparr>bk_start = n * minute, bk_min = c, bk_max = c, bk_n = 1\<rparr>)
     [(0, 0), (1, 2), (2, 3), (3, 5), (4, 6), (5, 8)]"
  unfolding readings_1m_def kitchen_counters
  by (simp add: aggregate_def bucket_starts_def in_bucket_def trunc_to_def Let_def)

lemma kitchen_maxima: "bucket_maxima 1 0 (5 * minute) 7 kitchen_store = map (\<lambda>(n, c). \<lparr>h_bucket = n * minute, h_max = c, h_n = 1\<rparr>)
     [(0, 0), (1, 2), (2, 3), (3, 5), (4, 6), (5, 8)]"
proof -
  note T = time_bucket_minutes [of 0, simplified] time_bucket_minutes [of 1, simplified] time_bucket_minutes [of 2, simplified]
     time_bucket_minutes [of 3, simplified] time_bucket_minutes [of 4, simplified] time_bucket_minutes [of 5, simplified]
  show ?thesis by (simp add: bucket_maxima_def delta_source_def kitchen_readings T Let_def del: set_filter)
qed

lemma kitchen_deltas: "clean_deltas 1 0 (5 * minute) kitchen_store 7
   = [(minute, 2), (2 * minute, 1), (3 * minute, 2), (4 * minute, 1), (5 * minute, 2)]"
proof -
  have m: "modulus_of 7 kitchen_store = Some 16777216" by (simp add: modulus_of_def kitchen_store_def new_index_def sample_reading_def)
  have g: "1000 \<le> glitch_limit ds" for ds by (simp add: glitch_limit_def)
  have "glitchClean (map (\<lambda>(r, d). (h_bucket r, d)) (hourly_deltas 16777216 (bucket_maxima 1 0 (5 * minute) 7 kitchen_store)))
     = [(minute, 2), (2 * minute, 1), (3 * minute, 2), (4 * minute, 1), (5 * minute, 2)]"
    using g [of "[2, 1, 2, 1, 2]"] by (simp add: kitchen_maxima [simplified] hourly_deltas_def rolloverDelta_def glitchClean_def List.map_filter_def)
  then show ?thesis by (simp add: clean_deltas_def m)
qed

lemma kitchen_pairs: "meter_pairs 1 [''sensor.a''] 0 (5 * minute) kitchen_store 7 = [(2, 2), (1, 1), (2, 2), (1, 1), (2, 2)]"
proof -
  note T = time_bucket_minutes [of 0, simplified] time_bucket_minutes [of 1, simplified] time_bucket_minutes [of 2, simplified]
     time_bucket_minutes [of 3, simplified] time_bucket_minutes [of 4, simplified] time_bucket_minutes [of 5, simplified]
  show ?thesis
    by (simp add: meter_pairs_def ref_energy_def kitchen_minutes [simplified] kitchen_deltas [simplified] joined_pairs_def T List.map_filter_def)
qed

lemma ranking_of_one:
  assumes "ri_series q = Some ser" "\<forall>i meter ref. ser i = Some (meter, ref) \<longrightarrow> length meter = 5 \<and> length ref = 5" "entities \<noteq> []"
  shows "\<exists>row fl. CorrelationVsReferenceAux erfinv (Some [r]) entities bm False aux q = Some (Some ([row], fl)) \<and> cr_EndpointID row = cr_EndpointID r"
proof -
  define cal where "cal = (\<lambda>r. case ri_reg q (cr_EndpointID r) of None \<Rightarrow> r
      | Some rr \<Rightarrow> calibrate (ri_floor q) (of_int (if bm \<le> 0 then 1 else bm) / 60) rr r)"
  define nc where "nc = candidate_count aux [cal r]"
  define base where "base = [first_pass erfinv (ri_monitoredKwh q) nc (ri_refCV q) aux (ri_reg q) (cal r)]"
  let ?f = "enrichLag erfinv (ri_monitoredKwh q) nc (ri_refCV q) aux (ri_series q) base"
  have s: "\<forall>i meter ref. ser i = Some (meter, ref) \<longrightarrow> length meter = length ref" and b: "\<not> bad_series ser i" for i
    using assms(2) by (auto simp: bad_series_def)
  have "?f \<noteq> None"
    using enrich_at_none [OF enrich_row_none [OF s] enrich_row_id, where idxs = "top_indices base" and base = base] top_indices_bound b
    by (auto simp: enrichLag_def assms(1))
  then obtain out where out: "?f = Some out" by blast
  have c: "map calibration out = map calibration base" by (rule enrichLag_calibration [OF out])
  have i: "fst (calibration (cal r)) = cr_EndpointID r" by (simp add: cal_def calibration_def calibrate_def Let_def split: option.split)
  obtain row where row: "out = [row]" "calibration row = calibration (cal r)"
    using c by (auto simp: base_def first_pass_calibration)
  have "cr_EndpointID row = cr_EndpointID r" using row(2) i by (simp add: calibration_def)
  moreover have "CorrelationVsReferenceAux erfinv (Some [r]) entities bm False aux q
      = Some (case ?f of None \<Rightarrow> None | Some base3 \<Rightarrow> Some (sort_key (\<lambda>r. (- deref (cr_Confidence r), - cr_Score r)) base3, ri_floor q))"
    using assms(3) by (simp add: CorrelationVsReferenceAux_def Let_def base_def nc_def cal_def)
  ultimately show ?thesis by (simp add: out row(1))
qed

lemma true_meter_is_calibrated_witness:
  "\<exists>row fl. identify_window (\<lambda>x. x) True [7] [''sensor.a''] 0 (5 * minute) 1 False None kitchen_store = Some (Some ([row], fl))
     \<and> cr_R row = Some 1 \<and> cr_SuggestedMultiplier row = Some (round_places (1 / 1000) 8) \<and> cr_BaselineW row = Some 0"
proof -
  let ?ser = "the (alignedSeries 1 [''sensor.a''] 0 (5 * minute) kitchen_store)"
  have ser: "alignedSeries 1 [''sensor.a''] 0 (5 * minute) kitchen_store = Some ?ser"
    by (simp add: alignedSeries_def ref_energy_def kitchen_minutes [simplified])
  have "length meter = 5 \<and> length ref = 5" if "?ser i = Some (meter, ref)" for i meter ref
  proof (cases "i = 7")
    case True
    have "?ser 7 = Some (map fst [(2, 2), (1, 1), (2, 2), (1, 1), (2, 2 :: real)], map snd [(2 :: real, 2 :: real), (1, 1), (2, 2), (1, 1), (2, 2)])"
      using kitchen_pairs [simplified] by (simp add: alignedSeries_def meter_pairs_def ref_energy_def kitchen_minutes [simplified] Let_def)
    with that True show ?thesis by simp
  next
    case False
    have "clean_deltas 1 0 (5 * minute) kitchen_store i = []" using False by (simp add: clean_deltas_def modulus_of_def kitchen_store_def empty_store_def)
    then have "?ser i = None" using False by (simp add: alignedSeries_def ref_energy_def kitchen_minutes [simplified] joined_pairs_def Let_def List.map_filter_def)
    with that show ?thesis by simp
  qed
  then have s: "\<forall>i meter ref. ?ser i = Some (meter, ref) \<longrightarrow> length meter = 5 \<and> length ref = 5" by blast
  obtain r where r: "window_correlation True [7] 0 (5 * minute) kitchen_store = Some [r]" "cr_EndpointID r = 7"
    by (simp add: window_correlation_def Correlation_def dataSpan_def window_row_of_def kitchen_store_def corr_row_def List.map_filter_def Let_def)
  let ?q = "ranking_input 1 [''sensor.a''] 0 (5 * minute) kitchen_store"
  have "ri_series ?q = Some ?ser" using ser by (simp add: ranking_input_def Let_def)
  from ranking_of_one [OF this s, of "[''sensor.a'']" "\<lambda>x. x" r 1 None]
  obtain row fl where row: "identify_window (\<lambda>x. x) True [7] [''sensor.a''] 0 (5 * minute) 1 False None kitchen_store = Some (Some ([row], fl))"
    "cr_EndpointID row = 7" by (auto simp: identify_window_def r [simplified])
  have "cr_R row = Some 1 \<and> cr_SuggestedMultiplier row = Some (round_places (1 / (1000 * 1)) 8) \<and> cr_BaselineW row = Some 0"
    by (rule true_meter_is_calibrated [OF row(1), where k = 1 and a = "(2, 2)" and b = "(1, 1)" and ps = "[(2, 2), (1, 1), (2, 2), (1, 1), (2, 2)]"])
      (auto simp: row(2) kitchen_pairs [simplified])
  with row(1) show ?thesis by auto
qed

end
