(* ===== verification/Requests.thy ===== *)
theory Requests
  imports Home Detector "HOL-Library.List_Lexorder" "HOL-Library.Char_ord"
begin

text \<open>
  The handlers of \<open>cmd/api/handlers.go\<close> that change the store. A handler takes the parts of the
  request it reads (the path value, the query, the body as it arrives) and returns its reply with
  the store after it; the fields of \<open>api_env\<close> say which statements succeed and what the handler
  sees beside the request.
\<close>

section \<open>Requests and replies\<close>

datatype 'a reply = Reply 'a | BadReq string | NotFound string | Internal | BadGateway

fun reply_code :: "'a reply \<Rightarrow> nat" where
  "reply_code (Reply _) = 200"
| "reply_code (BadReq _) = 400"
| "reply_code (NotFound _) = 404"
| "reply_code Internal = 500"
| "reply_code BadGateway = 502"

record api_env =
  ae_now :: instant
  ae_settings :: bool
  ae_notify :: bool
  ae_oks :: "nat \<Rightarrow> bool"
  ae_serials :: "string list"
  ae_endpoints :: "int list"
  ae_survivor_count :: "nat option"
  ae_in_dropped_chunk :: "reading \<Rightarrow> bool"
  ae_getenv :: "string \<Rightarrow> string"

text \<open>\<open>Query().Get\<close>: the first value, or nothing.\<close>

definition q_get :: "(string \<times> string) list \<Rightarrow> string \<Rightarrow> string" where
  "q_get q k = (case map_of q k of None \<Rightarrow> [] | Some v \<Rightarrow> v)"

definition pathID :: "string \<Rightarrow> int option" where "pathID s = parse_int s"

definition timeParam :: "(string \<times> string) list \<Rightarrow> string \<Rightarrow> instant \<Rightarrow> instant" where
  "timeParam q key def =
     (if q_get q key = [] then def else (case parse_rfc3339 (q_get q key) of Some t \<Rightarrow> t | None \<Rightarrow> def))"

definition intParam :: "(string \<times> string) list \<Rightarrow> string \<Rightarrow> int \<Rightarrow> int" where
  "intParam q key def =
     (if q_get q key = [] then def else (case parse_int (q_get q key) of Some n \<Rightarrow> n | None \<Rightarrow> def))"

definition emptyToNil :: "string option \<Rightarrow> string option" where
  "emptyToNil s = (case s of None \<Rightarrow> None | Some v \<Rightarrow> if v = [] then None else Some v)"

text \<open>\<open>ids=1,2\<close> and the like: the parts that are numbers.\<close>

definition id_list :: "string \<Rightarrow> int list" where
  "id_list s = List.map_filter (\<lambda>p. if trim_space p = [] then None else parse_int (trim_space p)) (split_on (CHR '','') s)"

text \<open>\<open>json.NewDecoder(body).Decode\<close> reads one value and leaves the rest of the body alone.\<close>

definition first_value :: "string \<Rightarrow> json option" where
  "first_value body = map_option fst (p_value (2 * length body + 2) (skip_ws body))"

text \<open>The fields of a body: a pointer is cleared by null, a plain field keeps its value.\<close>

definition dec_ptr :: "(json \<Rightarrow> 'a option) \<Rightarrow> json \<Rightarrow> 'a option option" where
  "dec_ptr f v = (case v of JNull \<Rightarrow> Some None | _ \<Rightarrow> map_option Some (f v))"

definition dec_bool :: "json \<Rightarrow> bool option" where
  "dec_bool v = (case v of JBool b \<Rightarrow> Some b | _ \<Rightarrow> None)"

definition dec_int :: "json \<Rightarrow> int \<Rightarrow> int option" where
  "dec_int v old = (case v of JNull \<Rightarrow> Some old | JNum s \<Rightarrow> parse_int s | _ \<Rightarrow> None)"

abbreviation dec_str :: "json \<Rightarrow> string option" where "dec_str v \<equiv> dec_string v []"

definition attempt :: "bool \<Rightarrow> (store \<Rightarrow> store) \<Rightarrow> store \<Rightarrow> store" where "attempt ok f st = (if ok then f st else st)"

definition notify_config :: "api_env \<Rightarrow> store \<Rightarrow> store" where "notify_config e = attempt (ae_notify e) NotifyConfig"
definition notify_tests :: "api_env \<Rightarrow> store \<Rightarrow> store" where "notify_tests e = attempt (ae_notify e) NotifyTests"

text \<open>\<open>cfg, _ := LoadConfig\<close>: after a failed read the handlers go on with the zero value.\<close>

definition zero_config :: Config where
  "zero_config = \<lparr>HAURL = [], HAToken = [], MQTTHost = [], MQTTPort = 0, MQTTUser = [], MQTTPass = [], MQTTPrefix = [],
     MonitoredEntities = [], UtilityStatisticID = [], UtilityPeriod = [], UtilityUnit = [], HATimeZone = [], ThresholdW = 0,
     AutoWindow = False, DefaultMultiplier = 0, DefaultUnit = [],
     Capture = \<lparr>cc_Freq = [], cc_Gain = [], cc_PPM = [], cc_MsgType = [], cc_FilterID = [], cc_Devices = Map.empty\<rparr>,
     CostPerKwh = 0, Currency = [], HVACEntityID = [], HVACHeatingKW = 0, HVACCoolingKW = 0\<rparr>"

definition config_or_zero :: "api_env \<Rightarrow> store \<Rightarrow> Config" where
  "config_or_zero e st = (case LoadConfig (ae_getenv e) (ae_settings e) st of None \<Rightarrow> zero_config | Some c \<Rightarrow> c)"

section \<open>Meters\<close>

definition no_fields :: MeterUpdate where
  "no_fields = \<lparr>mu_Label = None, mu_Notes = None, mu_IsCandidate = None, mu_IsMine = None, mu_Ignored = None, mu_Publish = None,
     mu_PubName = None, mu_PubMultiplier = None, mu_PubUnit = None\<rparr>"

definition meter_field :: "string \<Rightarrow> json \<Rightarrow> MeterUpdate \<Rightarrow> MeterUpdate option" where
  "meter_field k v f =
     (if equal_fold k ''label'' then map_option (\<lambda>x. f\<lparr>mu_Label := x\<rparr>) (dec_ptr dec_str v)
      else if equal_fold k ''notes'' then map_option (\<lambda>x. f\<lparr>mu_Notes := x\<rparr>) (dec_ptr dec_str v)
      else if equal_fold k ''is_candidate'' then map_option (\<lambda>x. f\<lparr>mu_IsCandidate := x\<rparr>) (dec_ptr dec_bool v)
      else if equal_fold k ''is_mine'' then map_option (\<lambda>x. f\<lparr>mu_IsMine := x\<rparr>) (dec_ptr dec_bool v)
      else if equal_fold k ''ignored'' then map_option (\<lambda>x. f\<lparr>mu_Ignored := x\<rparr>) (dec_ptr dec_bool v)
      else if equal_fold k ''publish'' then map_option (\<lambda>x. f\<lparr>mu_Publish := x\<rparr>) (dec_ptr dec_bool v)
      else if equal_fold k ''pub_name'' then map_option (\<lambda>x. f\<lparr>mu_PubName := x\<rparr>) (dec_ptr dec_str v)
      else if equal_fold k ''pub_multiplier'' then map_option (\<lambda>x. f\<lparr>mu_PubMultiplier := x\<rparr>) (dec_floatptr v)
      else if equal_fold k ''pub_unit'' then map_option (\<lambda>x. f\<lparr>mu_PubUnit := x\<rparr>) (dec_ptr dec_str v)
      else Some f)"

definition handleMeterPatch :: "api_env \<Rightarrow> string \<Rightarrow> string \<Rightarrow> store \<Rightarrow> meter_row reply \<times> store" where
  "handleMeterPatch e idtext body st =
     (case pathID idtext of None \<Rightarrow> (BadReq ''bad id'', st)
      | Some i \<Rightarrow>
          (case obind (first_value body) (\<lambda>v. dec_struct meter_field v no_fields) of None \<Rightarrow> (BadReq ''bad json'', st)
           | Some f \<Rightarrow>
               (case UpdateMeter (ae_oks e 0) (ae_oks e 1) i f st of
                  (None, s1) \<Rightarrow> (Internal, s1)
                | (Some m, s1) \<Rightarrow> (Reply m, notify_config e s1))))"

definition handleDeleteMeter :: "api_env \<Rightarrow> string \<Rightarrow> (string \<times> string) list \<Rightarrow> store \<Rightarrow> bool reply \<times> store" where
  "handleDeleteMeter e idtext q st =
     (case pathID idtext of None \<Rightarrow> (BadReq ''bad id'', st)
      | Some i \<Rightarrow>
          (let purge = (q_get q ''purge'' = ''true'') in
           case DeleteMeter (ae_oks e 0) (map (ae_oks e) [1, 2, 3]) i purge st of
             (False, s1) \<Rightarrow> (Internal, s1)
           | (True, s1) \<Rightarrow> (Reply purge, notify_config e s1)))"

section \<open>Settings\<close>

text \<open>The answer to a settings request, as a function of the order in which the map is walked.\<close>

datatype setting_value = Plain string | IsSet bool

definition view_step :: "(string \<rightharpoonup> setting_value) \<Rightarrow> string \<times> string \<Rightarrow> (string \<rightharpoonup> setting_value)" where
  "view_step out kv =
     (let (k, v) = kv in
      if k \<in> set SecretKeys then out(k \<mapsto> Plain [], k @ ''_set'' \<mapsto> IsSet (v \<noteq> [])) else out(k \<mapsto> Plain v))"

definition setting_rows :: "string list \<Rightarrow> (string \<rightharpoonup> string) \<Rightarrow> (string \<times> string) list" where
  "setting_rows order m = List.map_filter (\<lambda>k. map_option (Pair k) (m k)) order"

definition handleGetSettings :: "bool \<Rightarrow> string list \<Rightarrow> store \<Rightarrow> (string \<rightharpoonup> setting_value) reply" where
  "handleGetSettings ok order st =
     (case GetSettings ok st of None \<Rightarrow> Internal | Some m \<Rightarrow> Reply (foldl view_step Map.empty (setting_rows order m)))"

text \<open>A body \<open>map[string]string\<close>; a later member replaces an earlier one.\<close>

definition dec_string_map :: "json \<Rightarrow> (string \<rightharpoonup> string) option" where
  "dec_string_map v = (case v of JNull \<Rightarrow> Some Map.empty
     | JObj kvs \<Rightarrow> map_option (\<lambda>xs. map_of (rev xs)) (those (map (\<lambda>(k, x). map_option (Pair k) (dec_str x)) kvs))
     | _ \<Rightarrow> None)"

definition masked :: "string \<times> string \<Rightarrow> bool" where
  "masked kv = (case kv of (k, v) \<Rightarrow> k \<in> set SecretKeys \<and> (v = [] \<or> contains_char (CHR ''*'') v))"

fun put_rows :: "(string \<Rightarrow> bool) \<Rightarrow> (string \<times> string) list \<Rightarrow> store \<Rightarrow> bool \<times> store" where
  "put_rows ok [] st = (True, st)"
| "put_rows ok ((k, v) # rows) st =
     (if masked (k, v) then put_rows ok rows st
      else if \<not> ok k then (False, st) else put_rows ok rows (SetSetting k v st))"

definition handlePutSettings :: "api_env \<Rightarrow> (string \<Rightarrow> bool) \<Rightarrow> string list \<Rightarrow> string \<Rightarrow> store \<Rightarrow> unit reply \<times> store" where
  "handlePutSettings e ok order body st =
     (case obind (first_value body) dec_string_map of None \<Rightarrow> (BadReq ''bad json'', st)
      | Some m \<Rightarrow>
          (case put_rows ok (setting_rows order m) st of
             (False, s1) \<Rightarrow> (Internal, s1) | (True, s1) \<Rightarrow> (Reply (), notify_config e s1)))"

section \<open>Devices\<close>

text \<open>\<open>json.Marshal\<close> of the map writes its keys in order; \<open>device_names\<close> are the keys of the stored text.\<close>

definition device_json :: "DeviceConfig \<Rightarrow> json" where
  "device_json d = JObj [(''enabled'', case dc_Enabled d of None \<Rightarrow> JNull | Some b \<Rightarrow> JBool b), (''label'', JStr (dc_Label d)),
     (''freq'', JStr (dc_Freq d)), (''gain'', JStr (dc_Gain d)), (''ppm'', JStr (dc_PPM d)), (''msgtype'', JStr (dc_MsgType d)),
     (''filterid'', JStr (dc_FilterID d))]"

definition marshal_devices :: "string list \<Rightarrow> (string \<rightharpoonup> DeviceConfig) \<Rightarrow> string" where
  "marshal_devices names m = enc (JObj (List.map_filter (\<lambda>k. map_option (\<lambda>d. (k, device_json d)) (m k)) (sort (remdups names))))"

definition device_names :: "string \<Rightarrow> string list" where
  "device_names v = (case parse_json (trim_space v) of Some (JObj kvs) \<Rightarrow> map fst kvs | _ \<Rightarrow> [])"

definition devices_setting :: "api_env \<Rightarrow> store \<Rightarrow> string" where
  "devices_setting e st = (case GetSettings (ae_settings e) st of None \<Rightarrow> [] | Some m \<Rightarrow> get_setting (ae_getenv e) m ''capture_devices'' [] [])"

definition device_field :: "string \<Rightarrow> json \<Rightarrow> DeviceConfig \<Rightarrow> DeviceConfig option" where
  "device_field k v d =
     (if equal_fold k ''enabled'' then map_option (\<lambda>x. d\<lparr>dc_Enabled := x\<rparr>) (dec_ptr dec_bool v)
      else if equal_fold k ''label'' then map_option (\<lambda>x. d\<lparr>dc_Label := x\<rparr>) (dec_string v (dc_Label d))
      else if equal_fold k ''freq'' then map_option (\<lambda>x. d\<lparr>dc_Freq := x\<rparr>) (dec_string v (dc_Freq d))
      else if equal_fold k ''gain'' then map_option (\<lambda>x. d\<lparr>dc_Gain := x\<rparr>) (dec_string v (dc_Gain d))
      else if equal_fold k ''ppm'' then map_option (\<lambda>x. d\<lparr>dc_PPM := x\<rparr>) (dec_string v (dc_PPM d))
      else if equal_fold k ''msgtype'' then map_option (\<lambda>x. d\<lparr>dc_MsgType := x\<rparr>) (dec_string v (dc_MsgType d))
      else if equal_fold k ''filterid'' then map_option (\<lambda>x. d\<lparr>dc_FilterID := x\<rparr>) (dec_string v (dc_FilterID d))
      else Some d)"

definition handlePutDevice :: "api_env \<Rightarrow> string \<Rightarrow> string \<Rightarrow> store \<Rightarrow> unit reply \<times> store" where
  "handlePutDevice e serial body st =
     (if serial = [] then (BadReq ''bad serial'', st)
      else
        (case obind (first_value body) (\<lambda>v. dec_struct device_field v zero_device) of None \<Rightarrow> (BadReq ''bad json'', st)
         | Some d \<Rightarrow>
             (let devices = (cc_Devices (Capture (config_or_zero e st)))(serial \<mapsto> d);
                  blob = marshal_devices (serial # device_names (devices_setting e st)) devices
              in if ae_oks e 0 then (Reply (), notify_config e (SetSetting ''capture_devices'' blob st)) else (Internal, st))))"

text \<open>The sources that should be producing data; none when the devices cannot be listed.\<close>

definition liveSources :: "api_env \<Rightarrow> bool \<Rightarrow> store \<Rightarrow> string list" where
  "liveSources e listed st =
     (if \<not> listed then []
      else map de_Serial (filter (\<lambda>d. DeviceEnabled (Capture (config_or_zero e st)) (de_Serial d))
             (ListDevices (ae_now e) minute (ae_serials e) (ae_endpoints e) st)))"

section \<open>The helper sensor\<close>

record helper_body =
  hb_Name :: string
  hb_Entities :: "string list"

definition helper_field :: "string \<Rightarrow> json \<Rightarrow> helper_body \<Rightarrow> helper_body option" where
  "helper_field k v b =
     (if equal_fold k ''name'' then map_option (\<lambda>x. b\<lparr>hb_Name := x\<rparr>) (dec_string v (hb_Name b))
      else if equal_fold k ''entities'' then map_option (\<lambda>x. b\<lparr>hb_Entities := x\<rparr>) (dec_slice dec_str v)
      else Some b)"

text \<open>\<open>energy\<close> only when every chosen entity is known to be energy.\<close>

definition device_class :: "(string \<rightharpoonup> string) option \<Rightarrow> string list \<Rightarrow> string" where
  "device_class kinds entities =
     (case kinds of None \<Rightarrow> ''power''
      | Some m \<Rightarrow> if (\<forall>x \<in> set entities. m x = Some ''energy'') then ''energy'' else ''power'')"

text \<open>
  \<open>create\<close> is the configuration flow of Home Assistant, given the name, the entities and the
  class; its error is answered with status 200.
\<close>

definition handleCreateHelper ::
    "api_env \<Rightarrow> (string list \<Rightarrow> (string \<rightharpoonup> string) option) \<Rightarrow> (string \<Rightarrow> string list \<Rightarrow> string \<Rightarrow> string option) \<Rightarrow> string \<Rightarrow> store
     \<Rightarrow> string option reply \<times> store" where
  "handleCreateHelper e kinds create body st =
     (case obind (first_value body) (\<lambda>v. dec_struct helper_field v \<lparr>hb_Name = [], hb_Entities = []\<rparr>) of
        None \<Rightarrow> (BadReq ''need name + entities'', st)
      | Some b \<Rightarrow>
          if hb_Entities b = [] then (BadReq ''need name + entities'', st)
          else if \<not> HAConfigured (config_or_zero e st) then (BadReq ''Home Assistant not configured'', st)
          else
            (let name = (if hb_Name b = [] then ''winnow monitored power'' else hb_Name b) in
             case create name (hb_Entities b) (device_class (kinds (hb_Entities b)) (hb_Entities b)) of
               None \<Rightarrow> (Reply None, st)
             | Some entityID \<Rightarrow>
                 (Reply (Some entityID),
                  notify_config e (attempt (ae_oks e 0) (SetSetting ''monitored_entities'' (enc (JArr [JStr entityID]))) st))))"

section \<open>Maintenance\<close>

text \<open>\<open>VACUUM\<close>, \<open>REINDEX\<close>, the refresh of the aggregates and compression leave the rows as they are.\<close>

definition RunMaintenance :: "(nat \<Rightarrow> bool) \<Rightarrow> string \<Rightarrow> store \<Rightarrow> bool \<times> store" where
  "RunMaintenance ok op st =
     (if op = ''vacuum'' then (ok 0, st)
      else if op = ''reindex'' then (ok 0 \<and> ok 1 \<and> ok 2 \<and> ok 3, st)
      else if op = ''refresh_agg'' then (ok 0 \<and> ok 1, st)
      else if op = ''compress'' then (ok 0, st)
      else if op = ''scrub_zeros'' then scrub_zeros (ok 0) (ok 1) st
      else (False, st))"

definition op_field :: "string \<Rightarrow> json \<Rightarrow> string \<Rightarrow> string option" where
  "op_field k v op = (if equal_fold k ''op'' then dec_string v op else Some op)"

definition handleMaintenance :: "api_env \<Rightarrow> bool \<Rightarrow> string \<Rightarrow> store \<Rightarrow> string reply \<times> store" where
  "handleMaintenance e listed body st =
     (case obind (first_value body) (\<lambda>v. dec_struct op_field v []) of None \<Rightarrow> (BadReq ''bad json'', st)
      | Some op \<Rightarrow>
          (let keep = liveSources e listed st;
               (ok, s1) = (if op = ''prune_devices''
                           then (keep = [] \<or> ae_oks e 0 \<and> ae_oks e 1, PruneDevices (ae_oks e 0) (ae_oks e 1) keep st)
                           else RunMaintenance (ae_oks e) op st)
           in if ok then (Reply op, notify_config e s1) else (Internal, s1)))"

record delete_body =
  ab_Mode :: string
  ab_Days :: int
  ab_Source :: string
  ab_Confirm :: string

definition delete_field :: "string \<Rightarrow> json \<Rightarrow> delete_body \<Rightarrow> delete_body option" where
  "delete_field k v b =
     (if equal_fold k ''mode'' then map_option (\<lambda>x. b\<lparr>ab_Mode := x\<rparr>) (dec_string v (ab_Mode b))
      else if equal_fold k ''days'' then map_option (\<lambda>x. b\<lparr>ab_Days := x\<rparr>) (dec_int v (ab_Days b))
      else if equal_fold k ''source'' then map_option (\<lambda>x. b\<lparr>ab_Source := x\<rparr>) (dec_string v (ab_Source b))
      else if equal_fold k ''confirm'' then map_option (\<lambda>x. b\<lparr>ab_Confirm := x\<rparr>) (dec_string v (ab_Confirm b))
      else Some b)"

definition decode_delete :: "string \<Rightarrow> delete_body option" where
  "decode_delete body = obind (first_value body) (\<lambda>v. dec_struct delete_field v \<lparr>ab_Mode = [], ab_Days = 0, ab_Source = [], ab_Confirm = []\<rparr>)"

text \<open>The four modes: the count of removed rows and the store, None for an error; other modes are unknown.\<close>

definition delete_mode :: "api_env \<Rightarrow> delete_body \<Rightarrow> store \<Rightarrow> (nat option \<times> store) option" where
  "delete_mode e b st =
     (if ab_Mode b = ''age'' then Some (DeleteReadingsOlderThan (ae_in_dropped_chunk e) (ae_oks e 0) (ae_now e) (ab_Days b) st)
      else if ab_Mode b = ''source'' then Some (DeleteReadingsBySource (ae_oks e 0) (ae_oks e 1) (ae_oks e 2) (ab_Source b) st)
      else if ab_Mode b = ''all_tests'' then Some (PurgeTests (ae_oks e 0) st)
      else if ab_Mode b = ''all_readings'' then
        (case PurgeAllReadings (ae_oks e 0) (ae_oks e 1) (ae_oks e 2) st of (ok, s1) \<Rightarrow> Some (if ok then Some 0 else None, s1))
      else None)"

definition handleAdminDelete :: "api_env \<Rightarrow> string \<Rightarrow> store \<Rightarrow> (string \<times> nat) reply \<times> store" where
  "handleAdminDelete e body st =
     (case decode_delete body of None \<Rightarrow> (BadReq ''bad json'', st)
      | Some b \<Rightarrow>
          (let need = (if ab_Mode b = ''all_readings'' then ''PURGE-ALL'' else ''DELETE'') in
           if ab_Confirm b \<noteq> need then (BadReq ''confirmation required'', st)
           else
             (case delete_mode e b st of None \<Rightarrow> (BadReq ''unknown mode'', st)
              | Some (None, s1) \<Rightarrow> (Internal, s1)
              | Some (Some n, s1) \<Rightarrow> (Reply (ab_Mode b, n), notify_config e s1))))"

section \<open>Test windows\<close>

record test_body =
  tb_Label :: string
  tb_Start :: string
  tb_End :: string
  tb_KnownLoad :: "real option"
  tb_KnownEntity :: "string option"

definition no_test_body :: test_body where
  "no_test_body = \<lparr>tb_Label = [], tb_Start = [], tb_End = [], tb_KnownLoad = None, tb_KnownEntity = None\<rparr>"

definition test_field :: "string \<Rightarrow> json \<Rightarrow> test_body \<Rightarrow> test_body option" where
  "test_field k v b =
     (if equal_fold k ''label'' then map_option (\<lambda>x. b\<lparr>tb_Label := x\<rparr>) (dec_string v (tb_Label b))
      else if equal_fold k ''start_ts'' then map_option (\<lambda>x. b\<lparr>tb_Start := x\<rparr>) (dec_string v (tb_Start b))
      else if equal_fold k ''end_ts'' then map_option (\<lambda>x. b\<lparr>tb_End := x\<rparr>) (dec_string v (tb_End b))
      else if equal_fold k ''known_load_w'' then map_option (\<lambda>x. b\<lparr>tb_KnownLoad := x\<rparr>) (dec_floatptr v)
      else if equal_fold k ''known_entity_id'' then map_option (\<lambda>x. b\<lparr>tb_KnownEntity := x\<rparr>) (dec_ptr dec_str v)
      else Some b)"

definition label_or :: "string \<Rightarrow> string" where "label_or l = (if l = [] then ''load test'' else l)"

definition handleCreateTest :: "api_env \<Rightarrow> string \<Rightarrow> store \<Rightarrow> test_row reply \<times> store" where
  "handleCreateTest e body st =
     (case obind (first_value body) (\<lambda>v. dec_struct test_field v no_test_body) of None \<Rightarrow> (BadReq ''bad json'', st)
      | Some b \<Rightarrow>
          (case parse_rfc3339 (tb_Start b) of None \<Rightarrow> (BadReq ''bad start_ts'', st)
           | Some start \<Rightarrow>
               (let stop = (if tb_End b = [] then None else parse_rfc3339 (tb_End b)) in
                if \<not> ae_oks e 0 then (Internal, st)
                else (case CreateTest (label_or (tb_Label b)) start stop ''manual'' (tb_KnownLoad b) (emptyToNil (tb_KnownEntity b)) st of
                        (t, s1) \<Rightarrow> (Reply t, s1)))))"

text \<open>
  Starting a test ignores the error of the decoder and goes on with what was decoded: a field of
  a wrong type keeps its value, a pointer is then set to the zero value.
\<close>

definition dec_ptr_lax :: "(json \<Rightarrow> 'a option) \<Rightarrow> 'a \<Rightarrow> json \<Rightarrow> 'a option \<Rightarrow> 'a option" where
  "dec_ptr_lax f z v old =
     (case v of JNull \<Rightarrow> None | _ \<Rightarrow> (case f v of Some x \<Rightarrow> Some x | None \<Rightarrow> (case old of None \<Rightarrow> Some z | Some x \<Rightarrow> Some x)))"

definition dec_float :: "json \<Rightarrow> real option" where "dec_float v = (case v of JNum s \<Rightarrow> parse_float s | _ \<Rightarrow> None)"

fun start_fields :: "(string \<times> json) list \<Rightarrow> test_body \<Rightarrow> test_body" where
  "start_fields [] b = b"
| "start_fields ((k, v) # kvs) b = start_fields kvs
     (if equal_fold k ''label'' then b\<lparr>tb_Label := dec_string_lax v (tb_Label b)\<rparr>
      else if equal_fold k ''known_load_w'' then b\<lparr>tb_KnownLoad := dec_ptr_lax dec_float 0 v (tb_KnownLoad b)\<rparr>
      else if equal_fold k ''known_entity_id'' then b\<lparr>tb_KnownEntity := dec_ptr_lax dec_str [] v (tb_KnownEntity b)\<rparr> else b)"

definition handleStartTest :: "api_env \<Rightarrow> string \<Rightarrow> store \<Rightarrow> test_row reply \<times> store" where
  "handleStartTest e body st =
     (let b = (case first_value body of Some (JObj kvs) \<Rightarrow> start_fields kvs no_test_body | _ \<Rightarrow> no_test_body) in
      if \<not> ae_oks e 0 then (Internal, st)
      else (case CreateTest (label_or (tb_Label b)) (ae_now e) None ''manual'' (tb_KnownLoad b) (emptyToNil (tb_KnownEntity b)) st of
              (t, s1) \<Rightarrow> (Reply t, notify_tests e s1)))"

text \<open>The pool is frozen only when the configuration can be read.\<close>

definition handleStopTest :: "api_env \<Rightarrow> string \<Rightarrow> store \<Rightarrow> test_row reply \<times> store" where
  "handleStopTest e idtext st =
     (case pathID idtext of None \<Rightarrow> (BadReq ''bad id'', st)
      | Some i \<Rightarrow>
          (case StopTest (ae_oks e 0) i (ae_now e) st of
             (None, s1) \<Rightarrow> (Internal, s1)
           | (Some t, s1) \<Rightarrow>
               (Reply t, notify_tests e (attempt (ae_settings e) (FreezeTestSnoopK (ae_oks e 1) i (ae_survivor_count e)) s1))))"

definition handleDeleteTest :: "api_env \<Rightarrow> string \<Rightarrow> store \<Rightarrow> unit reply \<times> store" where
  "handleDeleteTest e idtext st =
     (case pathID idtext of None \<Rightarrow> (BadReq ''bad id'', st)
      | Some i \<Rightarrow> if ae_oks e 0 then (Reply (), notify_tests e (DeleteTest i st)) else (Internal, st))"

section \<open>The requests that write\<close>

datatype request =
    PatchMeter string string
  | RemoveMeter string "(string \<times> string) list"
  | PutSettings "string list" "string \<Rightarrow> bool" string
  | PutDevice string string
  | CreateHelper "string list \<Rightarrow> (string \<rightharpoonup> string) option" "string \<Rightarrow> string list \<Rightarrow> string \<Rightarrow> string option" string
  | Maintenance bool string
  | AdminDelete string
  | PostTest string
  | BeginTest string
  | EndTest string
  | RemoveTest string

fun serve_request :: "api_env \<Rightarrow> request \<Rightarrow> store \<Rightarrow> nat \<times> store" where
  "serve_request e (PatchMeter i body) st = map_prod reply_code id (handleMeterPatch e i body st)"
| "serve_request e (RemoveMeter i q) st = map_prod reply_code id (handleDeleteMeter e i q st)"
| "serve_request e (PutSettings order ok body) st = map_prod reply_code id (handlePutSettings e ok order body st)"
| "serve_request e (PutDevice serial body) st = map_prod reply_code id (handlePutDevice e serial body st)"
| "serve_request e (CreateHelper kinds create body) st = map_prod reply_code id (handleCreateHelper e kinds create body st)"
| "serve_request e (Maintenance listed body) st = map_prod reply_code id (handleMaintenance e listed body st)"
| "serve_request e (AdminDelete body) st = map_prod reply_code id (handleAdminDelete e body st)"
| "serve_request e (PostTest body) st = map_prod reply_code id (handleCreateTest e body st)"
| "serve_request e (BeginTest body) st = map_prod reply_code id (handleStartTest e body st)"
| "serve_request e (EndTest i) st = map_prod reply_code id (handleStopTest e i st)"
| "serve_request e (RemoveTest i) st = map_prod reply_code id (handleDeleteTest e i st)"

definition serve_requests :: "(api_env \<times> request) list \<Rightarrow> store \<Rightarrow> store" where
  "serve_requests rs st = foldl (\<lambda>s (e, r). snd (serve_request e r s)) st rs"

end
