(* ===== verification/Api.thy ===== *)
theory Api
  imports Requests
begin

text \<open>
  Facts about the requests that write: what they cannot delete, that the settings form keeps the
  secrets, that the map of the dongles reads back, and what happens to test windows.
\<close>

section \<open>What the requests cannot do\<close>

lemma readings_kept:
  "st_readings (notify c p st) = st_readings st" "st_readings (NotifyConfig st) = st_readings st" "st_readings (NotifyTests st) = st_readings st"
  "st_readings (SetSetting k v st) = st_readings st" "st_readings (PruneDevices a b keep st) = st_readings st"
  "st_readings (snd (UpdateMeter a b i f st)) = st_readings st" "st_readings (snd (CreateTest l t e' s x y st)) = st_readings st"
  "st_readings (snd (StopTest a i t st)) = st_readings st" "st_readings (FreezeTestSnoopK a i n st) = st_readings st"
  "st_readings (DeleteTest i st) = st_readings st" "st_readings (snd (PurgeTests a st)) = st_readings st"
  "st_readings (notify_config e st) = st_readings st" "st_readings (notify_tests e st) = st_readings st"
  by (simp_all add: notify_def NotifyConfig_def NotifyTests_def SetSetting_def PruneDevices_def UpdateMeter_def CreateTest_def StopTest_def
      FreezeTestSnoopK_def SetTestSnoopK_def DeleteTest_def PurgeTests_def notify_config_def notify_tests_def attempt_def Let_def
      split: option.split)

lemma readings_kept_attempt: "(\<And>s. st_readings (f s) = st_readings s) \<Longrightarrow> st_readings (attempt ok f st) = st_readings st"
  by (simp add: attempt_def)

lemma readings_kept_put_rows: "st_readings (snd (put_rows ok rows st)) = st_readings st"
  by (induction ok rows st rule: put_rows.induct) (simp_all add: readings_kept)

text \<open>The requests that may remove a reading, and which readings.\<close>

definition deletes :: "api_env \<Rightarrow> request \<Rightarrow> reading \<Rightarrow> bool" where
  "deletes e q r =
     (case q of
        RemoveMeter i qs \<Rightarrow> pathID i = Some (EndpointID r) \<and> q_get qs ''purge'' = ''true''
      | AdminDelete body \<Rightarrow>
          (case decode_delete body of None \<Rightarrow> False
           | Some b \<Rightarrow> if ab_Mode b = ''all_readings'' then ab_Confirm b = ''PURGE-ALL''
               else ab_Confirm b = ''DELETE''
                 \<and> (if ab_Mode b = ''age'' then 0 < ab_Days b \<and> TS r < ae_now e - ab_Days b * day_ns
                    else ab_Mode b = ''source'' \<and> ab_Source b \<noteq> [] \<and> Source r = ab_Source b))
      | Maintenance listed body \<Rightarrow>
          obind (first_value body) (\<lambda>v. dec_struct op_field v []) = Some ''scrub_zeros''
          \<and> (case Consumption r of None \<Rightarrow> False | Some c \<Rightarrow> c \<le> 0)
      | _ \<Rightarrow> False)"

lemma DeleteMeter_readings:
  assumes "(r, raw) \<in> set (st_readings st)" "(r, raw) \<notin> set (st_readings (snd (DeleteMeter ok oks i purge st)))"
  shows "purge \<and> EndpointID r = i"
  using assms by (auto simp: DeleteMeter_def Let_def split: if_splits)

lemma RunMaintenance_readings:
  assumes "(r, raw) \<in> set (st_readings st)" "(r, raw) \<notin> set (st_readings (snd (RunMaintenance ok op st)))"
  shows "op = ''scrub_zeros'' \<and> (case Consumption r of None \<Rightarrow> False | Some c \<Rightarrow> c \<le> 0)"
proof (cases "op = ''scrub_zeros''")
  case True
  then have "snd (RunMaintenance ok op st) = snd (scrub_zeros (ok 0) (ok 1) st)" by (simp add: RunMaintenance_def)
  then have "(r, raw) \<notin> set (st_readings (snd (scrub_zeros (ok 0) (ok 1) st)))" using assms(2) by simp
  then show ?thesis using assms(1) True by (auto simp: scrub_zeros_def Let_def split: if_splits option.splits)
next
  case False
  then have "snd (RunMaintenance ok op st) = st" by (simp add: RunMaintenance_def)
  then show ?thesis using assms by simp
qed

lemma old_readings_removed:
  assumes "(r, raw) \<in> set (st_readings st)" "(r, raw) \<notin> set (st_readings (snd (DeleteReadingsOlderThan dropped ok now days st)))"
  shows "0 < days \<and> TS r < now - days * day_ns"
  using assms by (auto simp: DeleteReadingsOlderThan_def Let_def split: if_splits)

lemma source_readings_removed:
  assumes "(r, raw) \<in> set (st_readings st)" "(r, raw) \<notin> set (st_readings (snd (DeleteReadingsBySource ok1 ok2 ok3 src st)))"
  shows "src \<noteq> [] \<and> Source r = src"
  using assms by (auto simp: DeleteReadingsBySource_def Let_def split: if_splits)

lemma delete_mode_readings:
  assumes "delete_mode e b st = Some (n, s1)" "(r, raw) \<in> set (st_readings st)" "(r, raw) \<notin> set (st_readings s1)"
  shows "ab_Mode b = ''all_readings'' \<or> ab_Mode b = ''age'' \<and> 0 < ab_Days b \<and> TS r < ae_now e - ab_Days b * day_ns
    \<or> ab_Mode b = ''source'' \<and> ab_Source b \<noteq> [] \<and> Source r = ab_Source b"
proof (cases "ab_Mode b = ''age''")
  case True
  have "s1 = snd (DeleteReadingsOlderThan (ae_in_dropped_chunk e) (ae_oks e 0) (ae_now e) (ab_Days b) st)"
    using arg_cong [OF assms(1) [unfolded delete_mode_def if_P [OF True]], of "\<lambda>x. snd (the x)"] by simp
  from old_readings_removed [OF assms(2) assms(3) [unfolded this]] True show ?thesis by blast
next
  case age: False
  show ?thesis
  proof (cases "ab_Mode b = ''source''")
    case True
    have "s1 = snd (DeleteReadingsBySource (ae_oks e 0) (ae_oks e 1) (ae_oks e 2) (ab_Source b) st)"
      using arg_cong [OF assms(1) [unfolded delete_mode_def if_not_P [OF age] if_P [OF True]], of "\<lambda>x. snd (the x)"] by simp
    from source_readings_removed [OF assms(2) assms(3) [unfolded this]] True show ?thesis by blast
  next
    case source: False
    show ?thesis
    proof (cases "ab_Mode b = ''all_tests''")
      case True
      have "s1 = snd (PurgeTests (ae_oks e 0) st)"
        using arg_cong [OF assms(1) [unfolded delete_mode_def if_not_P [OF age] if_not_P [OF source] if_P [OF True]], of "\<lambda>x. snd (the x)"] by simp
      from assms(2) assms(3) [unfolded this readings_kept] show ?thesis by (rule_tac notE)
    next
      case False
      then have "ab_Mode b = ''all_readings''"
        using assms(1) unfolding delete_mode_def if_not_P [OF age] if_not_P [OF source] if_not_P [OF False] by (rule_tac ccontr) (simp only: if_False option.distinct)
      then show ?thesis by (rule disjI1)
    qed
  qed
qed

lemma reply_of_pair: "snd (map_prod f id p) = snd p"
  by (cases p) simp

lemma patch_readings: "st_readings (snd (handleMeterPatch e i body st)) = st_readings st"
proof -
  have "st_readings (snd (case UpdateMeter a b n f st of (None, s1) \<Rightarrow> (Internal, s1) | (Some m, s1) \<Rightarrow> (Reply m, notify_config e s1)))
      = st_readings st" for a b n f
    using readings_kept(6) [of a b n f st] by (cases "UpdateMeter a b n f st"; cases "fst (UpdateMeter a b n f st)"; simp add: readings_kept)
  then show ?thesis by (simp add: handleMeterPatch_def split: option.split)
qed

lemma put_settings_readings: "st_readings (snd (handlePutSettings e ok order body st)) = st_readings st"
proof -
  have "st_readings (snd (case put_rows ok rows st of (False, s1) \<Rightarrow> (Internal, s1) | (True, s1) \<Rightarrow> (Reply (), notify_config e s1)))
      = st_readings st" for rows
    using readings_kept_put_rows [of ok rows st] by (cases "put_rows ok rows st"; cases "fst (put_rows ok rows st)"; simp add: readings_kept)
  then show ?thesis by (simp add: handlePutSettings_def split: option.split)
qed

lemma put_device_readings: "st_readings (snd (handlePutDevice e serial body st)) = st_readings st"
  by (simp add: handlePutDevice_def readings_kept Let_def split: option.split)

lemma create_helper_readings: "st_readings (snd (handleCreateHelper e kinds create body st)) = st_readings st"
  unfolding handleCreateHelper_def Let_def by (simp add: readings_kept attempt_def split: option.split)

lemma create_test_readings: "st_readings (snd (handleCreateTest e body st)) = st_readings st"
  by (simp add: handleCreateTest_def CreateTest_def Let_def split: option.split)

lemma start_test_readings: "st_readings (snd (handleStartTest e body st)) = st_readings st"
  by (simp add: handleStartTest_def CreateTest_def Let_def readings_kept)

lemma stop_test_readings: "st_readings (snd (handleStopTest e i st)) = st_readings st"
  by (simp add: handleStopTest_def StopTest_def Let_def readings_kept attempt_def split: option.split)

lemma delete_test_readings: "st_readings (snd (handleDeleteTest e i st)) = st_readings st"
  by (simp add: handleDeleteTest_def readings_kept split: option.split)

lemma delete_meter_readings:
  assumes "(r, raw) \<in> set (st_readings st)" "(r, raw) \<notin> set (st_readings (snd (handleDeleteMeter e i qs st)))"
  shows "pathID i = Some (EndpointID r) \<and> q_get qs ''purge'' = ''true''"
proof (cases "pathID i")
  case None
  with assms show ?thesis by (simp add: handleDeleteMeter_def)
next
  case (Some n)
  let ?d = "DeleteMeter (ae_oks e 0) (map (ae_oks e) [1, 2, 3]) n (q_get qs ''purge'' = ''true'') st"
  have "st_readings (snd (case ?d of (False, s1) \<Rightarrow> (Internal, s1) | (True, s1) \<Rightarrow> (Reply p, notify_config e s1))) = st_readings (snd ?d)" for p :: bool
    by (cases ?d; cases "fst ?d"; simp add: readings_kept)
  then have "(r, raw) \<notin> set (st_readings (snd ?d))" using assms(2) unfolding handleDeleteMeter_def Some option.case Let_def by (simp only: not_False_eq_True)
  from DeleteMeter_readings [OF assms(1) this] Some show ?thesis by blast
qed

lemma admin_delete_readings:
  assumes "(r, raw) \<in> set (st_readings st)" "(r, raw) \<notin> set (st_readings (snd (handleAdminDelete e body st)))"
  shows "\<exists>b. decode_delete body = Some b \<and> ab_Confirm b = (if ab_Mode b = ''all_readings'' then ''PURGE-ALL'' else ''DELETE'')
    \<and> (ab_Mode b = ''all_readings'' \<or> ab_Mode b = ''age'' \<and> 0 < ab_Days b \<and> TS r < ae_now e - ab_Days b * day_ns
       \<or> ab_Mode b = ''source'' \<and> ab_Source b \<noteq> [] \<and> Source r = ab_Source b)"
proof (cases "decode_delete body")
  case None
  with assms show ?thesis by (simp add: handleAdminDelete_def)
next
  case b: (Some b)
  define need where "need = (if ab_Mode b = ''all_readings'' then ''PURGE-ALL'' else ''DELETE'')"
  note h = assms(2) [unfolded handleAdminDelete_def b option.case Let_def need_def [symmetric]]
  show ?thesis
  proof (cases "ab_Confirm b \<noteq> need")
    case True
    from assms(1) h [unfolded if_P [OF True] snd_conv] show ?thesis by (rule_tac notE)
  next
    case c: False
    show ?thesis
    proof (cases "delete_mode e b st")
      case None
      from assms(1) h [unfolded if_not_P [OF c] None option.case snd_conv] show ?thesis by (rule_tac notE)
    next
      case (Some p)
      obtain n s1 where p: "p = (n, s1)" by (cases p)
      have "(r, raw) \<notin> set (st_readings s1)"
        using h unfolding if_not_P [OF c] Some option.case p by (cases n) (simp_all add: readings_kept)
      from delete_mode_readings [OF Some [unfolded p] assms(1) this] c show ?thesis unfolding need_def by (intro exI [of _ b] conjI b) blast+
    qed
  qed
qed

lemma maintenance_readings:
  assumes "(r, raw) \<in> set (st_readings st)" "(r, raw) \<notin> set (st_readings (snd (handleMaintenance e listed body st)))"
  shows "obind (first_value body) (\<lambda>v. dec_struct op_field v []) = Some ''scrub_zeros'' \<and> (case Consumption r of None \<Rightarrow> False | Some c \<Rightarrow> c \<le> 0)"
proof (cases "obind (first_value body) (\<lambda>v. dec_struct op_field v [])")
  case None
  with assms show ?thesis by (simp add: handleMaintenance_def)
next
  case op: (Some op)
  note h = assms(2) [unfolded handleMaintenance_def op option.case Let_def]
  show ?thesis
  proof (cases "op = ''prune_devices''")
    case True
    have "(r, raw) \<notin> set (st_readings st)"
      using h unfolding if_P [OF True] prod.case by (simp only: if_distrib [of snd] snd_conv if_distrib [of st_readings] readings_kept if_cancel not_False_eq_True)
    with assms(1) show ?thesis by (rule_tac notE)
  next
    case False
    obtain ok s1 where s: "RunMaintenance (ae_oks e) op st = (ok, s1)" by (cases "RunMaintenance (ae_oks e) op st")
    have "(r, raw) \<notin> set (st_readings s1)"
      using h unfolding if_not_P [OF False] s prod.case by (simp only: if_distrib [of snd] snd_conv if_distrib [of st_readings] readings_kept if_cancel not_False_eq_True)
    then have "(r, raw) \<notin> set (st_readings (snd (RunMaintenance (ae_oks e) op st)))" unfolding s snd_conv .
    from RunMaintenance_readings [OF assms(1) this] op show ?thesis by blast
  qed
qed

lemmas handler_readings = patch_readings put_settings_readings put_device_readings create_helper_readings create_test_readings
  start_test_readings stop_test_readings delete_test_readings

lemma deletes_admin:
  assumes "decode_delete body = Some b" "ab_Confirm b = (if ab_Mode b = ''all_readings'' then ''PURGE-ALL'' else ''DELETE'')"
    "ab_Mode b = ''all_readings'' \<or> ab_Mode b = ''age'' \<and> 0 < ab_Days b \<and> TS r < ae_now e - ab_Days b * day_ns
       \<or> ab_Mode b = ''source'' \<and> ab_Source b \<noteq> [] \<and> Source r = ab_Source b"
  shows "deletes e (AdminDelete body) r"
proof (cases "ab_Mode b = ''all_readings''")
  case True
  have c: "ab_Confirm b = ''PURGE-ALL''" using assms(2) unfolding if_P [OF True] .
  then show ?thesis unfolding deletes_def request.case assms(1) option.case if_P [OF True] .
next
  case all: False
  have c: "ab_Confirm b = ''DELETE''" using assms(2) unfolding if_not_P [OF all] .
  show ?thesis
  proof (cases "ab_Mode b = ''age''")
    case True
    then have "ab_Mode b \<noteq> ''source''" by simp
    then show ?thesis using assms(3) all c unfolding deletes_def request.case assms(1) option.case if_not_P [OF all] if_P [OF True] by blast
  next
    case False
    then show ?thesis using assms(3) all c unfolding deletes_def request.case assms(1) option.case if_not_P [OF all] if_not_P [OF False] by blast
  qed
qed

lemma serve_request_readings:
  assumes "(r, raw) \<in> set (st_readings st)" "(r, raw) \<notin> set (st_readings (snd (serve_request e q st)))"
  shows "deletes e q r"
proof (cases q)
  case (RemoveMeter i qs)
  note h = assms(2) [unfolded RemoveMeter serve_request.simps reply_of_pair]
  show ?thesis using delete_meter_readings [OF assms(1) h] unfolding deletes_def RemoveMeter request.case .
next
  case (AdminDelete body)
  note h = assms(2) [unfolded AdminDelete serve_request.simps reply_of_pair]
  show ?thesis using admin_delete_readings [OF assms(1) h] deletes_admin unfolding AdminDelete by blast
next
  case (Maintenance listed body)
  note h = assms(2) [unfolded Maintenance serve_request.simps reply_of_pair]
  show ?thesis using maintenance_readings [OF assms(1) h] unfolding deletes_def Maintenance request.case .
qed (use assms in \<open>simp_all only: serve_request.simps reply_of_pair handler_readings not_True_eq_False\<close>)

text \<open>
  C8. Stored readings survive the API: whatever requests arrive, with whatever bodies and failing
  statements, a reading that is gone afterwards was named by one of them - its meter was purged,
  it was deleted by age or source under the confirmation word DELETE, everything was purged under
  PURGE-ALL, or it was a value of at most zero and the maintenance asked to scrub those.
\<close>

theorem readings_survive_requests:
  assumes "(r, raw) \<in> set (st_readings st)" "(r, raw) \<notin> set (st_readings (serve_requests rs st))"
  shows "\<exists>(e, q) \<in> set rs. deletes e q r"
  using assms
proof (induction rs arbitrary: st)
  case (Cons x rs)
  obtain e q where x: "x = (e, q)" by (cases x)
  show ?case
  proof (cases "(r, raw) \<in> set (st_readings (snd (serve_request e q st)))")
    case True
    with Cons.IH [OF True] Cons.prems(2) show ?thesis by (simp add: serve_requests_def x)
  next
    case False
    from serve_request_readings [OF Cons.prems(1) this] show ?thesis by (simp add: x)
  qed
qed (simp add: serve_requests_def)

definition example_api :: api_env where
  "example_api = \<lparr>ae_now = 0, ae_settings = True, ae_notify = True, ae_oks = (\<lambda>_. True), ae_serials = [], ae_endpoints = [],
     ae_survivor_count = None, ae_in_dropped_chunk = (\<lambda>_. False), ae_getenv = (\<lambda>_. [])\<rparr>"

theorem readings_survive_requests_witness:
  "let st = empty_store\<lparr>st_readings := [(sample_reading 0 5, [])]\<rparr>; q = RemoveMeter ''7'' [(''purge'', ''true'')]
   in (sample_reading 0 5, []) \<notin> set (st_readings (serve_requests [(example_api, q)] st)) \<and> deletes example_api q (sample_reading 0 5)"
proof -
  let ?st = "empty_store\<lparr>st_readings := [(sample_reading 0 5, [])]\<rparr>" and ?q = "RemoveMeter ''7'' [(''purge'', ''true'')]"
  have i: "pathID ''7'' = Some 7"
    by (simp add: pathID_def parse_int_def parse_uint_def is_digit_def digit_val_def code_of_def int64_min_def int64_max_def Let_def)
  have p: "(q_get [(''purge'', ''true'')] ''purge'' = ''true'') = True" by (simp add: q_get_def)
  have d: "snd (handleDeleteMeter example_api ''7'' [(''purge'', ''true'')] ?st)
      = notify_config example_api (snd (DeleteMeter True [True, True, True] 7 True ?st))"
    unfolding handleDeleteMeter_def i option.case Let_def p by (simp add: DeleteMeter_def example_api_def Let_def)
  have g: "(sample_reading 0 5, []) \<notin> set (st_readings (serve_requests [(example_api, ?q)] ?st))"
    unfolding serve_requests_def foldl.simps prod.case serve_request.simps reply_of_pair d readings_kept
    by (simp add: DeleteMeter_def Let_def sample_reading_def)
  have "(sample_reading 0 5, []) \<in> set (st_readings ?st)" by simp
  from readings_survive_requests [OF this g] have "deletes example_api ?q (sample_reading 0 5)" by simp
  with g show ?thesis unfolding Let_def by (rule conjI)
qed

section \<open>The settings form\<close>

lemma first_value_enc:
  assumes "no_numbers v"
  shows "first_value (enc v) = Some v"
proof -
  have "p_value (2 * length (enc v) + 2) (enc v @ []) = Some (v, [])" using assms by (intro enc_parses) simp_all
  then have "p_value (2 * length (enc v) + 2) (enc v) = Some (v, [])" by (simp only: append_Nil2)
  moreover have "skip_ws (enc v) = enc v" using enc_skip [OF assms, of "[]"] by (simp only: append_Nil2)
  ultimately show ?thesis by (simp only: first_value_def option.map fst_conv)
qed

lemma view_rows:
  assumes "\<And>k. k \<notin> set SecretKeys \<Longrightarrow> m1 k = m2 k" "\<And>k. map_option (\<lambda>v. v = []) (m1 k) = map_option (\<lambda>v. v = []) (m2 k)"
  shows "foldl view_step out (setting_rows order m1) = foldl view_step out (setting_rows order m2)"
proof (induction order arbitrary: out)
  case (Cons k order)
  show ?case
  proof (cases "m1 k")
    case None
    then have "m2 k = None" using assms(2) [of k] by simp
    with None Cons show ?thesis by (simp add: setting_rows_def List.map_filter_simps)
  next
    case (Some v1)
    then obtain v2 where v2: "m2 k = Some v2" "v1 = [] \<longleftrightarrow> v2 = []" using assms(2) [of k] by (cases "m2 k") auto
    have "view_step out (k, v1) = view_step out (k, v2)"
      using assms(1) [of k] Some v2 by (cases "k \<in> set SecretKeys") (simp_all add: view_step_def)
    with Some v2(1) Cons show ?thesis by (simp add: setting_rows_def List.map_filter_simps)
  qed
qed (simp add: setting_rows_def List.map_filter_simps)

text \<open>
  C17. The settings page does not show secrets: what the request for the settings answers depends
  on a token, password or key only through whether it is set, so two stores that differ in the
  values of their secrets alone give the same answer.
\<close>

theorem settings_view_hides_secrets:
  assumes "\<And>k. k \<notin> set SecretKeys \<Longrightarrow> st_settings s1 k = st_settings s2 k"
    "\<And>k. k \<in> set SecretKeys \<Longrightarrow> map_option (\<lambda>v. v = []) (st_settings s1 k) = map_option (\<lambda>v. v = []) (st_settings s2 k)"
  shows "handleGetSettings ok order s1 = handleGetSettings ok order s2"
proof -
  have "map_option (\<lambda>v. v = []) (st_settings s1 k) = map_option (\<lambda>v. v = []) (st_settings s2 k)" for k
    using assms by (cases "k \<in> set SecretKeys") simp_all
  from view_rows [OF assms(1) this] show ?thesis by (simp add: handleGetSettings_def GetSettings_def)
qed

theorem settings_view_hides_secrets_witness:
  "handleGetSettings True [''ha_token''] (SetSetting ''ha_token'' ''abc'' empty_store)
     = handleGetSettings True [''ha_token''] (SetSetting ''ha_token'' ''xyz'' empty_store)"
proof (rule settings_view_hides_secrets)
  have t: "''ha_token'' \<in> set SecretKeys" by (simp add: SecretKeys_def)
  show "st_settings (SetSetting ''ha_token'' ''abc'' empty_store) k = st_settings (SetSetting ''ha_token'' ''xyz'' empty_store) k"
    if "k \<notin> set SecretKeys" for k
  proof -
    have "k \<noteq> ''ha_token''" using t that by metis
    then show ?thesis by (simp add: SetSetting_def)
  qed
  show "map_option (\<lambda>v. v = []) (st_settings (SetSetting ''ha_token'' ''abc'' empty_store) k)
      = map_option (\<lambda>v. v = []) (st_settings (SetSetting ''ha_token'' ''xyz'' empty_store) k)" for k
    by (simp add: SetSetting_def empty_store_def)
qed

lemma put_rows_settings:
  assumes "\<And>k. ok k"
  shows "put_rows ok (setting_rows order m) st = (True, snd (put_rows ok (setting_rows order m) st))
    \<and> st_settings (snd (put_rows ok (setting_rows order m) st)) k
      = (case m k of None \<Rightarrow> st_settings st k | Some v \<Rightarrow> if k \<in> set order \<and> \<not> masked (k, v) then Some v else st_settings st k)"
proof (induction order arbitrary: st)
  case (Cons j order)
  show ?case
  proof (cases "m j")
    case None
    with Cons.IH [of st] show ?thesis by (auto simp: setting_rows_def List.map_filter_simps split: option.split)
  next
    case (Some v)
    show ?thesis
    proof (cases "masked (j, v)")
      case True
      with Some Cons.IH [of st] show ?thesis by (auto simp: setting_rows_def List.map_filter_simps split: option.split)
    next
      case False
      with Some Cons.IH [of "SetSetting j v st"] assms show ?thesis
        by (auto simp: setting_rows_def List.map_filter_simps SetSetting_def split: option.split)
    qed
  qed
qed (simp add: setting_rows_def List.map_filter_simps split: option.split)

lemma dec_form: "dec_string_map (JObj (map (\<lambda>(k, v). (k, JStr v)) form)) = Some (map_of (rev form))"
proof -
  have "those (map (\<lambda>(k, x). map_option (Pair k) (dec_str x)) (map (\<lambda>(k, v). (k, JStr v)) form)) = Some form"
    by (induction form) auto
  then show ?thesis by (simp only: dec_string_map_def json.case option.map)
qed

text \<open>
  C9. Saving the settings form keeps the secrets: the form answers with the values it was shown
  for the secrets, which are blank, and with any values for the rest. When the statements
  succeed, the secrets keep their values and every other field of the form is stored.
\<close>

theorem settings_form_keeps_secrets:
  assumes "handleGetSettings True listed st = Reply view" "distinct (map fst form)" "\<And>k. ok k"
    "\<And>k v. (k, v) \<in> set form \<Longrightarrow> k \<in> set SecretKeys \<Longrightarrow> view k = Some (Plain v)"
    "\<And>k v. (k, v) \<in> set form \<Longrightarrow> k \<in> set order"
    "handlePutSettings e ok order (enc (JObj (map (\<lambda>(k, v). (k, JStr v)) form))) st = (rep, st')"
  shows "rep = Reply () \<and> (\<forall>k. st_settings st' k
    = (if k \<in> set SecretKeys then st_settings st k else case map_of form k of None \<Rightarrow> st_settings st k | Some v \<Rightarrow> Some v))"
proof -
  let ?body = "JObj (map (\<lambda>(k, v). (k, JStr v)) form)"
  let ?put = "put_rows ok (setting_rows order (map_of form)) st"
  have "no_numbers ?body" by (induction form) auto
  then have f: "first_value (enc ?body) = Some ?body" by (rule first_value_enc)
  have m: "map_of (rev form) = map_of form" using assms(2) by (subst map_of_inject_set) (simp_all add: rev_map [symmetric])
  note P = put_rows_settings [where ok = ok and st = st and order = order and m = "map_of form", OF assms(3)]
  have "handlePutSettings e ok order (enc ?body) st = (Reply (), notify_config e (snd ?put))"
    unfolding handlePutSettings_def f obind_simps dec_form m option.case
    by (subst conjunct1 [OF P]) simp
  then have r: "rep = Reply ()" "st_settings st' = st_settings (snd ?put)"
    using assms(6) by (simp_all add: notify_config_def attempt_def NotifyConfig_def notify_def split: if_splits)
  have v: "view = foldl view_step Map.empty (setting_rows listed (st_settings st))"
    using assms(1) by (simp add: handleGetSettings_def GetSettings_def)
  have blank: "foldl view_step out (setting_rows ks mm) k = Some (Plain x) \<Longrightarrow> k \<in> set SecretKeys \<Longrightarrow> (\<And>y. out k = Some (Plain y) \<Longrightarrow> y = []) \<Longrightarrow> x = []"
    for out ks k x and mm :: "string \<rightharpoonup> string"
  proof (induction ks arbitrary: out)
    case (Cons j ks)
    show ?case
    proof (cases "mm j")
      case None
      with Cons show ?thesis by (simp add: setting_rows_def List.map_filter_simps)
    next
      case (Some w)
      have "(view_step out (j, w)) k = Some (Plain y) \<Longrightarrow> y = []" for y
        using Cons.prems(2,3) by (auto simp: view_step_def split: if_splits)
      with Some Cons show ?thesis by (simp add: setting_rows_def List.map_filter_simps)
    qed
  qed (simp add: setting_rows_def List.map_filter_simps)
  have "st_settings (snd ?put) k
      = (if k \<in> set SecretKeys then st_settings st k else case map_of form k of None \<Rightarrow> st_settings st k | Some v \<Rightarrow> Some v)" for k
  proof (cases "map_of form k")
    case None
    then show ?thesis using conjunct2 [OF P] by simp
  next
    case (Some x)
    then have mem: "(k, x) \<in> set form" by (rule map_of_SomeD)
    have "k \<in> set SecretKeys \<Longrightarrow> x = []" using blank [of Map.empty listed "st_settings st" k x] assms(4) [OF mem] unfolding v by simp
    then have "masked (k, x) \<longleftrightarrow> k \<in> set SecretKeys" by (auto simp: masked_def)
    with Some show ?thesis using conjunct2 [OF P, of k] assms(5) [OF mem] by simp
  qed
  with r show ?thesis by simp
qed

theorem settings_form_keeps_secrets_witness:
  "let st = SetSetting ''ha_token'' ''abc'' empty_store; form = [(''ha_token'', []), (''ha_url'', ''x'')];
       r = handlePutSettings example_api (\<lambda>_. True) [''ha_token'', ''ha_url''] (enc (JObj (map (\<lambda>(k, v). (k, JStr v)) form))) st
   in fst r = Reply () \<and> st_settings (snd r) ''ha_token'' = Some ''abc'' \<and> st_settings (snd r) ''ha_url'' = Some ''x''"
proof -
  let ?st = "SetSetting ''ha_token'' ''abc'' empty_store" and ?form = "[(''ha_token'', []), (''ha_url'', ''x'')] :: (string \<times> string) list"
  let ?r = "handlePutSettings example_api (\<lambda>_. True) [''ha_token'', ''ha_url''] (enc (JObj (map (\<lambda>(k, v). (k, JStr v)) ?form))) ?st"
  let ?view = "foldl view_step Map.empty (setting_rows [''ha_token''] (st_settings ?st))"
  have t: "''ha_token'' \<in> set SecretKeys" "''ha_url'' \<notin> set SecretKeys" by (simp_all add: SecretKeys_def)
  have g: "handleGetSettings True [''ha_token''] ?st = Reply ?view" by (simp add: handleGetSettings_def GetSettings_def)
  have v: "?view ''ha_token'' = Some (Plain [])" by (simp add: setting_rows_def List.map_filter_simps SetSetting_def view_step_def t)
  obtain rep st' where r: "?r = (rep, st')" by (cases ?r)
  have "rep = Reply () \<and> (\<forall>k. st_settings st' k
      = (if k \<in> set SecretKeys then st_settings ?st k else case map_of ?form k of None \<Rightarrow> st_settings ?st k | Some v \<Rightarrow> Some v))"
  proof (rule settings_form_keeps_secrets [OF g _ _ _ _ r])
    show "distinct (map fst ?form)" by simp
    show "?view k = Some (Plain x)" if "(k, x) \<in> set ?form" "k \<in> set SecretKeys" for k x
      using that v t(2) by auto
  qed auto
  then show ?thesis unfolding Let_def r by (simp add: t SetSetting_def)
qed

section \<open>The dongle map\<close>

lemma device_keys:
  "equal_fold ''enabled'' ''enabled'' = True" "equal_fold ''label'' ''enabled'' = False" "equal_fold ''label'' ''label'' = True"
  "equal_fold ''freq'' ''enabled'' = False" "equal_fold ''freq'' ''label'' = False" "equal_fold ''freq'' ''freq'' = True"
  "equal_fold ''gain'' ''enabled'' = False" "equal_fold ''gain'' ''label'' = False" "equal_fold ''gain'' ''freq'' = False"
  "equal_fold ''gain'' ''gain'' = True" "equal_fold ''ppm'' ''enabled'' = False" "equal_fold ''ppm'' ''label'' = False"
  "equal_fold ''ppm'' ''freq'' = False" "equal_fold ''ppm'' ''gain'' = False" "equal_fold ''ppm'' ''ppm'' = True"
  "equal_fold ''msgtype'' ''enabled'' = False" "equal_fold ''msgtype'' ''label'' = False" "equal_fold ''msgtype'' ''freq'' = False"
  "equal_fold ''msgtype'' ''gain'' = False" "equal_fold ''msgtype'' ''ppm'' = False" "equal_fold ''msgtype'' ''msgtype'' = True"
  "equal_fold ''filterid'' ''enabled'' = False" "equal_fold ''filterid'' ''label'' = False" "equal_fold ''filterid'' ''freq'' = False"
  "equal_fold ''filterid'' ''gain'' = False" "equal_fold ''filterid'' ''ppm'' = False" "equal_fold ''filterid'' ''msgtype'' = False"
  "equal_fold ''filterid'' ''filterid'' = True"
  by code_simp+

lemma dec_device_json: "dec_device (device_json d) = d"
  by (cases d; cases "dc_Enabled d"; simp add: dec_device_def device_json_def zero_device_def device_keys dec_string_lax_def)

lemma device_json_no_numbers: "no_numbers (device_json d)"
  by (simp add: device_json_def split: option.split)

lemma enc_members_last: "enc_members kvs \<noteq> [] \<and> last (enc_members kvs) = CHR ''}''"
proof (induction kvs)
  case (Cons kv kvs)
  then show ?case by (cases kv) auto
qed simp

lemma map_of_picked: "map_of (List.map_filter (\<lambda>k. map_option (Pair k) (m k)) ks) = m |` set ks"
  by (induction ks) (auto simp: List.map_filter_simps restrict_map_def fun_eq_iff split: option.split)

lemma picked_keys: "map fst (List.map_filter (\<lambda>k. map_option (Pair k) (m k)) ks) = filter (\<lambda>k. m k \<noteq> None) ks"
  by (induction ks) (auto simp: List.map_filter_simps split: option.split)

lemma parse_marshal_devices: "parseDevices (marshal_devices names m) = m |` set names"
proof -
  let ?kvs = "List.map_filter (\<lambda>k. map_option (\<lambda>d. (k, device_json d)) (m k)) (sort (remdups names))"
  let ?ds = "List.map_filter (\<lambda>k. map_option (Pair k) (m k)) (sort (remdups names))"
  have n: "no_numbers (JObj ?kvs)" using device_json_no_numbers by (auto simp: List.map_filter_def)
  have "hd (enc (JObj kvs)) = CHR ''{'' \<and> last (enc (JObj kvs)) = CHR ''}''" for kvs
    using enc_members_last [of "tl kvs"] by (cases kvs; cases "hd kvs") auto
  moreover have "\<not> is_space (CHR ''{'')" "\<not> is_space (CHR ''}'')" by (simp_all add: is_space_def code_of_def)
  ultimately have t: "trim_space (enc (JObj ?kvs)) = enc (JObj ?kvs)" by (intro trim_space_idem_aux) simp_all
  have d: "map (\<lambda>(k, d). (k, dec_device d)) ?kvs = ?ds"
    by (induction names) (auto simp: List.map_filter_def comp_def dec_device_json split: option.split)
  have "map_of (rev ?ds) = map_of ?ds"
    by (subst map_of_inject_set) (simp_all add: rev_map [symmetric] picked_keys)
  then show ?thesis
    unfolding parseDevices_def marshal_devices_def Let_def t parse_enc [OF n]
    by (simp only: enc_obj_nonempty if_False option.case json.case d map_of_picked set_sort set_remdups)
qed

lemma restrict_whole: "dom m \<subseteq> A \<Longrightarrow> m |` A = m"
  by (rule ext) (metis domIff restrict_map_def subsetD)

lemma parseDevices_names: "dom (parseDevices v) \<subseteq> set (device_names v)"
proof
  fix k assume "k \<in> dom (parseDevices v)"
  then obtain d kvs where p: "parse_json (trim_space v) = Some (JObj kvs)" "map_of (rev (map (\<lambda>(k, d). (k, dec_device d)) kvs)) k = Some d"
    by (auto simp: parseDevices_def Let_def split: if_splits option.splits json.splits)
  from map_of_SomeD [OF p(2)] show "k \<in> set (device_names v)" by (force simp: device_names_def p(1))
qed

lemma dec_device_strict: "dec_struct device_field (device_json d) zero_device = Some d"
  by (cases d; cases "dc_Enabled d"; simp add: dec_struct_def device_json_def zero_device_def device_field_def device_keys dec_ptr_def dec_bool_def obind_simps)

lemma capture_devices: "cc_Devices (Capture (FromMap g m)) = parseDevices (get_setting g m ''capture_devices'' [] [])"
  by (simp add: FromMap_def capture_from_def Let_def)

definition put_device_blob :: "api_env \<Rightarrow> string \<Rightarrow> DeviceConfig \<Rightarrow> store \<Rightarrow> string" where
  "put_device_blob e serial d st =
     marshal_devices (serial # device_names (devices_setting e st)) ((cc_Devices (Capture (config_or_zero e st)))(serial \<mapsto> d))"

lemma put_device_stores:
  assumes "serial \<noteq> []" "ae_oks e 0"
  shows "st_settings (snd (handlePutDevice e serial (enc (device_json d)) st)) = (st_settings st)(''capture_devices'' \<mapsto> put_device_blob e serial d st)"
proof -
  have f: "first_value (enc (device_json d)) = Some (device_json d)" by (rule first_value_enc [OF device_json_no_numbers])
  show ?thesis
    unfolding handlePutDevice_def if_not_P [OF assms(1)] f obind_simps dec_device_strict option.case Let_def if_P [OF assms(2)]
    by (simp add: notify_config_def attempt_def NotifyConfig_def notify_def SetSetting_def put_device_blob_def)
qed

lemma put_device_blob_read:
  assumes "m' = m(''capture_devices'' \<mapsto> put_device_blob e serial d st)"
  shows "cc_Devices (Capture (FromMap g m'))
    = ((cc_Devices (Capture (config_or_zero e st)))(serial \<mapsto> d)) |` set (serial # device_names (devices_setting e st))"
proof -
  have "put_device_blob e serial d st \<noteq> []" unfolding put_device_blob_def marshal_devices_def by (rule enc_obj_nonempty)
  then have "get_setting g m' ''capture_devices'' [] [] = put_device_blob e serial d st" by (simp add: get_setting_def assms)
  then show ?thesis unfolding capture_devices by (simp only: put_device_blob_def parse_marshal_devices)
qed

text \<open>
  C18. A dongle's settings read back: after the request that stores the settings of one dongle, the
  configuration that capture loads holds exactly those for this dongle, those of every other dongle
  as before, and no other setting has changed.
\<close>

theorem put_device_reads_back:
  assumes "serial \<noteq> []" "ae_settings e" "ae_oks e 0" "snd (handlePutDevice e serial (enc (device_json d)) st) = st'"
  shows "cc_Devices (Capture (FromMap (ae_getenv e) (st_settings st'))) = (cc_Devices (Capture (FromMap (ae_getenv e) (st_settings st))))(serial \<mapsto> d)
    \<and> (\<forall>k. k \<noteq> ''capture_devices'' \<longrightarrow> st_settings st' k = st_settings st k)"
proof -
  note s = put_device_stores [OF assms(1,3), of d st, unfolded assms(4)]
  have c: "config_or_zero e st = FromMap (ae_getenv e) (st_settings st)" by (simp add: config_or_zero_def LoadConfig_def GetSettings_def assms(2))
  have n: "devices_setting e st = get_setting (ae_getenv e) (st_settings st) ''capture_devices'' [] []"
    by (simp add: devices_setting_def GetSettings_def assms(2))
  let ?m = "cc_Devices (Capture (FromMap (ae_getenv e) (st_settings st)))"
  have "dom ?m \<subseteq> set (device_names (devices_setting e st))" unfolding capture_devices n by (rule parseDevices_names)
  then have "(?m(serial \<mapsto> d)) |` set (serial # device_names (devices_setting e st)) = ?m(serial \<mapsto> d)"
    by (intro restrict_whole) auto
  then have "cc_Devices (Capture (FromMap (ae_getenv e) (st_settings st'))) = ?m(serial \<mapsto> d)"
    using put_device_blob_read [OF s, of "ae_getenv e"] unfolding c by simp
  moreover have "\<forall>k. k \<noteq> ''capture_devices'' \<longrightarrow> st_settings st' k = st_settings st k" unfolding s by (intro allI impI) (rule fun_upd_other)
  ultimately show ?thesis by (rule conjI)
qed

theorem put_device_reads_back_witness:
  "cc_Devices (Capture (FromMap (\<lambda>_. []) (st_settings (snd (handlePutDevice example_api ''A1'' (enc (device_json zero_device)) empty_store)))))
     = Map.empty(''A1'' \<mapsto> zero_device)"
proof -
  have "parseDevices [] = Map.empty" by (simp add: parseDevices_def trim_space_def)
  then have e: "cc_Devices (Capture (FromMap (\<lambda>_. []) (st_settings empty_store))) = Map.empty"
    unfolding capture_devices by (simp add: empty_store_def get_setting_def env_def)
  have h: "''A1'' \<noteq> []" "ae_settings example_api" "ae_oks example_api 0" "ae_getenv example_api = (\<lambda>_. [])" by (simp_all add: example_api_def)
  from conjunct1 [OF put_device_reads_back [OF h(1,2,3) refl, of zero_device empty_store]] show ?thesis unfolding h(4) e .
qed

text \<open>
  The read before the write is not checked: when it fails and the write succeeds, the settings of
  all other dongles are gone.
\<close>

lemma put_device_after_failed_read:
  assumes "serial \<noteq> []" "ae_oks e 0" "\<not> ae_settings e"
  shows "cc_Devices (Capture (FromMap g (st_settings (snd (handlePutDevice e serial (enc (device_json d)) st))))) = Map.empty(serial \<mapsto> d)"
proof -
  have c: "cc_Devices (Capture (config_or_zero e st)) = Map.empty"
    by (simp add: config_or_zero_def LoadConfig_def GetSettings_def assms(3) zero_config_def)
  show ?thesis
    using put_device_blob_read [OF put_device_stores [OF assms(1,2), of d st], of g] unfolding c
    by (auto simp: restrict_map_def fun_eq_iff)
qed

section \<open>Test windows under requests\<close>

text \<open>A store evolves: identifiers stay fresh, and a window that is closed only changes its pool.\<close>

definition evolves :: "store \<Rightarrow> store \<Rightarrow> bool" where
  "evolves st st' \<longleftrightarrow> (ids_ok st \<longrightarrow> ids_ok st') \<and> st_next_window st \<le> st_next_window st'
     \<and> (\<forall>w' \<in> set (st_windows st'). tw_id w' < st_next_window st \<longrightarrow>
          (\<exists>w \<in> set (st_windows st). tw_id w = tw_id w' \<and> (tw_end w \<noteq> None \<longrightarrow> w' = w\<lparr>tw_snoop_k := tw_snoop_k w'\<rparr>)))"

lemma evolves_trans:
  assumes "evolves a b" "evolves b c"
  shows "evolves a c"
  unfolding evolves_def
proof (intro conjI ballI impI)
  show "ids_ok a \<Longrightarrow> ids_ok c" "st_next_window a \<le> st_next_window c" using assms by (auto simp: evolves_def)
  fix w2 assume w2: "w2 \<in> set (st_windows c)" "tw_id w2 < st_next_window a"
  then obtain w1 where w1: "w1 \<in> set (st_windows b)" "tw_id w1 = tw_id w2" "tw_end w1 \<noteq> None \<Longrightarrow> w2 = w1\<lparr>tw_snoop_k := tw_snoop_k w2\<rparr>"
    using assms unfolding evolves_def by (metis order_less_le_trans)
  then obtain w0 where w0: "w0 \<in> set (st_windows a)" "tw_id w0 = tw_id w1" "tw_end w0 \<noteq> None \<Longrightarrow> w1 = w0\<lparr>tw_snoop_k := tw_snoop_k w1\<rparr>"
    using assms(1) w2(2) unfolding evolves_def by metis
  have "w2 = w0\<lparr>tw_snoop_k := tw_snoop_k w2\<rparr>" if "tw_end w0 \<noteq> None"
  proof -
    have "tw_end w1 = tw_end w0" by (subst w0(3) [OF that]) simp
    then have "w2 = (w0\<lparr>tw_snoop_k := tw_snoop_k w1\<rparr>)\<lparr>tw_snoop_k := tw_snoop_k w2\<rparr>" using w1(3) w0(3) that by metis
    then show ?thesis by simp
  qed
  then show "\<exists>w\<in>set (st_windows a). tw_id w = tw_id w2 \<and> (tw_end w \<noteq> None \<longrightarrow> w2 = w\<lparr>tw_snoop_k := tw_snoop_k w2\<rparr>)"
    using w0 w1(2) by (intro bexI [of _ w0]) auto
qed

lemma evolves_frame: "st_windows st' = st_windows st \<Longrightarrow> st_next_window st' = st_next_window st \<Longrightarrow> evolves st st'"
  by (auto simp: evolves_def ids_ok_def)

lemma evolves_map:
  assumes "st_windows st' = map f (st_windows st)" "st_next_window st' = st_next_window st"
    "\<And>w. tw_id (f w) = tw_id w" "\<And>w. tw_end w \<noteq> None \<Longrightarrow> f w = w\<lparr>tw_snoop_k := tw_snoop_k (f w)\<rparr>"
  shows "evolves st st'"
proof -
  have "tw_id \<circ> f = tw_id" by (rule ext) (simp add: assms(3))
  then have "ids_ok st \<longrightarrow> ids_ok st'" using assms(1,2,3) by (auto simp: ids_ok_def)
  then show ?thesis using assms unfolding evolves_def by fastforce
qed

lemma evolves_ops:
  "evolves st (snd (CreateTest l t e' s x y st))" "evolves st (snd (StopTest a i t st))" "evolves st (FreezeTestSnoopK a i n st)"
  "evolves st (DeleteTest i st)" "evolves st (snd (PurgeTests a st))"
proof -
  show "evolves st (snd (CreateTest l t e' s x y st))"
    by (auto simp: evolves_def CreateTest_def ids_ok_def Let_def)
  show "evolves st (snd (StopTest a i t st))"
  proof (cases a)
    case True
    then show ?thesis by (intro evolves_map [where f = "stop_window i t"]) (simp_all add: StopTest_def Let_def, simp add: stop_window_def)
  qed (simp add: StopTest_def evolves_frame)
  have k: "evolves st (SetTestSnoopK i k st)" for k
    by (rule evolves_map [where f = "\<lambda>w. if tw_id w = i then w\<lparr>tw_snoop_k := Some k\<rparr> else w"]) (simp_all add: SetTestSnoopK_def)
  show "evolves st (FreezeTestSnoopK a i n st)"
    by (simp add: FreezeTestSnoopK_def k evolves_frame split: option.split)
  show "evolves st (DeleteTest i st)" by (auto simp: evolves_def DeleteTest_def ids_ok_def distinct_map_filter)
  show "evolves st (snd (PurgeTests a st))" by (auto simp: evolves_def PurgeTests_def ids_ok_def)
qed

lemma evolves_frames:
  "evolves st (notify_config e st)" "evolves st (notify_tests e st)" "evolves st (SetSetting k v st)" "evolves st (PruneDevices a b keep st)"
  "evolves st (snd (UpdateMeter a b i f st))" "evolves st (snd (DeleteMeter a oks i p st))" "evolves st (snd (scrub_zeros a b st))"
  "evolves st (snd (DeleteReadingsOlderThan d a n days st))" "evolves st (snd (DeleteReadingsBySource a b c src st))" "evolves st (snd (PurgeAllReadings a b c st))"
  by (rule evolves_frame; simp add: notify_config_def notify_tests_def attempt_def NotifyConfig_def NotifyTests_def notify_def SetSetting_def PruneDevices_def
      UpdateMeter_def DeleteMeter_def scrub_zeros_def DeleteReadingsOlderThan_def DeleteReadingsBySource_def PurgeAllReadings_def Let_def split: option.split)+

lemma evolves_refl: "evolves st st"
  by (rule evolves_frame) simp_all

lemma evolves_attempt: "(\<And>s. evolves s (f s)) \<Longrightarrow> evolves st (attempt ok f st)"
  by (simp add: attempt_def evolves_refl)

lemma evolves_put_rows: "evolves st (snd (put_rows ok rows st))"
proof (induction ok rows st rule: put_rows.induct)
  case (2 ok k v rows st)
  then show ?case using evolves_trans [OF evolves_frames(3)] by (auto simp: evolves_refl)
qed (simp add: evolves_refl)

lemma evolves_pair: "evolves st (snd p) \<Longrightarrow> (\<And>a s. p = (a, s) \<Longrightarrow> evolves s (snd (g a s))) \<Longrightarrow> evolves st (snd (case p of (a, s) \<Rightarrow> g a s))"
  by (cases p) (auto intro: evolves_trans)

lemma evolves_option: "(x = None \<Longrightarrow> evolves st (snd a)) \<Longrightarrow> (\<And>y. x = Some y \<Longrightarrow> evolves st (snd (g y))) \<Longrightarrow> evolves st (snd (case x of None \<Rightarrow> a | Some y \<Rightarrow> g y))"
  by (cases x) auto

lemma evolves_if: "evolves st (snd a) \<Longrightarrow> evolves st (snd b) \<Longrightarrow> evolves st (snd (if c then a else b))"
  by simp

lemma evolves_bool: "evolves st (snd a) \<Longrightarrow> evolves st (snd b) \<Longrightarrow> evolves st (snd (case x of True \<Rightarrow> a | False \<Rightarrow> b))"
  by (cases x) auto

lemma evolves_snd: "evolves st st' \<Longrightarrow> evolves st (snd (r, st'))"
  by simp

lemmas evolves_intros = evolves_pair evolves_option evolves_if evolves_bool evolves_snd evolves_refl evolves_ops evolves_frames evolves_put_rows

lemma delete_mode_evolves: "delete_mode e b st = Some (n, s1) \<Longrightarrow> evolves st s1"
  unfolding delete_mode_def
  by (cases "PurgeAllReadings (ae_oks e 0) (ae_oks e 1) (ae_oks e 2) st")
    (simp split: if_splits; metis evolves_ops(5) evolves_frames(8,9,10) snd_conv)

lemma RunMaintenance_evolves: "evolves st (snd (RunMaintenance ok op st))"
  unfolding RunMaintenance_def by (intro evolves_intros)

lemma serve_request_evolves: "evolves st (snd (serve_request e q st))"
proof (cases q)
  case (AdminDelete body)
  show ?thesis
    unfolding AdminDelete serve_request.simps reply_of_pair handleAdminDelete_def Let_def
    by (intro evolves_intros) (auto split: option.split intro: delete_mode_evolves evolves_trans [OF delete_mode_evolves] evolves_frames)
next
  case (Maintenance listed body)
  show ?thesis
    unfolding Maintenance serve_request.simps reply_of_pair handleMaintenance_def Let_def
    by (intro evolves_intros RunMaintenance_evolves)
next
  case (CreateHelper kinds create body)
  show ?thesis
    unfolding CreateHelper serve_request.simps reply_of_pair handleCreateHelper_def Let_def
    by (intro evolves_intros evolves_trans [OF evolves_attempt evolves_frames(1)])
next
  case (EndTest i)
  show ?thesis
    unfolding EndTest serve_request.simps reply_of_pair handleStopTest_def
    by (intro evolves_intros evolves_trans [OF evolves_attempt evolves_frames(2)])
next
  case (RemoveTest i)
  show ?thesis
    unfolding RemoveTest serve_request.simps reply_of_pair handleDeleteTest_def
    by (intro evolves_intros evolves_trans [OF evolves_ops(4) evolves_frames(2)])
next
  case (PutDevice serial body)
  show ?thesis
    unfolding PutDevice serve_request.simps reply_of_pair handlePutDevice_def Let_def
    by (intro evolves_intros evolves_trans [OF evolves_frames(3) evolves_frames(1)])
next
  case (RemoveMeter i qs)
  show ?thesis
    unfolding RemoveMeter serve_request.simps reply_of_pair handleDeleteMeter_def Let_def by (intro evolves_intros)
qed (simp_all only: serve_request.simps reply_of_pair handleMeterPatch_def handlePutSettings_def handleCreateTest_def handleStartTest_def Let_def;
     intro evolves_intros)+

lemma serve_requests_evolves: "evolves st (serve_requests rs st)"
proof (induction rs arbitrary: st)
  case (Cons x rs)
  obtain e q where x: "x = (e, q)" by (cases x)
  from evolves_trans [OF serve_request_evolves Cons.IH] show ?case by (simp add: serve_requests_def x)
qed (simp add: serve_requests_def evolves_refl)

text \<open>
  C16. A closed test is final: no sequence of requests opens it again or changes its times, its label
  or its known load, only the size of its pool or its presence; and identifiers stay unique, a
  removed one is never given to another test.
\<close>

theorem closed_tests_are_final:
  assumes "ids_ok st" "w \<in> set (st_windows st)" "tw_end w \<noteq> None"
  shows "ids_ok (serve_requests rs st) \<and> (\<forall>w' \<in> set (st_windows (serve_requests rs st)). tw_id w' = tw_id w \<longrightarrow> w' = w\<lparr>tw_snoop_k := tw_snoop_k w'\<rparr>)"
proof -
  note E = serve_requests_evolves [of st rs, unfolded evolves_def]
  have "w' = w\<lparr>tw_snoop_k := tw_snoop_k w'\<rparr>" if "w' \<in> set (st_windows (serve_requests rs st))" "tw_id w' = tw_id w" for w'
  proof -
    have "tw_id w' < st_next_window st" using assms(1,2) that(2) by (auto simp: ids_ok_def)
    from mp [OF bspec [OF conjunct2 [OF conjunct2 [OF E]] that(1)] this] obtain v where v: "v \<in> set (st_windows st)" "tw_id v = tw_id w'"
      "tw_end v \<noteq> None \<longrightarrow> w' = v\<lparr>tw_snoop_k := tw_snoop_k w'\<rparr>" by (elim bexE conjE)
    have "v = w" using assms(1,2) v(1,2) that(2) by (auto simp: ids_ok_def distinct_map inj_on_def)
    with v(3) assms(3) show ?thesis by simp
  qed
  with E assms(1) show ?thesis by blast
qed

definition closed_test :: test_row where
  "closed_test = \<lparr>tw_id = 1, tw_label = ''kettle'', tw_start = 0, tw_end = Some minute, tw_source = ''manual'', tw_known_load = None,
     tw_known_entity = None, tw_snoop_k = Some 9\<rparr>"

definition closed_store :: store where
  "closed_store = empty_store\<lparr>st_windows := [closed_test], st_next_window := 2\<rparr>"

text \<open>
  The pool is not final: stopping a test that is already closed freezes it anew with the count of
  that moment.
\<close>

lemma stopped_again:
  "st_windows (serve_requests [(example_api\<lparr>ae_survivor_count := Some 4\<rparr>, EndTest ''1'')] closed_store) = [closed_test\<lparr>tw_snoop_k := Some 4\<rparr>]"
proof -
  have i: "pathID ''1'' = Some 1"
    by (simp add: pathID_def parse_int_def parse_uint_def is_digit_def digit_val_def code_of_def int64_min_def int64_max_def Let_def)
  show ?thesis
    by (simp add: serve_requests_def handleStopTest_def i StopTest_def GetTest_def closed_store_def closed_test_def stop_window_def example_api_def
        notify_tests_def attempt_def NotifyTests_def notify_def FreezeTestSnoopK_def SetTestSnoopK_def Let_def)
qed

theorem closed_tests_are_final_witness:
  "\<exists>w'. st_windows (serve_requests [(example_api\<lparr>ae_survivor_count := Some 4\<rparr>, EndTest ''1'')] closed_store) = [w']
     \<and> tw_end w' = Some minute \<and> tw_label w' = ''kettle''"
proof -
  have h: "ids_ok closed_store" "closed_test \<in> set (st_windows closed_store)" "tw_end closed_test \<noteq> None"
    by (simp_all add: ids_ok_def closed_store_def closed_test_def)
  from closed_tests_are_final [OF h, of "[(example_api\<lparr>ae_survivor_count := Some 4\<rparr>, EndTest ''1'')]"] show ?thesis
    unfolding stopped_again by (simp add: closed_test_def)
qed

section \<open>Refused and failed requests\<close>

text \<open>A refused request leaves the store, a failed one announces nothing.\<close>

definition orderly :: "store \<Rightarrow> 'a reply \<times> store \<Rightarrow> bool" where
  "orderly st p \<longleftrightarrow> (case fst p of Reply _ \<Rightarrow> True | BadReq _ \<Rightarrow> snd p = st | Internal \<Rightarrow> st_notes (snd p) = st_notes st | _ \<Rightarrow> False)"

lemma orderly_leaf: "orderly st (Reply x, s)" "orderly st (BadReq m, st)" "st_notes s = st_notes st \<Longrightarrow> orderly st (Internal, s)"
  by (simp_all add: orderly_def)

lemma orderly_pair: "(\<And>a s. p = (a, s) \<Longrightarrow> orderly st (g a s)) \<Longrightarrow> orderly st (case p of (a, s) \<Rightarrow> g a s)"
  by (cases p) simp

lemma orderly_option: "(x = None \<Longrightarrow> orderly st a) \<Longrightarrow> (\<And>y. x = Some y \<Longrightarrow> orderly st (g y)) \<Longrightarrow> orderly st (case x of None \<Rightarrow> a | Some y \<Rightarrow> g y)"
  by (cases x) auto

lemma orderly_if: "orderly st a \<Longrightarrow> orderly st b \<Longrightarrow> orderly st (if c then a else b)"
  by simp

lemma orderly_bool: "orderly st a \<Longrightarrow> orderly st b \<Longrightarrow> orderly st (case x of True \<Rightarrow> a | False \<Rightarrow> b)"
  by (cases x) auto

lemma notes_kept:
  "st_notes (snd (UpdateMeter a b i f st)) = st_notes st" "st_notes (snd (DeleteMeter a oks i p st)) = st_notes st"
  "st_notes (snd (put_rows ok rows st)) = st_notes st" "st_notes (PruneDevices a b keep st) = st_notes st"
  "st_notes (snd (RunMaintenance okf op st)) = st_notes st" "st_notes (snd (DeleteReadingsOlderThan d a n days st)) = st_notes st"
  "st_notes (snd (DeleteReadingsBySource a b c src st)) = st_notes st" "st_notes (snd (PurgeAllReadings a b c st)) = st_notes st"
  "st_notes (snd (PurgeTests a st)) = st_notes st" "st_notes (snd (StopTest a i t st)) = st_notes st"
proof -
  show "st_notes (snd (put_rows ok rows st)) = st_notes st"
    by (induction ok rows st rule: put_rows.induct) (simp_all add: SetSetting_def)
  have s: "st_notes (snd (scrub_zeros a b st)) = st_notes st" for a b by (simp add: scrub_zeros_def Let_def)
  show "st_notes (snd (RunMaintenance okf op st)) = st_notes st"
    unfolding RunMaintenance_def if_distrib [of snd] if_distrib [of st_notes] s by (simp only: snd_conv if_cancel)
qed (simp_all add: UpdateMeter_def DeleteMeter_def PruneDevices_def DeleteReadingsOlderThan_def DeleteReadingsBySource_def PurgeAllReadings_def
    PurgeTests_def StopTest_def Let_def split: option.split)

lemma notes_of: "p = (a, s) \<Longrightarrow> st_notes (snd p) = st_notes st \<Longrightarrow> st_notes s = st_notes st"
  by simp

lemma delete_mode_notes: "delete_mode e b st = Some (n, s1) \<Longrightarrow> st_notes s1 = st_notes st"
  unfolding delete_mode_def
  by (cases "PurgeAllReadings (ae_oks e 0) (ae_oks e 1) (ae_oks e 2) st")
    (simp split: if_splits; metis notes_kept(6,7,8,9) snd_conv)

lemmas orderly_intros = orderly_pair orderly_option orderly_if orderly_bool orderly_leaf

lemma orderly_handlers:
  "orderly st (handleMeterPatch e i body st)" "orderly st (handleDeleteMeter e i qs st)" "orderly st (handlePutSettings e ok order body st)"
  "orderly st (handlePutDevice e serial body st)" "orderly st (handleCreateHelper e kinds create body st)"
  "orderly st (handleCreateTest e body st)" "orderly st (handleStartTest e body st)" "orderly st (handleStopTest e i st)" "orderly st (handleDeleteTest e i st)"
proof -
  show "orderly st (handleMeterPatch e i body st)" unfolding handleMeterPatch_def
    by (intro orderly_intros) (erule notes_of, rule notes_kept)+
  show "orderly st (handleDeleteMeter e i qs st)" unfolding handleDeleteMeter_def Let_def
    by (intro orderly_intros) (erule notes_of, rule notes_kept)+
  show "orderly st (handlePutSettings e ok order body st)" unfolding handlePutSettings_def
    by (intro orderly_intros) (erule notes_of, rule notes_kept)+
  show "orderly st (handleStopTest e i st)" unfolding handleStopTest_def
    by (intro orderly_intros) (erule notes_of, rule notes_kept)+
qed (unfold handlePutDevice_def handleCreateHelper_def handleCreateTest_def handleStartTest_def handleDeleteTest_def Let_def; intro orderly_intros; rule refl)+

lemma orderly_maintenance: "orderly st (handleMaintenance e listed body st)"
proof (cases "obind (first_value body) (\<lambda>v. dec_struct op_field v [])")
  case (Some op)
  show ?thesis
  proof (cases "op = ''prune_devices''")
    case True
    show ?thesis unfolding handleMaintenance_def Some option.case Let_def if_P [OF True] prod.case
      by (intro orderly_intros notes_kept)
  next
    case False
    show ?thesis unfolding handleMaintenance_def Some option.case Let_def if_not_P [OF False]
      by (intro orderly_intros) (erule notes_of, rule notes_kept)
  qed
qed (simp add: handleMaintenance_def orderly_leaf)

lemma orderly_admin: "orderly st (handleAdminDelete e body st)"
  unfolding handleAdminDelete_def Let_def
  by (intro orderly_intros) (auto intro: delete_mode_notes)

lemma orderly_code:
  assumes "orderly st p"
  shows "fst (map_prod reply_code id p) \<in> {200, 400, 500} \<and> (fst (map_prod reply_code id p) = 400 \<longrightarrow> snd (map_prod reply_code id p) = st)
    \<and> (fst (map_prod reply_code id p) = 500 \<longrightarrow> st_notes (snd (map_prod reply_code id p)) = st_notes st)"
  using assms by (cases p; cases "fst p") (auto simp: orderly_def)

text \<open>
  C15. Requests that write answer 200, 400 or 500. A refused request (400) leaves every table as it
  was, and a failed one (500), whatever part of it was written, announces nothing, so neither the
  worker nor capture reloads because of it.
\<close>

theorem refused_requests_change_nothing:
  shows "fst (serve_request e q st) \<in> {200, 400, 500} \<and> (fst (serve_request e q st) = 400 \<longrightarrow> snd (serve_request e q st) = st)
    \<and> (fst (serve_request e q st) = 500 \<longrightarrow> st_notes (snd (serve_request e q st)) = st_notes st)"
  by (cases q; simp only: serve_request.simps; intro orderly_code orderly_handlers orderly_maintenance orderly_admin)

theorem refused_requests_change_nothing_witness:
  "fst (serve_request example_api (RemoveTest ''x'') closed_store) = 400 \<and> snd (serve_request example_api (RemoveTest ''x'') closed_store) = closed_store"
proof -
  have i: "pathID ''x'' = None"
    by (simp add: pathID_def parse_int_def parse_uint_def is_digit_def code_of_def Let_def)
  then have "fst (serve_request example_api (RemoveTest ''x'') closed_store) = 400" by (simp add: handleDeleteTest_def)
  with refused_requests_change_nothing [of example_api "RemoveTest ''x''" closed_store] show ?thesis by simp
qed

end
