(* ===== verification/Dashboard.thy ===== *)
theory Dashboard
  imports Requests Identify Consumption
begin

text \<open>
  The handlers of \<open>cmd/api/handlers.go\<close> that read: how the query becomes the arguments of a
  read of the database, which failures the reply shows, and what the handler computes beside the
  reads. The environment adds what they see of the tables' keys, the bill, the time zones and the
  outside; \<open>ae_oks e k\<close> is the success of the k-th statement of a handler.
\<close>

record dash_env = api_env +
  da_ids :: "int list"
  da_sources :: "string list"
  da_zones :: "string \<Rightarrow> zone option"
  da_bill :: "util_row list"
  da_erfinv :: "real \<Rightarrow> real"
  da_ha :: "string \<Rightarrow> string \<Rightarrow> string option"
  da_dial :: "string \<Rightarrow> int \<Rightarrow> string option"

abbreviation or_default :: "string \<Rightarrow> string \<Rightarrow> string" where "or_default v d \<equiv> (if v = [] then d else v)"

abbreviation text_or_empty :: "string option \<Rightarrow> string" where "text_or_empty s \<equiv> (case s of None \<Rightarrow> [] | Some v \<Rightarrow> v)"

abbreviation dash_config :: "dash_env \<Rightarrow> store \<Rightarrow> Config" where "dash_config e st \<equiv> config_or_zero (api_env.truncate e) st"

definition reply_or_500 :: "bool \<Rightarrow> 'a \<Rightarrow> 'a reply" where "reply_or_500 ok x = (if ok then Reply x else Internal)"

definition with_id :: "string \<Rightarrow> (int \<Rightarrow> 'a reply) \<Rightarrow> 'a reply" where
  "with_id idtext f = (case pathID idtext of None \<Rightarrow> BadReq ''bad id'' | Some i \<Rightarrow> f i)"

text \<open>The optional upper end of a span.\<close>

definition untilParam :: "(string \<times> string) list \<Rightarrow> instant \<Rightarrow> instant option" where
  "untilParam q now = (if q_get q ''until'' = [] then None else Some (timeParam q ''until'' now))"

section \<open>Health and meters\<close>

definition handleHealth :: "dash_env \<Rightarrow> store \<Rightarrow> HealthReport reply \<times> store" where
  "handleHealth e st = (case Health (ae_now e) minute (da_sources e) st of (h, s1) \<Rightarrow> (reply_or_500 (ae_oks e 0) h, s1))"

definition meters_options :: "instant \<Rightarrow> (string \<times> string) list \<Rightarrow> LeaderboardOpts" where
  "meters_options now q =
     \<lparr>lo_Since = Some (timeParam q ''since'' (now - 24 * hour)), lo_Until = untilParam q now, lo_MsgType = q_get q ''msg_type'',
      lo_ElectricOnly = (q_get q ''electric_only'' = ''true''), lo_IncludeIgnored = (q_get q ''include_ignored'' = ''true''),
      lo_TrackedOnly = (q_get q ''tracked_only'' = ''true''), lo_PublishedOnly = (q_get q ''published_only'' = ''true'')\<rparr>"

definition handleMeters :: "dash_env \<Rightarrow> (string \<times> string) list \<Rightarrow> store \<Rightarrow> lb_meter list reply" where
  "handleMeters e q st =
     (case Leaderboard (ae_oks e 0) (meters_options (ae_now e) q) (da_ids e) (da_sources e) st of None \<Rightarrow> Internal | Some ms \<Rightarrow> Reply ms)"

definition handleMeterDetail :: "dash_env \<Rightarrow> string \<Rightarrow> (string \<times> string) list \<Rightarrow> store \<Rightarrow> (Series \<times> meter_info) reply" where
  "handleMeterDetail e idtext q st =
     with_id idtext (\<lambda>i.
       case MeterSeries (ae_oks e 0) (ae_oks e 1) i (Some (timeParam q ''since'' (ae_now e - 24 * hour))) (untilParam q (ae_now e))
              (or_default (q_get q ''bucket'') ''1h'') st of
         None \<Rightarrow> Internal | Some s \<Rightarrow> Reply (s, MeterInfo i st))"

text \<open>The message of an error, without the value it quotes.\<close>

definition page_error_text :: "page_error \<Rightarrow> string" where
  "page_error_text err = (case err of BadView v \<Rightarrow> ''bad view'' | BadAnchor a \<Rightarrow> ''bad anchor'' | _ \<Rightarrow> ''query failed'')"

definition compare_set :: "string \<Rightarrow> string \<Rightarrow> bool" where
  "compare_set s c \<longleftrightarrow> c \<noteq> [] \<and> c \<in> trim_space ` set (split_on (CHR '','') s)"

text \<open>None when the slots of the page never end.\<close>

definition handleConsumption :: "dash_env \<Rightarrow> page_env \<Rightarrow> string \<Rightarrow> (string \<times> string) list \<Rightarrow> store \<Rightarrow> ConsumptionResult reply option" where
  "handleConsumption e pe idtext q st =
     (case pathID idtext of None \<Rightarrow> Some (BadReq ''bad id'')
      | Some i \<Rightarrow>
          (case Consumption (ae_getenv e) (da_zones e) pe i (or_default (q_get q ''view'') ''day'') (q_get q ''anchor'')
                  (compare_set (q_get q ''compare'')) (da_bill e) st of
             Inr page \<Rightarrow> Some (Reply page)
           | Inl err \<Rightarrow> if err = Endless then None else Some (BadReq (page_error_text err))))"

definition filter_command :: "int \<Rightarrow> string \<Rightarrow> string" where
  "filter_command i mt = ''rtlamr -filterid='' @ format_int i @ '' -msgtype='' @ MsgTypeToken mt @ '' -format=json''"

definition handleFilterCommand :: "string \<Rightarrow> store \<Rightarrow> (int \<times> string \<times> string) reply" where
  "handleFilterCommand idtext st =
     with_id idtext (\<lambda>i. case LatestMsgType i st of None \<Rightarrow> NotFound ''meter not seen'' | Some mt \<Rightarrow> Reply (i, mt, filter_command i mt))"

definition handleSeries :: "dash_env \<Rightarrow> (string \<times> string) list \<Rightarrow> store \<Rightarrow> (int \<Rightarrow> (instant \<times> real) list) reply" where
  "handleSeries e q st =
     reply_or_500 (ae_oks e 0)
       (MultiSeries (id_list (q_get q ''ids'')) (Some (timeParam q ''since'' (ae_now e - 6 * hour))) None
          (or_default (q_get q ''bucket'') ''5m'') (or_default (q_get q ''mode'') ''delta'') st)"

section \<open>Integrations\<close>

text \<open>\<open>da_dial\<close> and \<open>da_ha\<close> are the attempts to reach the broker and Home Assistant; None is success.\<close>

definition mqttReachable :: "dash_env \<Rightarrow> string \<Rightarrow> int \<Rightarrow> bool \<times> string" where
  "mqttReachable e host port =
     (if host = [] then (False, ''not configured'') else case da_dial e host port of None \<Rightarrow> (True, []) | Some err \<Rightarrow> (False, err))"

definition ha_reachable :: "dash_env \<Rightarrow> Config \<Rightarrow> bool \<times> string" where
  "ha_reachable e cfg =
     (if \<not> HAConfigured cfg then (False, ''not configured'')
      else case da_ha e (HAURL cfg) (HAToken cfg) of None \<Rightarrow> (True, []) | Some err \<Rightarrow> (False, err))"

text \<open>The error of the decoder is dropped: a value of another type arrives as the empty string.\<close>

definition lax_strings :: "json option \<Rightarrow> (string \<rightharpoonup> string)" where
  "lax_strings v = (case v of Some (JObj kvs) \<Rightarrow> map_of (rev (map (\<lambda>(k, x). (k, dec_string_lax x [])) kvs)) | _ \<Rightarrow> Map.empty)"

definition override_keys :: "json option \<Rightarrow> string list" where
  "override_keys v = (case v of Some (JObj kvs) \<Rightarrow> map fst kvs | _ \<Rightarrow> [])"

definition real_overrides :: "json option \<Rightarrow> (string \<rightharpoonup> string)" where
  "real_overrides v = (\<lambda>k. case lax_strings v k of None \<Rightarrow> None | Some x \<Rightarrow> if x \<noteq> [] \<and> \<not> contains_char (CHR ''*'') x then Some x else None)"

text \<open>
  The settings with the values of the form over them. A failed read gives a nil map, which
  cannot be written to: None is the panic.
\<close>

definition overridden :: "bool \<Rightarrow> json option \<Rightarrow> store \<Rightarrow> (string \<rightharpoonup> string) option" where
  "overridden ok v st =
     (case GetSettings ok st of Some m \<Rightarrow> Some (m ++ real_overrides v)
      | None \<Rightarrow> if (\<exists>k \<in> set (override_keys v). real_overrides v k \<noteq> None) then None else Some Map.empty)"

definition handleIntegrationsTest :: "dash_env \<Rightarrow> string \<Rightarrow> store \<Rightarrow> ((bool \<times> string) \<times> (bool \<times> string)) reply option" where
  "handleIntegrationsTest e body st =
     map_option (\<lambda>m. let cfg = FromMap (ae_getenv e) m in Reply (ha_reachable e cfg, mqttReachable e (MQTTHost cfg) (MQTTPort cfg)))
       (overridden (ae_settings e) (first_value body) st)"

record hvac_report =
  hv_entity :: string
  hv_configured :: bool
  hv_action :: string
  hv_last :: "instant option"
  hv_stale :: bool

record integrations =
  in_ha_ok :: bool
  in_mqtt_ok :: bool
  in_reference :: ReferenceHealth
  in_reference_fresh :: bool
  in_mqtt_connected :: bool
  in_worker :: "WorkerStatus option"
  in_monitored :: "string list"
  in_floor :: real
  in_published :: "pub_meter list"
  in_publish :: "int \<rightharpoonup> publish_row"
  in_hvac :: hvac_report

definition hvac_report_of :: "dash_env \<Rightarrow> Config \<Rightarrow> store \<Rightarrow> hvac_report" where
  "hvac_report_of e cfg st =
     (let (action, ts) = (if HVACEntityID cfg \<noteq> [] then HVACStatus (HVACEntityID cfg) st else ([], None)) in
      \<lparr>hv_entity = HVACEntityID cfg, hv_configured = HVACConfigured cfg, hv_action = action, hv_last = ts,
       hv_stale = (HVACEntityID cfg \<noteq> [] \<and> (case ts of None \<Rightarrow> True | Some t \<Rightarrow> time_sub (ae_now e) t > 30 * minute))\<rparr>)"

definition handleIntegrationsStatus :: "dash_env \<Rightarrow> store \<Rightarrow> integrations" where
  "handleIntegrationsStatus e st =
     (let cfg = dash_config e st; ws = GetWorkerStatus (ae_oks e 1) st; ref = ReferenceHealth (ae_now e) (MonitoredEntities cfg) st in
      \<lparr>in_ha_ok = fst (ha_reachable e cfg), in_mqtt_ok = fst (mqttReachable e (MQTTHost cfg) (MQTTPort cfg)),
       in_reference = ref, in_reference_fresh = (rh_Configured ref \<and> \<not> rh_Stale ref),
       in_mqtt_connected = (case ws of None \<Rightarrow> False | Some w \<Rightarrow> ws_MQTTConnected w), in_worker = ws,
       in_monitored = MonitoredEntities cfg, in_floor = MonitoredFloor (MonitoredEntities cfg) (ae_now e - 24 * hour) (ae_now e) st,
       in_published = (if ae_oks e 0 then MetersForPublish (da_ids e) st else []), in_publish = st_publish st,
       in_hvac = hvac_report_of e cfg st\<rparr>)"

text \<open>The lists the pickers show, from the answer of Home Assistant; None is a failed request.\<close>

definition ha_list :: "dash_env \<Rightarrow> store \<Rightarrow> 'a list option \<Rightarrow> 'a list reply" where
  "ha_list e st answer =
     (if \<not> HAConfigured (dash_config e st) then Reply [] else case answer of None \<Rightarrow> BadGateway | Some xs \<Rightarrow> Reply xs)"

definition handlePowerEntities :: "dash_env \<Rightarrow> string option \<Rightarrow> store \<Rightarrow> Entity list reply" where
  "handlePowerEntities e answer st = ha_list e st (MonitorableSensors answer)"

definition handleClimateEntities :: "dash_env \<Rightarrow> string option \<Rightarrow> store \<Rightarrow> ClimateEntity list reply" where
  "handleClimateEntities e answer st = ha_list e st (ClimateEntities answer)"

definition handleUtilityStatistics :: "dash_env \<Rightarrow> wsResult option list \<Rightarrow> store \<Rightarrow> StatID list reply" where
  "handleUtilityStatistics e frames st = ha_list e st (ListEnergyStatisticIDs frames)"

section \<open>Bills\<close>

definition zone_of :: "dash_env \<Rightarrow> Config \<Rightarrow> zone" where "zone_of e cfg = fst (resolve_zone (da_zones e) (HATimeZone cfg))"

definition handleUtilitySeries :: "dash_env \<Rightarrow> store \<Rightarrow> UtilitySeriesResult reply" where
  "handleUtilitySeries e st =
     (case LoadConfig (ae_getenv e) (ae_settings e) st of None \<Rightarrow> Internal
      | Some cfg \<Rightarrow> reply_or_500 (ae_oks e 0) (UtilitySeries (ae_oks e 1) (zone_of e cfg) cfg (da_bill e) (da_ids e) st))"

text \<open>The monitored energy of a local day and of its month, each by a query of its own.\<close>

definition day_and_month :: "zone \<Rightarrow> string list \<Rightarrow> store \<Rightarrow> int \<Rightarrow> real \<times> real" where
  "day_and_month z entities st day =
     (let (y, m, d) = civil_from_days day; d0 = Date z y m d 0; m0 = Date z y m 1 0 in
      (MonitoredEnergy entities d0 (AddDate z d0 0 0 1) st, MonitoredEnergy entities m0 (AddDate z m0 0 1 0) st))"

text \<open>The daily breakdown of the compared meter; one that is not registered has no deltas.\<close>

definition meter_breakdown :: "dash_env \<Rightarrow> Config \<Rightarrow> int \<Rightarrow> store \<Rightarrow> real \<Rightarrow> UtilityDayEstimate list" where
  "meter_breakdown e cfg i st mu =
     (let z = zone_of e cfg; (m, hs) = (case modulus_of i st of None \<Rightarrow> (1, []) | Some m \<Rightarrow> (m, meter_hours i st)) in
      utilityDailyEstimate (local_day z) (da_bill e) (UtilityStatisticID cfg) m hs mu
        (if MonitoredEntities cfg = [] then None else Some (day_and_month z (MonitoredEntities cfg) st)))"

definition handleUtilityCompare :: "dash_env \<Rightarrow> string \<Rightarrow> store \<Rightarrow> UtilityCompareResult reply" where
  "handleUtilityCompare e idtext st =
     with_id idtext (\<lambda>i.
       case LoadConfig (ae_getenv e) (ae_settings e) st of None \<Rightarrow> Internal
       | Some cfg \<Rightarrow>
           (let statID = UtilityStatisticID cfg; ev = map_of (bill_evidence cfg (da_bill e) (da_ids e) st) in
            reply_or_500 (statID = [] \<or> ae_oks e 0)
              (UtilityCompare statID (resolvedPeriod statID (da_bill e)) ev (meter_breakdown e cfg i st) i)))"

section \<open>Devices\<close>

record device_view =
  vw_device :: Device
  vw_Enabled :: bool
  vw_overrides :: DeviceConfig

definition device_view_of :: "CaptureConfig \<Rightarrow> Device \<Rightarrow> device_view" where
  "device_view_of c d =
     \<lparr>vw_device = d, vw_Enabled = DeviceEnabled c (de_Serial d),
      vw_overrides = (case cc_Devices c (de_Serial d) of None \<Rightarrow> zero_device | Some ov \<Rightarrow> ov)\<rparr>"

definition handleDevices :: "dash_env \<Rightarrow> store \<Rightarrow> (device_view list \<times> string list) reply" where
  "handleDevices e st =
     (let c = Capture (dash_config e st) in
      reply_or_500 (ae_oks e 0)
        (map (device_view_of c) (ListDevices (ae_now e) minute (ae_serials e) (ae_endpoints e) st),
         [cc_Freq c, cc_Gain c, cc_PPM c, cc_MsgType c, cc_FilterID c]))"

section \<open>Identification\<close>

text \<open>\<open>time.Duration(hours * float64(time.Hour))\<close> and \<open>int(hours * 60)\<close> drop the fraction.\<close>

definition hours_param :: "string \<Rightarrow> real" where
  "hours_param s = (if s = [] then 2 else case parse_float s of Some v \<Rightarrow> if v > 0 then v else 2 | None \<Rightarrow> 2)"

definition trim_m :: "string \<Rightarrow> string" where "trim_m s = (if s \<noteq> [] \<and> last s = CHR ''m'' then butlast s else s)"

definition bucket_param :: "string \<Rightarrow> real \<Rightarrow> int" where
  "bucket_param b h =
     (let auto = PickBucketMin \<lfloor>h * 60\<rfloor> in
      if b = [] \<or> b = ''auto'' then auto else case parse_int (trim_m b) of Some v \<Rightarrow> if v > 0 then v else auto | None \<Rightarrow> auto)"

definition screen_now :: "dash_env \<Rightarrow> Config \<Rightarrow> int list \<Rightarrow> store \<Rightarrow> DailyScreen option" where
  "screen_now e cfg extra st = daily_screen (zone_of e cfg) cfg (MonitoredEntities cfg) (da_bill e) (da_ids e) (da_sources e) extra st"

record identify_reply =
  id_start :: instant
  id_end :: instant
  id_floor :: real
  id_energy :: real
  id_cv :: "real option"
  id_bucket :: int
  id_commodity :: string
  id_survivors :: nat
  id_ranking :: "CorrRow list"

text \<open>\<open>screen\<close> is what the memoised screen answers; the outer None is the panic of the enrichment.\<close>

definition handleIdentify :: "dash_env \<Rightarrow> (string \<times> string) list \<Rightarrow> DailyScreen option \<Rightarrow> store \<Rightarrow> identify_reply reply option" where
  "handleIdentify e q screen st =
     (let cfg = dash_config e st; h = hours_param (q_get q ''hours''); stop = ae_now e; start = stop - \<lfloor>h * 3600000000000\<rfloor>;
          bm = bucket_param (q_get q ''bucket'') h; commodity = (if q_get q ''commodity'' = ''all'' then ''all'' else ''electric'');
          ents = MonitoredEntities cfg
      in case identify_window (da_erfinv e) (ae_oks e 0) (da_ids e) ents start stop bm (commodity = ''electric'') (AuxFromScreen screen) st of
           None \<Rightarrow> Some Internal
         | Some None \<Rightarrow> None
         | Some (Some (rows, fl)) \<Rightarrow>
             Some (Reply \<lparr>id_start = start, id_end = stop, id_floor = fl, id_energy = MonitoredEnergy ents start stop st,
                          id_cv = MonitoredCV ents start stop st, id_bucket = bm, id_commodity = commodity,
                          id_survivors = (case screen of None \<Rightarrow> 0 | Some s \<Rightarrow> sc_Survivors s), id_ranking = rows\<rparr>))"

definition day_of_text :: "string \<Rightarrow> int" where "day_of_text s = (case parse_day utc s of None \<Rightarrow> 0 | Some t \<Rightarrow> t div day_ns)"

text \<open>The estimates of the bill on the days of the screen; a later estimate of a day replaces an earlier one.\<close>

definition estimate_lines :: "UtilityDayEstimate list \<Rightarrow> string list \<Rightarrow> (real option \<times> real option) list" where
  "estimate_lines es days =
     map (\<lambda>day. case map_of (rev (map (\<lambda>x. (de_Day x, x)) es)) day of
                  None \<Rightarrow> (None, None) | Some x \<Rightarrow> (Some (de_FlatKwh x), de_ShapedKwh x)) days"

definition handleIdentifyDaily ::
    "dash_env \<Rightarrow> (string \<times> string) list \<Rightarrow> store \<Rightarrow> (DailyScreen \<times> (real option \<times> real option) list) reply" where
  "handleIdentifyDaily e q st =
     (let cfg = dash_config e st in
      case screen_now e cfg (id_list (q_get q ''ids'')) st of None \<Rightarrow> Internal
      | Some screen \<Rightarrow>
          (let days = sc_Days screen;
               es = (if UtilityConfigured cfg \<and> days \<noteq> []
                     then UtilityDailyEstimateRange (zone_of e cfg) cfg (day_of_text (hd days)) (day_of_text (last days)) (da_bill e) st else [])
           in Reply (screen, estimate_lines es days)))"

text \<open>The standings fail only when the windows cannot be read; None is a panic.\<close>

definition handleIdentifyAuto :: "dash_env \<Rightarrow> (int \<Rightarrow> bool) \<Rightarrow> DailyScreen option \<Rightarrow> store \<Rightarrow> AggRow list reply option" where
  "handleIdentifyAuto e ok screen st =
     (if \<not> ae_oks e 0 then Some Internal
      else map_option Reply (IdentifyAuto (da_erfinv e) ok (LoadConfig (ae_getenv e) (ae_settings e) st) (da_bill e) (da_ids e)
             (MonitoredEntities (dash_config e st)) screen st))"

definition handleCombined :: "dash_env \<Rightarrow> (int \<Rightarrow> bool) \<Rightarrow> DailyScreen option \<Rightarrow> store \<Rightarrow> AggRow list reply option" where
  "handleCombined e ok screen st =
     (if \<not> ae_oks e 0 then Some Internal
      else map_option Reply (CombinedRanking (da_erfinv e) ok (LoadConfig (ae_getenv e) (ae_settings e) st) (da_bill e) (da_ids e)
             (MonitoredEntities (dash_config e st)) screen st))"

definition handleListTests :: "dash_env \<Rightarrow> store \<Rightarrow> test_row list reply" where
  "handleListTests e st = reply_or_500 (ae_oks e 0) (ListTests st)"

text \<open>The ranking of one window, each row with the multiplier its known load suggests.\<close>

definition anchored :: "real \<Rightarrow> CorrRow \<Rightarrow> CorrRow \<times> real option" where
  "anchored expected r = (r, if expected > 0 \<and> cr_WindowDelta r > 0 then Some (expected / cr_WindowDelta r) else None)"

definition handleTestCorrelation ::
    "dash_env \<Rightarrow> string \<Rightarrow> store \<Rightarrow> (test_row \<times> instant \<times> (CorrRow \<times> real option) list) reply option" where
  "handleTestCorrelation e idtext st =
     (case pathID idtext of None \<Rightarrow> Some (BadReq ''bad id'')
      | Some i \<Rightarrow>
          (case (if ae_oks e 0 then GetTest i st else None) of None \<Rightarrow> Some (NotFound ''test not found'')
           | Some t \<Rightarrow>
               (let start = tw_start t; stop = (case tw_end t of None \<Rightarrow> ae_now e | Some x \<Rightarrow> x); ents = MonitoredEntities (dash_config e st) in
                if ents = [] then
                  (case window_correlation (ae_oks e 1) (da_ids e) start stop st of None \<Rightarrow> Some Internal
                   | Some rows \<Rightarrow> Some (Reply (t, stop, map (\<lambda>r. (r, None)) rows)))
                else
                  (case identify_window (da_erfinv e) (ae_oks e 1) (da_ids e) ents start stop
                          (PickBucketMin (whole_minutes (time_sub stop start))) True None st of
                     None \<Rightarrow> Some Internal
                   | Some None \<Rightarrow> None
                   | Some (Some (rows, fl)) \<Rightarrow>
                       Some (Reply (t, stop, map (anchored (expected_kwh (tw_known_load t)
                         (map_option (\<lambda>x. EntityEnergy x start stop st) (tw_known_entity t)) (time_sub stop start))) rows))))))"

section \<open>Series, profiles and coverage\<close>

definition handleReferenceSeries :: "dash_env \<Rightarrow> (string \<times> string) list \<Rightarrow> store \<Rightarrow> (instant \<times> real) list reply" where
  "handleReferenceSeries e q st =
     (case AggregateSeries (MonitoredEntities (dash_config e st)) (timeParam q ''start'' (ae_now e - 2 * hour)) (timeParam q ''end'' (ae_now e))
             (or_default (q_get q ''bucket'') ''5m'') st of
        None \<Rightarrow> Internal | Some xs \<Rightarrow> reply_or_500 (ae_oks e 0) xs)"

datatype profile_rows = ByHour "(int \<times> real) list" | ByWeekday "(int \<times> real) list" | ByDay "(string \<times> real) list" | ByCell "((int \<times> int) \<times> real) list"

definition handleProfile :: "dash_env \<Rightarrow> string \<Rightarrow> (string \<times> string) list \<Rightarrow> store \<Rightarrow> profile_rows reply" where
  "handleProfile e idtext q st =
     with_id idtext (\<lambda>i.
       let days = intParam q ''days'' 14; z = zone_of e (dash_config e st); kind = q_get q ''type'' in
       reply_or_500 (ae_oks e 0)
         (if kind = ''dow'' then ByWeekday (DowProfile z (ae_now e) i days st)
          else if kind = ''daily'' then ByDay (DailyRollup z (ae_now e) i days st)
          else if kind = ''heatmap'' then ByCell (Heatmap z (ae_now e) i days st)
          else ByHour (HourlyProfile z (ae_now e) i days st)))"

definition handleBenchmark :: "dash_env \<Rightarrow> string \<Rightarrow> (string \<times> string) list \<Rightarrow> store \<Rightarrow> Benchmark reply" where
  "handleBenchmark e idtext q st =
     with_id idtext (\<lambda>i. reply_or_500 (ae_oks e 0) (BenchmarkMeter (ae_now e) i (intParam q ''days'' 7) (da_ids e) st))"

text \<open>The sources of the matrix in the order they first appear, each with its label and whether it is plugged in.\<close>

definition source_label :: "CaptureConfig \<Rightarrow> (string \<rightharpoonup> string) \<Rightarrow> string \<Rightarrow> string" where
  "source_label c names s =
     (let own = (case cc_Devices c s of None \<Rightarrow> [] | Some d \<Rightarrow> dc_Label d) in
      or_default own (or_default (case names s of None \<Rightarrow> [] | Some n \<Rightarrow> n) s))"

fun first_seen :: "'a list \<Rightarrow> 'a list \<Rightarrow> 'a list" where
  "first_seen seen [] = []"
| "first_seen seen (x # xs) = (if x \<in> set seen then first_seen seen xs else x # first_seen (x # seen) xs)"

definition handleCoverage ::
    "dash_env \<Rightarrow> (int \<times> string) list \<Rightarrow> store \<Rightarrow> ((string \<times> int \<times> int \<times> instant) list \<times> (string \<times> string \<times> bool) list) reply" where
  "handleCoverage e pairs st =
     (let cells = CoverageMatrix pairs st; c = Capture (dash_config e st);
          devs = (if ae_oks e 1 then ListDevices (ae_now e) minute (ae_serials e) (ae_endpoints e) st else []);
          names = map_of (rev (map (\<lambda>d. (de_Serial d, de_Name d)) devs))
      in reply_or_500 (ae_oks e 0)
           (cells, map (\<lambda>s. (s, source_label c names s, names s \<noteq> None)) (first_seen [] (map fst cells))))"

definition handleSourceTimeline :: "dash_env \<Rightarrow> (string \<times> string) list \<Rightarrow> store \<Rightarrow> (string \<Rightarrow> (instant \<times> nat) list) reply" where
  "handleSourceTimeline e q st =
     reply_or_500 (ae_oks e 0)
       (\<lambda>src. SourceTimeline (timeParam q ''since'' (ae_now e - 6 * hour)) (or_default (q_get q ''bucket'') ''5m'') src st)"

section \<open>Alerts\<close>

datatype alert = Found Anomaly | ReferenceStale "instant option" "string option"

text \<open>The stage the worker blames, when it has reported one.\<close>

definition blamed_stage :: "bool \<Rightarrow> store \<Rightarrow> string option" where
  "blamed_stage ok st = (case GetWorkerStatus ok st of None \<Rightarrow> None
     | Some ws \<Rightarrow> if ws_HAStream ws \<noteq> [] \<and> ws_HAStream ws \<noteq> ''ok'' then Some (ws_HAStream ws) else None)"

definition alert_detail :: "alert \<Rightarrow> string" where
  "alert_detail a = (case a of Found _ \<Rightarrow> []
     | ReferenceStale lst stage \<Rightarrow>
         ''no monitored samples'' @ (case lst of None \<Rightarrow> [] | Some t \<Rightarrow> '' since '' @ format_rfc3339 t) @  '' '' @ [CHR 0xE2, CHR 0x80, CHR 0x94] @ '' identification is paused''
         @ (case stage of None \<Rightarrow> ''; check the worker and HA connection'' | Some s \<Rightarrow> ''; worker: '' @ s))"

definition anomaliesWithReference :: "dash_env \<Rightarrow> bool \<Rightarrow> store \<Rightarrow> alert list" where
  "anomaliesWithReference e listed st =
     (let found = map Found (Anomalies (ae_oks e 0, ae_oks e 1, ae_oks e 2) (ae_now e) (da_ids e) (liveSources (api_env.truncate e) listed st) st);
          cfg = dash_config e st; rh = ReferenceHealth (ae_now e) (MonitoredEntities cfg) st
      in if ReferenceConfigured cfg \<and> rh_Stale rh then ReferenceStale (rh_LastSample rh) (blamed_stage (ae_oks e 3) st) # found else found)"

section \<open>The overview\<close>

definition movement :: "dash_env \<Rightarrow> store \<Rightarrow> int \<Rightarrow> instant \<Rightarrow> real \<Rightarrow> real" where
  "movement e st i since mu = (case meter_movement i since (ae_now e) st of None \<Rightarrow> 0 | Some v \<Rightarrow> round_places (v * mu) 3)"

definition live_rate :: "store \<Rightarrow> int \<Rightarrow> real \<Rightarrow> real option" where
  "live_rate st i mu = map_option (\<lambda>v. round_places v 3) (DerivedPower (newest_first (counter_rows i st)) mu)"

record pub_view =
  pv_EndpointID :: int
  pv_Name :: string
  pv_Commodity :: string
  pv_Unit :: string
  pv_Multiplier :: real
  pv_Rate :: "real option"
  pv_Today :: real
  pv_CostToday :: real

definition pub_view_of :: "dash_env \<Rightarrow> Config \<Rightarrow> instant \<Rightarrow> store \<Rightarrow> pub_meter \<Rightarrow> pub_view" where
  "pub_view_of e cfg day st m =
     (let today = movement e st (pm_EndpointID m) day (pm_PubMultiplier m) in
      \<lparr>pv_EndpointID = pm_EndpointID m, pv_Name = text_or_empty (pm_PubName m), pv_Commodity = pm_Commodity m, pv_Unit = text_or_empty (pm_PubUnit m),
       pv_Multiplier = pm_PubMultiplier m, pv_Rate = live_rate st (pm_EndpointID m) (pm_PubMultiplier m), pv_Today = today,
       pv_CostToday = (if pm_Commodity m = ''electric'' \<and> CostPerKwh cfg > 0 then round_places (today * CostPerKwh cfg) 2 else 0)\<rparr>)"

record my_meter =
  my_EndpointID :: int
  my_annot :: meter_row
  my_Calibrated :: bool
  my_Unit :: string
  my_Today :: real
  my_Week :: real
  my_Month :: real
  my_CostToday :: real
  my_Rate :: "real option"
  my_Connected :: bool
  my_Status :: "publish_row option"

definition my_meter_of :: "dash_env \<Rightarrow> Config \<Rightarrow> instant \<times> instant \<times> instant \<Rightarrow> store \<Rightarrow> int \<times> meter_row \<Rightarrow> my_meter" where
  "my_meter_of e cfg = (\<lambda>(day, week, month) st (i, m).
     let calibrated = (mt_pub_unit m \<noteq> None \<and> mt_pub_unit m \<noteq> Some []); mu = mt_pub_multiplier m; today = movement e st i day mu in
     \<lparr>my_EndpointID = i, my_annot = m, my_Calibrated = calibrated, my_Unit = (if calibrated then text_or_empty (mt_pub_unit m) else ''counts''),
      my_Today = today, my_Week = movement e st i week mu, my_Month = movement e st i month mu,
      my_CostToday = (if CostPerKwh cfg > 0 \<and> calibrated then round_places (today * CostPerKwh cfg) 2 else 0), my_Rate = live_rate st i mu,
      my_Connected = (case GetWorkerStatus (ae_oks e 3) st of None \<Rightarrow> False | Some ws \<Rightarrow> ws_MQTTConnected ws), my_Status = st_publish st i\<rparr>)"

record overview =
  ov_Currency :: string
  ov_CostPerKwh :: real
  ov_Mine :: "my_meter option"
  ov_Published :: "pub_view list"
  ov_Alerts :: "alert list"

definition local_starts :: "zone \<Rightarrow> instant \<Rightarrow> instant \<times> instant \<times> instant" where
  "local_starts z now =
     (case local_date z now of (y, m, d) \<Rightarrow>
        let day = Date z y m d 0 in (day, AddDate z day 0 0 (- weekday z day), Date z y m 1 0))"

definition handleOverview :: "dash_env \<Rightarrow> bool \<Rightarrow> store \<Rightarrow> overview" where
  "handleOverview e listed st =
     (let cfg = dash_config e st; starts = local_starts (zone_of e cfg) (ae_now e) in
      \<lparr>ov_Currency = Currency cfg, ov_CostPerKwh = CostPerKwh cfg,
       ov_Mine = (if ae_oks e 5 then map_option (my_meter_of e cfg starts st) (MyMeter (da_ids e) st) else None),
       ov_Published = map (pub_view_of e cfg (fst starts) st) (if ae_oks e 4 then MetersForPublish (da_ids e) st else []),
       ov_Alerts = anomaliesWithReference e listed st\<rparr>)"

section \<open>The health of the database\<close>

text \<open>\<open>sizes\<close> is what the engine reports of a table; the rest is counted in the rows.\<close>

definition adminTables :: "string list" where
  "adminTables = [''readings'', ''readings_1m'', ''readings_1h'', ''reference_samples'', ''hvac_samples'', ''meter_index'', ''meter_source'',
     ''meters'', ''test_windows'', ''sdr_devices'']"

definition heard :: "store \<Rightarrow> int list" where "heard st = remdups (map (EndpointID \<circ> fst) (st_readings st))"

definition table_rows :: "dash_env \<Rightarrow> store \<Rightarrow> string \<Rightarrow> nat" where
  "table_rows e st name =
     (if name = ''readings'' then length (st_readings st)
      else if name = ''readings_1m'' then sum_list (map (\<lambda>i. length (readings_1m i st)) (heard st))
      else if name = ''readings_1h'' then sum_list (map (\<lambda>i. length (readings_1h i st)) (heard st))
      else if name = ''reference_samples'' then length (st_ref st)
      else if name = ''hvac_samples'' then length (st_hvac st)
      else if name = ''meter_index'' then length (filter (\<lambda>i. st_index st i \<noteq> None) (da_ids e))
      else if name = ''meter_source'' then
        length (filter (\<lambda>p. st_source st p \<noteq> None) (concat (map (\<lambda>i. map (Pair i) (da_sources e)) (da_ids e))))
      else if name = ''meters'' then length (filter (\<lambda>i. st_meters st i \<noteq> None) (da_ids e))
      else if name = ''test_windows'' then length (st_windows st)
      else if name = ''sdr_devices'' then length (filter (\<lambda>s. st_devices st s \<noteq> None) (ae_serials e)) else 0)"

record source_stat =
  ss_Source :: string
  ss_Rows :: nat
  ss_Oldest :: instant
  ss_Newest :: instant

definition source_stats :: "store \<Rightarrow> source_stat list" where
  "source_stats st =
     (let name = Source; rs = map fst (st_readings st) in
      sort_key (\<lambda>s. - int (ss_Rows s))
        (map (\<lambda>s. let ts = map TS (filter (\<lambda>r. name r = s) rs) in
             \<lparr>ss_Source = s, ss_Rows = length ts, ss_Oldest = Min (set ts), ss_Newest = Max (set ts)\<rparr>) (remdups (map name rs))))"

record DBStats =
  db_Tables :: "(string \<times> nat \<times> nat) list"
  db_ReadingRows :: nat
  db_Oldest :: "instant option"
  db_Newest :: "instant option"
  db_Sources :: "source_stat list"

definition DBStats :: "dash_env \<Rightarrow> (string \<Rightarrow> nat) \<Rightarrow> store \<Rightarrow> DBStats" where
  "DBStats e sizes st =
     \<lparr>db_Tables = map (\<lambda>t. (t, sizes t, table_rows e st t)) adminTables, db_ReadingRows = length (st_readings st),
      db_Oldest = OldestReadingTS st,
      db_Newest = (if st_readings st = [] then None else Some (Max (set (map (\<lambda>(r, _). TS r) (st_readings st))))),
      db_Sources = source_stats st\<rparr>"

definition handleAdminStats :: "dash_env \<Rightarrow> (string \<Rightarrow> nat) \<Rightarrow> store \<Rightarrow> DBStats reply" where
  "handleAdminStats e sizes st = Reply (DBStats e sizes st)"

section \<open>Transport\<close>

text \<open>The event stream: what is written for a message, for the keepalive, and at the start.\<close>

datatype stream_event = Message string | Keepalive

definition newline :: string where "newline = [CHR 0x0A]"

fun stream_write :: "stream_event \<Rightarrow> string" where
  "stream_write (Message m) = ''data: '' @ m @ newline @ newline"
| "stream_write Keepalive = '': ping'' @ newline @ newline"

definition handleStream :: "stream_event list \<Rightarrow> string" where
  "handleStream evs = ''retry: 3000'' @ newline @ newline @ concat (map stream_write evs)"

definition contains_text :: "string \<Rightarrow> string \<Rightarrow> bool" where
  "contains_text p s \<longleftrightarrow> p \<in> set (map (\<lambda>k. take (length p) (drop k s)) [0 ..< Suc (length s)])"

text \<open>Which answers are compressed, and which file the page request serves.\<close>

definition gzipMiddleware :: "string \<Rightarrow> string \<Rightarrow> bool" where
  "gzipMiddleware accept path \<longleftrightarrow> contains_text ''gzip'' accept \<and> path \<noteq> ''/api/stream'' \<and> take 11 path \<noteq> ''/api/agent/''"

definition trimSlash :: "string \<Rightarrow> string" where
  "trimSlash p = (if p \<noteq> [] \<and> hd p = CHR ''/'' then tl p else p)"

definition spa_path :: "(string \<Rightarrow> bool) \<Rightarrow> string \<Rightarrow> string" where
  "spa_path exists p = (if \<not> exists (trimSlash p) \<and> p \<noteq> ''/'' then ''/'' else p)"
section \<open>No phantom alerts\<close>

lemma live_source:
  assumes "s \<in> set (liveSources e listed st)"
  shows "listed \<and> s \<in> set (ae_serials e) \<and> st_devices st s \<noteq> None \<and> DeviceEnabled (Capture (config_or_zero e st)) s"
  using assms by (auto simp: liveSources_def ListDevices_def list_device_def List.map_filter_def Let_def split: if_splits)

lemma anomaly_found:
  assumes "a \<in> set (Anomalies oks now ids live st)"
  shows "case a of Dropout i t \<Rightarrow> tracked i st \<and> (\<exists>x. st_index st i = Some x \<and> ix_last_seen x = t) \<and> t < now - 15 * minute
    | Stuck i \<Rightarrow> tracked i st \<and> deref (minute_move (\<lambda>b. now - hour \<le> b) i st) = 0
        \<and> (\<exists>mv. minute_move (\<lambda>b. now - 25 * hour \<le> b \<and> b < now - hour) i st = Some mv \<and> mv > 0)
    | SourceDown s \<Rightarrow> s \<in> set live \<and> (\<exists>h. st_heartbeat st s = Some h \<and> hb_updated h < now - 10 * minute)"
  using assms
  by (cases oks) (auto simp: Anomalies_def dropouts_def stuck_meters_def dead_sources_def List.map_filter_def split: if_splits option.splits)

lemma reference_stale_iff:
  "rh_Stale (ReferenceHealth now entities st)
     \<longleftrightarrow> entities \<noteq> [] \<and> (\<forall>x \<in> set (st_ref st). rs_entity x \<in> set entities \<longrightarrow> rs_ts x + 30 * minute < now)"
proof (cases "entities = []")
  case False
  let ?xs = "filter (\<lambda>r. rs_entity r \<in> set entities) (st_ref st)"
  have sub: "time_sub now t > 30 * minute \<longleftrightarrow> t + 30 * minute < now" for t by (auto simp: time_sub_def int64_min_def int64_max_def)
  have "rh_Stale (ReferenceHealth now entities st) \<longleftrightarrow> (?xs \<noteq> [] \<longrightarrow> Max (rs_ts ` set ?xs) + 30 * minute < now)"
    using False sub by (cases "?xs = []") (auto simp: ReferenceHealth_def Let_def filter_empty_conv)
  also have "\<dots> \<longleftrightarrow> (\<forall>x \<in> set ?xs. rs_ts x + 30 * minute < now)"
  proof (cases "?xs = []")
    case False
    then have m: "Max (rs_ts ` set ?xs) \<in> rs_ts ` set ?xs" by (intro Max_in) (auto simp: filter_empty_conv)
    have le: "rs_ts x + 30 * minute < now" if "x \<in> set ?xs" "Max (rs_ts ` set ?xs) + 30 * minute < now" for x
    proof -
      have "rs_ts x \<le> Max (rs_ts ` set ?xs)" using that(1) by (intro Max_ge) auto
      with that(2) show ?thesis by linarith
    qed
    obtain x0 where "x0 \<in> set ?xs" "Max (rs_ts ` set ?xs) = rs_ts x0" using m by (rule imageE)
    then have "Max (rs_ts ` set ?xs) + 30 * minute < now" if "\<forall>x \<in> set ?xs. rs_ts x + 30 * minute < now" using that by (metis (no_types, lifting))
    then show ?thesis
      by (intro iffI ballI impI) (rule le, assumption, erule mp, rule False, assumption)
  qed simp
  finally show ?thesis using False by auto
qed (simp add: ReferenceHealth_def)

text \<open>What each alert claims.\<close>

definition real_alert :: "dash_env \<Rightarrow> store \<Rightarrow> alert \<Rightarrow> bool" where
  "real_alert e st a =
     (case a of
        Found (SourceDown s) \<Rightarrow> st_devices st s \<noteq> None \<and> DeviceEnabled (Capture (dash_config e st)) s
          \<and> (\<exists>h. st_heartbeat st s = Some h \<and> hb_updated h < ae_now e - 10 * minute)
      | Found (Dropout i t) \<Rightarrow> tracked i st \<and> (\<exists>x. st_index st i = Some x \<and> ix_last_seen x = t) \<and> t < ae_now e - 15 * minute
      | Found (Stuck i) \<Rightarrow> tracked i st \<and> deref (minute_move (\<lambda>b. ae_now e - hour \<le> b) i st) = 0
          \<and> (\<exists>mv. minute_move (\<lambda>b. ae_now e - 25 * hour \<le> b \<and> b < ae_now e - hour) i st = Some mv \<and> mv > 0)
      | ReferenceStale lst stage \<Rightarrow> MonitoredEntities (dash_config e st) \<noteq> []
          \<and> (\<forall>x \<in> set (st_ref st). rs_entity x \<in> set (MonitoredEntities (dash_config e st)) \<longrightarrow> rs_ts x + 30 * minute < ae_now e))"


definition example_dash :: dash_env where
  "example_dash = \<lparr>ae_now = hour, ae_settings = False, ae_notify = True, ae_oks = (\<lambda>_. True), ae_serials = [''A1''], ae_endpoints = [],
     ae_survivor_count = None, ae_in_dropped_chunk = (\<lambda>_. False), ae_getenv = (\<lambda>_. []), da_ids = [7], da_sources = [], da_zones = (\<lambda>_. None),
     da_bill = [], da_erfinv = (\<lambda>x. x), da_ha = (\<lambda>_ _. None), da_dial = (\<lambda>_ _. None)\<rparr>"


end
