(* ===== verification/Export.thy ===== *)
theory Export
  imports Dashboard
begin

text \<open>
  The export of a meter's readings (\<open>handleExportCSV\<close>): the texts of a row and the CSV writer of
  the Go library with its quoting, and a reader that follows RFC 4180 to state that the file reads
  back.
\<close>

section \<open>The texts of a row\<close>

text \<open>\<open>time.RFC3339Nano\<close> leaves out the trailing zeros of the fraction.\<close>

definition frac_nano :: "nat \<Rightarrow> string" where
  "frac_nano n = (if n = 0 then [] else CHR ''.'' # rev (dropWhile (\<lambda>c. c = CHR ''0'') (rev (pad_digits 9 n))))"

definition format_nano :: "instant \<Rightarrow> string" where
  "format_nano t = format_clock t @ frac_nano (nat (t mod 1000000000)) @ ''Z''"

text \<open>\<open>FormatFloat(x, 'f', -1, 64)\<close>: the decimal expansion, a float having at most 1074 places.\<close>

definition decimal_places :: "real \<Rightarrow> nat option" where
  "decimal_places x = List.find (\<lambda>n. x * 10 ^ n = of_int \<lfloor>x * 10 ^ n\<rfloor>) [0 ..< 1075]"

definition format_plain :: "real \<Rightarrow> string" where
  "format_plain x =
     (case decimal_places \<bar>x\<bar> of None \<Rightarrow> []
      | Some n \<Rightarrow>
          (let h = nat \<lfloor>\<bar>x\<bar> * 10 ^ n\<rfloor> in
           (if x < 0 then ''-'' else []) @ nat_digits (h div 10 ^ n) @ (if n = 0 then [] else CHR ''.'' # pad_digits n (h mod 10 ^ n))))"

definition csv_header :: "string list" where
  "csv_header = [''ts'', ''msg_type'', ''endpoint_id'', ''endpoint_type'', ''consumption'', ''source'']"

definition export_fields :: "reading \<Rightarrow> string list" where
  "export_fields r =
     [format_nano (TS r), MsgType r, format_int (EndpointID r), (case EndpointType r of None \<Rightarrow> [] | Some t \<Rightarrow> format_int t),
      (case reading.Consumption r of None \<Rightarrow> [] | Some c \<Rightarrow> format_plain c), Source r]"

section \<open>The writer\<close>

definition dquote :: char where "dquote = CHR 0x22"
definition lf :: char where "lf = CHR 0x0A"
definition cr :: char where "cr = CHR 0x0D"

text \<open>A field is quoted when it holds a special character, begins with a space or is the two characters backslash and dot.\<close>

definition fieldNeedsQuotes :: "string \<Rightarrow> bool" where
  "fieldNeedsQuotes f \<longleftrightarrow> f \<noteq> [] \<and> (f = [CHR 0x5C, CHR ''.''] \<or> (\<exists>c \<in> set f. c \<in> {lf, cr, dquote, CHR '',''}) \<or> is_space (hd f))"

definition csv_escape :: "string \<Rightarrow> string" where
  "csv_escape f = concat (map (\<lambda>c. if c = dquote then [dquote, dquote] else [c]) f)"

definition csv_field :: "string \<Rightarrow> string" where
  "csv_field f = (if fieldNeedsQuotes f then dquote # csv_escape f @ [dquote] else f)"

fun csv_line :: "string list \<Rightarrow> string" where
  "csv_line [] = [lf]"
| "csv_line [f] = csv_field f @ [lf]"
| "csv_line (f # g # fs) = csv_field f @ CHR '','' # csv_line (g # fs)"

definition handleExportCSV :: "dash_env \<Rightarrow> string \<Rightarrow> (string \<times> string) list \<Rightarrow> store \<Rightarrow> string reply" where
  "handleExportCSV e idtext q st =
     with_id idtext (\<lambda>i.
       reply_or_500 (ae_oks e 0)
         (concat (map csv_line (csv_header # map export_fields
            (MeterReadings i (Some (timeParam q ''since'' (ae_now e - 168 * hour))) (untilParam q (ae_now e)) st)))))"

section \<open>Reading a file\<close>

text \<open>The reader: inside a plain field, inside quotes, after a quote that may close them.\<close>

datatype csv_state = Unquoted | Quoted | QuoteSeen

fun csv_read :: "csv_state \<Rightarrow> string \<Rightarrow> string list \<Rightarrow> string \<Rightarrow> string list list option" where
  "csv_read s cur fs [] = (if s = Unquoted \<and> cur = [] \<and> fs = [] then Some [] else None)"
| "csv_read Unquoted cur fs (c # cs) =
     (if c = dquote then (if cur = [] then csv_read Quoted [] fs cs else None)
      else if c = CHR '','' then csv_read Unquoted [] (fs @ [cur]) cs
      else if c = lf then map_option ((#) (fs @ [cur])) (csv_read Unquoted [] [] cs)
      else csv_read Unquoted (cur @ [c]) fs cs)"
| "csv_read Quoted cur fs (c # cs) = (if c = dquote then csv_read QuoteSeen cur fs cs else csv_read Quoted (cur @ [c]) fs cs)"
| "csv_read QuoteSeen cur fs (c # cs) =
     (if c = dquote then csv_read Quoted (cur @ [dquote]) fs cs
      else if c = CHR '','' then csv_read Unquoted [] (fs @ [cur]) cs
      else if c = lf then map_option ((#) (fs @ [cur])) (csv_read Unquoted [] [] cs) else None)"

lemmas csv_chars = dquote_def lf_def cr_def

lemma read_plain: "set f \<inter> {dquote, CHR '','', lf} = {} \<Longrightarrow> csv_read Unquoted cur fs (f @ rest) = csv_read Unquoted (cur @ f) fs rest"
  by (induction f arbitrary: cur) auto

lemma read_quoted: "csv_read Quoted cur fs (csv_escape f @ rest) = csv_read Quoted (cur @ f) fs rest"
  by (induction f arbitrary: cur) (auto simp: csv_escape_def)

text \<open>A field that was written is read, whatever ends it.\<close>

lemma read_field:
  shows "csv_read Unquoted [] fs (csv_field f @ CHR '','' # rest) = csv_read Unquoted [] (fs @ [f]) rest"
    and "csv_read Unquoted [] fs (csv_field f @ lf # rest) = map_option ((#) (fs @ [f])) (csv_read Unquoted [] [] rest)"
proof -
  have d: "CHR '','' \<noteq> dquote" "lf \<noteq> dquote" "lf \<noteq> CHR '',''" by (simp_all add: csv_chars)
  have p: "set f \<inter> {dquote, CHR '','', lf} = {}" if "\<not> fieldNeedsQuotes f" using that by (cases f) (auto simp: fieldNeedsQuotes_def)
  show "csv_read Unquoted [] fs (csv_field f @ CHR '','' # rest) = csv_read Unquoted [] (fs @ [f]) rest"
    using d p read_quoted [of "[]" fs f "dquote # CHR '','' # rest"] by (auto simp: csv_field_def read_plain)
  show "csv_read Unquoted [] fs (csv_field f @ lf # rest) = map_option ((#) (fs @ [f])) (csv_read Unquoted [] [] rest)"
    using d p read_quoted [of "[]" fs f "dquote # lf # rest"] by (auto simp: csv_field_def read_plain)
qed

lemma read_line: "gs \<noteq> [] \<Longrightarrow> csv_read Unquoted [] fs (csv_line gs @ rest) = map_option ((#) (fs @ gs)) (csv_read Unquoted [] [] rest)"
  by (induction gs arbitrary: fs rule: csv_line.induct) (simp_all add: read_field)

lemma read_file: "\<forall>r \<in> set rows. r \<noteq> [] \<Longrightarrow> csv_read Unquoted [] [] (concat (map csv_line rows)) = Some rows"
  by (induction rows) (simp_all add: read_line)

section \<open>The texts read back\<close>

lemma strip_zeros: "\<exists>k. ds = rev (dropWhile (\<lambda>c. c = CHR ''0'') (rev ds)) @ replicate k (CHR ''0'')"
proof -
  have "takeWhile (\<lambda>c. c = CHR ''0'') (rev ds) = replicate (length (takeWhile (\<lambda>c. c = CHR ''0'') (rev ds))) (CHR ''0'')"
    by (intro replicate_eqI) (auto dest: set_takeWhileD)
  then have "rev (takeWhile (\<lambda>c. c = CHR ''0'') (rev ds)) = replicate (length (takeWhile (\<lambda>c. c = CHR ''0'') (rev ds))) (CHR ''0'')"
    by (metis rev_replicate)
  moreover have "ds = rev (dropWhile (\<lambda>c. c = CHR ''0'') (rev ds)) @ rev (takeWhile (\<lambda>c. c = CHR ''0'') (rev ds))"
    by (metis rev_append rev_rev_ident takeWhile_dropWhile_id)
  ultimately show ?thesis by metis
qed

lemma value_trailing_zeros:
  "foldl (\<lambda>a c. a * 10 + int (digit_val c)) x (s @ replicate k (CHR ''0'')) = foldl (\<lambda>a c. a * 10 + int (digit_val c)) x s * 10 ^ k"
proof (induction k)
  case (Suc k)
  have "s @ replicate (Suc k) (CHR ''0'') = (s @ replicate k (CHR ''0'')) @ [CHR ''0'']" by (simp add: replicate_append_same)
  moreover have "digit_val (CHR ''0'') = 0" by code_simp
  ultimately show ?case using Suc by (simp only: foldl_append) simp
qed simp

lemma parse_frac_digits:
  assumes "list_all is_digit s" "s \<noteq> []" "length s \<le> 9" "\<not> is_digit e"
  shows "parse_frac (CHR ''.'' # s @ e # r) = (foldl (\<lambda>a c. a * 10 + int (digit_val c)) 0 s * 10 ^ (9 - length s), e # r)"
proof -
  obtain c p where cp: "s = c # p" using assms(2) by (cases s) auto
  have tw: "takeWhile is_digit (s @ e # r) = s" "dropWhile is_digit (s @ e # r) = e # r" using assms(1,4) by (simp_all add: list_all_iff)
  have "is_digit c" using assms(1) cp by simp
  then show ?thesis using tw assms(3) unfolding parse_frac_def cp by (simp add: Let_def)
qed

lemma parse_frac_stripped:
  assumes "ds = s @ replicate k (CHR ''0'')" "length ds = 9" "list_all is_digit ds"
    "foldl (\<lambda>a c. a * 10 + int (digit_val c)) 0 ds = v" "v \<noteq> 0" "\<not> is_digit e"
  shows "parse_frac (CHR ''.'' # s @ [e]) = (v, [e])"
proof -
  have v: "foldl (\<lambda>a c. a * 10 + int (digit_val c)) 0 s * 10 ^ k = v"
    using assms(4) value_trailing_zeros [of 0 s k] by (simp only: assms(1))
  have ne: "s \<noteq> []" using v assms(5) by auto
  have k: "length s \<le> 9" "9 - length s = k" using assms(1,2) by simp_all
  have "list_all is_digit s" using assms(1,3) by simp
  from parse_frac_digits [OF this ne k(1) assms(6), of "[]"] v show ?thesis by (simp only: k(2))
qed

lemma parse_frac_nano:
  assumes "n < 1000000000"
  shows "parse_frac (frac_nano n @ ''Z'') = (int n, ''Z'')"
proof (cases "n = 0")
  case True
  have "\<not> is_digit (CHR ''Z'')" by code_simp
  with True show ?thesis by (simp add: frac_nano_def parse_frac_def)
next
  case False
  obtain k where ds: "pad_digits 9 n = rev (dropWhile (\<lambda>c. c = CHR ''0'') (rev (pad_digits 9 n))) @ replicate k (CHR ''0'')"
    using strip_zeros [of "pad_digits 9 n"] by (rule exE)
  have z: "\<not> is_digit (CHR ''Z'')" by code_simp
  have len: "length (pad_digits 9 n) = 9" using pad_digits_length [of n 8] assms by simp
  have v: "foldl (\<lambda>a c. a * 10 + int (digit_val c)) 0 (pad_digits 9 n) = int n"
    using foldl_int_digits [of 0 "pad_digits 9 n"] by (simp add: pad_digits_value)
  have "int n \<noteq> 0" using False by simp
  from parse_frac_stripped [OF ds len pad_digits_digits v this z] False show ?thesis by (simp add: frac_nano_def)
qed

lemma parse_format_nano:
  assumes "printable t"
  shows "parse_rfc3339 (format_nano t) = Some t"
proof -
  have m: "0 \<le> t mod 1000000000" "t mod 1000000000 < 1000000000" by simp_all
  then have "parse_frac (frac_nano (nat (t mod 1000000000)) @ ''Z'') = (t mod 1000000000, ''Z'')"
    using parse_frac_nano [of "nat (t mod 1000000000)"] by (simp add: nat_less_iff)
  from parse_clock [OF assms this] show ?thesis by (simp add: format_nano_def)
qed

lemma format_plain_whole: "0 \<le> n \<Longrightarrow> format_plain (of_int n) = nat_digits (nat n)"
proof -
  assume n: "0 \<le> n"
  obtain xs where "[0 ..< 1075] = 0 # xs" using upt_conv_Cons [of 0 1075, OF zero_less_numeral] by (rule that)
  then have "decimal_places (of_int n) = Some 0" unfolding decimal_places_def by simp
  with n show ?thesis by (simp add: format_plain_def)
qed

text \<open>A row's fields determine the reading, for printable times and whole positive counters.\<close>

definition exportable :: "reading \<Rightarrow> bool" where
  "exportable r \<longleftrightarrow> printable (TS r) \<and> int64_min \<le> EndpointID r \<and> EndpointID r \<le> int64_max
     \<and> (case EndpointType r of None \<Rightarrow> True | Some t \<Rightarrow> int64_min \<le> t \<and> t \<le> int64_max)
     \<and> (case reading.Consumption r of None \<Rightarrow> True | Some c \<Rightarrow> (\<exists>n. c = of_int n \<and> 0 < n \<and> n < 2 ^ 63))"

definition import_reading :: "string list \<Rightarrow> reading option" where
  "import_reading fs =
     (case fs of [ts, ty, i, et, c, src] \<Rightarrow>
        (case (parse_rfc3339 ts, parse_int i) of
           (Some t, Some n) \<Rightarrow> Some \<lparr>TS = t, MsgType = ty, EndpointID = n, EndpointType = parse_int et, Consumption = parse_float c, Source = src\<rparr>
         | _ \<Rightarrow> None)
      | _ \<Rightarrow> None)"

lemma parse_int_nil: "parse_int [] = None" by (simp add: parse_int_def parse_uint_def)

lemma parse_float_nil: "parse_float [] = None"
  by (simp only: parse_float_def Let_def list.case takeWhile.simps dropWhile.simps prod.case append_Nil simp_thms if_True if_False)

lemma export_type: "exportable r \<Longrightarrow> parse_int (case EndpointType r of None \<Rightarrow> [] | Some t \<Rightarrow> format_int t) = EndpointType r"
  by (cases "EndpointType r") (simp_all add: exportable_def parse_int_format_int parse_int_nil)

lemma whole_counter: "0 < n \<Longrightarrow> n < 2 ^ 63 \<Longrightarrow> parse_float (format_plain (of_int n)) = Some (of_int n)"
proof -
  assume n: "0 < n" "n < 2 ^ 63"
  have "nat n < 2 ^ 63" using n by (subst nat_less_iff) (rule less_imp_le, assumption, simp)
  moreover have "0 < nat n" using n(1) by simp
  ultimately have "parse_float (nat_digits (nat n)) = Some (real (nat n))" by (intro parse_float_nat_digits)
  moreover have "real (nat n) = of_int n" using n(1) by simp
  moreover have "format_plain (of_int n) = nat_digits (nat n)" using n(1) by (intro format_plain_whole) simp
  ultimately show ?thesis by (simp only:)
qed

lemma export_counter:
  assumes "exportable r"
  shows "parse_float (case reading.Consumption r of None \<Rightarrow> [] | Some c \<Rightarrow> format_plain c) = reading.Consumption r"
proof (cases "reading.Consumption r")
  case (Some c)
  then obtain n where n: "c = of_int n" "0 < n" "n < 2 ^ 63" using assms unfolding exportable_def by auto
  with Some whole_counter [OF n(2,3)] show ?thesis by (simp only: option.case)
qed (simp only: parse_float_nil option.case)

lemma import_export:
  assumes "exportable r"
  shows "import_reading (export_fields r) = Some r"
proof -
  have t: "parse_rfc3339 (format_nano (TS r)) = Some (TS r)" "parse_int (format_int (EndpointID r)) = Some (EndpointID r)"
    using assms by (simp_all add: exportable_def parse_format_nano parse_int_format_int)
  show ?thesis unfolding import_reading_def export_fields_def
    by (simp only: list.case t prod.case option.case export_type [OF assms] export_counter [OF assms]) simp
qed

lemma those_map_Some: "\<forall>x \<in> set xs. f (g x) = Some x \<Longrightarrow> those (map f (map g xs)) = Some xs"
  by (induction xs) auto

text \<open>
  C12. The export is complete and exact: read back by the rules of RFC 4180, the file is the header
  and one record per stored reading of the meter in the asked span, in the order of time, and the
  records determine the readings - the time to the nanosecond, the identifiers, the counter, and
  whatever commas, quotes or line breaks the message type and the source contain.
\<close>

theorem export_reads_back:
  assumes "handleExportCSV e idtext q st = Reply csv" "\<forall>(r, raw) \<in> set (st_readings st). exportable r"
  shows "\<exists>i rows. pathID idtext = Some i \<and> csv_read Unquoted [] [] csv = Some (csv_header # rows)
    \<and> those (map import_reading rows) = Some (MeterReadings i (Some (timeParam q ''since'' (ae_now e - 168 * hour))) (untilParam q (ae_now e)) st)"
proof -
  obtain i where i: "pathID idtext = Some i" using assms(1) by (cases "pathID idtext") (simp_all add: handleExportCSV_def with_id_def)
  let ?rs = "MeterReadings i (Some (timeParam q ''since'' (ae_now e - 168 * hour))) (untilParam q (ae_now e)) st"
  have f: "csv = concat (map csv_line (csv_header # map export_fields ?rs))"
    using assms(1) by (simp add: handleExportCSV_def with_id_def i reply_or_500_def split: if_splits)
  have "csv_read Unquoted [] [] csv = Some (csv_header # map export_fields ?rs)"
    unfolding f by (rule read_file) (auto simp: csv_header_def export_fields_def)
  moreover have "\<forall>r \<in> set ?rs. import_reading (export_fields r) = Some r"
    using assms(2) by (fastforce simp: MeterReadings_def intro: import_export)
  ultimately show ?thesis using i those_map_Some by blast
qed

lemma export_reads_back_witness:
  "let r = \<lparr>TS = 5, MsgType = ''SCM'', EndpointID = 7, EndpointType = Some 4, Consumption = Some 9, Source = ''a,b''\<rparr>;
       st = empty_store\<lparr>st_readings := [(r, [])]\<rparr>
   in \<exists>csv rows. handleExportCSV example_dash ''7'' [(''since'', ''1970-01-01T00:00:00Z'')] st = Reply csv
        \<and> csv_read Unquoted [] [] csv = Some (csv_header # rows) \<and> those (map import_reading rows) = Some [r]"
proof -
  let ?r = "\<lparr>TS = 5, MsgType = ''SCM'', EndpointID = 7, EndpointType = Some 4, Consumption = Some 9, Source = ''a,b''\<rparr>"
  let ?st = "empty_store\<lparr>st_readings := [(?r, [])]\<rparr>" and ?q = "[(''since'', ''1970-01-01T00:00:00Z'')]"
  have i: "pathID ''7'' = Some 7"
    by (simp add: pathID_def parse_int_def parse_uint_def is_digit_def digit_val_def code_of_def int64_min_def int64_max_def Let_def)
  have ok: "ae_oks example_dash 0" "ae_now example_dash = hour" by (simp_all add: example_dash_def)
  obtain csv where csv: "handleExportCSV example_dash ''7'' ?q ?st = Reply csv"
    unfolding handleExportCSV_def with_id_def i option.case reply_or_500_def if_P [OF ok(1)] by blast
  have p: "printable 5" by (rule printable_range) (simp_all add: day_ns_def)
  have x: "exportable ?r" using p by (auto simp: exportable_def int64_min_def int64_max_def intro: exI [of _ 9])
  then have a: "\<forall>(r, raw) \<in> set (st_readings ?st). exportable r" by simp
  have s: "timeParam ?q ''since'' (hour - 168 * hour) = 0"
  proof -
    have "parse_rfc3339 ''1970-01-01T00:00:00Z'' = Some 0" by code_simp
    then show ?thesis by (simp add: timeParam_def q_get_def)
  qed
  have u: "untilParam ?q hour = None" by (simp add: untilParam_def q_get_def)
  have m: "MeterReadings 7 (Some 0) None ?st = [?r]" by (simp add: MeterReadings_def)
  from export_reads_back [OF csv a] obtain rows where "csv_read Unquoted [] [] csv = Some (csv_header # rows)"
    "those (map import_reading rows) = Some (MeterReadings 7 (Some (timeParam ?q ''since'' (hour - 168 * hour))) (untilParam ?q hour) ?st)"
    unfolding i ok(2) by auto
  with csv show ?thesis unfolding s u m Let_def by blast
qed

end
