(* ===== verification/Schema.thy ===== *)
theory Schema
  imports Queries "HOL-Library.List_Lexorder" "HOL-Library.Char_ord"
begin

text \<open>
  The start of a service on an existing database (\<open>InitSchema\<close> of \<open>schema.go\<close>): the tables are
  there, and the two registries that ingest maintains are filled from the stored readings when
  they are empty. The statements that create tables, aggregates and policies leave the rows alone;
  \<open>ok k\<close> is the success of the lock, of the tables, and of the two backfill steps.
\<close>

section \<open>The backfill of the registries\<close>

definition present_counters :: "reading list \<Rightarrow> real list" where "present_counters rs = List.map_filter Consumption rs"

definition backfill_row :: "reading list \<Rightarrow> index_row option" where
  "backfill_row rs =
     (if rs = [] then None
      else (let cs = present_counters rs; tys = List.map_filter EndpointType rs in
        Some \<lparr>ix_msg_type = Some (Max (set (map MsgType rs))), ix_endpoint_type = (if tys = [] then None else Some (Max (set tys))),
              ix_first_seen = Min (set (map TS rs)), ix_last_seen = Max (set (map TS rs)), ix_packets = int (length rs),
              ix_min = (if cs = [] then None else Some (Min (set cs))), ix_max = (if cs = [] then None else Some (Max (set cs))),
              ix_last = (case newest_first (List.map_filter (\<lambda>r. map_option (Pair (TS r)) (Consumption r)) rs) of [] \<Rightarrow> None | (_, c) # _ \<Rightarrow> Some c),
              ix_last_ts = Max (set (map TS rs))\<rparr>))"

definition backfill_source :: "reading list \<Rightarrow> source_row option" where
  "backfill_source rs = (if rs = [] then None else Some \<lparr>so_packets = int (length rs), so_last_seen = Max (set (map TS rs))\<rparr>)"

text \<open>\<open>ids\<close> and \<open>pairs\<close> list the keys the registries may have; an empty registry has none of them.\<close>

definition backfill_index :: "int list \<Rightarrow> store \<Rightarrow> store" where
  "backfill_index ids st =
     (if (\<exists>i \<in> set ids. st_index st i \<noteq> None) then st else st\<lparr>st_index := (\<lambda>i. backfill_row (readings_of i st))\<rparr>)"

definition backfill_sources :: "(int \<times> string) list \<Rightarrow> store \<Rightarrow> store" where
  "backfill_sources pairs st =
     (if (\<exists>p \<in> set pairs. st_source st p \<noteq> None) then st
      else st\<lparr>st_source := (\<lambda>(i, s). backfill_source (filter (\<lambda>r. Source r = s) (readings_of i st)))\<rparr>)"

definition InitSchema :: "(nat \<Rightarrow> bool) \<Rightarrow> int list \<Rightarrow> (int \<times> string) list \<Rightarrow> store \<Rightarrow> bool \<times> store" where
  "InitSchema ok ids pairs st =
     (if \<not> ok 0 \<or> \<not> ok 1 then (False, st)
      else (let s1 = (if ok 2 then backfill_index ids st else st) in (True, if ok 3 then backfill_sources pairs s1 else s1)))"

section \<open>The backfill is what ingest would have kept\<close>

lemma insort_last: "\<forall>y \<in> set ys. f y < f x \<Longrightarrow> insort_key f x ys = ys @ [x]"
  by (induction ys) auto

lemma newest_first_rev: "sorted_wrt (<) (map fst xs) \<Longrightarrow> newest_first xs = rev xs"
  by (induction xs) (fastforce simp: newest_first_def intro!: insort_last)+

definition steady :: "reading list \<Rightarrow> bool" where
  "steady rs \<longleftrightarrow> sorted_wrt (<) (map TS rs) \<and> (\<forall>r \<in> set rs. Consumption r \<noteq> None)
     \<and> (\<forall>r \<in> set rs. \<forall>r' \<in> set rs. MsgType r = MsgType r' \<and> EndpointType r = EndpointType r')"

lemma fold_merge_types:
  assumes "\<forall>r \<in> set rs. MsgType r = MsgType r0 \<and> EndpointType r = EndpointType r0"
  shows "ix_msg_type (fold merge_index rs (new_index r0)) = Some (MsgType r0) \<and> ix_endpoint_type (fold merge_index rs (new_index r0)) = EndpointType r0"
  using assms by (induction rs rule: rev_induct) (auto simp: new_index_def merge_index_def split: option.split)

lemma newest_last:
  assumes "sorted_wrt (<) (map TS rs)" "rs \<noteq> []"
  shows "Max (TS ` set rs) = TS (last rs)" "Min (TS ` set rs) = TS (hd rs)" "newest_value rs = Consumption (last rs)"
proof -
  obtain xs r where r: "rs = xs @ [r]" using assms(2) by (metis rev_exhaust)
  have less: "TS x < TS r" if "x \<in> set xs" for x using assms(1) that by (auto simp: r sorted_wrt_append)
  show m: "Max (TS ` set rs) = TS (last rs)" unfolding r by (rule Max_eqI) (auto dest: less)
  have "filter (\<lambda>x. TS x = TS r) rs = [r]" unfolding r using less by (fastforce simp: filter_empty_conv)
  then show "newest_value rs = Consumption (last rs)" unfolding newest_value_def m by (simp add: r)
  obtain a ys where a: "rs = a # ys" using assms(2) by (cases rs) auto
  have "TS a \<le> TS x" if "x \<in> set ys" for x using assms(1) that by (auto simp: a less_imp_le)
  then show "Min (TS ` set rs) = TS (hd rs)" unfolding a by (intro Min_eqI) auto
qed

lemma constant_max: "xs \<noteq> [] \<Longrightarrow> \<forall>x \<in> set xs. x = c \<Longrightarrow> Max (set xs) = (c :: 'a :: linorder)"
  by (intro Max_eqI) (cases xs; auto)+

lemma all_present:
  assumes "\<forall>r \<in> set rs. Consumption r \<noteq> None"
  shows "present_counters rs = map (\<lambda>r. the (Consumption r)) rs"
    "List.map_filter (\<lambda>r. map_option (Pair (TS r)) (Consumption r)) rs = map (\<lambda>r. (TS r, the (Consumption r))) rs"
  using assms unfolding present_counters_def by (induction rs) (auto simp: List.map_filter_simps)

lemma newest_counter:
  fixes rs :: "reading list"
  assumes "sorted_wrt (<) (map TS rs)" "rs \<noteq> []" "\<forall>r \<in> set rs. Consumption r \<noteq> None"
  shows "(case newest_first (List.map_filter (\<lambda>r. map_option (Pair (TS r)) (Consumption r)) rs) of [] \<Rightarrow> None | (_, c) # _ \<Rightarrow> Some c)
    = Consumption (last rs)"
proof -
  have "newest_first (map (\<lambda>r. (TS r, the (Consumption r))) rs) = rev (map (\<lambda>r. (TS r, the (Consumption r))) rs)"
    using assms(1) by (intro newest_first_rev) (simp add: comp_def)
  then show ?thesis using assms(2,3) unfolding all_present(2) [OF assms(3)] by (cases rs rule: rev_cases) auto
qed

lemma constant_type:
  assumes "\<forall>r \<in> set rs. EndpointType r = t" "rs \<noteq> []"
  shows "(let tys = List.map_filter EndpointType rs in if tys = [] then None else Some (Max (set tys))) = t"
proof (cases t)
  case None
  then have "List.map_filter EndpointType rs = []" using assms(1) by (induction rs) (auto simp: List.map_filter_simps)
  with None show ?thesis by simp
next
  case (Some c)
  have "List.map_filter EndpointType rs = map (\<lambda>_. c) rs" using assms(1) Some by (induction rs) (auto simp: List.map_filter_simps)
  moreover have "Max (set (map (\<lambda>_. c) rs)) = c" using assms(2) by (intro constant_max) auto
  ultimately show ?thesis using assms(2) Some by simp
qed

lemma backfill_fields:
  assumes "rs \<noteq> []" "\<forall>r \<in> set rs. Consumption r \<noteq> None" "sorted_wrt (<) (map TS rs)" "\<forall>r \<in> set rs. MsgType r = ty \<and> EndpointType r = t"
  shows "backfill_row rs = Some \<lparr>ix_msg_type = Some ty, ix_endpoint_type = t, ix_first_seen = TS (hd rs), ix_last_seen = Max (TS ` set rs),
     ix_packets = int (length rs), ix_min = Some (Min ((\<lambda>r. the (Consumption r)) ` set rs)), ix_max = Some (Max ((\<lambda>r. the (Consumption r)) ` set rs)),
     ix_last = Consumption (last rs), ix_last_ts = Max (TS ` set rs)\<rparr>"
proof -
  have "Max (set (map MsgType rs)) = ty" using assms(1,4) by (intro constant_max) auto
  moreover have "EndpointType r = t" if "r \<in> set rs" for r using assms(4) that by blast
  ultimately show ?thesis
    using assms(1) newest_last(2) [OF assms(3,1)] constant_type [of rs t] newest_counter [OF assms(3,1,2)]
    unfolding backfill_row_def Let_def by (simp add: all_present [OF assms(2)])
qed

lemma backfill_is_index:
  assumes "steady rs"
  shows "backfill_row rs = index_of rs"
proof (cases rs)
  case (Cons r0 rest)
  have st: "steady (r0 # rest)" using assms by (simp only: Cons)
  have all: "\<forall>r \<in> set (r0 # rest). Consumption r \<noteq> None" and ts: "sorted_wrt (<) (map TS (r0 # rest))"
    using st unfolding steady_def by blast+
  have "MsgType r = MsgType r0 \<and> EndpointType r = EndpointType r0" if "r \<in> set (r0 # rest)" for r
    using st that unfolding steady_def by (meson list.set_intros(1))
  then have same: "\<forall>r \<in> set (r0 # rest). MsgType r = MsgType r0 \<and> EndpointType r = EndpointType r0" by (rule ballI)
  have T: "ix_msg_type (fold merge_index rest (new_index r0)) = Some (MsgType r0)" "ix_endpoint_type (fold merge_index rest (new_index r0)) = EndpointType r0"
    using fold_merge_types [of rest r0] same by (meson list.set_intros(2))+
  have b: "backfill_row (r0 # rest) = Some (fold merge_index rest (new_index r0))"
    unfolding backfill_fields [OF list.distinct(2) all ts same] option.inject
    by (rule index_row.equality; (simp only: index_row.simps fold_merge_facts [OF all] T newest_last(3) [OF ts list.distinct(2)] list.sel)?) simp
  show ?thesis unfolding Cons b by (simp add: index_of_def)
qed (simp add: backfill_row_def index_of_def)

section \<open>Starting is idempotent\<close>

lemma backfill_keeps: "st_readings (backfill_index ids st) = st_readings st" "st_readings (backfill_sources pairs st) = st_readings st"
  "st_index (backfill_sources pairs st) = st_index st" "st_source (backfill_index ids st) = st_source st"
  by (simp_all add: backfill_index_def backfill_sources_def)

lemma readings_of_cong: "st_readings s = st_readings t \<Longrightarrow> readings_of i s = readings_of i t"
  by (simp add: readings_of_def)

lemma backfill_index_again: "st_index s = st_index (backfill_index ids st) \<Longrightarrow> st_readings s = st_readings st \<Longrightarrow> backfill_index ids s = s"
  using readings_of_cong [of s st] by (cases "\<exists>i \<in> set ids. st_index s i \<noteq> None") (auto simp: backfill_index_def split: if_splits)

lemma backfill_sources_again: "backfill_sources pairs (backfill_sources pairs st) = backfill_sources pairs st"
  using readings_of_cong [of "backfill_sources pairs st" st] by (auto simp: backfill_sources_def)



end
