(* ===== verification/Dongles.thy ===== *)
theory Dongles
  imports Capture
begin

text \<open>
  How the capture service finds its dongles (\<open>enumerateRTL\<close> of \<open>devices.go\<close>: the listing of
  \<open>rtl_test\<close>, read line by line with three regular expressions) and what it does without any
  (\<open>mockStream\<close> of \<open>mock.go\<close>). The expressions are matched byte by byte: their separators are
  ASCII, and no line contains a line feed. What the tool prints, what the clock shows and what
  the generator of random numbers draws are arguments.
\<close>

section \<open>Lines\<close>

text \<open>\<open>bufio.Scanner\<close>: lines without their ending; one that does not fit the buffer ends the scan.\<close>

definition scan_buffer :: nat where "scan_buffer = 65536"

definition drop_cr :: "string \<Rightarrow> string" where
  "drop_cr l = (if l \<noteq> [] \<and> last l = CHR 0x0D then butlast l else l)"

definition text_lines :: "string \<Rightarrow> string list" where
  "text_lines s = (let ls = split_on (CHR 0x0A) s in if last ls = [] then butlast ls else ls)"

definition scan_lines :: "string \<Rightarrow> string list" where
  "scan_lines s = map drop_cr (takeWhile (\<lambda>l. length l < scan_buffer) (text_lines s))"

section \<open>The expressions\<close>

definition re_space :: "char \<Rightarrow> bool" where
  "re_space c \<longleftrightarrow> code_of c \<in> {9, 10, 12, 13, 32}"

definition after_prefix :: "string \<Rightarrow> string \<Rightarrow> string option" where
  "after_prefix p s = (if has_prefix s p then Some (drop (length p) s) else None)"

text \<open>\<open>\s+\<close>, taken whole: what follows it never begins with a space.\<close>

definition after_spaces :: "string \<Rightarrow> string option" where
  "after_spaces s = (if s \<noteq> [] \<and> re_space (hd s) then Some (dropWhile re_space s) else None)"

definition found_here :: "string \<Rightarrow> string option" where
  "found_here s =
     (case after_prefix ''Found '' s of None \<Rightarrow> None
      | Some t \<Rightarrow> let d = takeWhile is_digit t in
          if d \<noteq> [] \<and> has_prefix (dropWhile is_digit t) '' device'' then Some d else None)"

text \<open>\<open>foundRe\<close>, the leftmost match.\<close>

fun foundRe :: "string \<Rightarrow> string option" where
  "foundRe [] = None"
| "foundRe (c # s) = (case found_here (c # s) of Some d \<Rightarrow> Some d | None \<Rightarrow> foundRe s)"

text \<open>The greedy \<open>.+\<close> before a literal: everything before its last occurrence.\<close>

fun before_last :: "string \<Rightarrow> string \<Rightarrow> string option" where
  "before_last p [] = None"
| "before_last p (c # s) =
     (case before_last p s of Some x \<Rightarrow> Some (c # x) | None \<Rightarrow> if has_prefix (c # s) p then Some [] else None)"

definition tuner_here :: "string \<Rightarrow> string option" where
  "tuner_here s =
     (case after_prefix ''Found '' s of None \<Rightarrow> None
      | Some t \<Rightarrow> (case before_last '' tuner'' t of Some (c # x) \<Rightarrow> Some (c # x) | _ \<Rightarrow> None))"

fun tunerRe :: "string \<Rightarrow> string option" where
  "tunerRe [] = None"
| "tunerRe (c # s) = (case tuner_here (c # s) of Some t \<Rightarrow> Some t | None \<Rightarrow> tunerRe s)"

text \<open>\<open>devLineRe\<close>: index, and the two lazy groups with the serial after them.\<close>

definition after_comma :: "string \<Rightarrow> string option" where
  "after_comma s = (case after_prefix '','' s of None \<Rightarrow> None | Some t \<Rightarrow> after_spaces t)"

definition after_sn :: "string \<Rightarrow> string option" where
  "after_sn s =
     (case after_comma s of None \<Rightarrow> None
      | Some t \<Rightarrow> (case after_prefix ''SN:'' t of None \<Rightarrow> None | Some u \<Rightarrow> after_spaces u))"

fun lazy_product :: "string \<Rightarrow> (string \<times> string) option" where
  "lazy_product [] = None"
| "lazy_product (c # s) =
     (case after_sn (c # s) of Some sn \<Rightarrow> Some ([], sn) | None \<Rightarrow> map_option (\<lambda>(y, sn). (c # y, sn)) (lazy_product s))"

fun lazy_vendor :: "string \<Rightarrow> (string \<times> string \<times> string) option" where
  "lazy_vendor [] = None"
| "lazy_vendor (c # s) =
     (case (case after_comma (c # s) of None \<Rightarrow> None | Some t \<Rightarrow> lazy_product t) of
        Some (y, sn) \<Rightarrow> Some ([], y, sn)
      | None \<Rightarrow> map_option (\<lambda>(x, y, sn). (c # x, y, sn)) (lazy_vendor s))"

definition devLineRe :: "string \<Rightarrow> (string \<times> string \<times> string \<times> string) option" where
  "devLineRe s =
     (let t = dropWhile re_space s; d = takeWhile is_digit t in
      if d = [] then None
      else (case after_prefix '':'' (dropWhile is_digit t) of None \<Rightarrow> None
            | Some u \<Rightarrow> (case after_spaces u of None \<Rightarrow> None
                        | Some v \<Rightarrow> map_option (\<lambda>(x, y, sn). (d, x, y, sn)) (lazy_vendor v))))"

section \<open>The enumeration\<close>

record scan =
  sn_want :: int
  sn_tuner :: string
  sn_devs :: "sdrDevice list"

definition listed_device :: "string \<times> string \<times> string \<times> string \<Rightarrow> sdrDevice" where
  "listed_device m = (case m of (i, v, p, sn) \<Rightarrow>
     \<lparr>sd_index = atoi_value i, sd_serial = trim_space sn, sd_name = trim_space (trim_space v @ '' '' @ trim_space p),
      sd_tuner = [], sd_source = []\<rparr>)"

definition scan_line :: "string \<Rightarrow> scan \<Rightarrow> scan" where
  "scan_line l s0 =
     (let s1 = (case foundRe l of None \<Rightarrow> s0 | Some d \<Rightarrow> s0\<lparr>sn_want := atoi_value d\<rparr>);
          s2 = (case devLineRe l of None \<Rightarrow> s1 | Some m \<Rightarrow> s1\<lparr>sn_devs := sn_devs s1 @ [listed_device m]\<rparr>)
      in case tunerRe l of None \<Rightarrow> s2 | Some t \<Rightarrow> s2\<lparr>sn_tuner := trim_space t\<rparr>)"

definition scan_done :: "scan \<Rightarrow> bool" where
  "scan_done s \<longleftrightarrow> 0 \<le> sn_want s \<and> sn_want s \<le> int (length (sn_devs s)) \<and> sn_tuner s \<noteq> []"

fun scan_list :: "string list \<Rightarrow> scan \<Rightarrow> scan" where
  "scan_list [] s = s"
| "scan_list (l # ls) s = (let s' = scan_line l s in if scan_done s' then s' else scan_list ls s')"

definition listing :: "string \<Rightarrow> sdrDevice list" where
  "listing out =
     (let s = scan_list (scan_lines out) \<lparr>sn_want = -1, sn_tuner = [], sn_devs = []\<rparr> in
      assignSources (map (\<lambda>d. d\<lparr>sd_tuner := sn_tuner s\<rparr>) (sn_devs s)))"

text \<open>How a probe of the bus goes: refused by the gate, without the tool, or with its output.\<close>

datatype probe = BusRefused | NoTool instant | Listed string instant

fun enumerateRTL :: "probe \<Rightarrow> usbGate \<Rightarrow> sdrDevice list \<times> usbGate" where
  "enumerateRTL BusRefused g = ([], g)"
| "enumerateRTL (NoTool now) g = ([], gate_fail now g)"
| "enumerateRTL (Listed out now) g = (let devs = listing out in (devs, if devs = [] then gate_fail now g else g))"

text \<open>The automatic form of \<open>resolveDevices\<close>: probe until something is found; None while it is not.\<close>

fun auto_detect :: "probe list \<Rightarrow> usbGate \<Rightarrow> sdrDevice list option \<times> usbGate" where
  "auto_detect [] g = (None, g)"
| "auto_detect (p # ps) g = (let (devs, g') = enumerateRTL p g in if devs \<noteq> [] then (Some devs, g') else auto_detect ps g')"

section \<open>Waiting for the receiver\<close>

text \<open>
  \<open>waitListening\<close>: one turn sees a cancellation, the result of the connection attempt, the time
  after it and whether the pause was cancelled. None while the turns last.
\<close>

record poll =
  po_cancelled :: bool
  po_connected :: bool
  po_now :: instant
  po_slept :: bool

fun waitListening :: "instant \<Rightarrow> poll list \<Rightarrow> bool option" where
  "waitListening deadline [] = None"
| "waitListening deadline (p # ps) =
     (if po_cancelled p then Some False
      else if po_connected p then Some True
      else if po_now p > deadline then Some False
      else if \<not> po_slept p then Some False
      else waitListening deadline ps)"

text \<open>\<open>mustDB\<close> of the services: thirty attempts, then the process ends (\<open>Some False\<close>).\<close>

fun mustDB :: "nat \<Rightarrow> bool list \<Rightarrow> bool option" where
  "mustDB attempt oks =
     (if attempt > 30 then Some False
      else (case oks of [] \<Rightarrow> None | ok # more_oks \<Rightarrow> if ok then Some True else mustDB (attempt + 1) more_oks))"

declare mustDB.simps [simp del]

section \<open>Synthetic data\<close>

text \<open>\<open>emit\<close>: one draw per meter, \<open>k\<close> is the number of the call.\<close>

definition elapsed_minutes :: "instant \<Rightarrow> instant \<Rightarrow> real" where
  "elapsed_minutes start ts = of_int (time_sub ts start) / of_int minute"

definition emitted :: "(nat \<Rightarrow> real) \<Rightarrow> nat \<Rightarrow> mockMeter list" where
  "emitted draws k =
     map snd (filter (\<lambda>(i, m). \<not> draws (length mockMeters * k + i) < 5 / 100) (enumerate 0 mockMeters))"

definition emit :: "(nat \<Rightarrow> real) \<Rightarrow> instant \<Rightarrow> nat \<Rightarrow> instant \<Rightarrow> string list" where
  "emit draws start k ts = map (\<lambda>m. mockLine m (mockConsumption m (elapsed_minutes start ts)) ts) (emitted draws k)"

text \<open>
  The times of the calls, from what each turn reads: the clock and whether the context is
  cancelled. The second component is what the live loop still has to see.
\<close>

fun backfill_times :: "instant \<Rightarrow> (instant \<times> bool) list \<Rightarrow> instant list \<times> (instant \<times> bool) list" where
  "backfill_times ts [] = ([], [])"
| "backfill_times ts ((now, cancelled) # turns) =
     (if ts < now then
        (if cancelled then ([], []) else (let (a, b) = backfill_times (ts + 30 * second) turns in (ts # a, b)))
      else ([], turns))"

fun live_times :: "(instant \<times> bool) list \<Rightarrow> instant list" where
  "live_times [] = []"
| "live_times ((now, cancelled) # turns) = (if cancelled then [] else now # live_times turns)"

definition mock_times :: "instant \<Rightarrow> (instant \<times> bool) list \<Rightarrow> instant list" where
  "mock_times start turns = (let (a, b) = backfill_times start turns in a @ live_times b)"

definition mock_start :: "instant \<Rightarrow> instant" where "mock_start now = now - 3 * hour"

definition mockStream :: "(nat \<Rightarrow> real) \<Rightarrow> instant \<Rightarrow> (instant \<times> bool) list \<Rightarrow> string list" where
  "mockStream draws now turns =
     concat (map (\<lambda>(k, ts). emit draws (mock_start now) k ts) (enumerate 0 (mock_times (mock_start now) turns)))"

text \<open>
  One round of \<open>superviseMock\<close>: the reader of the stream is \<open>ingest\<close>; \<open>w\<close> gives each line the time
  it is read at and what the database does with it.
\<close>

definition mock_round ::
    "string \<Rightarrow> (nat \<Rightarrow> real) \<Rightarrow> instant \<Rightarrow> (instant \<times> bool) list \<Rightarrow> (nat \<Rightarrow> instant \<times> insert_ok \<times> bool) \<Rightarrow> bool \<Rightarrow> store
     \<Rightarrow> (bool \<times> int) option \<times> store" where
  "mock_round source draws now turns w hb st =
     ingest db_sink source now hb
       (map (\<lambda>(i, l). case w i of (t, ok, hb') \<Rightarrow> Line l t ok hb') (enumerate 0 (mockStream draws now turns))) st"
section \<open>What the tool prints is what is found\<close>

text \<open>The output of \<open>rtl_test\<close>: a count, one line per dongle, other lines, and the tuner.\<close>

record usb_dongle =
  ud_index :: nat
  ud_vendor :: string
  ud_product :: string
  ud_serial :: string

definition device_line :: "usb_dongle \<Rightarrow> string" where
  "device_line u = ''  '' @ nat_digits (ud_index u) @ '':  '' @ ud_vendor u @ '', '' @ ud_product u @ '', SN: '' @ ud_serial u"

definition count_line :: "nat \<Rightarrow> string" where "count_line n = ''Found '' @ nat_digits n @ '' device(s):''"
definition tuner_line :: "string \<Rightarrow> string" where "tuner_line t = ''Found '' @ t @ '' tuner''"

definition rtl_output :: "usb_dongle list \<Rightarrow> string list \<Rightarrow> string \<Rightarrow> string \<Rightarrow> string" where
  "rtl_output us mid tuner rest =
     concat (map (\<lambda>l. l @ [CHR 0x0A]) (count_line (length us) # map device_line us @ mid @ [tuner_line tuner])) @ rest"

definition read_dongle :: "string \<Rightarrow> usb_dongle \<Rightarrow> sdrDevice" where
  "read_dongle tuner u =
     \<lparr>sd_index = int (ud_index u), sd_serial = ud_serial u, sd_name = trim_space (ud_vendor u @ '' '' @ ud_product u),
      sd_tuner = tuner, sd_source = []\<rparr>"

text \<open>Names without commas, no line that looks like a count or a tuner, no control characters.\<close>

definition short_line :: "string \<Rightarrow> bool" where
  "short_line l \<longleftrightarrow> length l < scan_buffer \<and> CHR 0x0A \<notin> set l \<and> CHR 0x0D \<notin> set l"

definition quiet_line :: "string \<Rightarrow> bool" where
  "quiet_line l \<longleftrightarrow> foundRe l = None \<and> tunerRe l = None"

definition plain_name :: "string \<Rightarrow> bool" where
  "plain_name s \<longleftrightarrow> CHR '','' \<notin> set s \<and> trim_space s = s"

definition plain_dongle :: "usb_dongle \<Rightarrow> bool" where
  "plain_dongle u \<longleftrightarrow> int (ud_index u) \<le> int64_max \<and> plain_name (ud_vendor u) \<and> plain_name (ud_product u)
     \<and> trim_space (ud_serial u) = ud_serial u \<and> quiet_line (device_line u) \<and> short_line (device_line u)"

lemma has_prefix_append [simp]: "has_prefix (p @ s) p"
  by (induction p) auto

lemma after_prefix_append [simp]: "after_prefix p (p @ s) = Some s"
  by (simp add: after_prefix_def)

lemma after_prefix_other: "c \<noteq> p \<Longrightarrow> after_prefix (p # ps) (c # s) = None"
  by (simp add: after_prefix_def)

lemma split_on_line: "CHR 0x0A \<notin> set l \<Longrightarrow> split_on (CHR 0x0A) (l @ CHR 0x0A # s) = l # split_on (CHR 0x0A) s"
  by (induction l) auto

lemma text_lines_cons: "CHR 0x0A \<notin> set l \<Longrightarrow> text_lines (l @ CHR 0x0A # s) = l # text_lines s"
  using split_on_nonempty [of "CHR 0x0A" s] by (simp add: text_lines_def split_on_line Let_def)

lemma scan_lines_cons: "short_line l \<Longrightarrow> scan_lines (l @ CHR 0x0A # s) = l # scan_lines s"
  by (auto simp: scan_lines_def text_lines_cons short_line_def drop_cr_def dest: last_in_set)

lemma scan_lines_append:
  "list_all short_line ls \<Longrightarrow> scan_lines (concat (map (\<lambda>l. l @ [CHR 0x0A]) ls) @ s) = ls @ scan_lines s"
  by (induction ls) (simp_all add: scan_lines_cons)

lemma re_space_is_space: "re_space c \<Longrightarrow> is_space c"
  by (auto simp: re_space_def is_space_def)

lemma trimmed_no_space: "trim_space s = s \<Longrightarrow> s = [] \<or> \<not> re_space (hd s)"
  using trim_space_no_space_ends [of s] re_space_is_space [of "hd s"] by auto

lemma trimmed_dropWhile: "trim_space s = s \<Longrightarrow> dropWhile re_space s = s"
  using trimmed_no_space [of s] by (cases s) auto

lemma digits_then:
  assumes "\<not> is_digit c"
  shows "takeWhile is_digit (nat_digits n @ c # s) = nat_digits n" "dropWhile is_digit (nat_digits n @ c # s) = c # s"
  using nat_digits_all_digits [of n] assms by (simp_all add: takeWhile_append2 dropWhile_append2 list_all_iff)

lemma atoi_nat_digits: "int n \<le> int64_max \<Longrightarrow> atoi_value (nat_digits n) = int n"
  using parse_int_format_int [of "int n"] by (simp add: atoi_value_def format_int_def int64_min_def)

lemma after_spaces_plain [simp]: "trim_space s = s \<Longrightarrow> after_spaces (CHR '' '' # s) = Some s"
  using trimmed_dropWhile [of s] by (simp add: after_spaces_def re_space_def code_of_def)

lemma is_digit_punct [simp]: "\<not> is_digit CHR '' ''" "\<not> is_digit CHR '':''"
  by (simp_all add: is_digit_def code_of_def)

lemma after_comma_other: "CHR '','' \<noteq> c \<Longrightarrow> after_comma (c # s) = None"
  by (auto simp: after_comma_def after_prefix_def)

lemma after_comma_space [simp]: "trim_space s = s \<Longrightarrow> after_comma (CHR '','' # CHR '' '' # s) = Some s"
  by (simp add: after_comma_def after_prefix_def)

lemma after_comma_plain: "s = [] \<or> \<not> re_space (hd s) \<Longrightarrow> after_comma (CHR '','' # CHR '' '' # s) = Some s"
  by (cases s) (auto simp: after_comma_def after_prefix_def after_spaces_def re_space_def code_of_def)

lemma after_sn_plain [simp]: "trim_space sn = sn \<Longrightarrow> after_sn ('', SN: '' @ sn) = Some sn"
  by (simp add: after_sn_def after_comma_plain re_space_def code_of_def after_prefix_def)

lemma lazy_product_plain:
  "CHR '','' \<notin> set p \<Longrightarrow> trim_space sn = sn \<Longrightarrow> lazy_product (p @ '', SN: '' @ sn) = Some (p, sn)"
proof (induction p)
  case Nil
  then show ?case using after_sn_plain [of sn] by simp
next
  case (Cons c p)
  then show ?case by (simp add: after_sn_def after_comma_other)
qed

lemma product_start: "trim_space p = p \<Longrightarrow> p @ '', SN: '' @ sn = [] \<or> \<not> re_space (hd (p @ '', SN: '' @ sn))"
  using trimmed_no_space [of p] by (cases p) (auto simp: re_space_def code_of_def)

lemma lazy_vendor_plain:
  assumes "CHR '','' \<notin> set v" "plain_name p" "trim_space sn = sn"
  shows "lazy_vendor (v @ '', '' @ p @ '', SN: '' @ sn) = Some (v, p, sn)"
  using assms(1)
proof (induction v)
  case Nil
  have "after_comma ('', '' @ p @ '', SN: '' @ sn) = Some (p @ '', SN: '' @ sn)"
    using after_comma_plain [OF product_start [of p sn]] assms(2) by (simp add: plain_name_def)
  then show ?case using lazy_product_plain [of p sn] assms(2,3) by (simp add: plain_name_def)
next
  case (Cons c v)
  then show ?case by (simp add: after_comma_other)
qed

lemma devLineRe_device_line:
  assumes "plain_dongle u"
  shows "devLineRe (device_line u) = Some (nat_digits (ud_index u), ud_vendor u, ud_product u, ud_serial u)"
proof -
  let ?v = "ud_vendor u @ '', '' @ ud_product u @ '', SN: '' @ ud_serial u"
  have hd_digit: "is_digit (hd (nat_digits n))" for n
    using nat_digits_all_digits [of n] by (cases "nat_digits n") (auto simp: list_all_iff)
  have not_space: "\<not> re_space c" if "is_digit c" for c using that by (auto simp: is_digit_def re_space_def)
  have 1: "dropWhile re_space (device_line u) = nat_digits (ud_index u) @ CHR '':'' # CHR '' '' # CHR '' '' # ?v"
    using hd_digit [of "ud_index u"] not_space by (cases "nat_digits (ud_index u)") (auto simp: device_line_def re_space_def code_of_def)
  have "?v = [] \<or> \<not> re_space (hd ?v)"
    using assms trimmed_no_space [of "ud_vendor u"]
    by (cases "ud_vendor u") (auto simp: plain_dongle_def plain_name_def re_space_def code_of_def)
  then have "dropWhile re_space ?v = ?v" by (cases ?v) auto
  then have 2: "after_spaces (CHR '' '' # CHR '' '' # ?v) = Some ?v"
    by (simp add: after_spaces_def re_space_def code_of_def)
  show ?thesis
    using lazy_vendor_plain [of "ud_vendor u" "ud_product u" "ud_serial u"] assms 2
    by (simp add: devLineRe_def 1 digits_then after_prefix_def plain_dongle_def plain_name_def Let_def)
qed

lemma before_last_short: "length s < length p \<Longrightarrow> before_last p s = None"
proof (induction s)
  case (Cons c s)
  have "length q \<le> length t" if "has_prefix t q" for t q :: string
    using that by (induction t q rule: has_prefix.induct) auto
  then have "\<not> has_prefix (c # s) p" using Cons.prems by (force simp: not_le [symmetric])
  then show ?case using Cons by simp
qed simp

lemma before_last_append: "p \<noteq> [] \<Longrightarrow> before_last p (x @ p) = Some x"
proof (induction x)
  case Nil
  then show ?case using has_prefix_append [of p "[]"] before_last_short [of "tl p" p] by (cases p) auto
next
  case (Cons c x)
  then show ?case by simp
qed

lemma tunerRe_tuner_line: "t \<noteq> [] \<Longrightarrow> tunerRe (tuner_line t) = Some t"
  using before_last_append [of "'' tuner''" t] after_prefix_append [of "''Found ''" "t @ '' tuner''"]
  by (cases t) (simp_all add: tuner_line_def tuner_here_def)

lemma foundRe_count: "foundRe (count_line n) = Some (nat_digits n)"
  using after_prefix_append [of "''Found ''" "nat_digits n @ '' device(s):''"]
  by (simp add: count_line_def found_here_def digits_then Let_def)

lemma has_prefix_set: "has_prefix s p \<Longrightarrow> set p \<subseteq> set s"
  by (induction s p rule: has_prefix.induct) auto

lemma before_last_set: "before_last p s = Some x \<Longrightarrow> set p \<subseteq> set s"
  by (induction s arbitrary: x) (auto split: option.splits if_splits dest!: has_prefix_set)

lemma tuner_here_set: "tuner_here s = Some t \<Longrightarrow> CHR ''t'' \<in> set s"
proof -
  assume "tuner_here s = Some t"
  then obtain u x where "after_prefix ''Found '' s = Some u" "before_last '' tuner'' u = Some x"
    by (auto simp: tuner_here_def split: option.splits)
  then show ?thesis
    using before_last_set [of "'' tuner''" u x] by (auto simp: after_prefix_def split: if_splits dest: in_set_dropD)
qed

lemma tunerRe_set: "CHR ''t'' \<notin> set s \<Longrightarrow> tunerRe s = None"
proof (induction s)
  case (Cons c s)
  then have "tuner_here (c # s) = None" using tuner_here_set [of "c # s"] by (cases "tuner_here (c # s)") auto
  then show ?case using Cons by simp
qed simp

lemma tunerRe_count: "tunerRe (count_line n) = None"
proof (rule tunerRe_set)
  have "CHR ''t'' \<notin> set (nat_digits n)"
    using nat_digits_all_digits [of n] by (auto simp: list_all_iff is_digit_def code_of_def)
  then show "CHR ''t'' \<notin> set (count_line n)" by (simp add: count_line_def)
qed

lemma devLineRe_Found: "devLineRe (count_line n) = None" "devLineRe (tuner_line t) = None"
  by (simp_all add: count_line_def tuner_line_def devLineRe_def re_space_def is_digit_def code_of_def)

lemma count_line_short: "int n \<le> int64_max \<Longrightarrow> short_line (count_line n)"
proof -
  assume "int n \<le> int64_max"
  then have "n < 10 ^ Suc 18" by (simp add: int64_max_def)
  then have "length (nat_digits n) \<le> 19" using nat_digits_length [of n 18] by simp
  moreover have "CHR 0x0A \<notin> set (nat_digits n)" "CHR 0x0D \<notin> set (nat_digits n)"
    using nat_digits_all_digits [of n] by (auto simp: list_all_iff is_digit_def code_of_def)
  ultimately show ?thesis by (simp add: short_line_def count_line_def scan_buffer_def)
qed

lemma scan_count:
  "int n \<le> int64_max \<Longrightarrow> scan_line (count_line n) s = s\<lparr>sn_want := int n\<rparr>"
  by (simp add: scan_line_def foundRe_count tunerRe_count atoi_nat_digits devLineRe_Found)

lemma scan_devices:
  "list_all plain_dongle us \<Longrightarrow> sn_tuner s = []
   \<Longrightarrow> scan_list (map device_line us @ ls) s = scan_list ls (s\<lparr>sn_devs := sn_devs s @ map (\<lambda>u. (read_dongle t u)\<lparr>sd_tuner := []\<rparr>) us\<rparr>)"
proof (induction us arbitrary: s)
  case (Cons u us)
  have "listed_device (nat_digits (ud_index u), ud_vendor u, ud_product u, ud_serial u) = (read_dongle t u)\<lparr>sd_tuner := []\<rparr>"
    using Cons.prems(1) by (simp add: listed_device_def read_dongle_def atoi_nat_digits plain_dongle_def plain_name_def)
  then have "scan_line (device_line u) s = s\<lparr>sn_devs := sn_devs s @ [(read_dongle t u)\<lparr>sd_tuner := []\<rparr>]\<rparr>"
    using Cons.prems(1) devLineRe_device_line [of u] by (simp add: scan_line_def quiet_line_def plain_dongle_def)
  then show ?case using Cons by (simp add: scan_done_def)
qed simp

lemma scan_quiet:
  "list_all (\<lambda>l. short_line l \<and> quiet_line l \<and> devLineRe l = None) mid \<Longrightarrow> sn_tuner s = [] \<Longrightarrow> scan_list (mid @ ls) s = scan_list ls s"
  by (induction mid) (simp_all add: scan_line_def quiet_line_def scan_done_def)

lemma scan_tuner:
  "trim_space t = t \<Longrightarrow> t \<noteq> [] \<Longrightarrow> foundRe (tuner_line t) = None \<Longrightarrow> scan_line (tuner_line t) s = s\<lparr>sn_tuner := t\<rparr>"
  by (simp add: scan_line_def devLineRe_Found tunerRe_tuner_line)

lemma reread_dongle: "(read_dongle t u)\<lparr>sd_tuner := t\<rparr> = read_dongle t u"
  by (simp add: read_dongle_def)

text \<open>
  C2. Whatever dongles the tool lists, in whatever order, with plain names, the enumeration returns
  exactly them: index, serial, vendor and product joined, and the tuner printed after the list,
  each under its stable name; the output after the tuner changes nothing, and the backoff is
  charged exactly when the list is empty. With different indices, and serials that do not look like
  the fallback name of another, no two dongles share a source.
\<close>

theorem enumeration_reads_the_bus:
  assumes "list_all plain_dongle us" "int (length us) \<le> int64_max"
    and "list_all (\<lambda>l. short_line l \<and> quiet_line l \<and> devLineRe l = None) mid"
    and "trim_space tuner = tuner" "tuner \<noteq> []" "short_line (tuner_line tuner)" "foundRe (tuner_line tuner) = None"
    and "distinct (map ud_index us)"
    and "\<forall>u \<in> set us. \<forall>v \<in> set us. ud_serial u \<noteq> ''dev'' @ nat_digits (ud_index v)"
  shows "enumerateRTL (Listed (rtl_output us mid tuner rest) now) g =
           (assignSources (map (read_dongle tuner) us), if us = [] then gate_fail now g else g)
         \<and> distinct (map sd_source (assignSources (map (read_dongle tuner) us)))"
proof -
  let ?s0 = "\<lparr>sn_want = -1, sn_tuner = [], sn_devs = []\<rparr>"
  have short: "list_all short_line (count_line (length us) # map device_line us @ mid @ [tuner_line tuner])"
    using assms(1,3,6) count_line_short [OF assms(2)] by (auto simp: list_all_iff plain_dongle_def)
  have lines: "scan_lines (rtl_output us mid tuner rest) = count_line (length us) # map device_line us @ mid @ tuner_line tuner # scan_lines rest"
    using scan_lines_append [OF short, of rest] by (simp add: rtl_output_def)
  have "scan_list (scan_lines (rtl_output us mid tuner rest)) ?s0 =
    \<lparr>sn_want = int (length us), sn_tuner = tuner, sn_devs = map (\<lambda>u. (read_dongle tuner u)\<lparr>sd_tuner := []\<rparr>) us\<rparr>"
    unfolding lines using scan_count [OF assms(2)]
    by (simp add: Let_def assms(5) scan_done_def scan_devices [OF assms(1), where t = tuner] scan_quiet [OF assms(3)] scan_tuner [OF assms(4,5,7)])
  then have dev: "listing (rtl_output us mid tuner rest) = assignSources (map (read_dongle tuner) us)"
    by (simp add: listing_def comp_def reread_dongle)
  have "distinct (map sd_source (assignSources (map (read_dongle tuner) us)))"
    using assms(8,9) by (intro assignSources_distinct) (simp_all add: distinct_map inj_on_def comp_def read_dongle_def format_int_def)
  moreover have "assignSources (map (read_dongle tuner) us) = [] \<longleftrightarrow> us = []" by (simp add: assignSources_def)
  ultimately show ?thesis using dev by simp
qed

definition desk_dongle :: usb_dongle where
  "desk_dongle = \<lparr>ud_index = 0, ud_vendor = ''Realtek'', ud_product = ''RTL2838'', ud_serial = ''A1''\<rparr>"

lemma desk_dongle_plain: "plain_dongle desk_dongle"
proof -
  have "quiet_line (device_line desk_dongle)"
    by (simp add: quiet_line_def device_line_def desk_dongle_def found_here_def tuner_here_def after_prefix_def nat_digits.simps digit_char_0)
  moreover have "short_line (device_line desk_dongle)"
    by (simp add: short_line_def device_line_def desk_dongle_def nat_digits.simps digit_char_0 scan_buffer_def)
  moreover have "plain_name (ud_vendor desk_dongle)" "plain_name (ud_product desk_dongle)" "trim_space (ud_serial desk_dongle) = ud_serial desk_dongle"
    by (simp_all add: plain_name_def desk_dongle_def trim_space_def is_space_def code_of_def)
  ultimately show ?thesis by (simp add: plain_dongle_def) (simp add: desk_dongle_def int64_max_def)
qed

lemma enumeration_reads_the_bus_witness:
  "enumerateRTL (Listed (rtl_output [desk_dongle] [''Using device 0''] ''R820T'' ''Sampling'') 0) new_gate =
     ([\<lparr>sd_index = 0, sd_serial = ''A1'', sd_name = ''Realtek RTL2838'', sd_tuner = ''R820T'', sd_source = ''A1''\<rparr>], new_gate)"
proof -
  have "list_all (\<lambda>l. short_line l \<and> quiet_line l \<and> devLineRe l = None) [''Using device 0'']"
    by (simp add: short_line_def quiet_line_def found_here_def tuner_here_def after_prefix_def scan_buffer_def
        devLineRe_def re_space_def is_digit_def code_of_def)
  moreover have "trim_space ''R820T'' = ''R820T''" by (simp add: trim_space_def is_space_def code_of_def)
  moreover have "short_line (tuner_line ''R820T'')" by (simp add: short_line_def tuner_line_def scan_buffer_def)
  moreover have "foundRe (tuner_line ''R820T'') = None"
    by (simp add: tuner_line_def found_here_def after_prefix_def is_digit_def code_of_def)
  moreover have "\<forall>u \<in> set [desk_dongle]. \<forall>v \<in> set [desk_dongle]. ud_serial u \<noteq> ''dev'' @ nat_digits (ud_index v)"
    by (simp add: desk_dongle_def)
  ultimately have "enumerateRTL (Listed (rtl_output [desk_dongle] [''Using device 0''] ''R820T'' ''Sampling'') 0) new_gate =
      (assignSources (map (read_dongle ''R820T'') [desk_dongle]), if [desk_dongle] = [] then gate_fail 0 new_gate else new_gate)"
    using enumeration_reads_the_bus [of "[desk_dongle]" "[''Using device 0'']" "''R820T''" "''Sampling''" 0 new_gate] desk_dongle_plain
    by (simp add: int64_max_def)
  then show ?thesis
    by (simp add: assignSources_def assign_source_def read_dongle_def desk_dongle_def trim_space_def is_space_def code_of_def)
qed

section \<open>The expression for a device, declaratively\<close>

text \<open>What the regular expression accepts, as a decomposition of the line.\<close>

definition spaces :: "string \<Rightarrow> bool" where "spaces w \<longleftrightarrow> w \<noteq> [] \<and> list_all re_space w"

definition dev_line_shape :: "string \<Rightarrow> string \<Rightarrow> string \<Rightarrow> string \<Rightarrow> string \<Rightarrow> bool" where
  "dev_line_shape l d x y sn \<longleftrightarrow>
     (\<exists>w0 w1 w2 w3 w4. list_all re_space w0 \<and> d \<noteq> [] \<and> list_all is_digit d \<and> spaces w1 \<and> spaces w2 \<and> spaces w3 \<and> spaces w4
        \<and> l = w0 @ d @ '':'' @ w1 @ x @ '','' @ w2 @ y @ '','' @ w3 @ ''SN:'' @ w4 @ sn)"

lemma has_prefix_split: "has_prefix s p \<longleftrightarrow> (\<exists>t. s = p @ t)"
  by (induction s p rule: has_prefix.induct) auto

lemma after_prefix_iff: "after_prefix p s = Some t \<longleftrightarrow> s = p @ t"
  by (auto simp: after_prefix_def has_prefix_split)

lemma after_spaces_sound: "after_spaces s = Some t \<Longrightarrow> \<exists>w. spaces w \<and> s = w @ t"
proof -
  assume "after_spaces s = Some t"
  then have "s \<noteq> []" "re_space (hd s)" "t = dropWhile re_space s" by (auto simp: after_spaces_def split: if_splits)
  then have "spaces (takeWhile re_space s)" "s = takeWhile re_space s @ t"
    by (cases s; auto simp: spaces_def list_all_iff dest: set_takeWhileD)+
  then show ?thesis by blast
qed

lemma after_spaces_complete: "spaces w \<Longrightarrow> after_spaces (w @ t) = Some (dropWhile re_space t)"
  by (cases w) (auto simp: spaces_def after_spaces_def list_all_iff dropWhile_append2)

lemma after_comma_sound: "after_comma s = Some t \<Longrightarrow> \<exists>w. spaces w \<and> s = '','' @ w @ t"
  by (auto simp: after_comma_def after_prefix_iff split: option.splits dest!: after_spaces_sound)

lemma after_sn_sound: "after_sn s = Some t \<Longrightarrow> \<exists>w w'. spaces w \<and> spaces w' \<and> s = '','' @ w @ ''SN:'' @ w' @ t"
  by (auto simp: after_sn_def after_prefix_iff split: option.splits dest!: after_comma_sound after_spaces_sound)

lemma lazy_product_sound:
  "lazy_product s = Some (y, sn) \<Longrightarrow> \<exists>w w'. spaces w \<and> spaces w' \<and> s = y @ '','' @ w @ ''SN:'' @ w' @ sn"
proof (induction s arbitrary: y)
  case (Cons c s)
  then show ?case
    by (cases "after_sn (c # s)") (fastforce dest: after_sn_sound)+
qed simp

lemma lazy_vendor_sound:
  "lazy_vendor s = Some (x, y, sn) \<Longrightarrow>
   \<exists>w w' w''. spaces w \<and> spaces w' \<and> spaces w'' \<and> s = x @ '','' @ w @ y @ '','' @ w' @ ''SN:'' @ w'' @ sn"
proof (induction s arbitrary: x)
  case (Cons c s)
  show ?case
  proof (cases "case after_comma (c # s) of None \<Rightarrow> None | Some t \<Rightarrow> lazy_product t")
    case None
    then obtain x' where "lazy_vendor s = Some (x', y, sn)" "x = c # x'" using Cons.prems by auto
    then show ?thesis using Cons.IH [of x'] by auto
  next
    case (Some r)
    then have "x = []" "r = (y, sn)" using Cons.prems by (auto split: prod.splits)
    then show ?thesis using Some by (fastforce split: option.splits dest: after_comma_sound lazy_product_sound)
  qed
qed simp

lemma devLineRe_sound: "devLineRe l = Some (d, x, y, sn) \<Longrightarrow> dev_line_shape l d x y sn"
proof -
  define w0 t where "w0 = takeWhile re_space l" and "t = dropWhile re_space l"
  assume *: "devLineRe l = Some (d, x, y, sn)"
  then have d: "takeWhile is_digit t = d" "d \<noteq> []"
    by (auto simp: devLineRe_def t_def Let_def split: if_splits option.splits)
  from * obtain u v where u: "after_prefix '':'' (dropWhile is_digit t) = Some u" "after_spaces u = Some v" "lazy_vendor v = Some (x, y, sn)"
    by (auto simp: devLineRe_def t_def Let_def split: if_splits option.splits)
  have "l = w0 @ d @ dropWhile is_digit t" "list_all re_space w0" "list_all is_digit d"
    using d(1) by (auto simp: w0_def t_def list_all_iff dest: set_takeWhileD)
  moreover from u(1) have "dropWhile is_digit t = '':'' @ u" by (simp add: after_prefix_iff)
  moreover obtain w1 where "spaces w1" "u = w1 @ v" using after_spaces_sound [OF u(2)] by blast
  moreover obtain w2 w3 w4 where "spaces w2" "spaces w3" "spaces w4" "v = x @ '','' @ w2 @ y @ '','' @ w3 @ ''SN:'' @ w4 @ sn"
    using lazy_vendor_sound [OF u(3)] by blast
  ultimately show ?thesis using d(2) unfolding dev_line_shape_def by (metis append.assoc)
qed

lemma lazy_product_complete:
  "spaces w \<Longrightarrow> spaces w' \<Longrightarrow> \<exists>r. lazy_product (y @ '','' @ w @ ''SN:'' @ w' @ sn) = Some r"
proof (induction y)
  case Nil
  then have "after_sn ('','' @ w @ ''SN:'' @ w' @ sn) = Some (dropWhile re_space sn)"
    by (simp add: after_sn_def after_comma_def after_prefix_def after_spaces_complete re_space_def code_of_def)
  then show ?case by simp
next
  case (Cons c y)
  then show ?case by (auto split: option.splits)
qed

lemma lazy_product_skip: "lazy_product s = Some r \<Longrightarrow> \<exists>r'. lazy_product (dropWhile re_space s) = Some r'"
proof (induction s arbitrary: r)
  case (Cons c s)
  show ?case
  proof (cases "re_space c")
    case True
    then have "after_sn (c # s) = None" by (auto simp: after_sn_def after_comma_def after_prefix_def re_space_def code_of_def)
    then show ?thesis using Cons True by auto
  qed (use Cons.prems in auto)
qed simp

lemma lazy_vendor_complete:
  "spaces w \<Longrightarrow> lazy_product t = Some r \<Longrightarrow> \<exists>r'. lazy_vendor (x @ '','' @ w @ t) = Some r'"
proof (induction x)
  case Nil
  then obtain r' where "lazy_product (dropWhile re_space t) = Some r'" using lazy_product_skip by blast
  then show ?case using Nil by (auto simp: after_comma_def after_prefix_def after_spaces_complete)
next
  case (Cons c x)
  then show ?case by (auto split: option.splits)
qed

lemma lazy_vendor_skip: "lazy_vendor s = Some r \<Longrightarrow> \<exists>r'. lazy_vendor (dropWhile re_space s) = Some r'"
proof (induction s arbitrary: r)
  case (Cons c s)
  show ?case
  proof (cases "re_space c")
    case True
    then have "after_comma (c # s) = None" by (auto simp: after_comma_def after_prefix_def re_space_def code_of_def)
    then show ?thesis using Cons True by auto
  qed (use Cons.prems in \<open>cases r; auto\<close>)
qed simp

lemma devLineRe_complete: "dev_line_shape l d x y sn \<Longrightarrow> \<exists>r. devLineRe l = Some r"
proof -
  assume "dev_line_shape l d x y sn"
  then obtain w0 w1 w2 w3 w4 where w: "list_all re_space w0" "d \<noteq> []" "list_all is_digit d" "spaces w1" "spaces w2" "spaces w3" "spaces w4"
    and l: "l = w0 @ d @ '':'' @ w1 @ x @ '','' @ w2 @ y @ '','' @ w3 @ ''SN:'' @ w4 @ sn"
    unfolding dev_line_shape_def by blast
  define v where "v = x @ '','' @ w2 @ y @ '','' @ w3 @ ''SN:'' @ w4 @ sn"
  have "\<exists>r. lazy_vendor v = Some r"
    unfolding v_def using lazy_product_complete [OF w(6,7), of y sn] lazy_vendor_complete [OF w(5)] by blast
  then obtain r where r: "lazy_vendor (dropWhile re_space v) = Some r" using lazy_vendor_skip by blast
  have "dropWhile re_space l = d @ '':'' @ w1 @ v"
    using w(1-3) by (cases d) (auto simp: l v_def list_all_iff dropWhile_append2 re_space_def is_digit_def)
  moreover have "takeWhile is_digit (d @ '':'' @ w1 @ v) = d" "dropWhile is_digit (d @ '':'' @ w1 @ v) = '':'' @ w1 @ v"
    using w(3) by (auto simp: list_all_iff takeWhile_append2 dropWhile_append2)
  ultimately show ?thesis
    using w(2) r by (cases r) (simp add: devLineRe_def after_prefix_def after_spaces_complete [OF w(4)])
qed

text \<open>The matcher finds a decomposition exactly when there is one.\<close>

theorem devLineRe_iff: "(\<exists>r. devLineRe l = Some r) \<longleftrightarrow> (\<exists>d x y sn. dev_line_shape l d x y sn)"
  using devLineRe_sound devLineRe_complete by (metis prod_cases4)

section \<open>The synthetic stream arrives in the database\<close>

lemma mockMeters_ok: "m \<in> set mockMeters \<Longrightarrow> mock_ok m \<and> 50000 \<le> mm_base m \<and> mm_base m \<le> 400000 \<and> 0 \<le> mm_rate m \<and> mm_rate m \<le> 30"
  by (auto simp: mockMeters_def mk_mock_def mock_ok_def int64_max_def)

lemma round_even_bounds: "of_int a \<le> x \<Longrightarrow> x \<le> of_int b \<Longrightarrow> a \<le> round_even x \<and> round_even x \<le> b"
  unfolding round_even_def Let_def by (auto; linarith)

lemma mockConsumption_bounds:
  assumes "m \<in> set mockMeters" "0 \<le> el" "el \<le> 10 ^ 9"
  shows "1 \<le> round_even (mockConsumption m el)" "round_even (mockConsumption m el) \<le> int64_max" "0 \<le> mockConsumption m el"
proof -
  have b: "50000 \<le> mm_base m" "mm_base m \<le> 400000" "0 \<le> mm_rate m" "mm_rate m \<le> 30" using mockMeters_ok [OF assms(1)] by simp_all
  have r: "0 \<le> mm_rate m * el" "mm_rate m * el \<le> 30 * 10 ^ 9"
    using b(3) assms(2) mult_mono [OF b(4) assms(3)] assms(2) by simp_all
  have s: "0 \<le> (30 - mm_rate m) * on \<and> (30 - mm_rate m) * on \<le> 2700" if "0 \<le> on" "on \<le> 90" for on
    using that b(3,4) mult_mono [of "30 - mm_rate m" 30 on 90] by simp
  define on where "on = clamp el mockSpikeLoMin mockSpikeHiMin - mockSpikeLoMin"
  have on: "0 \<le> on" "on \<le> 90" by (simp_all add: on_def mockSpikeLoMin_def mockSpikeHiMin_def clamp_def)
  have "mockConsumption m el = mm_base m + mm_rate m * el + (if mm_id m = mockSpikeID then (30 - mm_rate m) * on else 0)"
    using on(1) by (simp add: mockConsumption_def Let_def mockSpikeRate_def flip: on_def)
  then have "50000 \<le> mockConsumption m el \<and> mockConsumption m el \<le> 10 ^ 12"
    using b(1,2) r s [OF on] by simp
  then show "1 \<le> round_even (mockConsumption m el)" "round_even (mockConsumption m el) \<le> int64_max" "0 \<le> mockConsumption m el"
    using round_even_bounds [of 50000 "mockConsumption m el" "10 ^ 12"] by (simp_all add: int64_max_def)
qed

lemma mockLine_trimmed: "trim_space (mockLine m v t) = mockLine m v t"
  by (rule trim_space_idem_aux)
    (simp add: mockLine_def Let_def is_space_def code_of_def)

lemma elapsed_bounds: "start \<le> ts \<Longrightarrow> 0 \<le> elapsed_minutes start ts \<and> elapsed_minutes start ts \<le> 10 ^ 9"
  by (auto simp: elapsed_minutes_def time_sub_def int64_max_def int64_min_def divide_le_eq)

text \<open>The clock of the service: not before the epoch, not after the year 9000, never back.\<close>

definition sane_turns :: "instant \<Rightarrow> (instant \<times> bool) list \<Rightarrow> bool" where
  "sane_turns now turns \<longleftrightarrow> 3 * hour \<le> now \<and> list_all (\<lambda>(t, c). now \<le> t \<and> t < 2560000 * day_ns) turns"

lemma backfill_times_ge: "t \<in> set (fst (backfill_times ts turns)) \<Longrightarrow> ts \<le> t"
proof (induction ts turns rule: backfill_times.induct)
  case (2 ts now cancelled turns)
  then show ?case by (cases "ts < now \<and> \<not> cancelled") (auto simp: case_prod_beta split: if_splits)
qed simp

lemma backfill_times_below: "t \<in> set (fst (backfill_times ts turns)) \<Longrightarrow> \<exists>u c. (u, c) \<in> set turns \<and> t < u"
proof (induction ts turns rule: backfill_times.induct)
  case (2 ts now cancelled turns)
  then show ?case by (cases "ts < now \<and> \<not> cancelled") (auto simp: case_prod_beta split: if_splits)
qed simp

lemma backfill_times_rest: "set (snd (backfill_times ts turns)) \<subseteq> set turns"
proof (induction ts turns rule: backfill_times.induct)
  case (2 ts now cancelled turns)
  then show ?case by (cases "ts < now \<and> \<not> cancelled") (auto simp: case_prod_beta)
qed simp

lemma live_times_range: "t \<in> set (live_times turns) \<Longrightarrow> \<exists>c. (t, c) \<in> set turns"
  by (induction turns rule: live_times.induct) (auto split: if_splits)

lemma mock_times_range:
  assumes "sane_turns now turns" "t \<in> set (mock_times (mock_start now) turns)"
  shows "mock_start now \<le> t \<and> printable t"
proof -
  have turns: "\<forall>(u, c) \<in> set turns. now \<le> u \<and> u < 2560000 * day_ns" "0 \<le> mock_start now" "mock_start now \<le> now"
    using assms(1) by (auto simp: sane_turns_def list_all_iff mock_start_def)
  have "mock_start now \<le> t \<and> t < 2560000 * day_ns"
  proof (cases "t \<in> set (fst (backfill_times (mock_start now) turns))")
    case True
    then show ?thesis using backfill_times_ge [OF True] backfill_times_below [OF True] turns by force
  next
    case False
    then have "t \<in> set (live_times (snd (backfill_times (mock_start now) turns)))"
      using assms(2) by (auto simp: mock_times_def case_prod_beta)
    then show ?thesis using live_times_range [of t] backfill_times_rest [of "mock_start now" turns] turns by fastforce
  qed
  then show ?thesis using printable_range [of t] turns(2) by simp
qed

text \<open>The packets of a stream: which meter was sent at which time.\<close>

definition mock_packets :: "(nat \<Rightarrow> real) \<Rightarrow> instant \<Rightarrow> (instant \<times> bool) list \<Rightarrow> (mockMeter \<times> instant) list" where
  "mock_packets draws now turns =
     concat (map (\<lambda>(k, ts). map (\<lambda>m. (m, ts)) (emitted draws k)) (enumerate 0 (mock_times (mock_start now) turns)))"

definition packet_line :: "instant \<Rightarrow> mockMeter \<times> instant \<Rightarrow> string" where
  "packet_line now p = (case p of (m, ts) \<Rightarrow> mockLine m (mockConsumption m (elapsed_minutes (mock_start now) ts)) ts)"

definition packet_reading :: "string \<Rightarrow> instant \<Rightarrow> mockMeter \<times> instant \<Rightarrow> reading" where
  "packet_reading source now p =
     (case p of (m, ts) \<Rightarrow> mock_reading m (mockConsumption m (elapsed_minutes (mock_start now) ts)) ts source)"

lemma mockStream_packets: "mockStream draws now turns = map (packet_line now) (mock_packets draws now turns)"
  by (simp add: mockStream_def mock_packets_def emit_def packet_line_def map_concat comp_def case_prod_unfold)

lemma mock_packet_ok:
  assumes "sane_turns now turns" "(m, ts) \<in> set (mock_packets draws now turns)"
  shows "m \<in> set mockMeters" "mock_start now \<le> ts" "printable ts"
proof -
  from assms(2) have "m \<in> set mockMeters \<and> ts \<in> set (mock_times (mock_start now) turns)"
    by (auto simp: mock_packets_def emitted_def enumerate_eq_zip dest: set_zip_leftD set_zip_rightD)
  then show "m \<in> set mockMeters" "mock_start now \<le> ts" "printable ts" using mock_times_range [OF assms(1)] by blast+
qed

lemma packet_decodes:
  assumes "sane_turns now turns" "p \<in> set (mock_packets draws now turns)"
  shows "decode_text t source (packet_line now p) = Some (packet_reading source now p)" "trim_space (packet_line now p) = packet_line now p"
proof -
  obtain m ts where p: "p = (m, ts)" by fastforce
  note ok = mock_packet_ok [OF assms(1) assms(2) [unfolded p]]
  note el = elapsed_bounds [OF ok(2)]
  show t: "trim_space (packet_line now p) = packet_line now p" by (simp add: packet_line_def p mockLine_trimmed)
  have ne: "packet_line now p \<noteq> []" by (simp add: packet_line_def p mockLine_def Let_def)
  have "ExtractReading t (packet_line now p) source = Some (packet_reading source now p)"
    using mock_roundtrip [OF _ ok(3) mockConsumption_bounds [OF ok(1)], where now = t and source = source] mockMeters_ok [OF ok(1)] el
    by (simp add: p packet_line_def packet_reading_def)
  then show "decode_text t source (packet_line now p) = Some (packet_reading source now p)"
    using t ne by (simp add: decode_text_def Let_def)
qed

definition line_events :: "(nat \<Rightarrow> instant \<times> 'o \<times> bool) \<Rightarrow> nat \<Rightarrow> string list \<Rightarrow> 'o event list" where
  "line_events w i ls = map (\<lambda>(j, l). case w j of (t, ok, hb) \<Rightarrow> Line l t ok hb) (enumerate i ls)"

lemma line_events_all:
  assumes "\<And>t l. l \<in> set ls \<Longrightarrow> decode_text t source l = Some (f l) \<and> trim_space l = l" "\<And>j. accepts (fst (snd (w j)))"
  shows "takeWhile (line_taken accepts source) (line_events w i ls) = line_events w i ls"
    "dropWhile (line_taken accepts source) (line_events w i ls) = []"
    "decoded_of source (line_events w i ls) = map (\<lambda>l. (f l, l)) ls"
proof -
  have "takeWhile (line_taken accepts source) (line_events w i ls) = line_events w i ls
      \<and> dropWhile (line_taken accepts source) (line_events w i ls) = []
      \<and> decoded_of source (line_events w i ls) = map (\<lambda>l. (f l, l)) ls"
    using assms(1)
  proof (induction ls arbitrary: i)
    case (Cons l ls)
    obtain t ok hb where w: "w i = (t, ok, hb)" by (cases "w i") auto
    then show ?case
      using Cons.IH [of "Suc i"] Cons.prems assms(2) [of i] by (simp add: line_events_def line_taken_def)
  qed (simp add: line_events_def)
  then show "takeWhile (line_taken accepts source) (line_events w i ls) = line_events w i ls"
    "dropWhile (line_taken accepts source) (line_events w i ls) = []"
    "decoded_of source (line_events w i ls) = map (\<lambda>l. (f l, l)) ls" by blast+
qed



section \<open>The loops end\<close>

text \<open>The backfill catches up with any clock that stays below a limit, half a minute a turn.\<close>

theorem backfill_catches_up:
  assumes "list_all (\<lambda>(t, c). t \<le> limit) turns"
  shows "int (length (fst (backfill_times ts turns))) * (30 * second) \<le> max 0 (limit - ts + 30 * second)"
  using assms
proof (induction ts turns rule: backfill_times.induct)
  case (2 ts now cancelled turns)
  then show ?case by (cases "ts < now \<and> \<not> cancelled") (auto simp: case_prod_beta algebra_simps max_def split: if_splits)
qed simp

text \<open>Thirty refused connections end a service; before that it goes on with the first accepted one.\<close>

lemma mustDB_all_refused: "list_all Not oks \<Longrightarrow> int attempt + int (length oks) > 30 \<Longrightarrow> mustDB attempt oks = Some False"
proof (induction oks arbitrary: attempt)
  case Nil
  then show ?case by (simp add: mustDB.simps)
next
  case (Cons ok oks)
  then show ?case by (cases "30 < attempt") (simp_all add: mustDB.simps [of attempt])
qed

theorem mustDB_result:
  "mustDB 1 oks = (if True \<in> set (take 30 oks) then Some True else if length oks < 30 then None else Some False)"
proof -
  have "mustDB (Suc k) oks = (if True \<in> set (take (30 - k) oks) then Some True else if length oks < 30 - k then None else Some False)" for k
  proof (induction oks arbitrary: k)
    case Nil
    then show ?case by (simp add: mustDB.simps)
  next
    case (Cons ok oks)
    show ?case
    proof (cases "k < 30")
      case True
      then obtain j where j: "30 - k = Suc j" "j = 30 - Suc k" by (cases "30 - k") auto
      show ?thesis using Cons.IH [of "Suc k"] True j by (simp add: mustDB.simps [of "Suc k"])
    qed (simp add: mustDB.simps)
  qed
  from this [of 0] show ?thesis by simp
qed

text \<open>A wait for the receiver ends with the first turn after the deadline.\<close>

lemma waitListening_ends: "p \<in> set ps \<Longrightarrow> deadline < po_now p \<Longrightarrow> waitListening deadline ps \<noteq> None"
  by (induction ps) auto

text \<open>The search for dongles charges the backoff of every probe before the one that finds some.\<close>

lemma auto_detect_finds:
  "list_all (\<lambda>p. case p of NoTool t \<Rightarrow> True | Listed out t \<Rightarrow> listing out = [] | BusRefused \<Rightarrow> False) ps \<Longrightarrow> listing out \<noteq> []
   \<Longrightarrow> fst (auto_detect (ps @ [Listed out now]) g) = Some (listing out)
     \<and> g_fails (snd (auto_detect (ps @ [Listed out now]) g)) = g_fails g + length ps"
proof (induction ps arbitrary: g)
  case (Cons p ps)
  then show ?case by (cases p) (simp_all add: gate_fail_def Let_def)
qed (simp add: Let_def)

end
