(* ===== verification/Link.thy ===== *)
theory Link
  imports Home
begin

text \<open>
  The connection to Home Assistant: the HTTP client of \<open>internal/ha/ha.go\<close> and \<open>helper.go\<close>, and the
  socket of \<open>ws.go\<close>: the handshake \<open>authConn\<close> and the loop of \<open>StreamStates\<close> with its heartbeat and
  its read deadline. The network is an argument: what a request is answered, what each
  read of the handshake gives, and the events of the open connection with their times. A
  deadline lets an event at its very instant pass.
\<close>

section \<open>Requests\<close>

record http_request =
  rq_method :: string
  rq_url :: string
  rq_headers :: "(string \<times> string) list"
  rq_body :: string

record ha_client =
  hc_base :: string
  hc_token :: string

definition New_client :: "string \<Rightarrow> string \<Rightarrow> ha_client" where
  "New_client base token = \<lparr>hc_base = trim_right (CHR ''/'') base, hc_token = token\<rparr>"

definition get_request :: "ha_client \<Rightarrow> string \<Rightarrow> http_request" where
  "get_request c path =
     \<lparr>rq_method = ''GET'', rq_url = hc_base c @ path, rq_headers = [(''Authorization'', ''Bearer '' @ hc_token c)], rq_body = []\<rparr>"

definition post_request :: "ha_client \<Rightarrow> string \<Rightarrow> json \<Rightarrow> http_request" where
  "post_request c path body =
     \<lparr>rq_method = ''POST'', rq_url = hc_base c @ path,
      rq_headers = [(''Authorization'', ''Bearer '' @ hc_token c), (''Content-Type'', ''application/json'')], rq_body = enc body\<rparr>"

text \<open>The server is a function: status and body, or None for a failed exchange.\<close>

type_synonym server = "http_request \<Rightarrow> (int \<times> string) option"

definition client_get :: "server \<Rightarrow> ha_client \<Rightarrow> string \<Rightarrow> string option" where
  "client_get srv c path =
     (case srv (get_request c path) of None \<Rightarrow> None | Some (code, body) \<Rightarrow> if code \<noteq> 200 then None else Some body)"

definition client_post :: "server \<Rightarrow> ha_client \<Rightarrow> string \<Rightarrow> json \<Rightarrow> string option" where
  "client_post srv c path b =
     (case srv (post_request c path b) of None \<Rightarrow> None | Some (code, body) \<Rightarrow> if code \<ge> 300 then None else Some body)"

definition client_Test :: "server \<Rightarrow> ha_client \<Rightarrow> bool" where
  "client_Test srv c \<longleftrightarrow> client_get srv c ''/api/'' \<noteq> None"

definition history_path :: "string \<Rightarrow> instant \<Rightarrow> instant \<Rightarrow> string" where
  "history_path entity start stop =
     ''/api/history/period/'' @ format_rfc3339 start @ ''?filter_entity_id='' @ entity @ ''&end_time='' @ format_rfc3339 stop
       @ ''&minimal_response=true''"

definition attr_history_path :: "string \<Rightarrow> instant \<Rightarrow> instant \<Rightarrow> string" where
  "attr_history_path entity start stop =
     ''/api/history/period/'' @ format_rfc3339 start @ ''?filter_entity_id='' @ entity @ ''&end_time='' @ format_rfc3339 stop
       @ ''&significant_changes_only=0''"

definition client_History :: "server \<Rightarrow> ha_client \<Rightarrow> string \<Rightarrow> instant \<Rightarrow> instant \<Rightarrow> Sample list option" where
  "client_History srv c entity start stop = History (client_get srv c (history_path entity start stop))"

definition client_AttrHistory :: "server \<Rightarrow> ha_client \<Rightarrow> string \<Rightarrow> instant \<Rightarrow> instant \<Rightarrow> StateEvent list option" where
  "client_AttrHistory srv c entity start stop = AttrHistory (client_get srv c (attr_history_path entity start stop))"

section \<open>The handshake\<close>

text \<open>What the dial, the two reads and the write between them give; None is a failed read.\<close>

record handshake =
  hk_dialed :: bool
  hk_first :: "string option"
  hk_wrote :: bool
  hk_second :: "string option"

text \<open>Both messages are decoded into the same map, so the keys of the first stay.\<close>

definition read_message :: "string option \<Rightarrow> attrs \<Rightarrow> attrs option" where
  "read_message data old = obind data (\<lambda>d. obind (parse_json d) (\<lambda>v. dec_attrs v old))"

definition auth_frame :: "string \<Rightarrow> string" where
  "auth_frame token = enc (JObj [(''access_token'', JStr token), (''type'', JStr ''auth'')])"

text \<open>The result, and the frames it tried to send.\<close>

definition authConn :: "string \<Rightarrow> handshake \<Rightarrow> bool \<times> string list" where
  "authConn token h =
     (if \<not> hk_dialed h then (False, [])
      else (case read_message (hk_first h) Map.empty of None \<Rightarrow> (False, [])
            | Some m \<Rightarrow>
                if m ''type'' \<noteq> Some (JStr ''auth_required'') then (False, [])
                else if \<not> hk_wrote h then (False, [auth_frame token])
                else (case read_message (hk_second h) m of None \<Rightarrow> (False, [auth_frame token])
                      | Some m' \<Rightarrow> (m' ''type'' = Some (JStr ''auth_ok''), [auth_frame token]))))"

section \<open>The stream\<close>

definition wsIdleTimeout :: duration where "wsIdleTimeout = 6 * minute"

definition subscribe_frame :: "string list \<Rightarrow> string" where
  "subscribe_frame entities =
     enc (JObj [(''id'', JNum ''1''),
                (''trigger'', JObj [(''entity_id'', JArr (map JStr entities)), (''platform'', JStr ''state'')]),
                (''type'', JStr ''subscribe_trigger'')])"

definition ping_frame :: "nat \<Rightarrow> string" where
  "ping_frame i = enc (JObj [(''id'', JNum (nat_digits i)), (''type'', JStr ''ping'')])"

text \<open>
  A frame with the time at which its callbacks have returned, a read that fails, a ping that is
  due and written or not, and the end of the context.
\<close>

datatype link_event = Arrives string instant | ReadBroken | PingDue bool | Stopped

datatype stream_end = NoConnection | NotSubscribed | IdleTimeout | HeartbeatFailed | ReadFailed | ContextDone

type_synonym call = "string \<times> Sample option \<times> StateEvent"

text \<open>The event loop; None while it runs. The second component are the calls, the third the pings.\<close>

fun link_loop :: "instant \<Rightarrow> nat \<Rightarrow> (instant \<times> link_event) list \<Rightarrow> stream_end option \<times> call list \<times> string list" where
  "link_loop deadline i [] = (None, [], [])"
| "link_loop deadline i ((t, e) # es) =
     (if t > deadline then (Some IdleTimeout, [], [])
      else (case e of
         Arrives data returned \<Rightarrow>
           (let (r, calls, pings) = link_loop (returned + wsIdleTimeout) i es in
            (r, (case stream_frame t data of None \<Rightarrow> calls | Some c \<Rightarrow> c # calls), pings))
       | PingDue wrote \<Rightarrow>
           if wrote then (let (r, calls, pings) = link_loop deadline (i + 1) es in (r, calls, ping_frame i # pings))
           else (Some HeartbeatFailed, [], [ping_frame i])
       | ReadBroken \<Rightarrow> (Some ReadFailed, [], [])
       | Stopped \<Rightarrow> (Some ContextDone, [], [])))"

definition StreamStates ::
    "string \<Rightarrow> string list \<Rightarrow> handshake \<Rightarrow> bool \<Rightarrow> instant \<Rightarrow> (instant \<times> link_event) list \<Rightarrow> stream_end option \<times> call list \<times> string list" where
  "StreamStates token entities h subscribed start es =
     (let (ok, sent) = authConn token h in
      if \<not> ok then (Some NoConnection, [], sent)
      else if \<not> subscribed then (Some NotSubscribed, [], sent @ [subscribe_frame entities])
      else (let (r, calls, pings) = link_loop (start + wsIdleTimeout) 2 es in
            (r, calls, sent @ subscribe_frame entities # pings)))"

section \<open>Who gets the token\<close>

lemma read_message_first: "read_message data Map.empty = Some m \<Longrightarrow> m k = Some v \<Longrightarrow>
    \<exists>d kvs. data = Some d \<and> parse_json d = Some (JObj kvs) \<and> map_of (rev kvs) k = Some v"
  by (cases data) (auto simp: read_message_def dec_attrs_def obind_def split: option.splits json.splits)

lemma read_message_second: "read_message data old = Some m \<Longrightarrow> m k = Some v \<Longrightarrow> old k \<noteq> Some v \<Longrightarrow>
    \<exists>d kvs. data = Some d \<and> parse_json d = Some (JObj kvs) \<and> map_of (rev kvs) k = Some v"
  by (cases data) (auto simp: read_message_def dec_attrs_def obind_def map_add_Some_iff split: option.splits json.splits)

lemma link_loop_pings: "\<exists>n. snd (snd (link_loop dl i es)) = map ping_frame [i..<i + n]"
proof (induction dl i es rule: link_loop.induct)
  case (2 dl i t e es)
  show ?case
  proof (cases "t > dl")
    case True
    then show ?thesis by (auto intro: exI [of _ 0])
  next
    case False
    show ?thesis
    proof (cases e)
      case (Arrives data r)
      then show ?thesis using "2.IH"(1) [OF False Arrives] False by (simp add: case_prod_beta)
    next
      case (PingDue wrote)
      show ?thesis
      proof (cases wrote)
        case True
        then obtain n where "snd (snd (link_loop dl (i + 1) es)) = map ping_frame [i + 1..<i + 1 + n]"
          using "2.IH"(2) [OF False PingDue] by blast
        then show ?thesis using False PingDue True by (intro exI [of _ "Suc n"]) (simp add: case_prod_beta upt_conv_Cons del: upt_Suc)
      next
        case wrote: False
        then show ?thesis using False PingDue by (intro exI [of _ 1]) (simp add: upt_conv_Cons)
      qed
    qed (use False in \<open>auto intro: exI [of _ 0]\<close>)
  qed
qed (auto intro: exI [of _ 0])

text \<open>A message of the given type, as one JSON object; of repeated keys the last one counts.\<close>

definition message_of_type :: "string \<Rightarrow> string option \<Rightarrow> bool" where
  "message_of_type ty data =
     (case data of None \<Rightarrow> False
      | Some d \<Rightarrow> (case parse_json d of Some (JObj kvs) \<Rightarrow> map_of (rev kvs) ''type'' = Some (JStr ty) | _ \<Rightarrow> False))"


section \<open>A dead link surfaces, a live one stays\<close>

text \<open>When the peer was last heard: the return of the last callbacks, or the start.\<close>

fun last_heard :: "instant \<Rightarrow> (instant \<times> link_event) list \<Rightarrow> instant" where
  "last_heard start [] = start"
| "last_heard start ((t, e) # es) = last_heard (case e of Arrives data returned \<Rightarrow> returned | _ \<Rightarrow> start) es"

definition good_event :: "link_event \<Rightarrow> bool" where
  "good_event e = (case e of Arrives data returned \<Rightarrow> True | PingDue wrote \<Rightarrow> wrote | _ \<Rightarrow> False)"

definition in_time :: "instant \<Rightarrow> (instant \<times> link_event) list \<Rightarrow> nat \<Rightarrow> bool" where
  "in_time start es k \<longleftrightarrow> fst (es ! k) \<le> last_heard start (take k es) + wsIdleTimeout"

definition frame_call :: "instant \<times> link_event \<Rightarrow> call option" where
  "frame_call x = (case snd x of Arrives data returned \<Rightarrow> stream_frame (fst x) data | _ \<Rightarrow> None)"

lemma in_time_Suc: "in_time start ((t, e) # es) (Suc k) = in_time (case e of Arrives data returned \<Rightarrow> returned | _ \<Rightarrow> start) es k"
  by (simp add: in_time_def)

lemma link_loop_prefix:
  "\<exists>m \<le> length es. (\<forall>k < m. good_event (snd (es ! k)) \<and> in_time start es k)
     \<and> fst (snd (link_loop (start + wsIdleTimeout) i es)) = List.map_filter frame_call (take m es)
     \<and> (if m = length es then fst (link_loop (start + wsIdleTimeout) i es) = None
        else fst (link_loop (start + wsIdleTimeout) i es) =
          Some (if \<not> in_time start es m then IdleTimeout
                else case snd (es ! m) of ReadBroken \<Rightarrow> ReadFailed | Stopped \<Rightarrow> ContextDone | _ \<Rightarrow> HeartbeatFailed)
        \<and> \<not> (good_event (snd (es ! m)) \<and> in_time start es m))"
  (is "\<exists>m \<le> length es. ?P start i es m")
proof (induction es arbitrary: start i)
  case (Cons x es)
  obtain t e where x: "x = (t, e)" by fastforce
  show ?case
  proof (cases "t \<le> start + wsIdleTimeout \<and> good_event e")
    case False
    then have "?P start i (x # es) 0"
      by (auto simp: x in_time_def good_event_def List.map_filter_def split: link_event.splits)
    then show ?thesis by blast
  next
    case True
    define start' where "start' = (case e of Arrives data returned \<Rightarrow> returned | _ \<Rightarrow> start)"
    define i' where "i' = (case e of PingDue w \<Rightarrow> i + 1 | _ \<Rightarrow> i)"
    obtain m where m: "m \<le> length es" "?P start' i' es m" using Cons.IH [of start' i'] by blast
    have step: "fst (link_loop (start + wsIdleTimeout) i (x # es)) = fst (link_loop (start' + wsIdleTimeout) i' es)"
      "fst (snd (link_loop (start + wsIdleTimeout) i (x # es))) =
         (case frame_call (t, e) of None \<Rightarrow> id | Some c \<Rightarrow> (\<lambda>cs. c # cs)) (fst (snd (link_loop (start' + wsIdleTimeout) i' es)))"
      using True by (auto simp: x start'_def i'_def good_event_def frame_call_def case_prod_beta split: link_event.splits option.splits)
    have now: "in_time start (x # es) 0" "good_event (snd ((x # es) ! 0))" using True by (simp_all add: x in_time_def)
    have "?P start i (x # es) (Suc m)"
      using m(2) now unfolding step
      by (auto simp: x in_time_Suc start'_def [symmetric] less_Suc_eq_0_disj List.map_filter_def split: option.splits)
    moreover have "Suc m \<le> length (x # es)" using m(1) by simp
    ultimately show ?thesis by blast
  qed
qed (auto simp: List.map_filter_def)

text \<open>
  C31. The watchdog of the live subscription is exact. While an authenticated and subscribed stream runs,
  every read and ping succeeded and every event came at most six minutes after the peer was last
  heard; the first event that comes later ends it as a timeout, whatever pings were
  written in between, and the first failure as itself. Until then every frame has
  reached the callbacks once and in order, and nothing does afterwards.
\<close>

theorem stream_watchdog:
  assumes "fst (authConn token h)" subscribed
  shows "case StreamStates token entities h subscribed start es of (r, calls, sent) \<Rightarrow>
     \<exists>m \<le> length es. (\<forall>k < m. good_event (snd (es ! k)) \<and> in_time start es k)
       \<and> calls = List.map_filter frame_call (take m es)
       \<and> (if m = length es then r = None
          else r = Some (if \<not> in_time start es m then IdleTimeout
                         else case snd (es ! m) of ReadBroken \<Rightarrow> ReadFailed | Stopped \<Rightarrow> ContextDone | _ \<Rightarrow> HeartbeatFailed)
               \<and> \<not> (good_event (snd (es ! m)) \<and> in_time start es m))"
proof -
  have S: "fst (StreamStates token entities h subscribed start es) = fst (link_loop (start + wsIdleTimeout) 2 es)"
    "fst (snd (StreamStates token entities h subscribed start es)) = fst (snd (link_loop (start + wsIdleTimeout) 2 es))"
    using assms by (simp_all add: StreamStates_def case_prod_beta)
  show ?thesis unfolding case_prod_beta S by (rule link_loop_prefix)
qed

definition ok_handshake :: handshake where
  "ok_handshake = \<lparr>hk_dialed = True, hk_first = Some (enc (JObj [(''type'', JStr ''auth_required'')])), hk_wrote = True,
     hk_second = Some (enc (JObj [(''type'', JStr ''auth_ok'')]))\<rparr>"

lemma ok_handshake_accepted: "authConn token ok_handshake = (True, [auth_frame token])"
proof -
  have "parse_json (enc (JObj [(''type'', JStr t)])) = Some (JObj [(''type'', JStr t)])" for t by (intro parse_enc) simp
  then show ?thesis by (simp add: authConn_def ok_handshake_def read_message_def dec_attrs_def map_add_def del: enc.simps)
qed


definition fading_link :: "(instant \<times> link_event) list" where
  "fading_link = [(2 * minute, PingDue True), (4 * minute, PingDue True), (7 * minute, Arrives [] 0)]"

lemma fading_link_facts:
  "length fading_link = 3" "\<not> in_time 0 fading_link 2" "in_time 0 fading_link 0" "in_time 0 fading_link 1"
  "good_event (snd (fading_link ! 0))" "good_event (snd (fading_link ! 1))"
  by (simp_all add: fading_link_def in_time_def wsIdleTimeout_def good_event_def take_Cons' numeral_2_eq_2)

lemma stream_watchdog_witness: "fst (StreamStates ''t'' [''sensor.a''] ok_handshake True 0 fading_link) = Some IdleTimeout"
proof -
  have "fst (authConn ''t'' ok_handshake)" by (simp add: ok_handshake_accepted)
  from stream_watchdog [OF this TrueI, where entities = "[''sensor.a'']" and start = 0 and es = fading_link] obtain m where m:
    "m \<le> 3" "\<forall>k < m. in_time 0 fading_link k"
    "m \<noteq> 3 \<Longrightarrow> \<not> (good_event (snd (fading_link ! m)) \<and> in_time 0 fading_link m)"
    "m \<noteq> 3 \<Longrightarrow> \<not> in_time 0 fading_link m \<Longrightarrow> fst (StreamStates ''t'' [''sensor.a''] ok_handshake True 0 fading_link) = Some IdleTimeout"
    unfolding case_prod_beta fading_link_facts(1) by (auto split: if_splits)
  have "m \<noteq> 3" using m(2) fading_link_facts(2) by auto
  moreover have "m \<noteq> 0" using m(3) fading_link_facts(3,5) by (metis zero_neq_numeral)
  moreover have "m \<noteq> 1" using m(3) fading_link_facts(4,6) by (metis one_eq_numeral_iff semiring_norm(86))
  ultimately have "m = 2" using m(1) by linarith
  then show ?thesis using m(4) fading_link_facts(2) by simp
qed

end
