(* ===== verification/Pairing.thy ===== *)
theory Pairing
  imports Agents Api Events
begin

text \<open>
  How a remote agent and the server get to know each other: the fetch of the server's key
  (\<open>fetchServerKey\<close>, \<open>handleAgentServerKey\<close>), the pinned certificate of the dial client, the whole of
  \<open>handleAgentWS\<close> around the handshake, the pushes of configuration, and the card of the
  dashboard (\<open>handleAgents\<close>). SHA-256 and the parser of URLs are arguments.
\<close>

section \<open>Fingerprints and pins\<close>

text \<open>\<open>base64.RawStdEncoding\<close>: without the padding.\<close>

definition b64_raw :: "string \<Rightarrow> string" where
  "b64_raw s = takeWhile (\<lambda>c. c \<noteq> CHR ''='') (b64_encode s)"

definition Fingerprint :: "(string \<Rightarrow> string) \<Rightarrow> string \<Rightarrow> string" where
  "Fingerprint sha k = take 16 (b64_raw (sha k))"

text \<open>\<open>VerifyPeerCertificate\<close> of \<open>agentHTTPClient\<close>; without a pin every chain is accepted.\<close>

definition pin_matches :: "(string \<Rightarrow> string) \<Rightarrow> string \<Rightarrow> string \<Rightarrow> bool" where
  "pin_matches sha pin raw \<longleftrightarrow> equal_fold (take 16 (b64_raw (sha raw))) pin \<or> equal_fold (hexFP (sha raw)) pin"

definition peer_accepted :: "(string \<Rightarrow> string) \<Rightarrow> string \<Rightarrow> string list \<Rightarrow> bool" where
  "peer_accepted sha pin rawCerts \<longleftrightarrow> pin = [] \<or> list_ex (pin_matches sha pin) rawCerts"

section \<open>The key of the server\<close>

record agentCrypto =
  ac_pub :: string
  ac_priv :: string
  ac_tlsFP :: string

definition server_key_json :: "(string \<Rightarrow> string) \<Rightarrow> agentCrypto \<Rightarrow> json" where
  "server_key_json sha ac =
     JObj [(''server_fingerprint'', JStr (Fingerprint sha (ac_pub ac))), (''server_key'', JStr (EncodeKey (ac_pub ac)))]"

text \<open>Status and body of the answer.\<close>

definition handleAgentServerKey :: "(string \<Rightarrow> string) \<Rightarrow> agentCrypto option \<Rightarrow> int \<times> string" where
  "handleAgentServerKey sha ac =
     (case ac of None \<Rightarrow> (503, ''agent channel not initialized'' @ [CHR 0x0A]) | Some a \<Rightarrow> (200, enc (server_key_json sha a) @ [CHR 0x0A]))"

record url =
  u_Scheme :: string
  u_Host :: string
  u_Path :: string
  u_RawQuery :: string

definition serverkey_url :: "url \<Rightarrow> url" where
  "serverkey_url u =
     u\<lparr>u_Scheme := (if u_Scheme u = ''wss'' then ''https'' else if u_Scheme u = ''ws'' then ''http'' else u_Scheme u),
       u_Path := ''/api/agent/serverkey'', u_RawQuery := []\<rparr>"

definition key_field :: "string \<Rightarrow> json \<Rightarrow> string \<Rightarrow> string option" where
  "key_field k v old = (if equal_fold k ''server_key'' then dec_string v old else Some old)"

text \<open>\<open>u\<close> is the parsed address, \<open>get\<close> the exchange with the server.\<close>

definition fetchServerKey :: "url option \<Rightarrow> (url \<Rightarrow> (int \<times> string) option) \<Rightarrow> string option" where
  "fetchServerKey u get =
     obind u (\<lambda>u. obind (get (serverkey_url u)) (\<lambda>(code, body).
       if code \<noteq> 200 then None
       else obind (first_value body) (\<lambda>v. obind (dec_struct key_field v []) DecodeKey)))"

section \<open>One connection of an agent\<close>

text \<open>The event the dashboards refresh their card on.\<close>

definition agent_event_text :: string where "agent_event_text = enc (JObj [(''type'', JStr ''agent'')])"

text \<open>The key the client presents, if the server gets to look it up.\<close>

definition asked_key :: "string option \<Rightarrow> string option" where
  "asked_key received = obind received (\<lambda>raw. obind (unmarshal_init raw) (\<lambda>i. DecodeKey (hi_ClientStaticPub i)))"

record agent_conn =
  cn_eph :: "(string \<times> string) option"
  cn_nonce :: "string option"
  cn_wrote :: bool
  cn_received :: "string option"
  cn_addr :: string
  cn_hello :: "Message option"
  cn_msgs :: "(insert_ok \<times> bool \<times> instant \<times> Message) list"

text \<open>
  The handler: the label of the accepted agent, the store and the pending list after it, and the
  events it published. \<open>okGet\<close> says if the settings can be read. The messages are those of the
  connection until it ends; a read that stays silent for \<open>agentReadIdle\<close> ends it too.
\<close>

definition agentReadIdle :: duration where "agentReadIdle = 5 * minute"

fun heard_within :: "instant \<Rightarrow> (insert_ok \<times> bool \<times> instant \<times> Message) list \<Rightarrow> (insert_ok \<times> bool \<times> instant \<times> Message) list" where
  "heard_within heard [] = []"
| "heard_within heard ((ok, hb, t, msg) # ms) = (if t > heard + agentReadIdle then [] else (ok, hb, t, msg) # heard_within t ms)"

definition handleAgentWS ::
    "nacl \<Rightarrow> (string \<Rightarrow> string) \<Rightarrow> agentCrypto option \<Rightarrow> bool \<Rightarrow> instant \<Rightarrow> agent_conn \<Rightarrow> store \<times> pending
     \<Rightarrow> string option \<times> store \<times> pending \<times> string list" where
  "handleAgentWS nc sha ac okGet now c sp =
     (let (st, m) = sp in
      case ac of None \<Rightarrow> (None, st, m, [])
      | Some a \<Rightarrow>
          (let (res, unauthorized) =
                 ServerHandshake nc (cn_eph c) (cn_nonce c) (cn_wrote c) (ac_priv a) (\<lambda>pub. fst (authorized okGet st pub m)) (cn_received c);
               m1 = (case asked_key (cn_received c) of None \<Rightarrow> m | Some pub \<Rightarrow> snd (authorized okGet st pub m));
               (new, m2) = (case unauthorized of None \<Rightarrow> (False, m1)
                            | Some (pub, name) \<Rightarrow> pending_add (Fingerprint sha) pub name (cn_addr c) now m1);
               events = (if new then [agent_event_text] else [])
           in case res of
                Inl err \<Rightarrow> (None, st, m2, events)
              | Inr s \<Rightarrow> (Some (sv_label s), agent_session (sv_label s) now (cn_hello c) (heard_within now (cn_msgs c)) st, m2,
                          events @ [agent_event_text, agent_event_text])))"

section \<open>Pushing configuration\<close>

text \<open>
  \<open>pushConfigOnChange\<close> beside the read loop. Its steps: a connection is acquired or not, the
  \<open>LISTEN\<close> succeeds or not, the connection is lost; and a change of the configuration, with
  the configuration it leads to and whether the message could be sent.
\<close>

datatype push_phase = NoConn | HasConn | Listening | PushEnded

datatype push_event = Acquire bool | Listen bool | ConnLost | Change CaptureConfig bool

definition push_step :: "string list \<Rightarrow> push_event \<Rightarrow> push_phase \<times> SourceConfig list list \<Rightarrow> push_phase \<times> SourceConfig list list" where
  "push_step sources ev ps =
     (let (p, sent) = ps in
      case ev of
        Acquire ok \<Rightarrow> (if p = NoConn \<and> ok then (HasConn, sent) else ps)
      | Listen ok \<Rightarrow> (if p = HasConn then (if ok then Listening else NoConn, sent) else ps)
      | ConnLost \<Rightarrow> (if p = Listening then (NoConn, sent) else ps)
      | Change c ok \<Rightarrow> (if p = Listening then (if ok then (Listening, sent @ [agentConfig c sources]) else (PushEnded, sent)) else ps))"

text \<open>The first configuration is sent after the hello, before the loop starts.\<close>

definition push_run :: "string list \<Rightarrow> CaptureConfig \<Rightarrow> push_event list \<Rightarrow> push_phase \<times> SourceConfig list list" where
  "push_run sources c0 es = fold (push_step sources) es (NoConn, [agentConfig c0 sources])"

section \<open>The card of the dashboard\<close>

record authView =
  av_Label :: string
  av_PubKey :: string
  av_Fingerprint :: string

record remoteView =
  rv_Source :: string
  rv_Label :: string
  rv_Alive :: bool
  rv_LastSeen :: instant

record agents_view =
  vw_server_key :: string
  vw_server_fingerprint :: string
  vw_tls_fingerprint :: string
  vw_authorized :: "authView list"
  vw_remotes :: "remoteView list"
  vw_pending :: "pendingAgent list"

definition auth_view :: "(string \<Rightarrow> string) \<Rightarrow> AuthorizedAgent \<Rightarrow> authView" where
  "auth_view sha a = \<lparr>av_Label = aa_Label a, av_PubKey = aa_PubKey a,
     av_Fingerprint = (case DecodeKey (aa_PubKey a) of None \<Rightarrow> [] | Some k \<Rightarrow> Fingerprint sha k)\<rparr>"

text \<open>\<open>okDevs\<close>: the device list can be read; \<open>serials\<close> and \<open>meters\<close> list the keys of the tables.\<close>

definition handleAgents ::
    "(string \<Rightarrow> string) \<Rightarrow> agentCrypto option \<Rightarrow> bool \<Rightarrow> bool \<Rightarrow> instant \<Rightarrow> string list \<Rightarrow> int list \<Rightarrow> store \<times> pending
     \<Rightarrow> agents_view option \<times> pending" where
  "handleAgents sha ac okGet okDevs now serials meters sp =
     (let (st, m) = sp in
      case ac of None \<Rightarrow> (None, m)
      | Some a \<Rightarrow>
          (let auth = map (auth_view sha) (stored_agents okGet st);
               devs = (if okDevs then ListDevices now (90 * second) serials meters st else []);
               (ps, m1) = pending_list now m
           in (Some \<lparr>vw_server_key = EncodeKey (ac_pub a), vw_server_fingerprint = Fingerprint sha (ac_pub a), vw_tls_fingerprint = ac_tlsFP a,
                     vw_authorized = auth,
                     vw_remotes = map (\<lambda>d. \<lparr>rv_Source = de_Serial d, rv_Label = de_Name d, rv_Alive = de_Alive d, rv_LastSeen = de_LastSeen d\<rparr>)
                                    (filter (\<lambda>d. de_Tuner d = ''remote'') devs),
                     vw_pending = filter (\<lambda>p. pa_PubKey p \<notin> av_PubKey ` set auth) ps\<rparr>, m1)))"

section \<open>The fetched key is the server's\<close>

lemma first_value_rest: "no_numbers v \<Longrightarrow> first_value (enc v @ r) = Some v"
  using enc_parses(1) [of v "2 * length (enc v @ r) + 2" r] enc_skip [of v r] by (simp add: first_value_def)

lemma serverkey_names: "equal_fold ''server_fingerprint'' ''server_key'' = False" "equal_fold ''server_key'' ''server_key'' = True"
  by code_simp+

lemma dec_server_key: "dec_struct key_field (server_key_json sha a) [] = Some (EncodeKey (ac_pub a))"
  by (simp add: server_key_json_def dec_struct_def key_field_def serverkey_names)

lemma fetched_key:
  "key32 (ac_pub a) \<Longrightarrow> get (serverkey_url u) = Some (handleAgentServerKey sha (Some a)) \<Longrightarrow> fetchServerKey (Some u) get = Some (ac_pub a)"
  using first_value_rest [of "server_key_json sha a" "[CHR 0x0A]"]
  by (simp add: fetchServerKey_def handleAgentServerKey_def server_key_json_def key32_def del: enc.simps)
    (simp add: dec_server_key [unfolded server_key_json_def] key32_def)

text \<open>
  Trust on first use, end to end: an agent without a key that reaches the server takes exactly the
  server's public key and pins it; from then on, restarted as often as one likes, it uses that key
  whatever the network answers. A server that is not ready gives it no key.
\<close>

theorem first_use_pins_the_server:
  assumes "key32 (ac_pub a)" "get (serverkey_url u) = Some (handleAgentServerKey sha (Some a))"
  shows "resolveServerKey [] None (fetchServerKey (Some u) get) True = (Some (ac_pub a), Some (EncodeKey (ac_pub a) @ [CHR 0x0A]))
       \<and> resolveServerKey [] (Some (EncodeKey (ac_pub a) @ [CHR 0x0A])) fetched wrote = (Some (ac_pub a), Some (EncodeKey (ac_pub a) @ [CHR 0x0A]))
       \<and> fetchServerKey (Some u) (\<lambda>_. Some (handleAgentServerKey sha None)) = None"
proof -
  have "DecodeKey (trim_space (EncodeKey (ac_pub a) @ [CHR 0x0A])) = Some (ac_pub a)"
    using assms(1) trim_key_line [of "ac_pub a"] by (simp add: EncodeKey_def [symmetric] key32_def)
  then show ?thesis
    using fetched_key [of a get u sha, OF assms] by (simp add: resolveServerKey_def fetchServerKey_def handleAgentServerKey_def)
qed

definition sample_url :: url where
  "sample_url = \<lparr>u_Scheme = ''wss'', u_Host = ''home:8443'', u_Path = ''/agent'', u_RawQuery = ''x=1''\<rparr>"

definition sample_crypto :: agentCrypto where
  "sample_crypto = \<lparr>ac_pub = key_a, ac_priv = key_a, ac_tlsFP = []\<rparr>"

lemma first_use_pins_the_server_witness:
  "fst (resolveServerKey [] None (fetchServerKey (Some sample_url)
     (\<lambda>v. if u_Scheme v = ''https'' \<and> u_Path v = ''/api/agent/serverkey'' then Some (handleAgentServerKey (\<lambda>k. k) (Some sample_crypto)) else None)) True)
   = Some key_a"
  (is "fst (resolveServerKey [] None (fetchServerKey (Some sample_url) ?get) True) = _")
proof -
  have "key32 (ac_pub sample_crypto)" by (simp add: sample_crypto_def key32_def key_a_def)
  moreover have "?get (serverkey_url sample_url) = Some (handleAgentServerKey (\<lambda>k. k) (Some sample_crypto))"
    by (simp add: serverkey_url_def sample_url_def)
  ultimately show ?thesis
    using first_use_pins_the_server [of sample_crypto ?get sample_url "\<lambda>k. k"] by (simp add: sample_crypto_def)
qed

text \<open>A pin is met by any certificate of the chain, whoever's key the first one holds.\<close>

lemma pin_met_by_any_certificate:
  "pin_matches sha pin pinned \<Longrightarrow> peer_accepted sha pin [other, pinned]"
  by (simp add: peer_accepted_def)

section \<open>Configuration pushed and missed\<close>

text \<open>While it listens every change is sent at once.\<close>

lemma listening_agent_is_current:
  "fst (push_run sources c0 es) = Listening \<Longrightarrow> snd (push_run sources c0 (es @ [Change c True])) = snd (push_run sources c0 es) @ [agentConfig c sources]"
  by (cases "push_run sources c0 es") (simp add: push_run_def push_step_def)

text \<open>
  A change between the first message and the \<open>LISTEN\<close>, or while the connection is lost, is not sent,
  then or later, until another change comes.
\<close>

lemma change_before_listen_is_missed:
  "push_run sources c0 [Acquire True, Change c True, Listen True] = (Listening, [agentConfig c0 sources])"
  by (simp add: push_run_def push_step_def)

section \<open>Approving what the card shows\<close>

text \<open>An entry carries the text of its key and the fingerprint of the key.\<close>

definition pending_ok :: "(string \<Rightarrow> string) \<Rightarrow> pending \<Rightarrow> bool" where
  "pending_ok fp m \<longleftrightarrow> distinct (map fst m)
     \<and> (\<forall>(key, e) \<in> set m. pa_PubKey e = key \<and> (\<forall>k. key = EncodeKey k \<longrightarrow> pa_Fingerprint e = fp k))"

lemma pending_ok_filter: "pending_ok fp m \<Longrightarrow> pending_ok fp (filter P m)"
  by (auto simp: pending_ok_def filter_keys)

lemma pending_ok_delete: "pending_ok fp m \<Longrightarrow> pending_ok fp (AList.delete k m)"
  unfolding AList.delete_eq by (rule pending_ok_filter)

lemma set_update: "x \<in> set (AList.update k e m) \<Longrightarrow> x = (k, e) \<or> x \<in> set m"
  by (induction m) (auto split: if_splits)

lemma pending_ok_update:
  assumes "pending_ok fp m" "pa_PubKey e = k" "\<forall>j. k = EncodeKey j \<longrightarrow> pa_Fingerprint e = fp j"
  shows "pending_ok fp (AList.update k e m)"
proof -
  let ?P = "\<lambda>(key, e). pa_PubKey e = key \<and> (\<forall>j. key = EncodeKey j \<longrightarrow> pa_Fingerprint e = fp j)"
  have "?P x" if "x \<in> set (AList.update k e m)" for x
    using set_update [OF that] assms by (elim disjE) (simp_all add: pending_ok_def)
  then show ?thesis using assms(1) by (simp add: pending_ok_def distinct_update)
qed

lemma pending_ok_entry:
  assumes "pending_ok fp m" "(EncodeKey k, e) \<in> set m"
  shows "pa_PubKey e = EncodeKey k" "pa_Fingerprint e = fp k"
  using bspec [OF conjunct2 [OF assms(1) [unfolded pending_ok_def]] assms(2)] by simp_all

lemma pending_ok_add:
  assumes "pending_ok fp m"
  shows "pending_ok fp (snd (pending_add fp pub name addr now m))"
proof (cases "map_of m (EncodeKey pub)")
  case (Some e)
  then have "(EncodeKey pub, e) \<in> set m" by (rule map_of_SomeD)
  note pending_ok_entry [OF assms this]
  then have "pending_ok fp (AList.update (EncodeKey pub) (e\<lparr>pa_LastSeen := now, pa_RemoteAddr := addr, pa_Name := nm\<rparr>) m)" for nm
    using assms by (intro pending_ok_update) (simp_all add: EncodeKey_inj)
  then show ?thesis using Some by (simp add: pending_add_def Let_def)
next
  case None
  define m2 where "m2 = (if length (gcLocked now m) \<ge> pendingMax then AList.delete (oldest_key now (gcLocked now m)) (gcLocked now m) else gcLocked now m)"
  have "pending_ok fp m2" using assms by (simp add: m2_def gcLocked_def pending_ok_filter pending_ok_delete)
  then have "pending_ok fp (AList.update (EncodeKey pub) \<lparr>pa_PubKey = EncodeKey pub, pa_Fingerprint = fp pub, pa_Name = name,
      pa_RemoteAddr = addr, pa_FirstSeen = now, pa_LastSeen = now\<rparr> m2)" by (intro pending_ok_update) (simp_all add: EncodeKey_inj)
  then show ?thesis using None by (simp add: pending_add_def Let_def m2_def)
qed

lemma pending_ok_step: "pending_ok fp m \<Longrightarrow> pending_ok fp (pending_step fp op m)"
  by (cases op) (simp_all add: pending_step_def pending_ok_add pending_remove_def pending_ok_delete pending_list_def gcLocked_def pending_ok_filter Let_def)

lemma pending_ok_reachable: "pending_ok fp (fold (pending_step fp) ops [])"
proof -
  have "pending_ok fp m \<Longrightarrow> pending_ok fp (fold (pending_step fp) ops m)" for m
    by (induction ops arbitrary: m) (simp_all add: pending_ok_step)
  moreover have "pending_ok fp []" by (simp add: pending_ok_def)
  ultimately show ?thesis by blast
qed

text \<open>What is on the list right after a refused connection.\<close>

lemma added_entry:
  "\<exists>e. map_of (snd (pending_add fp pub name addr now m)) (EncodeKey pub) = Some e \<and> pa_LastSeen e = now"
  by (auto simp: pending_add_def Let_def update_conv' split: option.splits)

text \<open>A connection with a key that is not approved is refused, leaves the store alone and is listed.\<close>

lemma stranger_refused:
  assumes "asked_key (cn_received c) = Some k" "fst (authorized okGet st k m) = None"
  shows "\<exists>name ev. handleAgentWS nc sha (Some a) okGet now c (st, m) =
           (None, st, snd (pending_add (Fingerprint sha) k name (cn_addr c) now m), ev)"
proof -
  obtain raw i where r: "cn_received c = Some raw" "unmarshal_init raw = Some i" "DecodeKey (hi_ClientStaticPub i) = Some k"
    using assms(1) by (auto simp: asked_key_def obind_def split: option.splits)
  have "snd (authorized okGet st k m) = m" using assms(2) by (auto simp: authorized_def split: option.splits)
  then show ?thesis
    using r assms by (auto simp: handleAgentWS_def ServerHandshake_def Let_def case_prod_beta)
qed


definition sample_conn :: agent_conn where
  "sample_conn = \<lparr>cn_eph = None, cn_nonce = None, cn_wrote = True,
     cn_received = Some (marshal_init \<lparr>hi_ClientStaticPub = EncodeKey key_a, hi_ClientEphPub = [], hi_Nonce = [], hi_Box = [], hi_Label = ''attic''\<rparr>),
     cn_addr = ''10.0.0.7'', cn_hello = None, cn_msgs = []\<rparr>"


section \<open>A session that pings is not cut off\<close>

text \<open>The agent's pings come every minute; the server gives up after five minutes of silence.\<close>

definition agentPingEvery :: duration where "agentPingEvery = minute"

lemma pings_keep_the_session:
  "successively (\<lambda>s t. t \<le> s + agentPingEvery + 4 * minute) (now # map (\<lambda>(ok, hb, t, msg). t) ms) \<Longrightarrow> heard_within now ms = ms"
  by (induction now ms rule: heard_within.induct) (auto simp: agentReadIdle_def agentPingEvery_def)

end
