(* ===== verification/Pipeline.thy ===== *)
theory Pipeline
  imports Link Feed "HOL-Library.Sublist"
begin

text \<open>
  One turn of \<open>haLoop\<close> of \<open>cmd/worker/main.go\<close> as a whole: the plan, the seed of the climate state,
  the subscription over the socket of theory Link with the callbacks and the keepalive of theory
  Feed, and the report of its end. The events of the link and the ticks of the keepalive come as
  one list in the order of their times.
\<close>

section \<open>A turn of the loop\<close>

datatype live_event = OnLink link_event | KeepTick

text \<open>The end of the stream also ends the keepalive.\<close>

fun live_run ::
    "feed_env \<Rightarrow> Config \<Rightarrow> (string \<rightharpoonup> einfo) \<Rightarrow> instant \<Rightarrow> (instant \<times> live_event) list \<Rightarrow> feed \<Rightarrow> stream_end option \<times> feed" where
  "live_run e cfg info deadline [] f = (None, f)"
| "live_run e cfg info deadline ((t, ev) # es) f =
     (if t > deadline then (Some IdleTimeout, f)
      else (case ev of
         KeepTick \<Rightarrow> live_run e cfg info deadline es (keepalive e cfg t f)
       | OnLink (Arrives data returned) \<Rightarrow> live_run e cfg info (returned + wsIdleTimeout) es (feed_frame e cfg info t data f)
       | OnLink (PingDue wrote) \<Rightarrow> if wrote then live_run e cfg info deadline es f else (Some HeartbeatFailed, f)
       | OnLink ReadBroken \<Rightarrow> (Some ReadFailed, f)
       | OnLink Stopped \<Rightarrow> (Some ContextDone, f)))"

text \<open>
  What a turn sees; \<open>text_of\<close> gives the text of an error. Its end is reported unless the whole service
  stops (\<open>li_shutdown\<close>); a restart of the subscription ends it as any other error does.
\<close>

record live_input =
  li_now :: instant
  li_sensors :: "Entity list option"
  li_reason :: string
  li_climates :: "ClimateEntity list option"
  li_handshake :: handshake
  li_subscribed :: bool
  li_start :: instant
  li_events :: "(instant \<times> live_event) list"
  li_end :: instant
  li_shutdown :: bool

definition subscription :: "feed_env \<Rightarrow> Config \<Rightarrow> (string \<rightharpoonup> einfo) \<Rightarrow> live_input \<Rightarrow> feed \<Rightarrow> stream_end option \<times> feed" where
  "subscription e cfg info x f =
     (let f0 = seed_hvac e cfg (li_now x) (li_climates x) f in
      if \<not> fst (authConn (HAToken cfg) (li_handshake x)) then (Some NoConnection, f0)
      else if \<not> li_subscribed x then (Some NotSubscribed, f0)
      else live_run e cfg info (li_start x + wsIdleTimeout) (li_events x) f0)"

definition ha_turn :: "feed_env \<Rightarrow> (stream_end \<Rightarrow> string) \<Rightarrow> live_input \<Rightarrow> worker \<times> store \<Rightarrow> worker \<times> store" where
  "ha_turn e text_of x s =
     (let cfg = wk_cfg (fst s) in
      case ha_connect (li_now x) (fe_conn e) (li_sensors x) (li_reason x) s of
        (Subscribe info entities, s1) \<Rightarrow>
          (case subscription e cfg info x (fst s1, snd s1, new_sub) of (r, w, st, b) \<Rightarrow>
             (case r of None \<Rightarrow> (w, st)
              | Some err \<Rightarrow> if li_shutdown x then (w, st) else stream_ended (li_end x) (fe_conn e) (text_of err) (w, st)))
      | (_, s1) \<Rightarrow> s1)"

section \<open>The subscription is the socket's loop\<close>

text \<open>Without ticks it ends as the loop of the socket does.\<close>

lemma live_run_link: "fst (live_run e cfg info dl (map (\<lambda>(t, ev). (t, OnLink ev)) es) f) = fst (link_loop dl i es)"
  by (induction dl i es arbitrary: f rule: link_loop.induct) (auto simp: case_prod_beta split: link_event.splits)

text \<open>The events it takes, as those of the feed.\<close>

fun taken :: "instant \<Rightarrow> (instant \<times> live_event) list \<Rightarrow> (feed_event \<times> instant) list" where
  "taken deadline [] = []"
| "taken deadline ((t, ev) # es) =
     (if t > deadline then []
      else (case ev of
         KeepTick \<Rightarrow> (Tick, t) # taken deadline es
       | OnLink (Arrives data returned) \<Rightarrow> (Frame data, t) # taken (returned + wsIdleTimeout) es
       | OnLink (PingDue wrote) \<Rightarrow> if wrote then taken deadline es else []
       | _ \<Rightarrow> []))"

lemma live_run_taken: "snd (live_run e cfg info dl es f) = fold (feed_event e cfg info) (taken dl es) f"
  by (induction dl es arbitrary: f rule: taken.induct) (auto simp: feed_event_def split: live_event.splits link_event.splits)

section \<open>What a turn stores\<close>

lemma ref_frame [simp]:
  "st_ref (NotifyReference p st) = st_ref st" "st_ref (NotifyTests st) = st_ref st"
  "st_ref (InsertHVACSample k t a st) = st_ref st" "st_ref (SetWorkerStatus t ws st) = st_ref st"
  "st_ref (snd (CreateTest l t en src ld ent st)) = st_ref st" "st_ref (snd (StopTest ok i t st)) = st_ref st"
  "st_ref (DeleteTest i st) = st_ref st" "st_ref (FreezeTestSnoopK ok i n st) = st_ref st"
  by (simp_all add: NotifyReference_def NotifyTests_def notify_def InsertHVACSample_def SetWorkerStatus_def SetSetting_def
      CreateTest_def Let_def StopTest_def DeleteTest_def FreezeTestSnoopK_def SetTestSnoopK_def split: option.split)

lemma ref_autoWindow [simp]: "st_ref (snd (autoWindow e p d on t s)) = st_ref (snd s)"
proof -
  obtain a aw' where "autoDecide (auto_init p (snd s) (fst s)) p d t = (a, aw')"
    by (cases "autoDecide (auto_init p (snd s) (fst s)) p d t")
  moreover obtain tw st' where "CreateTest (''auto load '' @ hhmm t) t None ''auto'' (Some (math_round (p - as_baseline aw'))) None (snd s) = (tw, st')"
    by (cases "CreateTest (''auto load '' @ hhmm t) t None ''auto'' (Some (math_round (p - as_baseline aw'))) None (snd s)")
  moreover from this have "st_ref st' = st_ref (snd s)" using ref_frame(5) by (metis snd_conv)
  ultimately show ?thesis
    by (cases a) (simp_all only: autoWindow_def Let_def prod.case autoAction.case if_distrib [of snd] if_distrib [of st_ref] snd_conv
        ref_frame if_cancel simp_thms split: if_split)
qed

lemma ref_publish: "st_ref (fst (snd (feed_publish e cfg now (w, st, b)))) = st_ref st" "snd (snd (feed_publish e cfg now (w, st, b))) = b"
  using ref_autoWindow [of "fe_auto e" "aggregate_watts cfg b" "ThresholdW cfg" "AutoWindow cfg" now "(wk_aw w, NotifyReference (aggregate_watts cfg b) st)"]
  by (simp_all add: feed_publish_def Let_def case_prod_beta)

lemma ref_setHAStream [simp]: "st_ref (snd (setHAStream now conn x s)) = st_ref (snd s)"
  by (simp add: setHAStream_def Let_def putWorkerStatus_def)

lemma ref_note_ref [simp]: "st_ref (snd (note_ref now e s)) = st_ref (snd s)"
  by (simp add: note_ref_def Let_def)

lemma ref_onState: "st_ref (fst (snd (onState e cfg now k ev (w, st, b)))) = st_ref st"
  "sb_ka (snd (snd (onState e cfg now k ev (w, st, b)))) = sb_ka b"
  "sb_es (snd (snd (onState e cfg now k ev (w, st, b)))) = sb_es b"
  by (simp_all add: onState_def Let_def ref_publish)

lemma ref_onSample:
  assumes "info k = Some i" "normalize_sample i s (sb_es b k) = (Some p, es)"
  shows "st_ref (fst (snd (onSample e cfg info now k s (w, st, b)))) =
           st_ref st @ (if fe_insert e k then [\<lparr>rs_ts = sm_TS s, rs_entity = k, rs_power = p, rs_src = Live\<rparr>] else [])"
    "sb_ka (snd (snd (onSample e cfg info now k s (w, st, b)))) = AList.update k (sm_TS s, p) (sb_ka b)"
    "sb_es (snd (snd (onSample e cfg info now k s (w, st, b)))) = (sb_es b)(k := es)"
  using assms by (simp_all add: onSample_def Let_def case_prod_beta ref_publish InsertReferenceSample_def)

lemma onSample_unused:
  "info k = None \<Longrightarrow> onSample e cfg info now k s (w, st, b) = (w, st, b)"
  "info k = Some i \<Longrightarrow> normalize_sample i s (sb_es b k) = (None, es) \<Longrightarrow>
    onSample e cfg info now k s (w, st, b) = (w, st, b\<lparr>sb_es := (sb_es b)(k := es)\<rparr>)"
  by (simp_all add: onSample_def Let_def)

lemma ref_seed: "st_ref (fst (snd (seed_hvac e cfg now cl (w, st, b)))) = st_ref st" "sb_ka (snd (snd (seed_hvac e cfg now cl (w, st, b)))) = sb_ka b"
  "sb_es (snd (snd (seed_hvac e cfg now cl (w, st, b)))) = sb_es b"
  by (simp_all add: seed_hvac_def split: option.split)

lemma ref_connect [simp]: "st_ref (snd (snd (ha_connect now conn sensors err s))) = st_ref (snd s)"
  by (simp add: ha_connect_def Let_def split: ha_plan.split)

section \<open>What a turn records\<close>

text \<open>The samples of an entity among the events.\<close>

definition samples_of :: "string \<Rightarrow> feed_event \<times> instant \<Rightarrow> Sample list" where
  "samples_of k x = (case x of (Frame data, now) \<Rightarrow>
     (case stream_frame now data of Some (entity, Some s, _) \<Rightarrow> if entity = k then [s] else [] | _ \<Rightarrow> []) | _ \<Rightarrow> [])"

text \<open>The rows they stand for: the watts of each that yields some, at its time.\<close>

fun rows_of :: "string \<Rightarrow> einfo \<Rightarrow> (real \<times> instant) option \<Rightarrow> Sample list \<Rightarrow> ref_sample list" where
  "rows_of k i es [] = []"
| "rows_of k i es (s # ss) = (case normalize_sample i s es of (w, es') \<Rightarrow>
     (case w of None \<Rightarrow> [] | Some p \<Rightarrow> [\<lparr>rs_ts = sm_TS s, rs_entity = k, rs_power = p, rs_src = Live\<rparr>]) @ rows_of k i es' ss)"

definition es_after :: "einfo \<Rightarrow> (real \<times> instant) option \<Rightarrow> Sample list \<Rightarrow> (real \<times> instant) option" where
  "es_after i es ss = fold (\<lambda>s es. snd (normalize_sample i s es)) ss es"

lemma es_after_simps [simp]: "es_after i es [] = es" "es_after i es (s # ss) = es_after i (snd (normalize_sample i s es)) ss"
  by (simp_all add: es_after_def)

lemma rows_of_append: "rows_of k i es (as @ bs) = rows_of k i es as @ rows_of k i (es_after i es as) bs"
  by (induction as arbitrary: es) (simp_all add: case_prod_beta)

lemma rows_are_watts: "map rs_power (rows_of k i es ss) = watts_of i es ss"
  by (induction ss arbitrary: es) (simp_all add: case_prod_beta split: option.split)

text \<open>A row of the keepalive: what a sample said at least five minutes ago.\<close>

definition repeats :: "ref_sample set \<Rightarrow> ref_sample \<Rightarrow> bool" where
  "repeats S r \<longleftrightarrow> (\<exists>s \<in> S. rs_entity s = rs_entity r \<and> rs_power s = rs_power r \<and> rs_ts s + 5 * minute \<le> rs_ts r \<and> rs_src r = Live)"

definition of_entity :: "string \<Rightarrow> ref_sample list \<Rightarrow> ref_sample list" where
  "of_entity k rows = filter (\<lambda>r. rs_entity r = k) rows"

lemma of_entity_simps [simp]:
  "of_entity k [] = []" "of_entity k (r # rs) = (if rs_entity r = k then r # of_entity k rs else of_entity k rs)"
  "of_entity k (as @ bs) = of_entity k as @ of_entity k bs" "r \<in> set (of_entity k rs) \<longleftrightarrow> r \<in> set rs \<and> rs_entity r = k"
  by (auto simp: of_entity_def)

definition kept_from :: "string \<Rightarrow> ref_sample set \<Rightarrow> sub \<Rightarrow> bool" where
  "kept_from k S b \<longleftrightarrow> (\<forall>t p. (k, t, p) \<in> set (sb_ka b) \<longrightarrow> (\<exists>s \<in> S. rs_entity s = k \<and> rs_power s = p \<and> rs_ts s \<le> t))"

lemma kept_from_mono: "kept_from k S b \<Longrightarrow> S \<subseteq> T \<Longrightarrow> kept_from k T b"
  by (fastforce simp: kept_from_def)

lemma repeats_mono: "repeats S r \<Longrightarrow> S \<subseteq> T \<Longrightarrow> repeats T r"
  by (auto simp: repeats_def)

text \<open>What a step owes: it appends rows, among those of the entity its samples, the others repeats.\<close>

definition recorded :: "string \<Rightarrow> ref_sample set \<Rightarrow> ref_sample list \<Rightarrow> feed \<Rightarrow> feed \<Rightarrow> bool" where
  "recorded k S xs f f' \<longleftrightarrow> (\<exists>rows. st_ref (fst (snd f')) = st_ref (fst (snd f)) @ rows \<and> subseq xs (of_entity k rows)
     \<and> (\<forall>r \<in> set (of_entity k rows). r \<in> set xs \<or> repeats (S \<union> set xs) r)) \<and> kept_from k (S \<union> set xs) (snd (snd f'))"

lemma recorded_same: "st_ref st' = st_ref st \<Longrightarrow> sb_ka b' = sb_ka b \<Longrightarrow> kept_from k S b \<Longrightarrow> recorded k S [] (w, st, b) (w', st', b')"
  by (auto simp: recorded_def kept_from_def)

lemma recorded_trans:
  assumes "recorded k S xs f g" "recorded k (S \<union> set xs) ys g h"
  shows "recorded k S (xs @ ys) f h"
proof -
  from assms(1) obtain as where a: "st_ref (fst (snd g)) = st_ref (fst (snd f)) @ as" "subseq xs (of_entity k as)"
    "\<forall>r \<in> set (of_entity k as). r \<in> set xs \<or> repeats (S \<union> set xs) r" unfolding recorded_def by blast
  from assms(2) obtain bs where b: "st_ref (fst (snd h)) = st_ref (fst (snd g)) @ bs" "subseq ys (of_entity k bs)"
    "\<forall>r \<in> set (of_entity k bs). r \<in> set ys \<or> repeats (S \<union> set xs \<union> set ys) r"
    and k: "kept_from k (S \<union> set xs \<union> set ys) (snd (snd h))" unfolding recorded_def by blast
  have "S \<union> set xs \<subseteq> S \<union> set (xs @ ys)" by auto
  then have 1: "\<forall>r \<in> set (of_entity k as). r \<in> set (xs @ ys) \<or> repeats (S \<union> set (xs @ ys)) r"
    using a(3) repeats_mono by fastforce
  have 2: "\<forall>r \<in> set (of_entity k bs). r \<in> set (xs @ ys) \<or> repeats (S \<union> set (xs @ ys)) r"
    using b(3) by (simp add: Un_assoc)
  have "subseq (xs @ ys) (of_entity k (as @ bs))" using list_emb_append_mono [OF a(2) b(2)] by simp
  moreover have "st_ref (fst (snd h)) = st_ref (fst (snd f)) @ (as @ bs)" using a(1) b(1) by simp
  moreover have "\<forall>r \<in> set (of_entity k (as @ bs)). r \<in> set (xs @ ys) \<or> repeats (S \<union> set (xs @ ys)) r" using 1 2 by auto
  moreover have "kept_from k (S \<union> set (xs @ ys)) (snd (snd h))" using k by (simp add: Un_assoc)
  ultimately show ?thesis unfolding recorded_def by blast
qed

lemma update_subset: "set (AList.update k v al) \<subseteq> insert (k, v) (set al)"
  by (induction al) auto

text \<open>A sample of another entity leaves this one alone.\<close>

lemma onSample_other:
  assumes "k' \<noteq> k" "kept_from k S b"
  shows "recorded k S [] (w, st, b) (onSample e cfg info now k' s (w, st, b))
    \<and> sb_es (snd (snd (onSample e cfg info now k' s (w, st, b)))) k = sb_es b k"
proof (cases "info k'")
  case None
  then show ?thesis using recorded_same assms(2) by (simp add: onSample_unused)
next
  case (Some i)
  obtain watts es where n: "normalize_sample i s (sb_es b k') = (watts, es)" by (cases "normalize_sample i s (sb_es b k')")
  show ?thesis
  proof (cases watts)
    case None
    then show ?thesis using Some n assms by (simp add: onSample_unused(2) [of info k' i] recorded_same)
  next
    case (Some p)
    let ?f = "onSample e cfg info now k' s (w, st, b)"
    let ?row = "\<lparr>rs_ts = sm_TS s, rs_entity = k', rs_power = p, rs_src = Live\<rparr>"
    note r = ref_onSample [of info k' i s b p es e cfg now w st, OF \<open>info k' = Some i\<close> n [unfolded Some]]
    have "kept_from k S (snd (snd ?f))"
      using assms update_subset [of k' "(sm_TS s, p)" "sb_ka b"] unfolding kept_from_def r(2) by blast
    then show ?thesis using assms(1) r(1,3) unfolding recorded_def
      by (intro conjI exI [of _ "if fe_insert e k' then [?row] else []"]) simp_all
  qed
qed

lemma onSample_recorded:
  assumes "fe_insert e k" "info k = Some i" "kept_from k S b"
  shows "recorded k S (rows_of k i (sb_es b k) [s]) (w, st, b) (onSample e cfg info now k s (w, st, b))
    \<and> sb_es (snd (snd (onSample e cfg info now k s (w, st, b)))) k = es_after i (sb_es b k) [s]"
proof -
  let ?f = "onSample e cfg info now k s (w, st, b)"
  obtain watts es where n: "normalize_sample i s (sb_es b k) = (watts, es)" by (cases "normalize_sample i s (sb_es b k)")
  show ?thesis
  proof (cases watts)
    case None
    then show ?thesis using n assms by (simp add: onSample_unused(2) [of info k i] recorded_same)
  next
    case (Some p)
    let ?row = "\<lparr>rs_ts = sm_TS s, rs_entity = k, rs_power = p, rs_src = Live\<rparr>"
    note r = ref_onSample [of info k i s b p es e cfg now w st, OF assms(2) n [unfolded Some]]
    have "kept_from k (S \<union> set [?row]) (snd (snd ?f))" unfolding kept_from_def r(2)
    proof (intro allI impI)
      fix t q assume "(k, t, q) \<in> set (AList.update k (sm_TS s, p) (sb_ka b))"
      then consider "t = sm_TS s" "q = p" | "(k, t, q) \<in> set (sb_ka b)"
        using update_subset [of k "(sm_TS s, p)" "sb_ka b"] by blast
      then show "\<exists>x \<in> S \<union> set [?row]. rs_entity x = k \<and> rs_power x = q \<and> rs_ts x \<le> t"
        using assms(3) by cases (auto simp: kept_from_def)
    qed
    then have "recorded k S [?row] (w, st, b) ?f" using r(1) assms(1) unfolding recorded_def
      by (intro conjI exI [of _ "[?row]"]) simp_all
    then show ?thesis using r(3) by (simp add: n Some)
  qed
qed

lemma onState_recorded: "kept_from k S b \<Longrightarrow> recorded k S [] (w, st, b) (onState e cfg now k' ev (w, st, b))
    \<and> sb_es (snd (snd (onState e cfg now k' ev (w, st, b)))) k = sb_es b k"
  by (cases "onState e cfg now k' ev (w, st, b)")
    (use ref_onState [of e cfg now k' ev w st b] in \<open>simp add: recorded_same\<close>)

lemma frame_recorded:
  assumes "fe_insert e k" "info k = Some i" "kept_from k S b"
  shows "recorded k S (rows_of k i (sb_es b k) (samples_of k (Frame data, now))) (w, st, b) (feed_frame e cfg info now data (w, st, b))
    \<and> sb_es (snd (snd (feed_frame e cfg info now data (w, st, b)))) k = es_after i (sb_es b k) (samples_of k (Frame data, now))"
proof (cases "stream_frame now data")
  case None
  then show ?thesis using assms(3) by (simp add: feed_frame_def samples_of_def recorded_same)
next
  case (Some r)
  obtain k' smp ev where r: "r = (k', smp, ev)" by (cases r) auto
  obtain w1 st1 b1 where f1: "(case smp of None \<Rightarrow> (w, st, b) | Some s \<Rightarrow> onSample e cfg info now k' s (w, st, b)) = (w1, st1, b1)"
    by (cases "case smp of None \<Rightarrow> (w, st, b) | Some s \<Rightarrow> onSample e cfg info now k' s (w, st, b)") auto
  let ?ss = "samples_of k (Frame data, now)"
  let ?xs = "rows_of k i (sb_es b k) ?ss"
  have ss: "?ss = (case smp of None \<Rightarrow> [] | Some s \<Rightarrow> if k' = k then [s] else [])"
    using Some by (simp add: samples_of_def r split: option.split)
  have one: "recorded k S ?xs (w, st, b) (w1, st1, b1) \<and> sb_es b1 k = es_after i (sb_es b k) ?ss"
  proof (cases smp)
    case None
    then show ?thesis using f1 assms(3) by (auto simp: ss recorded_same)
  next
    case (Some s)
    then show ?thesis
      using f1 onSample_other [of k' k S b w st e cfg info now s] onSample_recorded [of e k info i S b s w st cfg now, OF assms] assms(3)
      by (cases "k' = k") (simp_all add: ss del: rows_of.simps(2) es_after_simps(2))
  qed
  then have "kept_from k (S \<union> set ?xs) b1" by (simp add: recorded_def)
  note two = onState_recorded [OF this]
  show ?thesis using Some f1 one two recorded_trans [OF conjunct1 [OF one] conjunct1 [OF two]] by (simp add: feed_frame_def r)
qed

lemma keepalive_recorded:
  assumes "kept_from k S b"
  shows "recorded k S [] (w, st, b) (keepalive e cfg now (w, st, b)) \<and> sb_es (snd (snd (keepalive e cfg now (w, st, b)))) k = sb_es b k"
proof -
  let ?f = "keepalive e cfg now (w, st, b)"
  let ?rows = "map (live_row now) (filter (stale e now) (sb_ka b))"
  obtain w1 where kv: "keep_values e now (sb_ka b) (w, st) = (map (\<lambda>x. if stale e now x then (fst x, now, snd (snd x)) else x) (sb_ka b),
     w1, st\<lparr>st_ref := st_ref st @ ?rows\<rparr>)"
    using keep_values_exact [of e now "sb_ka b" "(w, st)"] by auto
  have ka: "sb_ka (snd (snd ?f)) = map (\<lambda>x. if stale e now x then (fst x, now, snd (snd x)) else x) (sb_ka b)"
    and ref: "st_ref (fst (snd ?f)) = st_ref st @ ?rows" and es: "sb_es (snd (snd ?f)) = sb_es b"
    using kv by (simp_all add: keepalive_def Let_def InsertHVACSample_def)
  have "kept_from k S (snd (snd ?f))" unfolding kept_from_def
  proof (intro allI impI)
    fix t p assume "(k, t, p) \<in> set (sb_ka (snd (snd ?f)))"
    then obtain t0 where "(k, t0, p) \<in> set (sb_ka b)" "t0 \<le> t"
      by (auto simp: ka stale_def split: if_splits)
    then show "\<exists>s \<in> S. rs_entity s = k \<and> rs_power s = p \<and> rs_ts s \<le> t"
      using assms by (fastforce simp: kept_from_def)
  qed
  moreover have "\<forall>r \<in> set (of_entity k ?rows). repeats S r"
  proof
    fix r assume "r \<in> set (of_entity k ?rows)"
    then obtain t p where x: "(k, t, p) \<in> set (sb_ka b)" "5 * minute \<le> now - t" "r = live_row now (k, t, p)"
      by (auto simp: stale_def live_row_def)
    moreover from x(1) obtain s where "s \<in> S" "rs_entity s = k" "rs_power s = p" "rs_ts s \<le> t"
      using assms by (auto simp: kept_from_def)
    ultimately show "repeats S r" by (auto simp: repeats_def live_row_def intro!: bexI [of _ s])
  qed
  ultimately show ?thesis using ref es unfolding recorded_def by (intro conjI exI [of _ ?rows]) simp_all
qed

lemma feed_recorded:
  assumes "fe_insert e k" "info k = Some i"
  shows "kept_from k S (snd (snd f)) \<Longrightarrow>
    recorded k S (rows_of k i (sb_es (snd (snd f)) k) (concat (map (samples_of k) xs))) f (fold (feed_event e cfg info) xs f)"
proof (induction xs arbitrary: f S)
  case Nil
  then show ?case using recorded_same [of "fst (snd f)" "fst (snd f)" "snd (snd f)" "snd (snd f)" k S "fst f" "fst f"] by simp
next
  case (Cons x xs)
  obtain w st b where f: "f = (w, st, b)" by (cases f)
  obtain ev now where x: "x = (ev, now)" by (cases x)
  have one: "recorded k S (rows_of k i (sb_es b k) (samples_of k x)) f (feed_event e cfg info x f)"
    "sb_es (snd (snd (feed_event e cfg info x f))) k = es_after i (sb_es b k) (samples_of k x)"
    using Cons.prems frame_recorded [of e k info, OF assms, of S b _ now w st cfg] keepalive_recorded [of k S b w st e cfg now]
    by (cases ev; simp add: f x feed_event_def; simp add: samples_of_def)+
  then have "kept_from k (S \<union> set (rows_of k i (sb_es b k) (samples_of k x))) (snd (snd (feed_event e cfg info x f)))" by (simp add: recorded_def)
  from recorded_trans [OF one(1) Cons.IH [OF this]] show ?case by (simp add: f one(2) [unfolded f] rows_of_append)
qed

lemma rows_of_power: "ei_kind i = ''power'' \<Longrightarrow> rows_of k i es ss =
    map (\<lambda>s. \<lparr>rs_ts = sm_TS s, rs_entity = k, rs_power = sm_Power s * ei_factor i, rs_src = Live\<rparr>) ss"
  by (induction ss arbitrary: es) (simp_all add: normalize_sample_def)

text \<open>The events of the stream that reach the callbacks in a turn.\<close>

definition turn_events :: "live_input \<Rightarrow> (feed_event \<times> instant) list" where
  "turn_events x = taken (li_start x + wsIdleTimeout) (li_events x)"


section \<open>A turn\<close>

definition one_sensor :: Config where
  "one_sensor = (FromMap (\<lambda>_. []) Map.empty)\<lparr>HAURL := ''http://ha'', HAToken := ''t'', MonitoredEntities := [''sensor.a''], HVACEntityID := []\<rparr>"

definition load_frame :: string where
  "load_frame = enc (trigger_frame ''sensor.a'' ''250'' (format_rfc3339 0) [])"

definition one_frame :: live_input where
  "one_frame = \<lparr>li_now = 0, li_sensors = Some [\<lparr>en_EntityID = ''sensor.a'', en_Name = [], en_State = [], en_Unit = ''W'', en_Kind = ''power''\<rparr>],
     li_reason = [], li_climates = None, li_handshake = ok_handshake, li_subscribed = True, li_start = 0,
     li_events = [(minute, OnLink (Arrives load_frame minute)), (6 * minute, KeepTick), (9 * minute, KeepTick)], li_end = 9 * minute, li_shutdown = False\<rparr>"

lemma load_frame_sample: "\<exists>ev. stream_frame t load_frame = Some (''sensor.a'', Some \<lparr>sm_TS = 0, sm_Power = 250\<rparr>, ev)"
proof -
  have "printable 0" by code_simp
  then have ts: "parse_rfc3339 (format_rfc3339 0) = Some 0" by (simp add: parse_format_rfc3339)
  have "parse_float ''250'' = Some 250" by code_simp
  moreover have "parse_json load_frame = Some (trigger_frame ''sensor.a'' ''250'' (format_rfc3339 0) [])"
    unfolding load_frame_def by (intro parse_enc) (simp add: trigger_frame_def)
  ultimately show ?thesis by (simp add: stream_frame_def dec_trigger_frame [OF ts] Let_def zero_time_def)
qed

lemma one_frame_samples: "concat (map (samples_of ''sensor.a'') (turn_events one_frame)) = [\<lparr>sm_TS = 0, sm_Power = 250\<rparr>]"
proof -
  obtain ev where "stream_frame minute load_frame = Some (''sensor.a'', Some \<lparr>sm_TS = 0, sm_Power = 250\<rparr>, ev)"
    using load_frame_sample by blast
  then show ?thesis by (simp add: turn_events_def one_frame_def wsIdleTimeout_def samples_of_def)
qed


end
