(* ===== verification/Spec2Isabelle.thy ===== *)
theory Spec2Isabelle
  imports Prelude Json Clock Ert Config Codec Stats Confidence Counter Daily Correlate Utility Store Gate Capture Agentwire Agents
    Home Hvac Mqtt Events Queries Detector Worker Feed Reference Backfill Calendar Usage Energy Consumption Identify Requests Api Dashboard Export Schema
    Dongles Link Pairing Pipeline
begin

text \<open>
  winnow finds the utility meter of a home among the neighbours' meters. Radio dongles decode the
  counters every meter in range broadcasts; a ranking compares them with the power Home Assistant
  measures; the confirmed meter is published over MQTT and shown in a dashboard. Three Go services
  share one PostgreSQL/TimescaleDB database and its notifications: \<open>cmd/capture\<close> (dongles to
  readings), \<open>cmd/worker\<close> (Home Assistant to reference samples, readings to MQTT) and \<open>cmd/api\<close>
  (the dashboard, and the end point of remote capture agents). \<open>internal/*\<close> holds what they share.

  How they interact. Capture and the agent sessions of the API insert readings; \<open>InsertReading\<close>
  keeps the registries of meters and notifies \<open>winnow_readings\<close>. The API broadcasts notifications
  to browsers, the worker dispatches them to its hub. Settings are rows; a write notifies
  \<open>winnow_config\<close>, on which capture reconciles its supervisors, the API pushes agent configuration
  and the worker reloads. The worker stores reference and climate samples, which the physics
  screen, the ranking and the charts read beside the aggregates of the readings. Every service
  and every statement meets in the record \<open>store\<close> of theory Store, so that a theorem of one
  component is about the state the next one reads.

  Theories, in the order of their imports, with the code they model.
  \<^item> Prelude: instants and durations in nanoseconds with Go's saturating \<open>Sub\<close>, rounding, byte
    strings with the functions of \<open>strings\<close> and \<open>strconv\<close>. Json: the decoder of \<open>encoding/json\<close>
    (values, raw numbers, the matching of field names). Codec: its encoder and base64. Clock: UTC dates, RFC 3339.
  \<^item> Ert: \<open>internal/ert/ert.go\<close>, \<open>internal/model/model.go\<close>, the lines of \<open>cmd/capture/mock.go\<close>.
  \<^item> Config: \<open>internal/config/config.go\<close> and the setting helpers of \<open>internal/db/helpers.go\<close>.
  \<^item> Stats, Confidence, Counter, Daily, Correlate, Utility: the computations of \<open>internal/db\<close> after
    the rows of their queries (\<open>confidence.go\<close>, \<open>daily.go\<close>, \<open>correlate.go\<close>, \<open>utility.go\<close>, the delta
    ladder of \<open>helpers.go\<close>).
  \<^item> Store: the tables and every statement that writes them (\<open>db.go\<close>, \<open>meters.go\<close>, \<open>windows.go\<close>,
    \<open>overview.go\<close>, \<open>admin.go\<close>, \<open>reference.go\<close>, \<open>hvac.go\<close>). Schema: the start of a service on an
    existing database (\<open>schema.go\<close>). Queries: the reads of the worker and the handlers.
  \<^item> Gate, Capture, Dongles: \<open>cmd/capture/main.go\<close>, \<open>devices.go\<close>, \<open>mock.go\<close>: the USB gate as an
    interleaving step relation, enumeration of dongles, supervisors, ingest, synthetic data.
  \<^item> Agentwire, Agents: \<open>internal/agentwire\<close>, \<open>cmd/capture/agent.go\<close>, \<open>cmd/api/agent.go\<close>: keys,
    handshake, sessions, approval, the agent loop and what the server does with its messages.
    Pairing: how an agent and the server meet: the key fetch, the pin, the connection handler and the card.
  \<^item> Home, Link: \<open>internal/ha\<close>: what the client makes of the answers; its requests, the handshake of the
    socket and the stream with heartbeat and read deadline. Hvac, Mqtt: \<open>cmd/worker/hvac.go\<close>, \<open>internal/mqtt\<close>.
  \<^item> Events: \<open>cmd/api/broker.go\<close> and \<open>listenLoop\<close>. Detector, Worker, Feed, Backfill: \<open>cmd/worker/main.go\<close>
    (automatic test windows; the hub; the live subscription; the scheduled backfills). Pipeline: one turn of
    \<open>haLoop\<close> from the plan to the report of its end, over the socket of Link and the callbacks of Feed.
  \<^item> Reference, Calendar, Usage, Energy, Consumption, Identify: the same queries of \<open>internal/db\<close> on
    the tables (\<open>reference.go\<close>, \<open>series.go\<close>, \<open>analytics.go\<close>, \<open>consumption.go\<close>, \<open>correlate.go\<close>, \<open>daily.go\<close>).
  \<^item> Requests, Api, Dashboard, Export: \<open>cmd/api/handlers.go\<close>: the handlers that write, what they
    cannot do, the handlers that read, and the CSV export.

  Correspondence. Definitions carry the names of the functions they translate; a struct is a
  record, an SQL statement a function on the lists and maps of \<open>store\<close> with a Boolean for its
  success, so that the error path of every statement is a branch. A handler returns its reply
  with the store after it. A loop over a channel is a function of the list of what it receives;
  the interleavings of the USB gate are an inductive relation. Interfaces are locales: the
  storage target of ingest (Capture, interpreted on the database and on the agent session),
  and a table with rebuilt spans (Store, interpreted on the reference and on the climate samples).

  What the lemmas show. Decoding, printing and reading back are inverse (lines, settings, agents,
  device settings, events, CSV). The registries refine the stored readings, also across a
  start on an old database. A remote dongle leaves what a local one leaves. Only the deletions
  that say so remove readings; refused requests change nothing; closed tests stay closed. The delta
  ladder, the page of a period, the spreading of a bill and the reconstructed hours conserve
  what was counted. The screen, the confidence and the standings respect their bounds and
  order, and a meter that follows the monitored energy gets its factor exactly. Charts,
  alerts and climate samples come from stored or asserted data; the reference table holds what the
  live sensors reported. The gate excludes and never
  starves, the handshake accepts authorized peers only, what is approved is what was shown, the
  token goes only to who asks for it, a dead link ends its stream, backfills terminate. Where the code
  departs from its intention a lemma shows the departure (\<open>worker_misses_readings\<close>,
  \<open>enrichLag_panics_iff\<close>, \<open>revoke_misses_other_text\<close>, \<open>put_device_after_failed_read\<close> and others).

  Bounds and fuel. The JSON decoder runs with fuel twice the length of the text plus two, which no
  nesting exceeds; decimal literals are compared with the smallest double at 1074 places.
  Integers of Go are \<open>int\<close> with the ranges their parsers check; the backoff of the gate is
  computed on 64-bit words. Loops that need not end return an option, with theorems that they do.

  Idealizations. \<open>float64\<close> is the type \<open>real\<close>, without rounding, infinities and NaN; an instant is an
  unbounded integer. Go iterates maps in an unspecified order: where it matters the order is an argument.

  Parameters, with their documented behaviour as hypotheses where a theorem needs it: NaCl boxes and
  hashes, the MQTT client, the zone database, \<open>math.Erfinv\<close>, what Home Assistant answers, what the clock,
  the random generator and the receivers' processes deliver, the sizes the database engine reports.

  Not modelled: the \<open>main\<close> functions, flags and environment, HTTP and TLS listeners and
  certificate generation (pure wiring and I/O); the DDL beyond its success; goroutine scheduling and pauses
  outside the gate; the text of error messages and of replies that are only rendered;
  the React frontend, images, scripts, tools and tests.
\<close>

end
